(* ===== verification/Prelude.thy ===== *)
theory Prelude
  imports Main "HOL-Library.AList" "HOL-Library.Multiset"
begin

text \<open>
  What every component shares: the outcome of a program step and the sequencing of steps over
  an explicit state, the predicates \<open>runs\<close> and \<open>keeps\<close> on runs with their rules, decimal numbers as
  C strings, and a few facts on association lists.

  A C++ member function is a program: a function of the state that ends in one of three ways.
  It returns a value (\<open>Done\<close>), it throws (\<open>Throw\<close>, and the effects it had before the throw stay;
  \<open>ProcessExit\<close>, the end by \<open>_exit\<close>, and \<open>Waiting\<close>, where a client still waits when the events we look at
  end, are no C++ exceptions but end a program the same way, and nothing catches them),
  or it gets into a situation the code does not survive (\<open>Stuck\<close>): it waits for a pool
  connection nobody will give back, locks a mutex it holds, loops forever, writes past a fixed
  buffer, sends SQL text that is not the statement the code meant, dereferences an end iterator, follows a pointer to an object that is gone, or
  fails an \<open>assert\<close>.
\<close>

datatype exn = TypeError | ParseError | OutOfRange | ProcessExit | Waiting

datatype stuck = PoolEmpty | AssertFailed | SelfDeadlock | SqlOverrun | SqlInjected | BadIterator | Diverges | Dangling

datatype ('s, 'a) outcome = Done 'a 's | Throw exn 's | Stuck stuck

type_synonym ('s, 'a) prog = "'s \<Rightarrow> ('s, 'a) outcome"

definition ret :: "'a \<Rightarrow> ('s, 'a) prog" where
  "ret x s = Done x s"

definition bnd :: "('s, 'a) prog \<Rightarrow> ('a \<Rightarrow> ('s, 'b) prog) \<Rightarrow> ('s, 'b) prog" where
  "bnd m f s = (case m s of Done x s' \<Rightarrow> f x s' | Throw e s' \<Rightarrow> Throw e s' | Stuck b \<Rightarrow> Stuck b)"

definition andthen :: "('s, 'a) prog \<Rightarrow> ('s, 'b) prog \<Rightarrow> ('s, 'b) prog" where
  "andthen m k = bnd m (\<lambda>_. k)"

definition reads :: "('s \<Rightarrow> 'a) \<Rightarrow> ('s, 'a) prog" where
  "reads f s = Done (f s) s"

definition modify :: "('s \<Rightarrow> 's) \<Rightarrow> ('s, unit) prog" where
  "modify f s = Done () (f s)"

definition raise :: "exn \<Rightarrow> ('s, 'a) prog" where
  "raise e s = Throw e s"

definition halt :: "stuck \<Rightarrow> ('s, 'a) prog" where
  "halt b s = Stuck b"

definition lift_option :: "exn \<Rightarrow> 'a option \<Rightarrow> ('s, 'a) prog" where
  "lift_option e x = (case x of None \<Rightarrow> raise e | Some v \<Rightarrow> ret v)"

text \<open>A range-based \<open>for\<close> loop over a vector.\<close>

fun for_each :: "('a \<Rightarrow> ('s, unit) prog) \<Rightarrow> 'a list \<Rightarrow> ('s, unit) prog" where
  "for_each f [] = ret ()"
| "for_each f (x # xs) = andthen (f x) (for_each f xs)"

lemmas prog_defs = ret_def bnd_def andthen_def reads_def modify_def raise_def halt_def

named_theorems run \<open>equations that run a program from a given state\<close>

lemma ret_apply [simp, run]: "ret x s = Done x s"
  and reads_apply [simp, run]: "reads f s = Done (f s) s"
  and modify_apply [simp, run]: "modify g s = Done () (g s)"
  and raise_apply [simp, run]: "raise e s = Throw e s"
  and halt_apply [simp, run]: "halt b s = Stuck b"
  by (simp_all add: prog_defs)

lemma bnd_apply [run]:
  "bnd m f s = (case m s of Done x s' \<Rightarrow> f x s' | Throw e s' \<Rightarrow> Throw e s' | Stuck b \<Rightarrow> Stuck b)"
  by (simp add: bnd_def)

lemma andthen_apply [run]: "andthen m k s = bnd m (\<lambda>_. k) s"
  by (simp add: andthen_def)

lemma lift_option_simps [simp, run]:
  "lift_option e None = raise e"
  "lift_option e (Some v) = ret v"
  by (simp_all add: lift_option_def)

lemma bnd_ret: "bnd (ret x) f = f x"
  by (simp add: bnd_def fun_eq_iff)

lemma bnd_eq_Done_iff: "bnd m f s = Done y t \<longleftrightarrow> (\<exists>x s'. m s = Done x s' \<and> f x s' = Done y t)"
  by (auto simp: bnd_def split: outcome.splits)

section \<open>What a run of a program ends in\<close>

text \<open>
  \<open>runs m s Q X B\<close>: from \<open>s\<close>, if \<open>m\<close> returns then in \<open>Q\<close> of its value and state, if it throws
  then in \<open>X\<close>, and if it gets stuck then for a reason in \<open>B\<close>.  The rules in \<open>wp\<close> take a program
  apart from the front.  \<open>keeps P m\<close>: a run from a state with \<open>P\<close> that is not stuck ends in one.
\<close>

definition runs ::
    "('s, 'a) prog \<Rightarrow> 's \<Rightarrow> ('a \<Rightarrow> 's \<Rightarrow> bool) \<Rightarrow> (exn \<Rightarrow> 's \<Rightarrow> bool) \<Rightarrow> (stuck \<Rightarrow> bool) \<Rightarrow> bool" where
  "runs m s Q X B = (case m s of Done x s' \<Rightarrow> Q x s' | Throw e s' \<Rightarrow> X e s' | Stuck b \<Rightarrow> B b)"

definition keeps :: "('s \<Rightarrow> bool) \<Rightarrow> ('s, 'a) prog \<Rightarrow> bool" where
  "keeps P m \<longleftrightarrow> (\<forall>s. P s \<longrightarrow> runs m s (\<lambda>_. P) (\<lambda>_. P) (\<lambda>_. True))"

named_theorems wp \<open>rules that take a program apart from the front\<close>
named_theorems keeps_rules \<open>rules that show that a program keeps a property of the state\<close>

lemma runs_Done: "runs m s Q X B \<Longrightarrow> m s = Done x s' \<Longrightarrow> Q x s'"
  and runs_Throw: "runs m s Q X B \<Longrightarrow> m s = Throw e s' \<Longrightarrow> X e s'"
  and runs_Stuck: "runs m s Q X B \<Longrightarrow> m s = Stuck b \<Longrightarrow> B b"
  by (simp_all add: runs_def)

lemma runs_mono:
  assumes "runs m s Q X B"
    and "\<And>x s'. Q x s' \<Longrightarrow> Q' x s'" and "\<And>e s'. X e s' \<Longrightarrow> X' e s'" and "\<And>b. B b \<Longrightarrow> B' b"
  shows "runs m s Q' X' B'"
  using assms by (cases "m s") (simp_all add: runs_def)

lemma runs_returns: "runs m s Q (\<lambda>_ _. False) (\<lambda>_. False) \<longleftrightarrow> (\<exists>x s'. m s = Done x s' \<and> Q x s')"
  by (cases "m s") (auto simp: runs_def)

lemma runs_conj: "runs m s Q X B \<Longrightarrow> runs m s Q' X' B' \<Longrightarrow>
    runs m s (\<lambda>x t. Q x t \<and> Q' x t) (\<lambda>e t. X e t \<and> X' e t) (\<lambda>b. B b \<and> B' b)"
  by (cases "m s") (simp_all add: runs_def)

lemma runs_ret [wp]: "Q x s \<Longrightarrow> runs (ret x) s Q X B"
  and runs_reads [wp]: "Q (f s) s \<Longrightarrow> runs (reads f) s Q X B"
  and runs_raise [wp]: "X e s \<Longrightarrow> runs (raise e) s Q X B"
  and runs_halt [wp]: "B b \<Longrightarrow> runs (halt b) s Q X B"
  by (simp_all add: runs_def)

lemma runs_ret_iff [simp]: "runs (ret x) s Q X B \<longleftrightarrow> Q x s"
  and runs_reads_iff [simp]: "runs (reads f) s Q X B \<longleftrightarrow> Q (f s) s"
  and runs_raise_iff [simp]: "runs (raise e) s Q X B \<longleftrightarrow> X e s"
  and runs_halt_iff [simp]: "runs (halt b) s Q X B \<longleftrightarrow> B b"
  by (simp_all add: runs_def)

lemma runs_modify [wp]: "Q () (g s) \<Longrightarrow> runs (modify g) s Q X B"
  by (simp add: runs_def)

lemma runs_modify_iff [simp]: "runs (modify g) s Q X B \<longleftrightarrow> Q () (g s)"
  by (simp add: runs_def)

lemma runs_bnd [wp]: "runs m s (\<lambda>x s'. runs (f x) s' Q X B) X B \<Longrightarrow> runs (bnd m f) s Q X B"
  by (cases "m s") (simp_all add: runs_def bnd_apply)

lemma runs_andthen [wp]: "runs m s (\<lambda>x s'. runs k s' Q X B) X B \<Longrightarrow> runs (andthen m k) s Q X B"
  by (simp add: andthen_def runs_bnd)

lemma runs_if [wp]:
  "(b \<Longrightarrow> runs m s Q X B) \<Longrightarrow> (\<not> b \<Longrightarrow> runs k s Q X B) \<Longrightarrow> runs (if b then m else k) s Q X B"
  by simp

lemma runs_case_option [wp]:
  "(v = None \<Longrightarrow> runs m s Q X B) \<Longrightarrow> (\<And>x. v = Some x \<Longrightarrow> runs (k x) s Q X B) \<Longrightarrow>
    runs (case v of None \<Rightarrow> m | Some x \<Rightarrow> k x) s Q X B"
  by (cases v) simp_all

lemma runs_lift_option [wp]:
  "(v = None \<Longrightarrow> X e s) \<Longrightarrow> (\<And>x. v = Some x \<Longrightarrow> Q x s) \<Longrightarrow> runs (lift_option e v) s Q X B"
  by (cases v) (simp_all add: runs_def)

lemma runs_for_each:
  assumes "\<And>x s. x \<in> set xs \<Longrightarrow> P s \<Longrightarrow> runs (f x) s (\<lambda>_. P) X B" and "P s"
  shows "runs (for_each f xs) s (\<lambda>_. P) X B"
  using assms by (induction xs arbitrary: s) (auto intro!: wp intro: runs_mono)

lemma keepsI: "(\<And>s. P s \<Longrightarrow> runs m s (\<lambda>_. P) (\<lambda>_. P) (\<lambda>_. True)) \<Longrightarrow> keeps P m"
  by (simp add: keeps_def)

lemma keeps_runs: "keeps P m \<Longrightarrow> P s \<Longrightarrow> runs m s (\<lambda>_. P) (\<lambda>_. P) (\<lambda>_. True)"
  by (simp add: keeps_def)

lemma keeps_Done: "keeps P m \<Longrightarrow> P s \<Longrightarrow> m s = Done x s' \<Longrightarrow> P s'"
  and keeps_Throw: "keeps P m \<Longrightarrow> P s \<Longrightarrow> m s = Throw e s' \<Longrightarrow> P s'"
  by (auto dest: keeps_runs runs_Done runs_Throw)

lemma keeps_ret [keeps_rules]: "keeps P (ret x)"
  and keeps_reads [keeps_rules]: "keeps P (reads f)"
  and keeps_raise [keeps_rules]: "keeps P (raise e)"
  and keeps_halt [keeps_rules]: "keeps P (halt b)"
  by (simp_all add: keeps_def)

lemma keeps_modify: "(\<And>s. P s \<Longrightarrow> P (g s)) \<Longrightarrow> keeps P (modify g)"
  by (simp add: keeps_def runs_def)

lemma keeps_bnd [keeps_rules]: "keeps P m \<Longrightarrow> (\<And>x. keeps P (f x)) \<Longrightarrow> keeps P (bnd m f)"
  by (rule keepsI, rule runs_bnd, rule runs_mono, erule (1) keeps_runs) (auto dest: keeps_runs)

lemma keeps_andthen [keeps_rules]: "keeps P m \<Longrightarrow> keeps P k \<Longrightarrow> keeps P (andthen m k)"
  by (simp add: andthen_def keeps_bnd)

lemma keeps_if [keeps_rules]:
  "(b \<Longrightarrow> keeps P m) \<Longrightarrow> (\<not> b \<Longrightarrow> keeps P k) \<Longrightarrow> keeps P (if b then m else k)"
  by simp

lemma keeps_case_option [keeps_rules]:
  "keeps P m \<Longrightarrow> (\<And>x. keeps P (k x)) \<Longrightarrow> keeps P (case v of None \<Rightarrow> m | Some x \<Rightarrow> k x)"
  by (cases v) simp_all

lemma keeps_case_prod [keeps_rules]:
  "(\<And>x y. keeps P (k x y)) \<Longrightarrow> keeps P (case v of (x, y) \<Rightarrow> k x y)"
  by (cases v) simp

lemma keeps_lift_option [keeps_rules]: "keeps P (lift_option e x)"
  by (cases x) (simp_all add: keeps_ret keeps_raise)

lemma keeps_for_each [keeps_rules]: "(\<And>x. keeps P (f x)) \<Longrightarrow> keeps P (for_each f xs)"
  by (induction xs) (auto intro: keeps_rules)

section \<open>Decimal numbers\<close>

text \<open>\<open>std::to_string\<close> and \<open>%d\<close> on the way out, \<open>atoi\<close> on the way in.\<close>

fun nat_str :: "nat \<Rightarrow> string" where
  "nat_str n = (if n < 10 then [char_of (48 + n)] else nat_str (n div 10) @ [char_of (48 + n mod 10)])"

declare nat_str.simps [simp del]

definition itos :: "int \<Rightarrow> string" where
  "itos i = (if i < 0 then CHR ''-'' # nat_str (nat (- i)) else nat_str (nat i))"

definition is_digit :: "char \<Rightarrow> bool" where
  "is_digit c \<longleftrightarrow> 48 \<le> (of_char c :: nat) \<and> (of_char c :: nat) \<le> 57"

fun digits_val :: "nat \<Rightarrow> string \<Rightarrow> nat" where
  "digits_val a [] = a"
| "digits_val a (c # cs) = (if is_digit c then digits_val (10 * a + (of_char c - 48)) cs else a)"

fun atoi :: "string \<Rightarrow> int" where
  "atoi [] = 0"
| "atoi (c # cs) = (if c = CHR ''-'' then - int (digits_val 0 cs) else int (digits_val 0 (c # cs)))"

lemma of_char_digit: "d < 10 \<Longrightarrow> (of_char (char_of (48 + d :: nat) :: char) :: nat) = 48 + d"
  by simp

lemma is_digit_char: "d < 10 \<Longrightarrow> is_digit (char_of (48 + d :: nat))"
  by (simp add: is_digit_def)

lemma nat_str_digits: "c \<in> set (nat_str n) \<Longrightarrow> is_digit c"
proof (induction n rule: nat_str.induct)
  case (1 n)
  then show ?case
    by (subst (asm) nat_str.simps) (auto simp: is_digit_char split: if_splits)
qed

lemma nat_str_nonempty [simp]: "nat_str n \<noteq> []"
  by (subst nat_str.simps) simp

lemma digits_val_append: "\<forall>c \<in> set cs. is_digit c \<Longrightarrow>
    digits_val a (cs @ ds) = digits_val (digits_val a cs) ds"
  by (induction cs arbitrary: a) auto

lemma digits_val_nat_str: "digits_val 0 (nat_str n) = n"
proof (induction n rule: nat_str.induct)
  case (1 n)
  show ?case
  proof (cases "n < 10")
    case True
    then show ?thesis by (subst nat_str.simps) (simp add: is_digit_char)
  next
    case False
    with 1 show ?thesis
      by (subst nat_str.simps)
        (simp add: digits_val_append nat_str_digits is_digit_char)
  qed
qed

lemma minus_not_digit: "\<not> is_digit (CHR ''-'')"
  by (simp add: is_digit_def)

lemma atoi_nat_str: "atoi (nat_str n) = int n"
proof -
  obtain c cs where c: "nat_str n = c # cs" by (cases "nat_str n") auto
  then have "is_digit c" using nat_str_digits[of c n] by simp
  then have "c \<noteq> CHR ''-''" using minus_not_digit by auto
  then show ?thesis using c digits_val_nat_str[of n] by simp
qed

lemma atoi_itos [simp]: "atoi (itos i) = i"
  by (simp add: itos_def atoi_nat_str digits_val_nat_str)

lemma itos_inject [simp]: "itos i = itos j \<longleftrightarrow> i = j"
  by (metis atoi_itos)

section \<open>C strings\<close>

text \<open>\<open>s.c_str()\<close> read as a C string ends at the first NUL.\<close>

definition c_str :: "string \<Rightarrow> string" where
  "c_str s = takeWhile (\<lambda>c. c \<noteq> CHR 0x00) s"

lemma c_str_id: "CHR 0x00 \<notin> set s \<Longrightarrow> c_str s = s"
  by (auto simp: c_str_def takeWhile_eq_all_conv)

section \<open>Association lists\<close>

lemma map_of_update [simp]: "map_of (AList.update k v al) = (map_of al)(k \<mapsto> v)"
  by (rule update_conv')

lemma map_of_delete [simp]: "map_of (AList.delete k al) = (map_of al)(k := None)"
  by (rule delete_conv')

end
