(* ===== verification/Message_Types.thy ===== *)
theory Message_Types
  imports Main
begin

text \<open>
  The message identifiers of the wire protocol: the C enum \<open>EnMsgType\<close> of
  \<open>project/public.h\<close>.  A C enumerator is an \<open>int\<close> constant numbered from 0 in the order of
  declaration, and it is this number that travels as \<open>msgid\<close>, so each enumerator is an
  abbreviation of its number; \<open>EnMsgType\<close> is the declaration itself, the list of the names
  with their values.
\<close>

abbreviation (input) NEED_ENTER :: int where "NEED_ENTER \<equiv> 0"
abbreviation (input) REG_MSG :: int where "REG_MSG \<equiv> 1"
abbreviation (input) REG_SUCCESS :: int where "REG_SUCCESS \<equiv> 2"
abbreviation (input) REG_FAIL :: int where "REG_FAIL \<equiv> 3"
abbreviation (input) LOGIN_MSG :: int where "LOGIN_MSG \<equiv> 4"
abbreviation (input) LOGIN_SUCCESS :: int where "LOGIN_SUCCESS \<equiv> 5"
abbreviation (input) LOGIN_REPEAT :: int where "LOGIN_REPEAT \<equiv> 6"
abbreviation (input) LOGIN_FAIL :: int where "LOGIN_FAIL \<equiv> 7"
abbreviation (input) FRIEND_ONLINE :: int where "FRIEND_ONLINE \<equiv> 8"
abbreviation (input) ENTER_CHATROOM :: int where "ENTER_CHATROOM \<equiv> 9"
abbreviation (input) DISPLAY_ALLUSER_LIST :: int where "DISPLAY_ALLUSER_LIST \<equiv> 10"
abbreviation (input) ADD_FRIEND :: int where "ADD_FRIEND \<equiv> 11"
abbreviation (input) ADD_FRIEND_SUCCESS :: int where "ADD_FRIEND_SUCCESS \<equiv> 12"
abbreviation (input) ADD_FRIEND_REQUEST :: int where "ADD_FRIEND_REQUEST \<equiv> 13"
abbreviation (input) TO_ADD_FRIEND_REQUEST :: int where "TO_ADD_FRIEND_REQUEST \<equiv> 14"
abbreviation (input) THE_OTHER_AGREE_FRIEND_REQUEST :: int where "THE_OTHER_AGREE_FRIEND_REQUEST \<equiv> 15"
abbreviation (input) UPDATE_FRIEND_LIST :: int where "UPDATE_FRIEND_LIST \<equiv> 16"
abbreviation (input) DELETE_FRIEND :: int where "DELETE_FRIEND \<equiv> 17"
abbreviation (input) DELETED_FRIEND_SUCCESS :: int where "DELETED_FRIEND_SUCCESS \<equiv> 18"
abbreviation (input) DELETE_FRIEND_SUCCESS :: int where "DELETE_FRIEND_SUCCESS \<equiv> 19"
abbreviation (input) DELETE_FRIEND_FAIL :: int where "DELETE_FRIEND_FAIL \<equiv> 20"
abbreviation (input) BLOCK_FRIEND :: int where "BLOCK_FRIEND \<equiv> 21"
abbreviation (input) BLOCK_FRIEND_SUCCESS :: int where "BLOCK_FRIEND_SUCCESS \<equiv> 22"
abbreviation (input) UNBLOCK_FRIEND_SUCCESS :: int where "UNBLOCK_FRIEND_SUCCESS \<equiv> 23"
abbreviation (input) BLOCK_FRIEND_FAIL :: int where "BLOCK_FRIEND_FAIL \<equiv> 24"
abbreviation (input) UNBLOCK_FRIEND :: int where "UNBLOCK_FRIEND \<equiv> 25"
abbreviation (input) UNBLOCK_FRIEND_FAIL :: int where "UNBLOCK_FRIEND_FAIL \<equiv> 26"
abbreviation (input) DISPLAY_FRIEND_LIST :: int where "DISPLAY_FRIEND_LIST \<equiv> 27"
abbreviation (input) FRIEND_REQUEST_LIST :: int where "FRIEND_REQUEST_LIST \<equiv> 28"
abbreviation (input) BLOCK_FRIEND_LIST :: int where "BLOCK_FRIEND_LIST \<equiv> 29"
abbreviation (input) CHECK_BLOCK :: int where "CHECK_BLOCK \<equiv> 30"
abbreviation (input) PRIVATE_CHAT :: int where "PRIVATE_CHAT \<equiv> 31"
abbreviation (input) CREATE_GROUP :: int where "CREATE_GROUP \<equiv> 32"
abbreviation (input) CREATE_GROUP_SUCCESS :: int where "CREATE_GROUP_SUCCESS \<equiv> 33"
abbreviation (input) CREATE_GROUP_FAIL :: int where "CREATE_GROUP_FAIL \<equiv> 34"
abbreviation (input) DISPLAY_ALLGROUP_LIST :: int where "DISPLAY_ALLGROUP_LIST \<equiv> 35"
abbreviation (input) REQUEST_GROUP :: int where "REQUEST_GROUP \<equiv> 36"
abbreviation (input) GROUP_REQUEST :: int where "GROUP_REQUEST \<equiv> 37"
abbreviation (input) REQUEST_GROUP_SUCCESS :: int where "REQUEST_GROUP_SUCCESS \<equiv> 38"
abbreviation (input) REQUEST_GROUP_FAIL :: int where "REQUEST_GROUP_FAIL \<equiv> 39"
abbreviation (input) GROUP_REQUEST_LIST :: int where "GROUP_REQUEST_LIST \<equiv> 40"
abbreviation (input) DISPLAY_GROUP_REQUEST :: int where "DISPLAY_GROUP_REQUEST \<equiv> 41"
abbreviation (input) ADD_GROUP :: int where "ADD_GROUP \<equiv> 42"
abbreviation (input) DISPLAY_GROUP_REQUEST_FAIL :: int where "DISPLAY_GROUP_REQUEST_FAIL \<equiv> 43"
abbreviation (input) ADD_GROUP_FAIL :: int where "ADD_GROUP_FAIL \<equiv> 44"
abbreviation (input) ADD_GROUP_SUCCESS :: int where "ADD_GROUP_SUCCESS \<equiv> 45"
abbreviation (input) GROUP_REQUEST_ACCEPTED :: int where "GROUP_REQUEST_ACCEPTED \<equiv> 46"
abbreviation (input) QUIT_GROUP :: int where "QUIT_GROUP \<equiv> 47"
abbreviation (input) QUIT_GROUP_FAIL :: int where "QUIT_GROUP_FAIL \<equiv> 48"
abbreviation (input) QUIT_GROUP_SUCCESS :: int where "QUIT_GROUP_SUCCESS \<equiv> 49"
abbreviation (input) DISPLAY_OWN_GROUP_LIST :: int where "DISPLAY_OWN_GROUP_LIST \<equiv> 50"
abbreviation (input) DISPLAY_GROUP_MEMBER_LIST :: int where "DISPLAY_GROUP_MEMBER_LIST \<equiv> 51"
abbreviation (input) DISPLAY_GROUP_MEMBER_FAIL :: int where "DISPLAY_GROUP_MEMBER_FAIL \<equiv> 52"
abbreviation (input) DISPLAY_GROUP_SET_MANAGER_MEMBER_LIST :: int where "DISPLAY_GROUP_SET_MANAGER_MEMBER_LIST \<equiv> 53"
abbreviation (input) DISPLAY_SET_MANAGER_MEMBER_FAIL :: int where "DISPLAY_SET_MANAGER_MEMBER_FAIL \<equiv> 54"
abbreviation (input) DISPLAY_SET_MANAGER_MEMBER_LIST :: int where "DISPLAY_SET_MANAGER_MEMBER_LIST \<equiv> 55"
abbreviation (input) SET_MANAGER :: int where "SET_MANAGER \<equiv> 56"
abbreviation (input) SET_MANAGER_SUCCESS :: int where "SET_MANAGER_SUCCESS \<equiv> 57"
abbreviation (input) SET_MANAGER_FAIL :: int where "SET_MANAGER_FAIL \<equiv> 58"
abbreviation (input) CANCEL_MANAGER :: int where "CANCEL_MANAGER \<equiv> 59"
abbreviation (input) CANCEL_MANAGER_FAIL :: int where "CANCEL_MANAGER_FAIL \<equiv> 60"
abbreviation (input) CANCEL_MANAGER_SUCCESS :: int where "CANCEL_MANAGER_SUCCESS \<equiv> 61"
abbreviation (input) KICK_SOMEONE :: int where "KICK_SOMEONE \<equiv> 62"
abbreviation (input) KICK_SOMEONE_FAIL :: int where "KICK_SOMEONE_FAIL \<equiv> 63"
abbreviation (input) KICK_SOMEONE_SUCCESS :: int where "KICK_SOMEONE_SUCCESS \<equiv> 64"
abbreviation (input) CHECK_GROUP_MEMBER :: int where "CHECK_GROUP_MEMBER \<equiv> 65"
abbreviation (input) CHECK_IF_GROUP_MEMBER :: int where "CHECK_IF_GROUP_MEMBER \<equiv> 66"
abbreviation (input) GROUP_CHAT :: int where "GROUP_CHAT \<equiv> 67"
abbreviation (input) MASTER_DELETE_GROUP :: int where "MASTER_DELETE_GROUP \<equiv> 68"
abbreviation (input) MASTER_DELETE_GROUP_FAIL :: int where "MASTER_DELETE_GROUP_FAIL \<equiv> 69"
abbreviation (input) MASTER_DELETE_GROUP_SUCCESS :: int where "MASTER_DELETE_GROUP_SUCCESS \<equiv> 70"
abbreviation (input) SEND_FILE :: int where "SEND_FILE \<equiv> 71"
abbreviation (input) SEND_FILE_END :: int where "SEND_FILE_END \<equiv> 72"
abbreviation (input) SEND_FILE_DATABASE :: int where "SEND_FILE_DATABASE \<equiv> 73"
abbreviation (input) SEND_FILE_DATABASE_SUCCESS :: int where "SEND_FILE_DATABASE_SUCCESS \<equiv> 74"
abbreviation (input) SEND_FILE_SERVER :: int where "SEND_FILE_SERVER \<equiv> 75"
abbreviation (input) VIEW_FILE :: int where "VIEW_FILE \<equiv> 76"
abbreviation (input) RECEIVE_FILE :: int where "RECEIVE_FILE \<equiv> 77"
abbreviation (input) RECEIVE_FILE_FINISH :: int where "RECEIVE_FILE_FINISH \<equiv> 78"
abbreviation (input) PRIVATE_CHAT_HISTORY :: int where "PRIVATE_CHAT_HISTORY \<equiv> 79"
abbreviation (input) DISPLAY_PRIVATE_HISTORY :: int where "DISPLAY_PRIVATE_HISTORY \<equiv> 80"
abbreviation (input) GROUP_CHAT_HISTORY :: int where "GROUP_CHAT_HISTORY \<equiv> 81"
abbreviation (input) DISPLAY_GROUP_HISTORY :: int where "DISPLAY_GROUP_HISTORY \<equiv> 82"
abbreviation (input) CLIENT_LONGTIME_EXIT :: int where "CLIENT_LONGTIME_EXIT \<equiv> 83"
abbreviation (input) RECEIVE_FILE_FAIL :: int where "RECEIVE_FILE_FAIL \<equiv> 84"
abbreviation (input) ALREADY_IN_GROUP :: int where "ALREADY_IN_GROUP \<equiv> 85"
abbreviation (input) SET_MANAGER_NOTICE :: int where "SET_MANAGER_NOTICE \<equiv> 86"
abbreviation (input) KICK_SOMEONE_NOT_IN_GROUP :: int where "KICK_SOMEONE_NOT_IN_GROUP \<equiv> 87"
abbreviation (input) KICK_SOMEONE_NOTICE :: int where "KICK_SOMEONE_NOTICE \<equiv> 88"

definition EnMsgType :: "(string \<times> int) list" where
  "EnMsgType =
    [(''NEED_ENTER'', NEED_ENTER),
     (''REG_MSG'', REG_MSG),
     (''REG_SUCCESS'', REG_SUCCESS),
     (''REG_FAIL'', REG_FAIL),
     (''LOGIN_MSG'', LOGIN_MSG),
     (''LOGIN_SUCCESS'', LOGIN_SUCCESS),
     (''LOGIN_REPEAT'', LOGIN_REPEAT),
     (''LOGIN_FAIL'', LOGIN_FAIL),
     (''FRIEND_ONLINE'', FRIEND_ONLINE),
     (''ENTER_CHATROOM'', ENTER_CHATROOM),
     (''DISPLAY_ALLUSER_LIST'', DISPLAY_ALLUSER_LIST),
     (''ADD_FRIEND'', ADD_FRIEND),
     (''ADD_FRIEND_SUCCESS'', ADD_FRIEND_SUCCESS),
     (''ADD_FRIEND_REQUEST'', ADD_FRIEND_REQUEST),
     (''TO_ADD_FRIEND_REQUEST'', TO_ADD_FRIEND_REQUEST),
     (''THE_OTHER_AGREE_FRIEND_REQUEST'', THE_OTHER_AGREE_FRIEND_REQUEST),
     (''UPDATE_FRIEND_LIST'', UPDATE_FRIEND_LIST),
     (''DELETE_FRIEND'', DELETE_FRIEND),
     (''DELETED_FRIEND_SUCCESS'', DELETED_FRIEND_SUCCESS),
     (''DELETE_FRIEND_SUCCESS'', DELETE_FRIEND_SUCCESS),
     (''DELETE_FRIEND_FAIL'', DELETE_FRIEND_FAIL),
     (''BLOCK_FRIEND'', BLOCK_FRIEND),
     (''BLOCK_FRIEND_SUCCESS'', BLOCK_FRIEND_SUCCESS),
     (''UNBLOCK_FRIEND_SUCCESS'', UNBLOCK_FRIEND_SUCCESS),
     (''BLOCK_FRIEND_FAIL'', BLOCK_FRIEND_FAIL),
     (''UNBLOCK_FRIEND'', UNBLOCK_FRIEND),
     (''UNBLOCK_FRIEND_FAIL'', UNBLOCK_FRIEND_FAIL),
     (''DISPLAY_FRIEND_LIST'', DISPLAY_FRIEND_LIST),
     (''FRIEND_REQUEST_LIST'', FRIEND_REQUEST_LIST),
     (''BLOCK_FRIEND_LIST'', BLOCK_FRIEND_LIST),
     (''CHECK_BLOCK'', CHECK_BLOCK),
     (''PRIVATE_CHAT'', PRIVATE_CHAT),
     (''CREATE_GROUP'', CREATE_GROUP),
     (''CREATE_GROUP_SUCCESS'', CREATE_GROUP_SUCCESS),
     (''CREATE_GROUP_FAIL'', CREATE_GROUP_FAIL),
     (''DISPLAY_ALLGROUP_LIST'', DISPLAY_ALLGROUP_LIST),
     (''REQUEST_GROUP'', REQUEST_GROUP),
     (''GROUP_REQUEST'', GROUP_REQUEST),
     (''REQUEST_GROUP_SUCCESS'', REQUEST_GROUP_SUCCESS),
     (''REQUEST_GROUP_FAIL'', REQUEST_GROUP_FAIL),
     (''GROUP_REQUEST_LIST'', GROUP_REQUEST_LIST),
     (''DISPLAY_GROUP_REQUEST'', DISPLAY_GROUP_REQUEST),
     (''ADD_GROUP'', ADD_GROUP),
     (''DISPLAY_GROUP_REQUEST_FAIL'', DISPLAY_GROUP_REQUEST_FAIL),
     (''ADD_GROUP_FAIL'', ADD_GROUP_FAIL),
     (''ADD_GROUP_SUCCESS'', ADD_GROUP_SUCCESS),
     (''GROUP_REQUEST_ACCEPTED'', GROUP_REQUEST_ACCEPTED),
     (''QUIT_GROUP'', QUIT_GROUP),
     (''QUIT_GROUP_FAIL'', QUIT_GROUP_FAIL),
     (''QUIT_GROUP_SUCCESS'', QUIT_GROUP_SUCCESS),
     (''DISPLAY_OWN_GROUP_LIST'', DISPLAY_OWN_GROUP_LIST),
     (''DISPLAY_GROUP_MEMBER_LIST'', DISPLAY_GROUP_MEMBER_LIST),
     (''DISPLAY_GROUP_MEMBER_FAIL'', DISPLAY_GROUP_MEMBER_FAIL),
     (''DISPLAY_GROUP_SET_MANAGER_MEMBER_LIST'', DISPLAY_GROUP_SET_MANAGER_MEMBER_LIST),
     (''DISPLAY_SET_MANAGER_MEMBER_FAIL'', DISPLAY_SET_MANAGER_MEMBER_FAIL),
     (''DISPLAY_SET_MANAGER_MEMBER_LIST'', DISPLAY_SET_MANAGER_MEMBER_LIST),
     (''SET_MANAGER'', SET_MANAGER),
     (''SET_MANAGER_SUCCESS'', SET_MANAGER_SUCCESS),
     (''SET_MANAGER_FAIL'', SET_MANAGER_FAIL),
     (''CANCEL_MANAGER'', CANCEL_MANAGER),
     (''CANCEL_MANAGER_FAIL'', CANCEL_MANAGER_FAIL),
     (''CANCEL_MANAGER_SUCCESS'', CANCEL_MANAGER_SUCCESS),
     (''KICK_SOMEONE'', KICK_SOMEONE),
     (''KICK_SOMEONE_FAIL'', KICK_SOMEONE_FAIL),
     (''KICK_SOMEONE_SUCCESS'', KICK_SOMEONE_SUCCESS),
     (''CHECK_GROUP_MEMBER'', CHECK_GROUP_MEMBER),
     (''CHECK_IF_GROUP_MEMBER'', CHECK_IF_GROUP_MEMBER),
     (''GROUP_CHAT'', GROUP_CHAT),
     (''MASTER_DELETE_GROUP'', MASTER_DELETE_GROUP),
     (''MASTER_DELETE_GROUP_FAIL'', MASTER_DELETE_GROUP_FAIL),
     (''MASTER_DELETE_GROUP_SUCCESS'', MASTER_DELETE_GROUP_SUCCESS),
     (''SEND_FILE'', SEND_FILE),
     (''SEND_FILE_END'', SEND_FILE_END),
     (''SEND_FILE_DATABASE'', SEND_FILE_DATABASE),
     (''SEND_FILE_DATABASE_SUCCESS'', SEND_FILE_DATABASE_SUCCESS),
     (''SEND_FILE_SERVER'', SEND_FILE_SERVER),
     (''VIEW_FILE'', VIEW_FILE),
     (''RECEIVE_FILE'', RECEIVE_FILE),
     (''RECEIVE_FILE_FINISH'', RECEIVE_FILE_FINISH),
     (''PRIVATE_CHAT_HISTORY'', PRIVATE_CHAT_HISTORY),
     (''DISPLAY_PRIVATE_HISTORY'', DISPLAY_PRIVATE_HISTORY),
     (''GROUP_CHAT_HISTORY'', GROUP_CHAT_HISTORY),
     (''DISPLAY_GROUP_HISTORY'', DISPLAY_GROUP_HISTORY),
     (''CLIENT_LONGTIME_EXIT'', CLIENT_LONGTIME_EXIT),
     (''RECEIVE_FILE_FAIL'', RECEIVE_FILE_FAIL),
     (''ALREADY_IN_GROUP'', ALREADY_IN_GROUP),
     (''SET_MANAGER_NOTICE'', SET_MANAGER_NOTICE),
     (''KICK_SOMEONE_NOT_IN_GROUP'', KICK_SOMEONE_NOT_IN_GROUP),
     (''KICK_SOMEONE_NOTICE'', KICK_SOMEONE_NOTICE)]"

text \<open>The values are consecutive from 0, so two enumerators are never confused on the wire.\<close>

lemma EnMsgType_values: "map snd EnMsgType = map int [0..<89]"
  by (simp add: EnMsgType_def upt_rec)

lemma EnMsgType_distinct: "distinct (map snd EnMsgType)"
  by (simp add: EnMsgType_values distinct_map inj_on_def)

end
