(* ===== verification/Json.thy ===== *)
theory Json
  imports Prelude Message_Types "HOL-Library.List_Lexorder" "HOL-Library.Char_ord"
begin

text \<open>
  JSON values as the code sees them.  \<open>project/json.hpp\<close> is the vendored nlohmann library; the
  code uses of it the value type, \<open>js["key"]\<close> and the conversions of a value to \<open>int\<close>,
  \<open>size_t\<close>, \<open>bool\<close> and \<open>std::string\<close>, which are modelled here, and \<open>dump\<close> and
  \<open>parse\<close>, which are parameters of the model (theory \<open>Services\<close>).  Numbers are integers: the
  protocol has no others.
\<close>

datatype json =
    JNull
  | JBool bool
  | JInt int
  | JStr string
  | JArr "json list"
  | JObj "(string \<times> json) list"

text \<open>
  \<open>js[key]\<close>: a missing key of an object, or of null, reads as null; a value of another kind
  throws a type error (\<open>None\<close>).
\<close>

fun field :: "json \<Rightarrow> string \<Rightarrow> json option" where
  "field (JObj kvs) k = (case map_of kvs k of None \<Rightarrow> Some JNull | Some v \<Rightarrow> Some v)"
| "field JNull k = Some JNull"
| "field _ k = None"

text \<open>\<open>static_cast<int>\<close> of a 64-bit number keeps the low 32 bits, read as two's complement.\<close>

definition to_int32 :: "int \<Rightarrow> int" where
  "to_int32 i = (i + 2 ^ 31) mod 2 ^ 32 - 2 ^ 31"

fun get_int :: "json \<Rightarrow> int option" where
  "get_int (JInt i) = Some (to_int32 i)"
| "get_int (JBool b) = Some (if b then 1 else 0)"
| "get_int _ = None"

fun get_string :: "json \<Rightarrow> string option" where
  "get_string (JStr s) = Some s"
| "get_string _ = None"

text \<open>\<open>get<size_t>()\<close>: the exact unsigned type, so a boolean is a type error.\<close>

fun get_size :: "json \<Rightarrow> nat option" where
  "get_size (JInt i) = Some (nat (i mod 2 ^ 64))"
| "get_size _ = None"

definition js_int :: "json \<Rightarrow> string \<Rightarrow> int option" where
  "js_int js k = Option.bind (field js k) get_int"

definition js_string :: "json \<Rightarrow> string \<Rightarrow> string option" where
  "js_string js k = Option.bind (field js k) get_string"

definition js_size :: "json \<Rightarrow> string \<Rightarrow> nat option" where
  "js_size js k = Option.bind (field js k) get_size"

text \<open>A message object: the identifier and the fields in the order the code assigns them.\<close>

definition message :: "int \<Rightarrow> (string \<times> json) list \<Rightarrow> json" where
  "message msgid kvs = JObj ((''msgid'', JInt msgid) # kvs)"

text \<open>
  \<open>std::map\<close> keeps the keys of an object sorted, so two lists of fields that differ in their
  order only are the same object: \<open>norm_json\<close> sorts them.  \<open>wf_json\<close> are the values \<open>dump\<close>
  is defined for: distinct keys and UTF-8 strings.
\<close>

fun norm_json :: "json \<Rightarrow> json" where
  "norm_json (JArr xs) = JArr (map norm_json xs)"
| "norm_json (JObj kvs) = JObj (sort_key fst (map (\<lambda>(k, v). (k, norm_json v)) kvs))"
| "norm_json j = j"

definition continuation :: "char \<Rightarrow> bool" where
  "continuation c \<longleftrightarrow> 0x80 \<le> (of_char c :: nat) \<and> (of_char c :: nat) \<le> 0xBF"

fun utf8 :: "string \<Rightarrow> bool" where
  "utf8 [] = True"
| "utf8 (c # cs) =
     (let b = (of_char c :: nat) in
      if b < 0x80 then utf8 cs
      else (case cs of [] \<Rightarrow> False | c1 # cs1 \<Rightarrow>
        if \<not> continuation c1 then False
        else if 0xC2 \<le> b \<and> b \<le> 0xDF then utf8 cs1
        else (case cs1 of [] \<Rightarrow> False | c2 # cs2 \<Rightarrow>
          if \<not> continuation c2 then False
          else if 0xE0 \<le> b \<and> b \<le> 0xEF then
            (b = 0xE0 \<longrightarrow> 0xA0 \<le> (of_char c1 :: nat)) \<and> (b = 0xED \<longrightarrow> (of_char c1 :: nat) \<le> 0x9F) \<and> utf8 cs2
          else (case cs2 of [] \<Rightarrow> False | c3 # cs3 \<Rightarrow>
            continuation c3 \<and> 0xF0 \<le> b \<and> b \<le> 0xF4 \<and> (b = 0xF0 \<longrightarrow> 0x90 \<le> (of_char c1 :: nat))
            \<and> (b = 0xF4 \<longrightarrow> (of_char c1 :: nat) \<le> 0x8F) \<and> utf8 cs3))))"

fun wf_json :: "json \<Rightarrow> bool" where
  "wf_json (JStr s) = utf8 s"
| "wf_json (JArr xs) = list_all wf_json xs"
| "wf_json (JObj kvs) =
     (distinct (map fst kvs) \<and> list_all (\<lambda>(k, v). utf8 k \<and> wf_json v) kvs)"
| "wf_json j = True"

lemma map_of_filter_key: "map_of xs k = (case filter (\<lambda>p. fst p = k) xs of [] \<Rightarrow> None | p # _ \<Rightarrow> Some (snd p))"
  by (induction xs) auto

lemma map_of_sort_key: "map_of (sort_key fst xs) k = map_of xs k"
  by (simp add: map_of_filter_key sort_key_stable)

lemma field_norm: "field (norm_json j) k = map_option norm_json (field j k)"
  by (cases j) (auto simp: map_of_sort_key map_of_map split: option.splits)

lemma get_int_norm: "get_int (norm_json j) = get_int j"
  and get_string_norm: "get_string (norm_json j) = get_string j"
  and get_size_norm: "get_size (norm_json j) = get_size j"
  by (cases j; simp)+

text \<open>The accessors cannot tell two values with the same normal form apart.\<close>

lemma js_int_norm: "js_int (norm_json j) k = js_int j k"
  and js_string_norm: "js_string (norm_json j) k = js_string j k"
  and js_size_norm: "js_size (norm_json j) k = js_size j k"
  by (cases "field j k"; simp add: js_int_def js_string_def js_size_def field_norm
      get_int_norm get_string_norm get_size_norm)+

lemma js_int_cong: "norm_json j = norm_json j' \<Longrightarrow> js_int j k = js_int j' k"
  by (metis js_int_norm)

lemma js_string_cong: "norm_json j = norm_json j' \<Longrightarrow> js_string j k = js_string j' k"
  by (metis js_string_norm)

lemma to_int32_id: "- (2 ^ 31) \<le> i \<Longrightarrow> i < 2 ^ 31 \<Longrightarrow> to_int32 i = i"
  by (simp add: to_int32_def)

lemma to_int32_range: "- (2 ^ 31) \<le> to_int32 i \<and> to_int32 i < 2 ^ 31"
  using pos_mod_bound [of "2 ^ 32" "i + 2 ^ 31"] pos_mod_sign [of "2 ^ 32" "i + 2 ^ 31"]
  by (simp add: to_int32_def)

lemma js_int_message_id: "msgid \<in> {0..<89} \<Longrightarrow> js_int (message msgid kvs) ''msgid'' = Some msgid"
  by (simp add: js_int_def message_def to_int32_id)

lemma js_int_obj: "map_of kvs k = Some (JInt i) \<Longrightarrow> js_int (JObj kvs) k = Some (to_int32 i)"
  by (simp add: js_int_def)

lemma js_string_obj: "map_of kvs k = Some (JStr s) \<Longrightarrow> js_string (JObj kvs) k = Some s"
  by (simp add: js_string_def)

end
