(* ===== verification/Services.thy ===== *)
theory Services
  imports Json
begin

text \<open>
  What the program calls but does not contain: the MySQL server, the Redis server, the clock and
  the JSON library's \<open>dump\<close> and \<open>parse\<close>.  They are one record of functions over an unknown
  state \<open>'w\<close> of the outside world, and every definition of the model that uses them takes that
  record as an argument.

  What the code relies on is the locale \<open>services\<close>: a statement that MySQL accepts has the
  effect SQL gives it on the tables of \<open>init.sql\<close>, a statement it refuses has none, an answer
  lists the selected rows in some order, and the Redis list commands do what their manual says.
  Any statement may fail; \<open>reliable_services\<close> adds that those which make sense do not.  The
  theory ends with a reference environment, executable, on which both locales are interpreted.
\<close>

section \<open>Tables\<close>

text \<open>
  The tables of \<open>init.sql\<close>, keyed by their primary keys.  A friend row is keyed by
  \<open>(userid, friendid)\<close>, a row of \<open>GroupUser\<close> by \<open>(groupid, userid)\<close>.  \<open>next_user\<close> and
  \<open>next_group\<close> are lower bounds of the numbers AUTO_INCREMENT will hand out; \<open>savepoint\<close> is the
  content of the two history tables when the open transaction began; \<open>redis_lists\<close> are the Redis lists.
\<close>

record user_row =
  u_name :: string
  u_password :: string
  u_state :: string

record private_row =
  p_sender :: int
  p_receiver :: int
  p_message :: string
  p_time :: string

record group_row =
  q_group :: int
  q_sender :: int
  q_message :: string
  q_time :: string

record db =
  t_user :: "(int \<times> user_row) list"
  t_friend :: "((int \<times> int) \<times> string) list"
  t_group :: "(int \<times> string) list"
  t_member :: "((int \<times> int) \<times> string) list"
  t_private :: "private_row list"
  t_gchat :: "group_row list"
  next_user :: int
  next_group :: int
  last_id :: int
  savepoint :: "(private_row list \<times> group_row list) option"
  redis_lists :: "string \<Rightarrow> string list"

abbreviation user_of :: "db \<Rightarrow> int \<Rightarrow> user_row option" where
  "user_of d \<equiv> map_of (t_user d)"

abbreviation friend_of :: "db \<Rightarrow> int \<Rightarrow> int \<Rightarrow> string option" where
  "friend_of d a b \<equiv> map_of (t_friend d) (a, b)"

abbreviation role_of :: "db \<Rightarrow> int \<Rightarrow> int \<Rightarrow> string option" where
  "role_of d g u \<equiv> map_of (t_member d) (g, u)"

section \<open>Statements and queries\<close>

text \<open>One constructor for each SQL text of the source, with the values \<open>sprintf\<close> puts into it.\<close>

datatype stmt =
    InsertUser string string string
  | UpdateUserState string int
  | ResetUserState
  | InsertFriend int int string
  | UpdateFriend string int int
  | DeleteFriendEach int int
  | InsertGroup string
  | InsertMember int int string
  | UpdateRole string int int
  | DeleteMember int int
  | DeleteGroup int
  | DeleteGroupMembers int
  | InsertFile string int int
  | InsertPrivate "private_row list"
  | InsertGroupChat "group_row list"
  | StartTransaction
  | Commit
  | Rollback

datatype query =
    QUserById int
  | QUserByName string
  | QAllUsers
  | QFriends int
  | QFriendRequests int
  | QFriendBlocks int
  | QFriendState int int
  | QAllGroups
  | QOwnGroups int
  | QGroupRequests int
  | QGroupMembers int
  | QRole int int
  | QHasRole int int "string list"
  | QGroupName int
  | QPrivateHistory int int nat
  | QGroupHistory int nat
  | QFiles int

text \<open>
  The effect of a statement on the tables, \<open>None\<close> where SQL refuses it: a duplicate key, or a
  \<open>VALUES\<close> list without a row.  \<open>i\<close> is the number AUTO_INCREMENT picks, \<open>ci\<close> the
  collation key of \<open>utf8mb4_unicode_ci\<close>, under which unique names are compared.
\<close>

fun run_stmt :: "(string \<Rightarrow> string) \<Rightarrow> int \<Rightarrow> stmt \<Rightarrow> db \<Rightarrow> db option" where
  "run_stmt ci i (InsertUser n p s) d =
     (if i < next_user d \<or> (\<exists>(k, u) \<in> set (t_user d). ci (u_name u) = ci n) then None
      else Some (d\<lparr>t_user := t_user d @ [(i, \<lparr>u_name = n, u_password = p, u_state = s\<rparr>)],
                   next_user := i + 1, last_id := i\<rparr>))"
| "run_stmt ci i (UpdateUserState s k) d =
     Some (d\<lparr>t_user := map (\<lambda>(k', u). (k', if k' = k then u\<lparr>u_state := s\<rparr> else u)) (t_user d)\<rparr>)"
| "run_stmt ci i ResetUserState d =
     Some (d\<lparr>t_user := map (\<lambda>(k, u).
        (k, if u_state u = ''online'' then u\<lparr>u_state := ''offline''\<rparr> else u)) (t_user d)\<rparr>)"
| "run_stmt ci i (InsertFriend a b s) d =
     (if friend_of d a b \<noteq> None then None
      else Some (d\<lparr>t_friend := t_friend d @ [((a, b), s)]\<rparr>))"
| "run_stmt ci i (UpdateFriend s a b) d =
     Some (d\<lparr>t_friend := map (\<lambda>(k, v). (k, if k = (a, b) then s else v)) (t_friend d)\<rparr>)"
| "run_stmt ci i (DeleteFriendEach a b) d =
     Some (d\<lparr>t_friend := filter (\<lambda>(k, v). k \<noteq> (a, b) \<and> k \<noteq> (b, a)) (t_friend d)\<rparr>)"
| "run_stmt ci i (InsertGroup n) d =
     (if i < next_group d \<or> (\<exists>(k, m) \<in> set (t_group d). ci m = ci n) then None
      else Some (d\<lparr>t_group := t_group d @ [(i, n)], next_group := i + 1, last_id := i\<rparr>))"
| "run_stmt ci i (InsertMember g u r) d =
     (if role_of d g u \<noteq> None then None
      else Some (d\<lparr>t_member := t_member d @ [((g, u), r)]\<rparr>))"
| "run_stmt ci i (UpdateRole r u g) d =
     Some (d\<lparr>t_member := map (\<lambda>(k, v). (k, if k = (g, u) then r else v)) (t_member d)\<rparr>)"
| "run_stmt ci i (DeleteMember u g) d =
     Some (d\<lparr>t_member := filter (\<lambda>(k, v). k \<noteq> (g, u)) (t_member d)\<rparr>)"
| "run_stmt ci i (DeleteGroup g) d =
     Some (d\<lparr>t_group := filter (\<lambda>(k, v). k \<noteq> g) (t_group d)\<rparr>)"
| "run_stmt ci i (DeleteGroupMembers g) d =
     Some (d\<lparr>t_member := filter (\<lambda>(k, v). fst k \<noteq> g) (t_member d)\<rparr>)"
| "run_stmt ci i (InsertFile f a b) d = Some d"
| "run_stmt ci i (InsertPrivate rs) d =
     (if rs = [] then None else Some (d\<lparr>t_private := t_private d @ rs\<rparr>))"
| "run_stmt ci i (InsertGroupChat rs) d =
     (if rs = [] then None else Some (d\<lparr>t_gchat := t_gchat d @ rs\<rparr>))"
| "run_stmt ci i StartTransaction d = Some (d\<lparr>savepoint := Some (t_private d, t_gchat d)\<rparr>)"
| "run_stmt ci i Commit d = Some (d\<lparr>savepoint := None\<rparr>)"
| "run_stmt ci i Rollback d =
     (case savepoint d of None \<Rightarrow> Some d
      | Some (p, q) \<Rightarrow> Some (d\<lparr>t_private := p, t_gchat := q, savepoint := None\<rparr>))"

definition user_cols :: "int \<times> user_row \<Rightarrow> string list" where
  "user_cols r = [itos (fst r), u_name (snd r), u_password (snd r), u_state (snd r)]"

text \<open>
  The rows of a query, in the order of the tables.  Only the history queries ask for an order.
\<close>

definition member_rows :: "db \<Rightarrow> int \<Rightarrow> (string \<Rightarrow> bool) \<Rightarrow> string list list" where
  "member_rows d g P =
     concat (map (\<lambda>(k, u). case role_of d g k of None \<Rightarrow> []
       | Some r \<Rightarrow> if P r then [[itos k, u_name u, r]] else []) (t_user d))"

fun select_rows :: "(string \<Rightarrow> string) \<Rightarrow> query \<Rightarrow> db \<Rightarrow> string list list" where
  "select_rows ci (QUserById k) d = (case user_of d k of None \<Rightarrow> [] | Some u \<Rightarrow> [user_cols (k, u)])"
| "select_rows ci (QUserByName n) d =
     map user_cols (filter (\<lambda>(k, u). ci (u_name u) = ci n) (t_user d))"
| "select_rows ci QAllUsers d = map user_cols (t_user d)"
| "select_rows ci (QFriends a) d =
     concat (map (\<lambda>(k, u). case friend_of d a k of None \<Rightarrow> []
       | Some s \<Rightarrow> [[itos k, u_name u, u_state u, s]]) (t_user d))"
| "select_rows ci (QFriendRequests b) d =
     map (\<lambda>((x, y), s). [itos x, itos y, s])
       (filter (\<lambda>((x, y), s). y = b \<and> s = ''request'') (t_friend d))"
| "select_rows ci (QFriendBlocks a) d =
     map (\<lambda>((x, y), s). [itos x, itos y, s])
       (filter (\<lambda>((x, y), s). x = a \<and> s = ''block'') (t_friend d))"
| "select_rows ci (QFriendState a b) d = (case friend_of d a b of None \<Rightarrow> [] | Some s \<Rightarrow> [[s]])"
| "select_rows ci QAllGroups d = map (\<lambda>(k, n). [itos k, n]) (t_group d)"
| "select_rows ci (QOwnGroups u) d =
     concat (map (\<lambda>(g, n). case role_of d g u of None \<Rightarrow> [] | Some r \<Rightarrow> [[itos g, n, r]])
       (t_group d))"
| "select_rows ci (QGroupRequests g) d = member_rows d g (\<lambda>r. r = ''request'')"
| "select_rows ci (QGroupMembers g) d = member_rows d g (\<lambda>r. r \<noteq> ''request'')"
| "select_rows ci (QRole u g) d = (case role_of d g u of None \<Rightarrow> [] | Some r \<Rightarrow> [[r]])"
| "select_rows ci (QHasRole u g rs) d =
     (case role_of d g u of None \<Rightarrow> []
      | Some r \<Rightarrow> if r \<in> set rs then [[itos g, itos u, r]] else [])"
| "select_rows ci (QGroupName g) d = (case map_of (t_group d) g of None \<Rightarrow> [] | Some n \<Rightarrow> [[n]])"
| "select_rows ci (QPrivateHistory a b n) d =
     map (\<lambda>r. [[], itos (p_sender r), itos (p_receiver r), p_message r, p_time r])
       (take n (rev (sort_key p_time (filter (\<lambda>r. p_sender r = a \<and> p_receiver r = b
          \<or> p_sender r = b \<and> p_receiver r = a) (t_private d)))))"
| "select_rows ci (QGroupHistory g n) d =
     map (\<lambda>r. [[], itos (q_group r), itos (q_sender r), q_message r, q_time r])
       (take n (rev (sort_key q_time (filter (\<lambda>r. q_group r = g) (t_gchat d)))))"
| "select_rows ci (QFiles k) d = []"

text \<open>
  What an answer may be: the selected rows in any order, for the history queries in descending
  order of time and cut at the limit (rows of the same second in any order).  \<open>file_transfers\<close>
  is not a table of \<open>init.sql\<close>, so nothing is known of its rows.
\<close>

definition private_cols :: "private_row \<Rightarrow> string list" where
  "private_cols r = [itos (p_sender r), itos (p_receiver r), p_message r, p_time r]"

definition group_cols :: "group_row \<Rightarrow> string list" where
  "group_cols r = [itos (q_group r), itos (q_sender r), q_message r, q_time r]"

fun answers :: "(string \<Rightarrow> string) \<Rightarrow> query \<Rightarrow> db \<Rightarrow> string list list \<Rightarrow> bool" where
  "answers ci (QPrivateHistory a b n) d rows = (\<exists>rs. [] \<notin> set rows \<and>
     map tl rows = map private_cols (take n rs) \<and> sorted_wrt (\<lambda>x y. p_time y \<le> p_time x) rs \<and>
     mset rs = mset (filter (\<lambda>r. p_sender r = a \<and> p_receiver r = b
        \<or> p_sender r = b \<and> p_receiver r = a) (t_private d)))"
| "answers ci (QGroupHistory g n) d rows = (\<exists>rs. [] \<notin> set rows \<and>
     map tl rows = map group_cols (take n rs) \<and> sorted_wrt (\<lambda>x y. q_time y \<le> q_time x) rs \<and>
     mset rs = mset (filter (\<lambda>r. q_group r = g) (t_gchat d)))"
| "answers ci (QFiles k) d rows = True"
| "answers ci q d rows = (mset rows = mset (select_rows ci q d))"

section \<open>The environment\<close>

datatype file_status = OpenFailed | StatFailed | FileSize nat

datatype send_status = Sent nat | WouldBlock | SendError

text \<open>
  \<open>file_status\<close> is \<open>open\<close> followed by \<open>fstat\<close>, \<open>fcntl_ok\<close> one call of \<open>fcntl\<close> on the socket, and
  \<open>sendfile n\<close> one call of \<open>sendfile\<close> that asks for \<open>n\<close> bytes.
\<close>

record 'w env =
  mysql_exec :: "stmt \<Rightarrow> 'w \<Rightarrow> bool \<times> 'w"
  mysql_select :: "query \<Rightarrow> 'w \<Rightarrow> string list list option \<times> 'w"
  mysql_insert_id :: "'w \<Rightarrow> int"
  mysql_real_connect :: "'w \<Rightarrow> bool \<times> 'w"
  redis_rpush :: "string \<Rightarrow> string \<Rightarrow> 'w \<Rightarrow> bool \<times> 'w"
  redis_lrange_all :: "string \<Rightarrow> 'w \<Rightarrow> string list option \<times> 'w"
  redis_ltrim_none :: "string \<Rightarrow> 'w \<Rightarrow> bool \<times> 'w"
  current_timestamp :: "'w \<Rightarrow> string"
  stat_file :: "string \<Rightarrow> 'w \<Rightarrow> file_status \<times> 'w"
  fcntl_ok :: "'w \<Rightarrow> bool \<times> 'w"
  sendfile :: "nat \<Rightarrow> 'w \<Rightarrow> send_status \<times> 'w"
  json_dump :: "json \<Rightarrow> string"
  json_parse :: "string \<Rightarrow> json option"

fun is_auto :: "stmt \<Rightarrow> bool" where
  "is_auto (InsertUser n p s) = True"
| "is_auto (InsertGroup n) = True"
| "is_auto st = False"

text \<open>
  \<open>services\<close>: what a call did when it said it succeeded, and that it did nothing when it said it
  failed.  The law of \<open>mysql_insert_id\<close> is about the call right after an INSERT.
\<close>

locale services =
  fixes E :: "'w env" and view :: "'w \<Rightarrow> db" and ci :: "string \<Rightarrow> string"
  assumes exec_done: "mysql_exec E st w = (True, w') \<Longrightarrow> \<exists>i. run_stmt ci i st (view w) = Some (view w')"
    and exec_failed: "mysql_exec E st w = (False, w') \<Longrightarrow> view w' = view w"
    and select_rows: "mysql_select E q w = (Some rows, w') \<Longrightarrow> answers ci q (view w) rows"
    and select_view: "view (snd (mysql_select E q w)) = view w"
    and insert_id: "is_auto st \<Longrightarrow> mysql_exec E st w = (True, w') \<Longrightarrow> mysql_insert_id E w' = last_id (view w')"
    and connect_view: "view (snd (mysql_real_connect E w)) = view w"
    and rpush_done: "redis_rpush E k v w = (True, w') \<Longrightarrow>
      view w' = (view w)\<lparr>redis_lists := (redis_lists (view w))(k := redis_lists (view w) k @ [v])\<rparr>"
    and rpush_failed: "redis_rpush E k v w = (False, w') \<Longrightarrow> view w' = view w"
    and lrange_rows: "redis_lrange_all E k w = (Some vs, w') \<Longrightarrow> vs = redis_lists (view w) k"
    and lrange_view: "view (snd (redis_lrange_all E k w)) = view w"
    and ltrim_done: "redis_ltrim_none E k w = (True, w') \<Longrightarrow>
      view w' = (view w)\<lparr>redis_lists := (redis_lists (view w))(k := [])\<rparr>"
    and ltrim_failed: "redis_ltrim_none E k w = (False, w') \<Longrightarrow> view w' = view w"
    and stat_view: "view (snd (stat_file E f w)) = view w"
    and fcntl_view: "view (snd (fcntl_ok E w)) = view w"
    and sendfile_view: "view (snd (sendfile E req w)) = view w"
    and sendfile_bound: "sendfile E req w = (Sent cnt, w') \<Longrightarrow> cnt \<le> req"

text \<open>
  \<open>reliable_services\<close>: the servers are up, so a call fails only when it must.  \<open>st_fits\<close> are the
  column types of \<open>init.sql\<close>: a \<open>text\<close> has at most 65535 bytes, a \<open>datetime\<close> is a date and a time.
\<close>

fun datetime :: "string \<Rightarrow> bool" where
  "datetime [y1, y2, y3, y4, a, m1, m2, b, d1, d2, c, h1, h2, e, i1, i2, f, s1, s2] =
     (list_all is_digit [y1, y2, y3, y4, m1, m2, d1, d2, h1, h2, i1, i2, s1, s2] \<and>
      a = CHR ''-'' \<and> b = CHR ''-'' \<and> c = CHR '' '' \<and> e = CHR '':'' \<and> f = CHR '':'' \<and>
      (let year = digits_val 0 [y1, y2, y3, y4]; month = digits_val 0 [m1, m2]; day = digits_val 0 [d1, d2] in
        1000 \<le> year \<and> 1 \<le> month \<and> month \<le> 12 \<and> 1 \<le> day \<and>
        day \<le> (if month = 2 then if year mod 4 = 0 \<and> (year mod 100 \<noteq> 0 \<or> year mod 400 = 0) then 29 else 28
          else if month \<in> {4, 6, 9, 11} then 30 else 31)) \<and>
      digits_val 0 [h1, h2] < 24 \<and> digits_val 0 [i1, i2] < 60 \<and> digits_val 0 [s1, s2] < 60)"
| "datetime _ = False"

fun st_fits :: "stmt \<Rightarrow> bool" where
  "st_fits (InsertUser n p s) = (length n \<le> 50 \<and> length p \<le> 255)"
| "st_fits (InsertGroup n) = (length n \<le> 50)"
| "st_fits (InsertFile f a b) = False"
| "st_fits (InsertPrivate rs) = list_all (\<lambda>r. length (p_message r) \<le> 65535 \<and> datetime (p_time r)) rs"
| "st_fits (InsertGroupChat rs) = list_all (\<lambda>r. length (q_message r) \<le> 65535 \<and> datetime (q_time r)) rs"
| "st_fits st = True"

locale reliable_services = services +
  assumes exec_up: "st_fits st \<Longrightarrow> \<exists>i. run_stmt ci i st (view w) \<noteq> None \<Longrightarrow> fst (mysql_exec E st w)"
    and select_up: "fst (mysql_select E q w) \<noteq> None"
    and connect_up: "fst (mysql_real_connect E w)"
    and rpush_up: "fst (redis_rpush E k v w)"
    and lrange_up: "fst (redis_lrange_all E k w) \<noteq> None"
    and ltrim_up: "fst (redis_ltrim_none E k w)"

text \<open>
  \<open>json_library\<close>: \<open>parse\<close> reads back what \<open>dump\<close> wrote, and \<open>dump\<close> writes control characters
  as escapes, so a dumped value never contains a carriage return, a line feed or a NUL.
\<close>

locale json_library =
  fixes E :: "'w env"
  assumes parse_dump: "wf_json j \<Longrightarrow>
      \<exists>j'. json_parse E (json_dump E j) = Some j' \<and> norm_json j' = norm_json j"
    and dump_cr: "wf_json j \<Longrightarrow> CHR 0x0D \<notin> set (json_dump E j)"
    and dump_lf: "wf_json j \<Longrightarrow> CHR 0x0A \<notin> set (json_dump E j)"
    and dump_nul: "wf_json j \<Longrightarrow> CHR 0x00 \<notin> set (json_dump E j)"

end
