(* ===== verification/Pool.thy ===== *)
theory Pool
  imports Services
begin

text \<open>
  \<open>project/database\<close>: the MySQL wrapper, the pool of MySQL connections, the Redis wrapper and
  its pool.  Connections are numbered handles; a pool is the queue of the handles that are free.
  \<open>getConnection\<close> waits while the queue is empty: a handler runs alone in this model, so nobody
  can give a connection back in the meantime and the wait is the stuck outcome \<open>PoolEmpty\<close>.
\<close>

section \<open>Pools\<close>

record 'w dbs =
  m_pool :: "nat list"
  redis_ready :: bool
  redis_pool :: "nat list"
  world :: 'w

text \<open>
  What a client of a pool relies on: the free handles form a multiset, \<open>take\<close> removes one unless
  there is none, \<open>give\<close> adds one.
\<close>

locale connection_pool =
  fixes take :: "'q \<Rightarrow> ('c \<times> 'q) option"
    and give :: "'c \<Rightarrow> 'q \<Rightarrow> 'q"
    and free :: "'q \<Rightarrow> 'c multiset"
  assumes take_None: "take q = None \<longleftrightarrow> free q = {#}"
    and take_Some: "take q = Some (c, q') \<Longrightarrow> free q = add_mset c (free q')"
    and free_give: "free (give c q) = add_mset c (free q)"
begin

lemma take_give: "take q = Some (c, q') \<Longrightarrow> free (give c q') = free q"
  by (simp add: take_Some free_give)

lemma take_size: "take q = Some (c, q') \<Longrightarrow> size (free q) = Suc (size (free q'))"
  by (simp add: take_Some)

lemma available: "free q \<noteq> {#} \<Longrightarrow> \<exists>c q'. take q = Some (c, q')"
  using take_None [of q] by (cases "take q") auto

end

fun pool_take :: "nat list \<Rightarrow> (nat \<times> nat list) option" where
  "pool_take [] = None"
| "pool_take (c # q) = Some (c, q)"

definition pool_give :: "nat \<Rightarrow> nat list \<Rightarrow> nat list" where
  "pool_give c q = q @ [c]"

interpretation queue_pool: connection_pool pool_take pool_give mset
proof unfold_locales
  fix q q' :: "nat list" and c :: nat
  show "pool_take q = None \<longleftrightarrow> mset q = {#}" by (cases q) simp_all
  show "pool_take q = Some (c, q') \<Longrightarrow> mset q = add_mset c (mset q')" by (cases q) simp_all
  show "mset (pool_give c q) = add_mset c (mset q)" by (simp add: pool_give_def)
qed

text \<open>The constructor of \<open>MysqlPool\<close>: the connections that come up enter the queue.\<close>

fun mysqlPool_init :: "'w env \<Rightarrow> nat list \<Rightarrow> nat list \<Rightarrow> 'w \<Rightarrow> nat list \<times> 'w" where
  "mysqlPool_init E q [] w = (q, w)"
| "mysqlPool_init E q (c # cs) w =
     (case mysql_real_connect E w of (up, w') \<Rightarrow>
        mysqlPool_init E (if up then pool_give c q else q) cs w')"

definition getConnection :: "(('w, 'm) dbs_scheme, nat) prog" where
  "getConnection s = (case pool_take (m_pool s) of None \<Rightarrow> Stuck PoolEmpty
     | Some (c, q) \<Rightarrow> Done c (s\<lparr>m_pool := q\<rparr>))"

definition releaseConnection :: "nat \<Rightarrow> (('w, 'm) dbs_scheme, unit) prog" where
  "releaseConnection c = modify (\<lambda>s. s\<lparr>m_pool := pool_give c (m_pool s)\<rparr>)"

section \<open>The MySQL wrapper\<close>

definition mysql_connect :: "'w env \<Rightarrow> (('w, 'm) dbs_scheme, bool) prog" where
  "mysql_connect E s = (case mysql_real_connect E (world s) of (up, w) \<Rightarrow> Done up (s\<lparr>world := w\<rparr>))"

definition mysql_update :: "'w env \<Rightarrow> stmt \<Rightarrow> (('w, 'm) dbs_scheme, bool) prog" where
  "mysql_update E st s = (case mysql_exec E st (world s) of (ok, w) \<Rightarrow> Done ok (s\<lparr>world := w\<rparr>))"

definition mysql_query :: "'w env \<Rightarrow> query \<Rightarrow> (('w, 'm) dbs_scheme, string list list option) prog" where
  "mysql_query E q s = (case mysql_select E q (world s) of (r, w) \<Rightarrow> Done r (s\<lparr>world := w\<rparr>))"

text \<open>
  The block every model function repeats: take a connection, run the statement, give the
  connection back.  The rows of a query that failed (\<open>res == nullptr\<close>) are none.
\<close>

definition pooled_update :: "'w env \<Rightarrow> stmt \<Rightarrow> (('w, 'm) dbs_scheme, bool) prog" where
  "pooled_update E st = bnd getConnection (\<lambda>c. bnd (mysql_update E st) (\<lambda>ok.
     andthen (releaseConnection c) (ret ok)))"

definition rows_of :: "string list list option \<Rightarrow> string list list" where
  "rows_of r = (case r of None \<Rightarrow> [] | Some rows \<Rightarrow> rows)"

definition pooled_query :: "'w env \<Rightarrow> query \<Rightarrow> (('w, 'm) dbs_scheme, string list list) prog" where
  "pooled_query E q = bnd getConnection (\<lambda>c. bnd (mysql_query E q) (\<lambda>r.
     andthen (releaseConnection c) (ret (rows_of r))))"

text \<open>
  The text that \<open>sprintf\<close> writes into \<open>char sql[1024]\<close>.  Past 1023 characters the buffer
  overflows; a value with a quote or a backslash ends or escapes the literal it is put into, so the
  text is not the statement the code means.  \<open>guarded\<close> stops at both.
\<close>

definition quoted :: "string \<Rightarrow> string" where
  "quoted s = CHR 0x27 # s @ [CHR 0x27]"

definition plain :: "string \<Rightarrow> bool" where
  "plain s \<longleftrightarrow> CHR 0x27 \<notin> set s \<and> CHR 0x5C \<notin> set s"

definition guarded :: "string \<Rightarrow> string list \<Rightarrow> ('s, 'a) prog \<Rightarrow> ('s, 'a) prog" where
  "guarded sql vals k = (if 1024 \<le> length sql then halt SqlOverrun
     else if list_all plain vals then k else halt SqlInjected)"

lemma runs_guarded: "B SqlOverrun \<Longrightarrow> B SqlInjected \<Longrightarrow> runs k s Q X B \<Longrightarrow> runs (guarded sql vals k) s Q X B"
  by (simp add: guarded_def)

lemma keeps_guarded [keeps_rules]: "keeps P k \<Longrightarrow> keeps P (guarded sql vals k)"
  by (simp add: guarded_def keeps_halt)

lemma guarded_plain: "length sql < 1024 \<Longrightarrow> list_all plain vals \<Longrightarrow> guarded sql vals k = k"
  by (simp add: guarded_def)

section \<open>The Redis wrapper\<close>

text \<open>
  \<open>RedisPool::getConnection\<close> calls \<open>init\<close>, which locks the mutex it already holds, when the pool
  has not been initialised; \<open>Redis::connect\<close> initialises it first.
\<close>

definition redis_init :: "nat list \<Rightarrow> (('w, 'm) dbs_scheme, unit) prog" where
  "redis_init up = modify (\<lambda>s. if redis_ready s then s
     else s\<lparr>redis_pool := redis_pool s @ up, redis_ready := True\<rparr>)"

definition redis_get :: "(('w, 'm) dbs_scheme, nat) prog" where
  "redis_get s = (if \<not> redis_ready s then Stuck SelfDeadlock
     else case pool_take (redis_pool s) of None \<Rightarrow> Stuck PoolEmpty
       | Some (c, q) \<Rightarrow> Done c (s\<lparr>redis_pool := q\<rparr>))"

definition redis_release :: "nat \<Rightarrow> (('w, 'm) dbs_scheme, unit) prog" where
  "redis_release c = modify (\<lambda>s. s\<lparr>redis_pool := pool_give c (redis_pool s)\<rparr>)"

definition rpush :: "'w env \<Rightarrow> string \<Rightarrow> string \<Rightarrow> (('w, 'm) dbs_scheme, bool) prog" where
  "rpush E key val = bnd redis_get (\<lambda>c.
     bnd (\<lambda>s. case redis_rpush E (c_str key) (c_str val) (world s) of (ok, w) \<Rightarrow> Done ok (s\<lparr>world := w\<rparr>))
       (\<lambda>ok. andthen (redis_release c) (ret ok)))"

definition lrange :: "'w env \<Rightarrow> string \<Rightarrow> (('w, 'm) dbs_scheme, string list) prog" where
  "lrange E key = bnd redis_get (\<lambda>c.
     bnd (\<lambda>s. case redis_lrange_all E (c_str key) (world s) of (r, w) \<Rightarrow> Done r (s\<lparr>world := w\<rparr>))
       (\<lambda>r. andthen (redis_release c) (ret (case r of None \<Rightarrow> [] | Some vs \<Rightarrow> vs))))"

definition ltrim :: "'w env \<Rightarrow> string \<Rightarrow> (('w, 'm) dbs_scheme, unit) prog" where
  "ltrim E key = bnd redis_get (\<lambda>c.
     bnd (\<lambda>s. case redis_ltrim_none E (c_str key) (world s) of (ok, w) \<Rightarrow> Done ok (s\<lparr>world := w\<rparr>))
       (\<lambda>ok. andthen (redis_release c) (ret ())))"

section \<open>What an operation on the databases does\<close>

text \<open>
  An operation that takes its connection and gives it back changes the state in one of a few
  fields only: \<open>frame\<close> says that the pools hold the same connections as before, maybe in another
  order, and that nothing else than the world changed.  \<open>does view m D\<close> is the contract of such an
  operation: it never throws, it waits only if a pool is empty, and the tables before, the value
  returned and the tables after are in the relation \<open>D\<close>.
\<close>

definition ready :: "('w, 'm) dbs_scheme \<Rightarrow> bool" where
  "ready s \<longleftrightarrow> m_pool s \<noteq> [] \<and> redis_ready s \<and> redis_pool s \<noteq> []"

definition frame :: "('w, 'm) dbs_scheme \<Rightarrow> ('w, 'm) dbs_scheme \<Rightarrow> bool" where
  "frame s s' \<longleftrightarrow> (\<exists>p r w. s' = s\<lparr>m_pool := p, redis_pool := r, world := w\<rparr>
     \<and> mset p = mset (m_pool s) \<and> mset r = mset (redis_pool s))"

definition does :: "('w \<Rightarrow> db) \<Rightarrow> (('w, 'm) dbs_scheme, 'a) prog \<Rightarrow> (db \<Rightarrow> 'a \<Rightarrow> db \<Rightarrow> bool) \<Rightarrow> bool" where
  "does view m D \<longleftrightarrow> (\<forall>s. runs m s (\<lambda>x s'. frame s s' \<and> D (view (world s)) x (view (world s')))
     (\<lambda>_ _. False) (\<lambda>_. \<not> ready s))"

definition finds :: "(db \<Rightarrow> 'a \<Rightarrow> bool) \<Rightarrow> db \<Rightarrow> 'a \<Rightarrow> db \<Rightarrow> bool" where
  "finds R d x d' \<longleftrightarrow> d' = d \<and> R d x"

lemma frameI: "mset p = mset (m_pool s) \<Longrightarrow> mset r = mset (redis_pool s) \<Longrightarrow>
    frame s (s\<lparr>m_pool := p, redis_pool := r, world := w\<rparr>)"
  by (auto simp: frame_def)

lemma frame_trans:
  assumes "frame s t" and "frame t u"
  shows "frame s u"
proof -
  from assms(1) obtain p r w where t: "t = s\<lparr>m_pool := p, redis_pool := r, world := w\<rparr>"
    "mset p = mset (m_pool s)" "mset r = mset (redis_pool s)" by (auto simp: frame_def)
  from assms(2) obtain p' r' w' where u: "u = t\<lparr>m_pool := p', redis_pool := r', world := w'\<rparr>"
    "mset p' = mset (m_pool t)" "mset r' = mset (redis_pool t)" by (auto simp: frame_def)
  from t u frameI [of p' s r' w'] show ?thesis by simp
qed

lemma frame_world: "frame s (s\<lparr>world := w\<rparr>)"
  using frameI [of "m_pool s" s "redis_pool s" w] by simp

lemma frame_refl [simp, intro!]: "frame s s"
  using frame_world [of s "world s"] by simp

lemma frame_pools: "frame s t \<Longrightarrow> mset (m_pool t) = mset (m_pool s) \<and>
    mset (redis_pool t) = mset (redis_pool s) \<and> redis_ready t = redis_ready s"
  by (auto simp: frame_def)

lemma frame_ready: "frame s t \<Longrightarrow> ready t = ready s"
  by (drule frame_pools) (metis ready_def mset_zero_iff)

lemma doesI:
  assumes "\<And>s. runs m s (\<lambda>x s'. frame s s' \<and> D (view (world s)) x (view (world s')))
     (\<lambda>_ _. False) (\<lambda>_. \<not> ready s)"
  shows "does view m D"
  using assms by (simp add: does_def)

lemma does_runs:
  assumes "does view m D"
    and "\<And>x s'. frame s s' \<Longrightarrow> D (view (world s)) x (view (world s')) \<Longrightarrow> Q x s'"
    and "\<And>b. \<not> ready s \<Longrightarrow> B b"
  shows "runs m s Q X B"
  by (rule runs_mono, rule spec [OF assms(1) [unfolded does_def]]) (auto intro: assms(2,3))

lemma finds_runs:
  assumes "does view m (finds R)"
    and "\<And>x s'. frame s s' \<Longrightarrow> view (world s') = view (world s) \<Longrightarrow> R (view (world s)) x \<Longrightarrow> Q x s'"
    and "\<And>b. \<not> ready s \<Longrightarrow> B b"
  shows "runs m s Q X B"
  by (rule does_runs [OF assms(1)]) (auto simp: finds_def assms(2,3))

lemma does_mono: "does view m D \<Longrightarrow> (\<And>d x d'. D d x d' \<Longrightarrow> D' d x d') \<Longrightarrow> does view m D'"
  unfolding does_def by (blast intro: runs_mono)

lemma does_ret: "does view (ret x) (\<lambda>d y d'. y = x \<and> d' = d)"
  by (simp add: does_def runs_def)

lemma does_bnd:
  assumes m: "does view m D" and f: "\<And>x. does view (f x) (F x)"
  shows "does view (bnd m f) (\<lambda>d y d''. \<exists>x d'. D d x d' \<and> F x d' y d'')"
proof (rule doesI, rule runs_bnd, rule does_runs [OF m])
  fix s s' :: "('a, 'b) dbs_scheme" and x
  assume s: "frame s s'" "D (view (world s)) x (view (world s'))"
  show "runs (f x) s' (\<lambda>y t. frame s t \<and> (\<exists>x d'. D (view (world s)) x d' \<and> F x d' y (view (world t))))
      (\<lambda>_ _. False) (\<lambda>_. \<not> ready s)"
    by (rule does_runs [OF f]) (use s in \<open>auto intro: frame_trans simp: frame_ready\<close>)
qed

text \<open>A value computed from the rows of a query, and a statement whose result is dropped.\<close>

lemma finds_bnd_ret: "does view m (finds R) \<Longrightarrow> (\<And>d x. R d x \<Longrightarrow> R' d (f x)) \<Longrightarrow>
    does view (bnd m (\<lambda>x. ret (f x))) (finds R')"
  by (rule does_mono [OF does_bnd [OF _ does_ret]]) (auto simp: finds_def)

lemma does_drop: "does view m D \<Longrightarrow> does view (bnd m (\<lambda>_. ret ())) (\<lambda>d u d'. \<exists>x. D d x d')"
  by (rule does_mono [OF does_bnd [OF _ does_ret]]) auto

text \<open>An operation keeps what its relation keeps.\<close>

lemma does_keeps:
  assumes "does view m D"
    and "\<And>s x s'. P s \<Longrightarrow> frame s s' \<Longrightarrow> D (view (world s)) x (view (world s')) \<Longrightarrow> P s'"
  shows "keeps P m"
  by (rule keepsI, rule does_runs [OF assms(1)]) (auto dest: assms(2))

lemma queue_frame:
  assumes "pool_take (m_pool s) = Some (c, q)"
  shows "frame s (s\<lparr>world := w, m_pool := pool_give c q\<rparr>)"
  using frameI [of "pool_give c q" s "redis_pool s" w] queue_pool.take_give [OF assms]
  by (cases s) simp

lemma redis_frame:
  assumes "pool_take (redis_pool s) = Some (c, q)"
  shows "frame s (s\<lparr>world := w, redis_pool := pool_give c q\<rparr>)"
  using frameI [of "m_pool s" s "pool_give c q" w] queue_pool.take_give [OF assms]
  by (cases s) simp

lemma pooled_update_does:
  assumes "\<And>w. D (view w) (fst (mysql_exec E st w)) (view (snd (mysql_exec E st w)))"
  shows "does view (pooled_update E st) D"
proof (rule doesI)
  fix s :: "('a, 'b) dbs_scheme"
  obtain ok w where ex: "mysql_exec E st (world s) = (ok, w)" by fastforce
  show "runs (pooled_update E st) s (\<lambda>x s'. frame s s' \<and> D (view (world s)) x (view (world s')))
     (\<lambda>_ _. False) (\<lambda>_. \<not> ready s)"
  proof (cases "pool_take (m_pool s)")
    case None
    then have "m_pool s = []" by (cases "m_pool s") simp_all
    with None show ?thesis
      by (simp add: runs_def pooled_update_def getConnection_def bnd_apply ready_def)
  next
    case (Some cq)
    then obtain c q where cq: "pool_take (m_pool s) = Some (c, q)" by (cases cq) auto
    from assms [of "world s"] ex queue_frame [OF cq, of w] cq show ?thesis
      by (simp add: runs_def pooled_update_def getConnection_def bnd_apply andthen_apply
          mysql_update_def releaseConnection_def)
  qed
qed

lemma pooled_query_does:
  assumes "\<And>w. D (view w) (rows_of (fst (mysql_select E q w))) (view (snd (mysql_select E q w)))"
  shows "does view (pooled_query E q) D"
proof (rule doesI)
  fix s :: "('a, 'b) dbs_scheme"
  obtain r w where ex: "mysql_select E q (world s) = (r, w)" by fastforce
  show "runs (pooled_query E q) s (\<lambda>x s'. frame s s' \<and> D (view (world s)) x (view (world s')))
     (\<lambda>_ _. False) (\<lambda>_. \<not> ready s)"
  proof (cases "pool_take (m_pool s)")
    case None
    then have "m_pool s = []" by (cases "m_pool s") simp_all
    with None show ?thesis
      by (simp add: runs_def pooled_query_def getConnection_def bnd_apply ready_def)
  next
    case (Some cq)
    then obtain c p where cq: "pool_take (m_pool s) = Some (c, p)" by (cases cq) auto
    from assms [of "world s"] ex queue_frame [OF cq, of w] cq show ?thesis
      by (simp add: runs_def pooled_query_def getConnection_def bnd_apply andthen_apply
          mysql_query_def releaseConnection_def)
  qed
qed

text \<open>The block of a Redis operation: take a connection, run the command, give it back.\<close>

lemma redis_op_does:
  assumes "\<And>w x w'. f w = (x, w') \<Longrightarrow> D (view w) x (view w')"
    and "\<And>x. k x = ret (g x)"
  shows "does view ((bnd redis_get (\<lambda>c. bnd (\<lambda>s. case f (world s) of (x, w) \<Rightarrow> Done x (s\<lparr>world := w\<rparr>))
      (\<lambda>x. andthen (redis_release c) (k x)))) :: (('w, 'm) dbs_scheme, 'y) prog)
    (\<lambda>d y d'. \<exists>x. y = g x \<and> D d x d')" (is "does view ?m _")
proof (rule doesI)
  fix s :: "('w, 'm) dbs_scheme"
  obtain x w where w: "f (world s) = (x, w)" by fastforce
  show "runs ?m s (\<lambda>y s'. frame s s' \<and> (\<exists>x. y = g x \<and> D (view (world s)) x (view (world s'))))
      (\<lambda>_ _. False) (\<lambda>_. \<not> ready s)"
  proof (cases "redis_ready s \<and> redis_pool s \<noteq> []")
    case False
    then show ?thesis
      by (cases "redis_pool s") (auto simp: runs_def bnd_apply redis_get_def ready_def)
  next
    case True
    then obtain c q where cq: "pool_take (redis_pool s) = Some (c, q)" by (cases "redis_pool s") auto
    with True w assms(1) [OF w] redis_frame [OF cq, of w] show ?thesis
      by (auto simp: runs_def bnd_apply andthen_apply redis_get_def redis_release_def assms(2))
  qed
qed

text \<open>
  \<open>tried\<close>: a statement that may fail at any time; \<open>sure\<close>: one that fails only if SQL refuses it,
  with an effect that does not depend on AUTO_INCREMENT.
\<close>

definition tried :: "(string \<Rightarrow> string) \<Rightarrow> stmt \<Rightarrow> db \<Rightarrow> bool \<Rightarrow> db \<Rightarrow> bool" where
  "tried ci st d ok d' \<longleftrightarrow> (if ok then \<exists>i. run_stmt ci i st d = Some d' else d' = d)"

definition sure :: "(string \<Rightarrow> string) \<Rightarrow> stmt \<Rightarrow> db \<Rightarrow> bool \<Rightarrow> db \<Rightarrow> bool" where
  "sure ci st d ok d' \<longleftrightarrow>
     (case run_stmt ci 0 st d of None \<Rightarrow> \<not> ok \<and> d' = d | Some d1 \<Rightarrow> ok \<and> d' = d1)"

lemma run_stmt_fixed: "\<not> is_auto st \<Longrightarrow> run_stmt ci i st d = run_stmt ci 0 st d"
  by (cases st) simp_all

lemma run_stmt_last_id: "is_auto st \<Longrightarrow> run_stmt ci i st d = Some d' \<Longrightarrow> last_id d' = i"
  by (cases st) (auto split: if_split_asm)

context services
begin

lemma exec_auto_cases:
  assumes "is_auto st"
  obtains (inserted) i w' where "mysql_exec E st w = (True, w')"
      "run_stmt ci i st (view w) = Some (view w')" "mysql_insert_id E w' = i"
  | (refused) w' where "mysql_exec E st w = (False, w')" "view w' = view w"
proof -
  obtain ok w' where ex: "mysql_exec E st w = (ok, w')" by fastforce
  show ?thesis
  proof (cases ok)
    case True
    with ex have ok': "mysql_exec E st w = (True, w')" by simp
    from exec_done [OF ok'] obtain i where i: "run_stmt ci i st (view w) = Some (view w')" ..
    from insert_id [OF assms ok'] run_stmt_last_id [OF assms i] inserted [OF ok' i] show ?thesis by simp
  next
    case False
    with ex have "mysql_exec E st w = (False, w')" by simp
    with exec_failed refused show ?thesis by blast
  qed
qed

lemma update_tried: "does view (pooled_update E st) (tried ci st)"
proof (rule pooled_update_does)
  fix w
  obtain ok w' where w: "mysql_exec E st w = (ok, w')" by fastforce
  show "tried ci st (view w) (fst (mysql_exec E st w)) (view (snd (mysql_exec E st w)))"
    using exec_done [of st w w'] exec_failed [of st w w'] w by (cases ok) (auto simp: tried_def)
qed

lemma connect_does: "does view (mysql_connect E) (finds (\<lambda>_ _. True))"
  by (rule doesI) (auto simp: runs_def mysql_connect_def finds_def frame_world
      split: prod.splits dest: arg_cong [of _ _ "\<lambda>p. view (snd p)"] simp: connect_view)

lemma mysql_update_tried: "does view (mysql_update E st) (tried ci st)"
proof (rule doesI)
  fix s :: "('w, _) dbs_scheme"
  obtain ok w where w: "mysql_exec E st (world s) = (ok, w)" by fastforce
  have "tried ci st (view (world s)) ok (view w)"
    using exec_done [of st "world s" w] exec_failed [of st "world s" w] w
    by (cases ok) (auto simp: tried_def)
  with w show "runs (mysql_update E st) s
      (\<lambda>x s'. frame s s' \<and> tried ci st (view (world s)) x (view (world s'))) (\<lambda>_ _. False) (\<lambda>_. \<not> ready s)"
    by (simp add: runs_def mysql_update_def frame_world)
qed

lemma mysql_query_does:
  "does view (mysql_query E q) (finds (\<lambda>d r. rows_of r = [] \<or> answers ci q d (rows_of r)))"
proof (rule doesI)
  fix s :: "('w, _) dbs_scheme"
  obtain r w where w: "mysql_select E q (world s) = (r, w)" by fastforce
  have "view w = view (world s)" using select_view [of q "world s"] w by simp
  moreover have "rows_of r = [] \<or> answers ci q (view (world s)) (rows_of r)"
    using select_rows [of q "world s"] w by (cases r) (auto simp: rows_of_def)
  ultimately show "runs (mysql_query E q) s (\<lambda>x s'. frame s s' \<and>
      finds (\<lambda>d r. rows_of r = [] \<or> answers ci q d (rows_of r)) (view (world s)) x (view (world s')))
      (\<lambda>_ _. False) (\<lambda>_. \<not> ready s)"
    using w by (simp add: runs_def mysql_query_def frame_world finds_def)
qed

lemma query_tried:
  "does view (pooled_query E q) (finds (\<lambda>d rows. rows = [] \<or> answers ci q d rows))"
proof (rule pooled_query_does)
  fix w
  obtain r w' where w: "mysql_select E q w = (r, w')" by fastforce
  show "finds (\<lambda>d rows. rows = [] \<or> answers ci q d rows) (view w)
      (rows_of (fst (mysql_select E q w))) (view (snd (mysql_select E q w)))"
    using select_view [of q w] select_rows [of q w] w
    by (cases r) (auto simp: finds_def rows_of_def)
qed

end

definition pushed :: "string \<Rightarrow> string \<Rightarrow> db \<Rightarrow> bool \<Rightarrow> db \<Rightarrow> bool" where
  "pushed key val d ok d' \<longleftrightarrow> d' = (if ok
     then d\<lparr>redis_lists := (redis_lists d)(c_str key := redis_lists d (c_str key) @ [c_str val])\<rparr> else d)"

definition trimmed :: "string \<Rightarrow> db \<Rightarrow> bool \<Rightarrow> db \<Rightarrow> bool" where
  "trimmed key d ok d' \<longleftrightarrow>
     d' = (if ok then d\<lparr>redis_lists := (redis_lists d)(c_str key := [])\<rparr> else d)"

context services
begin

lemma rpush_tried: "does view (rpush E key val) (pushed key val)"
  unfolding rpush_def
  by (rule does_mono [OF redis_op_does [where D = "pushed key val" and g = "\<lambda>x. x"]])
    (auto simp: pushed_def dest: rpush_done rpush_failed split: bool.splits)

lemma ltrim_tried: "does view (ltrim E key) (\<lambda>d u d'. \<exists>ok. trimmed key d ok d')"
  unfolding ltrim_def
  by (rule does_mono [OF redis_op_does [where D = "trimmed key" and g = "\<lambda>_. ()"]])
    (auto simp: trimmed_def dest: ltrim_done ltrim_failed)

lemma lrange_tried:
  "does view (lrange E key) (finds (\<lambda>d vs. vs = [] \<or> vs = redis_lists d (c_str key)))"
proof -
  have view: "view w' = view w" if "redis_lrange_all E (c_str key) w = (r, w')" for w r w'
    using lrange_view [of "c_str key" w] that by simp
  show ?thesis unfolding lrange_def
    by (rule does_mono [OF redis_op_does [where
          D = "finds (\<lambda>d r. \<forall>vs. r = Some vs \<longrightarrow> vs = redis_lists d (c_str key))"
          and g = "\<lambda>r. case r of None \<Rightarrow> [] | Some vs \<Rightarrow> vs"]])
      (auto simp: finds_def view split: option.splits dest: lrange_rows)
qed

end

context reliable_services
begin

lemma rpush_sure: "does view (rpush E key val) (\<lambda>d ok d'. ok \<and> pushed key val d True d')"
proof -
  have "ok \<and> pushed key val (view w) True (view w')"
    if "redis_rpush E (c_str key) (c_str val) w = (ok, w')" for w ok w'
    using rpush_up [of "c_str key" "c_str val" w] rpush_done [of "c_str key" "c_str val" w w'] that
    by (simp add: pushed_def)
  then show ?thesis unfolding rpush_def
    by (rule does_mono [OF redis_op_does [where D = "\<lambda>d ok d'. ok \<and> pushed key val d True d'"
          and g = "\<lambda>x. x"]]) auto
qed

lemma ltrim_sure: "does view (ltrim E key) (\<lambda>d u d'. trimmed key d True d')"
proof -
  have "trimmed key (view w) True (view w')" if "redis_ltrim_none E (c_str key) w = (ok, w')" for w ok w'
    using ltrim_up [of "c_str key" w] ltrim_done [of "c_str key" w w'] that by (simp add: trimmed_def)
  then show ?thesis unfolding ltrim_def
    by (rule does_mono [OF redis_op_does [where D = "\<lambda>d ok d'. trimmed key d True d'"
          and g = "\<lambda>_. ()"]]) auto
qed

lemma lrange_sure: "does view (lrange E key) (finds (\<lambda>d vs. vs = redis_lists d (c_str key)))"
proof -
  have "finds (\<lambda>d r. r = Some (redis_lists d (c_str key))) (view w) r (view w')"
    if "redis_lrange_all E (c_str key) w = (r, w')" for w r w'
    using lrange_view [of "c_str key" w] lrange_up [of "c_str key" w] lrange_rows [of "c_str key" w] that
    by (cases r) (auto simp: finds_def)
  then show ?thesis unfolding lrange_def
    by (rule does_mono [OF redis_op_does [where
          D = "finds (\<lambda>d r. r = Some (redis_lists d (c_str key)))"
          and g = "\<lambda>r. case r of None \<Rightarrow> [] | Some vs \<Rightarrow> vs"]]) (auto simp: finds_def)
qed

lemma exec_sure:
  assumes "st_fits st" and "\<not> is_auto st" and w: "mysql_exec E st w = (ok, w')"
  shows "sure ci st (view w) ok (view w')"
proof (cases ok)
  case True
  with w have "mysql_exec E st w = (True, w')" by simp
  from exec_done [OF this] obtain i where "run_stmt ci i st (view w) = Some (view w')" ..
  then have "run_stmt ci 0 st (view w) = Some (view w')"
    using run_stmt_fixed [OF assms(2), of ci i "view w"] by simp
  with True show ?thesis by (simp add: sure_def)
next
  case False
  with w have "mysql_exec E st w = (False, w')" by simp
  then have "view w' = view w" by (rule exec_failed)
  moreover have "run_stmt ci 0 st (view w) = None"
  proof (rule ccontr)
    assume "run_stmt ci 0 st (view w) \<noteq> None"
    then have "\<exists>i. run_stmt ci i st (view w) \<noteq> None" ..
    from exec_up [OF assms(1) this] w False show False by simp
  qed
  ultimately show ?thesis using False by (simp add: sure_def)
qed

lemma update_sure:
  assumes "st_fits st" and "\<not> is_auto st"
  shows "does view (pooled_update E st) (sure ci st)"
  by (rule pooled_update_does, rule exec_sure [OF assms]) simp

lemma mysql_update_sure:
  assumes "st_fits st" and "\<not> is_auto st"
  shows "does view (mysql_update E st) (sure ci st)"
  by (rule doesI) (auto simp: runs_def mysql_update_def frame_world exec_sure [OF assms] split: prod.split)

lemma query_sure: "does view (pooled_query E q) (finds (answers ci q))"
proof (rule pooled_query_does)
  fix w
  obtain r w' where w: "mysql_select E q w = (r, w')" by fastforce
  show "finds (answers ci q) (view w)
      (rows_of (fst (mysql_select E q w))) (view (snd (mysql_select E q w)))"
    using select_view [of q w] select_rows [of q w] select_up [of q w] w
    by (cases r) (auto simp: finds_def rows_of_def)
qed

end

lemma mset_one [simp]: "mset xs = {#x#} \<longleftrightarrow> xs = [x]"
  by (auto simp: mset_single_iff)

text \<open>The rows of a query as a multiset, through the function that reads one row.\<close>

lemma finds_map:
  assumes "does view m (finds (\<lambda>d rows. mset rows = mset (R d)))"
  shows "does view (bnd m (\<lambda>rows. ret (map f rows))) (finds (\<lambda>d xs. mset xs = mset (map f (R d))))"
  by (rule finds_bnd_ret [OF assms]) simp

lemma finds_map_tried:
  assumes "does view m (finds (\<lambda>d rows. rows = [] \<or> mset rows = mset (R d)))"
  shows "does view (bnd m (\<lambda>rows. ret (map f rows)))
    (finds (\<lambda>d xs. xs = [] \<or> mset xs = mset (map f (R d))))"
  by (rule finds_bnd_ret [OF assms]) auto

end
