(* ===== verification/User_Model.thy ===== *)
theory User_Model
  imports Pool
begin

text \<open>
  \<open>project/model/user.h\<close> and \<open>usermodel.cc\<close>: the class \<open>User\<close> and the operations on the user
  table.  An operation is the source's: the SQL text, a connection from the pool, the statement,
  the rows read column by column, the connection given back.
\<close>

record user =
  m_id :: int
  m_name :: string
  m_password :: string
  m_state :: string

text \<open>The default arguments of the constructor: \<open>User user;\<close>\<close>

definition new_user :: user where
  "new_user = \<lparr>m_id = -1, m_name = [], m_password = [], m_state = ''offline''\<rparr>"

definition sql_insert_user :: "user \<Rightarrow> string" where
  "sql_insert_user u = ''insert into user(name, password, state) values('' @ quoted (c_str (m_name u))
     @ '', '' @ quoted (c_str (m_password u)) @ '', '' @ quoted (c_str (m_state u)) @ '')''"

definition UserModel_insert :: "'w env \<Rightarrow> user \<Rightarrow> (('w, 'm) dbs_scheme, bool \<times> user) prog" where
  "UserModel_insert E u =
     guarded (sql_insert_user u) [c_str (m_name u), c_str (m_password u)]
       (bnd getConnection (\<lambda>c.
        bnd (mysql_update E (InsertUser (c_str (m_name u)) (c_str (m_password u)) (c_str (m_state u)))) (\<lambda>ok.
        if ok then
          bnd (reads (\<lambda>s. mysql_insert_id E (world s))) (\<lambda>i.
          andthen (releaseConnection c) (ret (True, u\<lparr>m_id := i\<rparr>)))
        else andthen (releaseConnection c) (ret (False, u)))))"

text \<open>The four columns of \<open>select * from user\<close> read into a \<open>User\<close>; no row leaves the default.\<close>

definition user_of_row :: "string list \<Rightarrow> user" where
  "user_of_row row = new_user\<lparr>m_id := atoi (row ! 0), m_name := row ! 1,
     m_password := row ! 2, m_state := row ! 3\<rparr>"

definition first_user :: "string list list \<Rightarrow> user" where
  "first_user rows = (case rows of [] \<Rightarrow> new_user | row # _ \<Rightarrow> user_of_row row)"

definition UserModel_query_id :: "'w env \<Rightarrow> int \<Rightarrow> (('w, 'm) dbs_scheme, user) prog" where
  "UserModel_query_id E i = bnd (pooled_query E (QUserById i)) (\<lambda>rows. ret (first_user rows))"

definition sql_user_by_name :: "string \<Rightarrow> string" where
  "sql_user_by_name name = ''select * from user where name = '' @ quoted (c_str name)"

definition UserModel_query_name :: "'w env \<Rightarrow> string \<Rightarrow> (('w, 'm) dbs_scheme, user) prog" where
  "UserModel_query_name E name =
     guarded (sql_user_by_name name) [c_str name]
       (bnd (pooled_query E (QUserByName (c_str name))) (\<lambda>rows. ret (first_user rows)))"

definition UserModel_query_all :: "'w env \<Rightarrow> (('w, 'm) dbs_scheme, user list) prog" where
  "UserModel_query_all E = bnd (pooled_query E QAllUsers) (\<lambda>rows.
     ret (map (\<lambda>row. new_user\<lparr>m_id := atoi (row ! 0), m_name := row ! 1, m_state := row ! 3\<rparr>) rows))"

text \<open>The state written is always one of the two literals of the code.\<close>

definition UserModel_updateState :: "'w env \<Rightarrow> user \<Rightarrow> (('w, 'm) dbs_scheme, bool) prog" where
  "UserModel_updateState E u = pooled_update E (UpdateUserState (m_state u) (m_id u))"

definition UserModel_resetState :: "'w env \<Rightarrow> (('w, 'm) dbs_scheme, unit) prog" where
  "UserModel_resetState E = bnd (pooled_update E ResetUserState) (\<lambda>_. ret ())"

section \<open>What the operations do\<close>

text \<open>The \<open>User\<close> an operation finds in the table, the default one where there is none.\<close>

definition user_record :: "int \<Rightarrow> user_row \<Rightarrow> user" where
  "user_record k r = \<lparr>m_id = k, m_name = u_name r, m_password = u_password r, m_state = u_state r\<rparr>"

definition stored_user :: "db \<Rightarrow> int \<Rightarrow> user" where
  "stored_user d k = (case user_of d k of None \<Rightarrow> new_user | Some r \<Rightarrow> user_record k r)"

lemma user_of_cols [simp]: "user_of_row (user_cols (k, r)) = user_record k r"
  by (simp add: user_of_row_def user_cols_def user_record_def new_user_def)

definition named :: "(string \<Rightarrow> string) \<Rightarrow> string \<Rightarrow> db \<Rightarrow> user \<Rightarrow> bool" where
  "named ci n d u \<longleftrightarrow>
     (if \<exists>(k, r) \<in> set (t_user d). ci (u_name r) = ci n
      then \<exists>(k, r) \<in> set (t_user d). ci (u_name r) = ci n \<and> u = user_record k r
      else u = new_user)"

lemma first_user_named:
  assumes "mset rows = mset (select_rows ci (QUserByName n) d)"
  shows "named ci n d (first_user rows)"
proof (cases rows)
  case Nil
  with assms show ?thesis by (auto simp: named_def first_user_def filter_empty_conv)
next
  case (Cons row rest)
  with assms have "row \<in> set (select_rows ci (QUserByName n) d)"
    by (metis list.set_intros(1) mset_eq_setD)
  then obtain k r where "(k, r) \<in> set (t_user d)" "ci (u_name r) = ci n" "row = user_cols (k, r)"
    by auto
  with Cons show ?thesis by (auto simp: named_def first_user_def intro!: bexI [of _ "(k, r)"])
qed

context services
begin

lemma UserModel_insert_runs:
  assumes granted: "\<And>i s'. frame s s' \<Longrightarrow> run_stmt ci i (InsertUser (c_str (m_name u))
        (c_str (m_password u)) (c_str (m_state u))) (view (world s)) = Some (view (world s')) \<Longrightarrow>
      Q (True, u\<lparr>m_id := i\<rparr>) s'"
    and failed: "\<And>s'. frame s s' \<Longrightarrow> view (world s') = view (world s) \<Longrightarrow> Q (False, u) s'"
    and stuck: "m_pool s = [] \<Longrightarrow> B PoolEmpty" "B SqlOverrun" "B SqlInjected"
  shows "runs (UserModel_insert E u) s Q X B"
  unfolding UserModel_insert_def
proof (rule runs_guarded [OF stuck(2,3)], cases "pool_take (m_pool s)")
  let ?st = "InsertUser (c_str (m_name u)) (c_str (m_password u)) (c_str (m_state u))"
  let ?m = "bnd getConnection (\<lambda>c. bnd (mysql_update E ?st) (\<lambda>ok.
        if ok then bnd (reads (\<lambda>s. mysql_insert_id E (world s))) (\<lambda>i.
          andthen (releaseConnection c) (ret (True, u\<lparr>m_id := i\<rparr>)))
        else andthen (releaseConnection c) (ret (False, u))))"
  {
    case None
    then have "m_pool s = []" by (cases "m_pool s") simp_all
    with None stuck(1) show "runs ?m s Q X B" by (simp add: runs_def getConnection_def bnd_apply)
  next
    case (Some cq)
    then obtain c q where cq: "pool_take (m_pool s) = Some (c, q)" by (cases cq) auto
    have "is_auto ?st" by simp
    then show "runs ?m s Q X B"
    proof (cases rule: exec_auto_cases [where w = "world s"])
      case (inserted i w)
      moreover have "Q (True, u\<lparr>m_id := i\<rparr>) (s\<lparr>world := w, m_pool := pool_give c q\<rparr>)"
        by (rule granted [OF queue_frame [OF cq]]) (use inserted in simp)
      ultimately show ?thesis using cq
        by (simp add: runs_def getConnection_def bnd_apply andthen_apply mysql_update_def
            releaseConnection_def)
    next
      case (refused w)
      with failed [OF queue_frame [OF cq], of w] cq show ?thesis
        by (simp add: runs_def getConnection_def bnd_apply andthen_apply mysql_update_def
            releaseConnection_def)
    qed
  }
qed

lemma query_name_does:
  assumes "B SqlOverrun" and "B SqlInjected" and "\<And>b. \<not> ready s \<Longrightarrow> B b"
    and "\<And>u s'. frame s s' \<Longrightarrow> view (world s') = view (world s) \<Longrightarrow> Q u s'"
  shows "runs (UserModel_query_name E n) s Q X B"
  unfolding UserModel_query_name_def
  by (rule runs_guarded [OF assms(1,2)], rule runs_bnd, rule finds_runs [OF query_tried])
    (simp_all add: assms)

lemma query_all_tried: "does view (UserModel_query_all E) (finds (\<lambda>_ _. True))"
  unfolding UserModel_query_all_def by (rule finds_bnd_ret [OF query_tried]) simp

lemma resetState_tried:
  "does view (UserModel_resetState E) (\<lambda>d x d'. \<exists>ok. tried ci ResetUserState d ok d')"
  unfolding UserModel_resetState_def by (rule does_drop [OF update_tried])

lemma query_id_tried:
  "does view (UserModel_query_id E k) (finds (\<lambda>d u. u = new_user \<or> u = stored_user d k))"
  unfolding UserModel_query_id_def
  by (rule finds_bnd_ret [OF query_tried])
    (auto simp: first_user_def stored_user_def split: option.splits)

lemma updateState_tried:
  "does view (UserModel_updateState E u) (tried ci (UpdateUserState (m_state u) (m_id u)))"
  unfolding UserModel_updateState_def by (rule update_tried)

end

context reliable_services
begin

lemma query_id_sure: "does view (UserModel_query_id E k) (finds (\<lambda>d u. u = stored_user d k))"
  unfolding UserModel_query_id_def
  by (rule finds_bnd_ret [OF query_sure])
    (auto simp: first_user_def stored_user_def split: option.splits)

lemma query_name_sure:
  assumes "length (sql_user_by_name n) < 1024" and "plain (c_str n)"
  shows "does view (UserModel_query_name E n) (finds (named ci (c_str n)))"
proof -
  have "does view (bnd (pooled_query E (QUserByName (c_str n))) (\<lambda>rows. ret (first_user rows)))
      (finds (named ci (c_str n)))"
    by (rule finds_bnd_ret [OF query_sure]) (metis answers.simps(5) first_user_named)
  with assms show ?thesis by (simp add: UserModel_query_name_def guarded_plain)
qed

lemma query_name_named:
  assumes "\<And>u s'. frame s s' \<Longrightarrow> view (world s') = view (world s) \<Longrightarrow>
      named ci (c_str n) (view (world s)) u \<Longrightarrow> Q u s'"
    and "\<And>b. \<not> ready s \<Longrightarrow> B b" and "B SqlOverrun" and "B SqlInjected"
  shows "runs (UserModel_query_name E n) s Q X B"
proof -
  have m: "does view (bnd (pooled_query E (QUserByName (c_str n))) (\<lambda>rows. ret (first_user rows)))
      (finds (named ci (c_str n)))"
    by (rule finds_bnd_ret [OF query_sure]) (metis answers.simps(5) first_user_named)
  show ?thesis
    unfolding UserModel_query_name_def
    by (rule runs_guarded [OF assms(3,4)], rule finds_runs [OF m]) (auto simp: assms(1,2))
qed

lemma updateState_sure:
  "does view (UserModel_updateState E u) (sure ci (UpdateUserState (m_state u) (m_id u)))"
  unfolding UserModel_updateState_def by (rule update_sure) simp_all

end

end
