(* ===== verification/Friend_Model.thy ===== *)
theory Friend_Model
  imports User_Model
begin

text \<open>\<open>project/model/friendmodel.cc\<close>: the operations on the friend table.\<close>

definition FriendModel_insert :: "'w env \<Rightarrow> int \<Rightarrow> int \<Rightarrow> string \<Rightarrow> (('w, 'm) dbs_scheme, unit) prog" where
  "FriendModel_insert E userid friendid state =
     bnd (pooled_update E (InsertFriend userid friendid state)) (\<lambda>_. ret ())"

definition FriendModel_modify :: "'w env \<Rightarrow> int \<Rightarrow> int \<Rightarrow> string \<Rightarrow> (('w, 'm) dbs_scheme, unit) prog" where
  "FriendModel_modify E userid friendid state =
     bnd (pooled_update E (UpdateFriend state userid friendid)) (\<lambda>_. ret ())"

definition FriendModel_deleteEach :: "'w env \<Rightarrow> int \<Rightarrow> int \<Rightarrow> (('w, 'm) dbs_scheme, unit) prog" where
  "FriendModel_deleteEach E userid friendid =
     bnd (pooled_update E (DeleteFriendEach userid friendid)) (\<lambda>_. ret ())"

definition FriendModel_query :: "'w env \<Rightarrow> int \<Rightarrow> (('w, 'm) dbs_scheme, user list) prog" where
  "FriendModel_query E userid = bnd (pooled_query E (QFriends userid)) (\<lambda>rows.
     ret (map (\<lambda>row. new_user\<lparr>m_id := atoi (row ! 0), m_name := row ! 1, m_state := row ! 2\<rparr>)
       (filter (\<lambda>row. row ! 3 \<noteq> ''block'') rows)))"

text \<open>
  The second half of \<open>requestQuery\<close> and \<open>blockQuery\<close>: one query by id for each number found.
  Column 2 of \<open>SELECT * FROM user\<close> is the password, and it is stored as the state.
\<close>

fun users_by_ids :: "'w env \<Rightarrow> int list \<Rightarrow> (('w, 'm) dbs_scheme, user list) prog" where
  "users_by_ids E [] = ret []"
| "users_by_ids E (i # is) =
     bnd (pooled_query E (QUserById i)) (\<lambda>rows.
     bnd (users_by_ids E is) (\<lambda>us.
     ret (map (\<lambda>row. new_user\<lparr>m_id := atoi (row ! 0), m_name := row ! 1, m_state := row ! 2\<rparr>) rows @ us)))"

definition FriendModel_requestQuery :: "'w env \<Rightarrow> int \<Rightarrow> (('w, 'm) dbs_scheme, user list) prog" where
  "FriendModel_requestQuery E friendid = bnd (pooled_query E (QFriendRequests friendid)) (\<lambda>rows.
     users_by_ids E (map (\<lambda>row. atoi (row ! 0)) rows))"

definition FriendModel_blockQuery :: "'w env \<Rightarrow> int \<Rightarrow> (('w, 'm) dbs_scheme, user list) prog" where
  "FriendModel_blockQuery E userid = bnd (pooled_query E (QFriendBlocks userid)) (\<lambda>rows.
     users_by_ids E (map (\<lambda>row. atoi (row ! 1)) rows))"

text \<open>The empty string stands for no row.\<close>

definition FriendModel_getState :: "'w env \<Rightarrow> int \<Rightarrow> int \<Rightarrow> (('w, 'm) dbs_scheme, string) prog" where
  "FriendModel_getState E userid friendid = bnd (pooled_query E (QFriendState userid friendid)) (\<lambda>rows.
     ret (case rows of [] \<Rightarrow> [] | row # _ \<Rightarrow> row ! 0))"

section \<open>What the operations do\<close>

definition friend_state :: "db \<Rightarrow> int \<Rightarrow> int \<Rightarrow> string" where
  "friend_state d a b = (case friend_of d a b of None \<Rightarrow> [] | Some s \<Rightarrow> s)"

text \<open>The list a user gets: every row of his but the blocked ones, so his own open requests too.\<close>

definition friend_list :: "db \<Rightarrow> int \<Rightarrow> user list" where
  "friend_list d a = concat (map (\<lambda>(k, u). case friend_of d a k of None \<Rightarrow> []
     | Some s \<Rightarrow> if s = ''block'' then []
         else [new_user\<lparr>m_id := k, m_name := u_name u, m_state := u_state u\<rparr>]) (t_user d))"

lemma friend_rows:
  assumes "mset rows = mset (select_rows ci (QFriends a) d)"
  shows "mset (map (\<lambda>row. new_user\<lparr>m_id := atoi (row ! 0), m_name := row ! 1, m_state := row ! 2\<rparr>)
       (filter (\<lambda>row. row ! 3 \<noteq> ''block'') rows)) = mset (friend_list d a)"
proof -
  let ?f = "\<lambda>row. new_user\<lparr>m_id := atoi (row ! 0), m_name := row ! 1, m_state := row ! 2\<rparr>"
  let ?P = "\<lambda>row. row ! 3 \<noteq> ''block''"
  have rows: "map ?f (filter ?P (concat (map (\<lambda>(k, u). case friend_of d a k of None \<Rightarrow> []
       | Some s \<Rightarrow> [[itos k, u_name u, u_state u, s]]) us)))
    = concat (map (\<lambda>(k, u). case friend_of d a k of None \<Rightarrow> []
     | Some s \<Rightarrow> if s = ''block'' then []
         else [new_user\<lparr>m_id := k, m_name := u_name u, m_state := u_state u\<rparr>]) us)" for us
    by (induction us) (auto split: option.splits)
  have "mset (map ?f (filter ?P rows)) = image_mset ?f (filter_mset ?P (mset rows))" by simp
  also have "\<dots> = mset (map ?f (filter ?P (select_rows ci (QFriends a) d)))"
    unfolding assms by (simp only: mset_map mset_filter)
  finally show ?thesis by (simp only: rows friend_list_def select_rows.simps)
qed

context services
begin

lemma friend_insert_tried:
  "does view (FriendModel_insert E a b s) (\<lambda>d u d'. \<exists>ok. tried ci (InsertFriend a b s) d ok d')"
  unfolding FriendModel_insert_def by (rule does_drop [OF update_tried])

lemma friend_modify_tried:
  "does view (FriendModel_modify E a b s) (\<lambda>d u d'. \<exists>ok. tried ci (UpdateFriend s a b) d ok d')"
  unfolding FriendModel_modify_def by (rule does_drop [OF update_tried])

lemma friend_delete_tried:
  "does view (FriendModel_deleteEach E a b) (\<lambda>d u d'. \<exists>ok. tried ci (DeleteFriendEach a b) d ok d')"
  unfolding FriendModel_deleteEach_def by (rule does_drop [OF update_tried])

lemma friend_query_tried: "does view (FriendModel_query E a) (finds (\<lambda>_ _. True))"
  unfolding FriendModel_query_def by (rule finds_bnd_ret [OF query_tried]) simp

lemma users_by_ids_tried: "does view (users_by_ids E ks) (finds (\<lambda>_ _. True))"
proof (induction ks)
  case Nil
  show ?case unfolding users_by_ids.simps by (rule does_mono [OF does_ret]) (auto simp: finds_def)
next
  case (Cons k ks)
  show ?case unfolding users_by_ids.simps
    by (rule does_mono [OF does_bnd [OF query_tried finds_bnd_ret [OF Cons.IH]]])
      (auto simp: finds_def)
qed

lemma requestQuery_tried: "does view (FriendModel_requestQuery E b) (finds (\<lambda>_ _. True))"
  and blockQuery_tried: "does view (FriendModel_blockQuery E b) (finds (\<lambda>_ _. True))"
  unfolding FriendModel_requestQuery_def FriendModel_blockQuery_def
  by (rule does_mono [OF does_bnd [OF query_tried users_by_ids_tried]]; auto simp: finds_def)+

lemma getState_tried:
  "does view (FriendModel_getState E a b) (finds (\<lambda>d x. x = [] \<or> x = friend_state d a b))"
  unfolding FriendModel_getState_def
  by (rule finds_bnd_ret [OF query_tried]) (auto simp: friend_state_def split: option.splits)

end

context reliable_services
begin

lemma friend_insert_sure:
  "does view (FriendModel_insert E a b s) (\<lambda>d u d'. \<exists>ok. sure ci (InsertFriend a b s) d ok d')"
  unfolding FriendModel_insert_def by (rule does_drop [OF update_sure]) simp_all

lemma friend_modify_sure:
  "does view (FriendModel_modify E a b s) (\<lambda>d u d'. \<exists>ok. sure ci (UpdateFriend s a b) d ok d')"
  unfolding FriendModel_modify_def by (rule does_drop [OF update_sure]) simp_all

lemma friend_delete_sure:
  "does view (FriendModel_deleteEach E a b) (\<lambda>d u d'. \<exists>ok. sure ci (DeleteFriendEach a b) d ok d')"
  unfolding FriendModel_deleteEach_def by (rule does_drop [OF update_sure]) simp_all

lemma friend_query_sure:
  "does view (FriendModel_query E a) (finds (\<lambda>d us. mset us = mset (friend_list d a)))"
  unfolding FriendModel_query_def
  by (rule finds_bnd_ret [OF query_sure]) (rule friend_rows, simp only: answers.simps)

lemma getState_sure:
  "does view (FriendModel_getState E a b) (finds (\<lambda>d x. x = friend_state d a b))"
  unfolding FriendModel_getState_def
  by (rule finds_bnd_ret [OF query_sure]) (auto simp: friend_state_def split: option.splits)

end

end
