(* ===== verification/Group_Model.thy ===== *)
theory Group_Model
  imports User_Model
begin

text \<open>
  \<open>project/model/group.h\<close> and \<open>groupmodel.cc\<close>: the class \<open>Group\<close> and the operations on the
  tables \<open>AllGroup\<close> and \<open>GroupUser\<close>.  A member query returns users whose state is the role.
\<close>

record group =
  g_id :: int
  g_name :: string
  g_role :: string

definition new_group :: group where
  "new_group = \<lparr>g_id = -1, g_name = [], g_role = []\<rparr>"

definition sql_create_group :: "group \<Rightarrow> string" where
  "sql_create_group g = ''insert into AllGroup(groupname) values('' @ quoted (c_str (g_name g)) @ '')''"

text \<open>When the insert fails, the function returns without giving the connection back.\<close>

definition GroupModel_createGroup :: "'w env \<Rightarrow> group \<Rightarrow> (('w, 'm) dbs_scheme, bool \<times> group) prog" where
  "GroupModel_createGroup E g =
     guarded (sql_create_group g) [c_str (g_name g)]
       (bnd getConnection (\<lambda>c.
        bnd (mysql_update E (InsertGroup (c_str (g_name g)))) (\<lambda>ok.
        if ok then
          bnd (reads (\<lambda>s. mysql_insert_id E (world s))) (\<lambda>i.
          andthen (releaseConnection c) (ret (True, g\<lparr>g_id := i\<rparr>)))
        else ret (False, g))))"

definition GroupModel_addGroup ::
    "'w env \<Rightarrow> int \<Rightarrow> int \<Rightarrow> string \<Rightarrow> (('w, 'm) dbs_scheme, bool) prog" where
  "GroupModel_addGroup E userid groupid role = pooled_update E (InsertMember groupid userid role)"

definition GroupModel_modifyGroupRole ::
    "'w env \<Rightarrow> int \<Rightarrow> int \<Rightarrow> string \<Rightarrow> (('w, 'm) dbs_scheme, unit) prog" where
  "GroupModel_modifyGroupRole E userid groupid role =
     bnd (pooled_update E (UpdateRole role userid groupid)) (\<lambda>_. ret ())"

definition GroupModel_queryAllGroup :: "'w env \<Rightarrow> (('w, 'm) dbs_scheme, group list) prog" where
  "GroupModel_queryAllGroup E = bnd (pooled_query E QAllGroups) (\<lambda>rows.
     ret (map (\<lambda>row. new_group\<lparr>g_id := atoi (row ! 0), g_name := row ! 1\<rparr>) rows))"

definition GroupModel_queryOwnGroup :: "'w env \<Rightarrow> int \<Rightarrow> (('w, 'm) dbs_scheme, group list) prog" where
  "GroupModel_queryOwnGroup E userid = bnd (pooled_query E (QOwnGroups userid)) (\<lambda>rows.
     ret (map (\<lambda>row. new_group\<lparr>g_id := atoi (row ! 0), g_name := row ! 1, g_role := row ! 2\<rparr>) rows))"

definition member_of_row :: "string list \<Rightarrow> user" where
  "member_of_row row = new_user\<lparr>m_id := atoi (row ! 0), m_name := row ! 1, m_state := row ! 2\<rparr>"

definition GroupModel_queryGroupRequest :: "'w env \<Rightarrow> int \<Rightarrow> (('w, 'm) dbs_scheme, user list) prog" where
  "GroupModel_queryGroupRequest E groupid =
     bnd (pooled_query E (QGroupRequests groupid)) (\<lambda>rows. ret (map member_of_row rows))"

definition GroupModel_queryGroupMember :: "'w env \<Rightarrow> int \<Rightarrow> (('w, 'm) dbs_scheme, user list) prog" where
  "GroupModel_queryGroupMember E groupid =
     bnd (pooled_query E (QGroupMembers groupid)) (\<lambda>rows. ret (map member_of_row rows))"

definition GroupModel_queryGroupRole :: "'w env \<Rightarrow> int \<Rightarrow> int \<Rightarrow> (('w, 'm) dbs_scheme, string) prog" where
  "GroupModel_queryGroupRole E userid groupid = bnd (pooled_query E (QRole userid groupid)) (\<lambda>rows.
     ret (case rows of [] \<Rightarrow> [] | row # _ \<Rightarrow> row ! 0))"

definition GroupModel_queryGroupName :: "'w env \<Rightarrow> int \<Rightarrow> (('w, 'm) dbs_scheme, string) prog" where
  "GroupModel_queryGroupName E groupid = bnd (pooled_query E (QGroupName groupid)) (\<lambda>rows.
     ret (case rows of [] \<Rightarrow> [] | row # _ \<Rightarrow> row ! 0))"

definition GroupModel_ifMaster :: "'w env \<Rightarrow> int \<Rightarrow> int \<Rightarrow> (('w, 'm) dbs_scheme, bool) prog" where
  "GroupModel_ifMaster E userid groupid =
     bnd (pooled_query E (QHasRole userid groupid [''master''])) (\<lambda>rows. ret (rows \<noteq> []))"

definition GroupModel_ifManager :: "'w env \<Rightarrow> int \<Rightarrow> int \<Rightarrow> (('w, 'm) dbs_scheme, bool) prog" where
  "GroupModel_ifManager E userid groupid =
     bnd (pooled_query E (QHasRole userid groupid [''manager''])) (\<lambda>rows. ret (rows \<noteq> []))"

definition GroupModel_ifMasterOrManager :: "'w env \<Rightarrow> int \<Rightarrow> int \<Rightarrow> (('w, 'm) dbs_scheme, bool) prog" where
  "GroupModel_ifMasterOrManager E userid groupid =
     bnd (pooled_query E (QHasRole userid groupid [''master'', ''manager''])) (\<lambda>rows. ret (rows \<noteq> []))"

definition GroupModel_ifManagerOrNormal :: "'w env \<Rightarrow> int \<Rightarrow> int \<Rightarrow> (('w, 'm) dbs_scheme, bool) prog" where
  "GroupModel_ifManagerOrNormal E userid groupid =
     bnd (pooled_query E (QHasRole userid groupid [''manager'', ''normal''])) (\<lambda>rows. ret (rows \<noteq> []))"

definition GroupModel_ifMasterOrManagerORnormal ::
    "'w env \<Rightarrow> int \<Rightarrow> int \<Rightarrow> (('w, 'm) dbs_scheme, bool) prog" where
  "GroupModel_ifMasterOrManagerORnormal E userid groupid =
     bnd (pooled_query E (QHasRole userid groupid [''master'', ''manager'', ''normal'']))
       (\<lambda>rows. ret (rows \<noteq> []))"

definition GroupModel_deleteGroupMember :: "'w env \<Rightarrow> int \<Rightarrow> int \<Rightarrow> (('w, 'm) dbs_scheme, unit) prog" where
  "GroupModel_deleteGroupMember E userid groupid =
     bnd (pooled_update E (DeleteMember userid groupid)) (\<lambda>_. ret ())"

text \<open>Two statements, on two connections, and no transaction.\<close>

definition GroupModel_deleteGroup :: "'w env \<Rightarrow> int \<Rightarrow> (('w, 'm) dbs_scheme, unit) prog" where
  "GroupModel_deleteGroup E groupid =
     bnd (pooled_update E (DeleteGroup groupid)) (\<lambda>_.
     bnd (pooled_update E (DeleteGroupMembers groupid)) (\<lambda>_. ret ()))"

section \<open>What the operations do\<close>

definition role_string :: "db \<Rightarrow> int \<Rightarrow> int \<Rightarrow> string" where
  "role_string d g u = (case role_of d g u of None \<Rightarrow> [] | Some r \<Rightarrow> r)"

definition has_role :: "db \<Rightarrow> int \<Rightarrow> int \<Rightarrow> string list \<Rightarrow> bool" where
  "has_role d g u rs \<longleftrightarrow> (case role_of d g u of None \<Rightarrow> False | Some r \<Rightarrow> r \<in> set rs)"

definition all_groups :: "db \<Rightarrow> group list" where
  "all_groups d = map (\<lambda>(g, n). new_group\<lparr>g_id := g, g_name := n\<rparr>) (t_group d)"

text \<open>The users with a role for which \<open>P\<close> holds, as the \<open>User\<close> objects the model functions build.\<close>

definition users_with_role :: "db \<Rightarrow> int \<Rightarrow> (string \<Rightarrow> bool) \<Rightarrow> user list" where
  "users_with_role d g P = map member_of_row (member_rows d g P)"

lemma users_with_role_iff: "u \<in> set (users_with_role d g P) \<longleftrightarrow>
    (\<exists>k v r. (k, v) \<in> set (t_user d) \<and> role_of d g k = Some r \<and> P r \<and>
       u = new_user\<lparr>m_id := k, m_name := u_name v, m_state := r\<rparr>)"
  by (force simp: users_with_role_def member_rows_def member_of_row_def split: option.splits if_splits)

lemma role_rows: "mset rows = mset (case role_of d g u of None \<Rightarrow> []
      | Some r \<Rightarrow> if r \<in> set rs then [[itos g, itos u, r]] else []) \<Longrightarrow>
    (rows \<noteq> []) = has_role d g u rs"
  by (auto simp: has_role_def split: option.splits if_splits)

lemma role_rows_tried: "rows = [] \<or> mset rows = mset (case role_of d g u of None \<Rightarrow> []
      | Some r \<Rightarrow> if r \<in> set rs then [[itos g, itos u, r]] else []) \<Longrightarrow>
    rows \<noteq> [] \<longrightarrow> has_role d g u rs"
  using role_rows by blast

lemma groups_of_rows: "map (\<lambda>row. new_group\<lparr>g_id := atoi (row ! 0), g_name := row ! 1\<rparr>)
    (map (\<lambda>(k, n). [itos k, n]) xs) = map (\<lambda>(g, n). new_group\<lparr>g_id := g, g_name := n\<rparr>) xs"
  by (induction xs) auto

context services
begin

text \<open>
  \<open>createGroup\<close>: on success the new number is not below \<open>next_group\<close>, on failure the connection
  is gone.
\<close>

lemma createGroup_runs:
  assumes granted: "\<And>i s'. frame s s' \<Longrightarrow>
      run_stmt ci i (InsertGroup (c_str (g_name g))) (view (world s)) = Some (view (world s')) \<Longrightarrow>
      Q (True, g\<lparr>g_id := i\<rparr>) s'"
    and lost: "\<And>c q w. pool_take (m_pool s) = Some (c, q) \<Longrightarrow> view w = view (world s) \<Longrightarrow>
      Q (False, g) (s\<lparr>m_pool := q, world := w\<rparr>)"
    and stuck: "m_pool s = [] \<Longrightarrow> B PoolEmpty" "B SqlOverrun" "B SqlInjected"
  shows "runs (GroupModel_createGroup E g) s Q X B"
proof -
  let ?st = "InsertGroup (c_str (g_name g))"
  have "runs (bnd getConnection (\<lambda>c. bnd (mysql_update E ?st) (\<lambda>ok.
        if ok then bnd (reads (\<lambda>s. mysql_insert_id E (world s))) (\<lambda>i.
          andthen (releaseConnection c) (ret (True, g\<lparr>g_id := i\<rparr>)))
        else ret (False, g)))) s Q X B"
  proof (cases "pool_take (m_pool s)")
    case None
    then have "m_pool s = []" by (cases "m_pool s") simp_all
    with None stuck(1) show ?thesis by (simp add: runs_def getConnection_def bnd_apply)
  next
    case (Some cq)
    then obtain c q where cq: "pool_take (m_pool s) = Some (c, q)" by (cases cq) auto
    have "is_auto ?st" by simp
    then show ?thesis
    proof (cases rule: exec_auto_cases [where w = "world s"])
      case (inserted i w)
      moreover have "Q (True, g\<lparr>g_id := i\<rparr>) (s\<lparr>world := w, m_pool := pool_give c q\<rparr>)"
        by (rule granted [OF queue_frame [OF cq]]) (use inserted in simp)
      ultimately show ?thesis using cq
        by (simp add: runs_def getConnection_def bnd_apply andthen_apply mysql_update_def
            releaseConnection_def)
    next
      case (refused w)
      with lost [OF cq, of w] cq show ?thesis
        by (simp add: runs_def getConnection_def bnd_apply mysql_update_def)
    qed
  qed
  with stuck show ?thesis
    by (simp add: GroupModel_createGroup_def runs_guarded)
qed

lemma addGroup_tried: "does view (GroupModel_addGroup E u g r) (tried ci (InsertMember g u r))"
  unfolding GroupModel_addGroup_def by (rule update_tried)

lemma modifyGroupRole_tried:
  "does view (GroupModel_modifyGroupRole E u g r) (\<lambda>d x d'. \<exists>ok. tried ci (UpdateRole r u g) d ok d')"
  unfolding GroupModel_modifyGroupRole_def by (rule does_drop [OF update_tried])

lemma deleteGroupMember_tried:
  "does view (GroupModel_deleteGroupMember E u g) (\<lambda>d x d'. \<exists>ok. tried ci (DeleteMember u g) d ok d')"
  unfolding GroupModel_deleteGroupMember_def by (rule does_drop [OF update_tried])

lemma deleteGroup_tried:
  "does view (GroupModel_deleteGroup E g) (\<lambda>d x d''. \<exists>ok d'. tried ci (DeleteGroup g) d ok d' \<and>
     (\<exists>ok'. tried ci (DeleteGroupMembers g) d' ok' d''))"
  unfolding GroupModel_deleteGroup_def
  by (rule does_mono [OF does_bnd [OF update_tried does_drop [OF update_tried]]]) blast

lemma queryAllGroup_tried:
  "does view (GroupModel_queryAllGroup E) (finds (\<lambda>d gs. gs = [] \<or> mset gs = mset (all_groups d)))"
  unfolding GroupModel_queryAllGroup_def all_groups_def groups_of_rows [symmetric]
  by (rule finds_map_tried) (use query_tried [of QAllGroups] in simp)

lemma queryGroupMember_tried:
  "does view (GroupModel_queryGroupMember E g)
     (finds (\<lambda>d us. us = [] \<or> mset us = mset (users_with_role d g (\<lambda>r. r \<noteq> ''request''))))"
  unfolding GroupModel_queryGroupMember_def users_with_role_def
  by (rule finds_map_tried) (use query_tried [of "QGroupMembers g"] in simp)

lemma queryGroupRequest_tried:
  "does view (GroupModel_queryGroupRequest E g)
     (finds (\<lambda>d us. us = [] \<or> mset us = mset (users_with_role d g (\<lambda>r. r = ''request''))))"
  unfolding GroupModel_queryGroupRequest_def users_with_role_def
  by (rule finds_map_tried) (use query_tried [of "QGroupRequests g"] in simp)

lemma queryOwnGroup_tried: "does view (GroupModel_queryOwnGroup E u) (finds (\<lambda>_ _. True))"
  unfolding GroupModel_queryOwnGroup_def by (rule finds_bnd_ret [OF query_tried]) simp

lemma queryGroupRole_tried:
  "does view (GroupModel_queryGroupRole E u g) (finds (\<lambda>d x. x = [] \<or> x = role_string d g u))"
  unfolding GroupModel_queryGroupRole_def
  by (rule finds_bnd_ret [OF query_tried]) (auto simp: role_string_def split: option.splits)

lemma has_role_tried:
  "does view (bnd (pooled_query E (QHasRole u g rs)) (\<lambda>rows. ret (rows \<noteq> [])))
     (finds (\<lambda>d b. b \<longrightarrow> has_role d g u rs))"
  by (rule finds_bnd_ret [OF query_tried]) (rule role_rows_tried, simp)

lemmas ifMaster_tried = has_role_tried [of _ _ "[''master'']", folded GroupModel_ifMaster_def]
  and ifManager_tried = has_role_tried [of _ _ "[''manager'']", folded GroupModel_ifManager_def]
  and ifMasterOrManager_tried =
    has_role_tried [of _ _ "[''master'', ''manager'']", folded GroupModel_ifMasterOrManager_def]
  and ifManagerOrNormal_tried =
    has_role_tried [of _ _ "[''manager'', ''normal'']", folded GroupModel_ifManagerOrNormal_def]
  and ifMember_tried = has_role_tried [of _ _ "[''master'', ''manager'', ''normal'']",
    folded GroupModel_ifMasterOrManagerORnormal_def]

end

context reliable_services
begin

lemma addGroup_sure: "does view (GroupModel_addGroup E u g r) (sure ci (InsertMember g u r))"
  unfolding GroupModel_addGroup_def by (rule update_sure) simp_all

lemma modifyGroupRole_sure:
  "does view (GroupModel_modifyGroupRole E u g r) (\<lambda>d x d'. \<exists>ok. sure ci (UpdateRole r u g) d ok d')"
  unfolding GroupModel_modifyGroupRole_def by (rule does_drop [OF update_sure]) simp_all

lemma deleteGroupMember_sure:
  "does view (GroupModel_deleteGroupMember E u g) (\<lambda>d x d'. \<exists>ok. sure ci (DeleteMember u g) d ok d')"
  unfolding GroupModel_deleteGroupMember_def by (rule does_drop [OF update_sure]) simp_all

lemma deleteGroup_sure:
  "does view (GroupModel_deleteGroup E g) (\<lambda>d x d''. \<exists>ok d'. sure ci (DeleteGroup g) d ok d' \<and>
     (\<exists>ok'. sure ci (DeleteGroupMembers g) d' ok' d''))"
  unfolding GroupModel_deleteGroup_def
  by (rule does_mono [OF does_bnd [OF update_sure does_drop [OF update_sure]]]) (auto simp only: st_fits.simps is_auto.simps)

lemma queryAllGroup_sure:
  "does view (GroupModel_queryAllGroup E) (finds (\<lambda>d gs. mset gs = mset (all_groups d)))"
  unfolding GroupModel_queryAllGroup_def all_groups_def groups_of_rows [symmetric]
  by (rule finds_map, rule does_mono [OF query_sure]) (simp add: finds_def)

lemma queryGroupMember_sure:
  "does view (GroupModel_queryGroupMember E g)
     (finds (\<lambda>d us. mset us = mset (users_with_role d g (\<lambda>r. r \<noteq> ''request''))))"
  unfolding GroupModel_queryGroupMember_def users_with_role_def
  by (rule finds_map, rule does_mono [OF query_sure]) (simp add: finds_def)

lemma queryGroupRole_sure:
  "does view (GroupModel_queryGroupRole E u g) (finds (\<lambda>d x. x = role_string d g u))"
  unfolding GroupModel_queryGroupRole_def
  by (rule finds_bnd_ret [OF query_sure]) (auto simp: role_string_def split: option.splits)

lemma has_role_sure:
  "does view (bnd (pooled_query E (QHasRole u g rs)) (\<lambda>rows. ret (rows \<noteq> [])))
     (finds (\<lambda>d b. b = has_role d g u rs))"
  by (rule finds_bnd_ret [OF query_sure]) (rule role_rows, simp)

lemmas ifMaster_sure = has_role_sure [of _ _ "[''master'']", folded GroupModel_ifMaster_def]
  and ifManager_sure = has_role_sure [of _ _ "[''manager'']", folded GroupModel_ifManager_def]
  and ifMasterOrManager_sure =
    has_role_sure [of _ _ "[''master'', ''manager'']", folded GroupModel_ifMasterOrManager_def]
  and ifManagerOrNormal_sure =
    has_role_sure [of _ _ "[''manager'', ''normal'']", folded GroupModel_ifManagerOrNormal_def]
  and ifMember_sure = has_role_sure [of _ _ "[''master'', ''manager'', ''normal'']",
    folded GroupModel_ifMasterOrManagerORnormal_def]

end

end
