(* ===== verification/History_Model.thy ===== *)
theory History_Model
  imports Pool
begin

text \<open>
  \<open>project/model/historymodel.cc\<close>, \<open>filemodel.cc\<close> and their row classes.  These two models open
  a connection of their own instead of taking one from the pool.
\<close>

record file_entry =
  f_sender :: int
  f_receiver :: int
  f_name :: string
  f_time :: string

definition own_query :: "'w env \<Rightarrow> query \<Rightarrow> (('w, 'm) dbs_scheme, string list list) prog" where
  "own_query E q = bnd (mysql_connect E) (\<lambda>up.
     if up then bnd (mysql_query E q) (\<lambda>r. ret (rows_of r)) else ret [])"

definition queryPrivateHistory ::
    "'w env \<Rightarrow> int \<Rightarrow> int \<Rightarrow> nat \<Rightarrow> (('w, 'm) dbs_scheme, private_row list) prog" where
  "queryPrivateHistory E sender_id receiver_id limit =
     bnd (own_query E (QPrivateHistory sender_id receiver_id limit)) (\<lambda>rows.
     ret (map (\<lambda>row. \<lparr>p_sender = atoi (row ! 1), p_receiver = atoi (row ! 2),
       p_message = row ! 3, p_time = row ! 4\<rparr>) rows))"

definition queryGroupHistory :: "'w env \<Rightarrow> int \<Rightarrow> nat \<Rightarrow> (('w, 'm) dbs_scheme, group_row list) prog" where
  "queryGroupHistory E group_id limit =
     bnd (own_query E (QGroupHistory group_id limit)) (\<lambda>rows.
     ret (map (\<lambda>row. \<lparr>q_group = atoi (row ! 1), q_sender = atoi (row ! 2),
       q_message = row ! 3, q_time = row ! 4\<rparr>) rows))"

definition sql_insert_file :: "string \<Rightarrow> int \<Rightarrow> int \<Rightarrow> string" where
  "sql_insert_file name sender receiver =
     ''INSERT INTO file_transfers(`filename`, `senderid`, `receiverid`)  VALUES('' @ quoted (c_str name)
     @ '', '' @ itos sender @ '', '' @ itos receiver
     @ '')  ON DUPLICATE KEY UPDATE      senderid = VALUES(senderid),      receiverid = VALUES(receiverid),      created_at = NOW();''"

definition FileModel_insertFile ::
    "'w env \<Rightarrow> int \<Rightarrow> int \<Rightarrow> string \<Rightarrow> (('w, 'm) dbs_scheme, unit) prog" where
  "FileModel_insertFile E sender_id receiver_id file_name =
     guarded (sql_insert_file file_name sender_id receiver_id) [c_str file_name]
       (bnd (mysql_connect E) (\<lambda>up.
        if up then bnd (mysql_update E (InsertFile (c_str file_name) sender_id receiver_id)) (\<lambda>_. ret ())
        else ret ()))"

definition FileModel_query :: "'w env \<Rightarrow> int \<Rightarrow> (('w, 'm) dbs_scheme, file_entry list) prog" where
  "FileModel_query E receiver_id = bnd (own_query E (QFiles receiver_id)) (\<lambda>rows.
     ret (map (\<lambda>row. \<lparr>f_sender = atoi (row ! 2), f_receiver = atoi (row ! 3),
       f_name = row ! 1, f_time = row ! 4\<rparr>) rows))"

section \<open>What the operations do\<close>

context services
begin

lemma own_query_tried:
  "does view (own_query E q) (finds (\<lambda>d rows. rows = [] \<or> answers ci q d rows))"
  unfolding own_query_def
proof (rule does_mono [OF does_bnd [OF connect_does]])
  fix up
  show "does view (if up then bnd (mysql_query E q) (\<lambda>r. ret (rows_of r)) else ret [])
      (finds (\<lambda>d rows. rows = [] \<or> answers ci q d rows))"
    using finds_bnd_ret [OF mysql_query_does, where f = rows_of
        and R' = "\<lambda>d rows. rows = [] \<or> answers ci q d rows"]
      does_mono [OF does_ret, where D' = "finds (\<lambda>d rows. rows = [] \<or> answers ci q d rows)"]
    by (auto simp: finds_def)
qed (auto simp: finds_def)

lemma queryPrivateHistory_tried: "does view (queryPrivateHistory E a b n) (finds (\<lambda>_ _. True))"
  and queryGroupHistory_tried: "does view (queryGroupHistory E a n) (finds (\<lambda>_ _. True))"
  and FileModel_query_tried: "does view (FileModel_query E a) (finds (\<lambda>_ _. True))"
  unfolding queryPrivateHistory_def queryGroupHistory_def FileModel_query_def
  by (rule finds_bnd_ret [OF own_query_tried], simp)+

lemma insertFile_runs:
  assumes "B SqlOverrun" and "B SqlInjected" and "\<And>b. \<not> ready s \<Longrightarrow> B b"
    and "\<And>s'. frame s s' \<Longrightarrow> view (world s') = view (world s) \<Longrightarrow> Q () s'"
  shows "runs (FileModel_insertFile E a b f) s Q X B"
proof -
  let ?st = "InsertFile (c_str f) a b"
  have "does view (if up then bnd (mysql_update E ?st) (\<lambda>_. ret ()) else ret ()) (finds (\<lambda>_ _. True))"
    for up
    by (cases up; simp only: if_True if_False simp_thms)
      (rule does_mono [OF does_drop [OF mysql_update_tried]] does_mono [OF does_ret],
        auto simp: finds_def tried_def split: if_splits)+
  note branch = this
  have m: "does view (bnd (mysql_connect E)
      (\<lambda>up. if up then bnd (mysql_update E ?st) (\<lambda>_. ret ()) else ret ())) (finds (\<lambda>_ _. True))"
    by (rule does_mono [OF does_bnd [OF connect_does branch]]) (simp add: finds_def)
  show ?thesis
    unfolding FileModel_insertFile_def
    by (rule runs_guarded [OF assms(1,2)], rule finds_runs [OF m]) (auto simp: assms(3,4))
qed

end

end
