(* ===== verification/Cache_Manager.thy ===== *)
theory Cache_Manager
  imports Pool
begin

text \<open>
  \<open>project/model/historyCasheManager.h\<close>: chat messages are pushed as JSON records on two Redis
  lists, and a timer moves them in batches of 100 into the history tables of MySQL.
\<close>

definition private_chat_cache :: string where
  "private_chat_cache = ''private_chat_cache''"

definition group_chat_cache :: string where
  "group_chat_cache = ''group_chat_cache''"

definition private_record :: "string \<Rightarrow> string \<Rightarrow> string \<Rightarrow> string \<Rightarrow> json" where
  "private_record sender_id receiver_id msg time =
     JObj [(''sender_id'', JStr sender_id), (''receiver_id'', JStr receiver_id),
           (''message'', JStr msg), (''timestamp'', JStr time)]"

definition storePrivateMessageInCache ::
    "'w env \<Rightarrow> string \<Rightarrow> string \<Rightarrow> string \<Rightarrow> (('w, 'm) dbs_scheme, unit) prog" where
  "storePrivateMessageInCache E sender_id receiver_id msg =
     bnd (reads (\<lambda>s. current_timestamp E (world s))) (\<lambda>time.
     bnd (rpush E private_chat_cache
       (json_dump E (private_record sender_id receiver_id msg time))) (\<lambda>_. ret ()))"

definition group_record :: "string \<Rightarrow> string \<Rightarrow> string \<Rightarrow> string \<Rightarrow> json" where
  "group_record group_id sender_id msg time =
     JObj [(''group_id'', JStr group_id), (''sender_id'', JStr sender_id),
           (''message'', JStr msg), (''timestamp'', JStr time)]"

definition storeGroupMessageInCache ::
    "'w env \<Rightarrow> string \<Rightarrow> string \<Rightarrow> string \<Rightarrow> (('w, 'm) dbs_scheme, unit) prog" where
  "storeGroupMessageInCache E group_id sender_id msg =
     bnd (reads (\<lambda>s. current_timestamp E (world s))) (\<lambda>time.
     bnd (rpush E group_chat_cache
       (json_dump E (group_record group_id sender_id msg time))) (\<lambda>_. ret ()))"

section \<open>SQL literals\<close>

definition escape_char :: "char \<Rightarrow> string" where
  "escape_char ch = (if ch = CHR 0x27 then [CHR 0x27, CHR 0x27]
     else if ch = CHR 0x5C then [CHR 0x5C, CHR 0x5C] else [ch])"

definition escapeSQLString :: "string \<Rightarrow> string" where
  "escapeSQLString input = concat (map escape_char input)"

text \<open>
  What MySQL reads between the quotes of a string literal: a doubled quote is a quote, a backslash
  escapes the next character.  \<open>None\<close>: the literal ends before the text does.
\<close>

definition mysql_unescape :: "char \<Rightarrow> string" where
  "mysql_unescape c = (if c = CHR ''0'' then [CHR 0x00] else if c = CHR ''b'' then [CHR 0x08]
     else if c = CHR ''n'' then [CHR 0x0A] else if c = CHR ''r'' then [CHR 0x0D]
     else if c = CHR ''t'' then [CHR 0x09] else if c = CHR ''Z'' then [CHR 0x1A]
     else if c = CHR ''%'' then [CHR 0x5C, c] else if c = CHR ''_'' then [CHR 0x5C, c] else [c])"

fun literal_value :: "string \<Rightarrow> string option" where
  "literal_value [] = Some []"
| "literal_value [c] = (if c = CHR 0x27 \<or> c = CHR 0x5C then None else Some [c])"
| "literal_value (c # d # cs) =
     (if c = CHR 0x27 then
        (if d = CHR 0x27 then map_option (\<lambda>s. CHR 0x27 # s) (literal_value cs) else None)
      else if c = CHR 0x5C then map_option (\<lambda>s. mysql_unescape d @ s) (literal_value cs)
      else map_option (\<lambda>s. c # s) (literal_value (d # cs)))"

section \<open>Flushing\<close>

text \<open>
  The four strings that go between quotes into one group of \<open>VALUES\<close>.  A NUL among them ends the
  statement there, because \<open>MySQL::update\<close> passes \<open>sql.c_str()\<close>: the literal stays open and MySQL
  reports a syntax error.
\<close>

type_synonym value_group = "string \<times> string \<times> string \<times> string"

definition has_nul :: "value_group list \<Rightarrow> bool" where
  "has_nul vs \<longleftrightarrow> (\<exists>(a, b, m, t) \<in> set vs. CHR 0x00 \<in> set (a @ b @ m @ t))"

definition literals_closed :: "value_group list \<Rightarrow> bool" where
  "literals_closed vs \<longleftrightarrow> (\<forall>(a, b, m, t) \<in> set vs. plain a \<and> plain b \<and> literal_value m \<noteq> None \<and> plain t)"

definition update_batch ::
    "'w env \<Rightarrow> (value_group list \<Rightarrow> stmt) \<Rightarrow> value_group list \<Rightarrow> (('w, 'm) dbs_scheme, bool) prog" where
  "update_batch E f vs = (if has_nul vs then ret False
     else if literals_closed vs then mysql_update E (f vs) else halt SqlInjected)"

definition private_stmt :: "value_group list \<Rightarrow> stmt" where
  "private_stmt vs = InsertPrivate (map (\<lambda>(a, b, m, t). \<lparr>p_sender = atoi a, p_receiver = atoi b,
     p_message = the (literal_value m), p_time = t\<rparr>) vs)"

definition group_stmt :: "value_group list \<Rightarrow> stmt" where
  "group_stmt vs = InsertGroupChat (map (\<lambda>(a, b, m, t). \<lparr>q_group = atoi a, q_sender = atoi b,
     q_message = the (literal_value m), q_time = t\<rparr>) vs)"

definition str_field :: "json \<Rightarrow> string \<Rightarrow> ('s, string) prog" where
  "str_field js k = lift_option TypeError (js_string js k)"

text \<open>The inner loop over one batch.  The private flush does not catch the parse error.\<close>

fun private_values :: "'w env \<Rightarrow> string list \<Rightarrow> ('s, value_group list) prog" where
  "private_values E [] = ret []"
| "private_values E (r # rs) =
     bnd (lift_option ParseError (json_parse E r)) (\<lambda>rec.
     bnd (str_field rec ''sender_id'') (\<lambda>sender_id.
     bnd (str_field rec ''receiver_id'') (\<lambda>receiver_id.
     bnd (str_field rec ''message'') (\<lambda>msg.
     bnd (str_field rec ''timestamp'') (\<lambda>time.
     bnd (private_values E rs) (\<lambda>vs.
     ret ((sender_id, receiver_id, escapeSQLString msg, time) # vs)))))))"

text \<open>The group flush catches it and goes on with the next record.\<close>

fun group_values :: "'w env \<Rightarrow> string list \<Rightarrow> ('s, value_group list) prog" where
  "group_values E [] = ret []"
| "group_values E (r # rs) =
     (case json_parse E r of None \<Rightarrow> group_values E rs
      | Some rec \<Rightarrow>
        bnd (str_field rec ''group_id'') (\<lambda>group_id.
        bnd (str_field rec ''sender_id'') (\<lambda>sender_id.
        bnd (str_field rec ''message'') (\<lambda>msg.
        bnd (str_field rec ''timestamp'') (\<lambda>time.
        bnd (group_values E rs) (\<lambda>vs.
        ret ((group_id, sender_id, escapeSQLString msg, time) # vs)))))))"

definition batchSize :: nat where
  "batchSize = 100"

text \<open>
  The outer loop: \<open>msgs\<close> are the messages from index \<open>i\<close> on.  It returns whether every batch was
  accepted; the first that is not ends it.
\<close>

function flush_batches :: "'w env \<Rightarrow> (string list \<Rightarrow> (('w, 'm) dbs_scheme, value_group list) prog) \<Rightarrow>
    (value_group list \<Rightarrow> stmt) \<Rightarrow> string list \<Rightarrow> (('w, 'm) dbs_scheme, bool) prog" where
  "flush_batches E vals f msgs =
     (if msgs = [] then ret True
      else bnd (vals (take batchSize msgs)) (\<lambda>vs.
        bnd (update_batch E f vs) (\<lambda>ok.
        if ok then flush_batches E vals f (drop batchSize msgs) else ret False)))"
  by pat_completeness auto
termination
  by (relation "measure (\<lambda>(E, vals, f, msgs). length msgs)") (auto simp: batchSize_def)

declare flush_batches.simps [simp del]

text \<open>The part of a flush that talks to MySQL, on one connection and in one transaction.\<close>

definition write_batches :: "'w env \<Rightarrow> (string list \<Rightarrow> (('w, 'm) dbs_scheme, value_group list) prog) \<Rightarrow>
    (value_group list \<Rightarrow> stmt) \<Rightarrow> string list \<Rightarrow> (('w, 'm) dbs_scheme, unit) prog" where
  "write_batches E vals f cachedMessages =
     bnd getConnection (\<lambda>c.
     bnd (mysql_update E StartTransaction) (\<lambda>_.
     bnd (flush_batches E vals f cachedMessages) (\<lambda>ok.
     if ok then bnd (mysql_update E Commit) (\<lambda>_. releaseConnection c)
     else bnd (mysql_update E Rollback) (\<lambda>_. releaseConnection c))))"

definition flush_list :: "'w env \<Rightarrow> string \<Rightarrow> (string list \<Rightarrow> (('w, 'm) dbs_scheme, value_group list) prog) \<Rightarrow>
    (value_group list \<Rightarrow> stmt) \<Rightarrow> (('w, 'm) dbs_scheme, unit) prog" where
  "flush_list E key vals f =
     bnd (lrange E key) (\<lambda>cachedMessages.
     if cachedMessages = [] then ret ()
     else andthen (ltrim E key) (write_batches E vals f cachedMessages))"

definition flushPrivateChatCache :: "'w env \<Rightarrow> (('w, 'm) dbs_scheme, unit) prog" where
  "flushPrivateChatCache E = flush_list E private_chat_cache (private_values E) private_stmt"

definition flushGroupChatCache :: "'w env \<Rightarrow> (('w, 'm) dbs_scheme, unit) prog" where
  "flushGroupChatCache E = flush_list E group_chat_cache (group_values E) group_stmt"

definition flushCacheToDatabase :: "'w env \<Rightarrow> (('w, 'm) dbs_scheme, unit) prog" where
  "flushCacheToDatabase E = andthen (flushPrivateChatCache E) (flushGroupChatCache E)"

section \<open>What storing a message does\<close>

context services
begin

lemma stored_tried:
  "does view (bnd (reads f) (\<lambda>x. bnd (rpush E key (g x)) (\<lambda>_. ret ())))
     (\<lambda>d u d'. \<exists>val ok. pushed key val d ok d')"
  by (rule doesI, rule runs_bnd, rule runs_reads, rule does_runs [OF does_drop [OF rpush_tried]]) auto

lemma storePrivate_tried: "does view (storePrivateMessageInCache E a b m)
    (\<lambda>d u d'. \<exists>val ok. pushed private_chat_cache val d ok d')"
  and storeGroup_tried: "does view (storeGroupMessageInCache E a b m)
    (\<lambda>d u d'. \<exists>val ok. pushed group_chat_cache val d ok d')"
  unfolding storePrivateMessageInCache_def storeGroupMessageInCache_def by (rule stored_tried)+

end

end
