(* ===== verification/Timestamps.thy ===== *)
theory Timestamps
  imports Prelude "HOL-Library.Signed_Division"
begin

text \<open>
  \<open>project/m_netlib/Base/Timestamp\<close>: a point in time is a number of microseconds since the epoch.
  The library call \<open>gmtime_r\<close> is modelled by the calendar arithmetic it specifies.
\<close>

type_synonym timestamp = int

definition kMicroSecondsPerSecond :: int where
  "kMicroSecondsPerSecond = 1000 * 1000"

definition valid_time :: "timestamp \<Rightarrow> bool" where
  "valid_time t \<longleftrightarrow> t > 0"

definition invalid_time :: timestamp where
  "invalid_time = 0"

text \<open>The interval is given in microseconds, after the conversion from \<open>double\<close>.\<close>

definition addTime :: "timestamp \<Rightarrow> int \<Rightarrow> timestamp" where
  "addTime t delta = t + delta"

definition pad :: "char \<Rightarrow> nat \<Rightarrow> int \<Rightarrow> string" where
  "pad c w i = replicate (w - length (itos i)) c @ itos i"

text \<open>Year, month and day of a day number counted from 1970-01-01.\<close>

definition civil :: "int \<Rightarrow> int \<times> int \<times> int" where
  "civil z =
     (let z' = z + 719468;
          era = z' div 146097;
          doe = z' mod 146097;
          yoe = (doe - doe div 1460 + doe div 36524 - doe div 146096) div 365;
          doy = doe - (365 * yoe + yoe div 4 - yoe div 100);
          mp = (5 * doy + 2) div 153;
          d = doy - (153 * mp + 2) div 5 + 1;
          m = (if mp < 10 then mp + 3 else mp - 9)
      in (yoe + era * 400 + (if m \<le> 2 then 1 else 0), m, d))"

definition toString :: "timestamp \<Rightarrow> string" where
  "toString t = itos (t sdiv kMicroSecondsPerSecond) @ ''.''
     @ pad (CHR ''0'') 6 (t smod kMicroSecondsPerSecond)"

definition toFormattedString :: "timestamp \<Rightarrow> string" where
  "toFormattedString t =
     (let seconds = t sdiv kMicroSecondsPerSecond;
          microseconds = t smod kMicroSecondsPerSecond;
          r = seconds mod 86400;
          z = CHR ''0''
      in case civil (seconds div 86400) of (y, m, d) \<Rightarrow>
        pad (CHR '' '') 4 y @ pad z 2 m @ pad z 2 d @ '' ''
        @ pad z 2 (r div 3600) @ '':'' @ pad z 2 (r div 60 mod 60) @ '':'' @ pad z 2 (r mod 60)
        @ ''.'' @ pad z 6 microseconds)"

end
