(* ===== verification/Service_State.thy ===== *)
theory Service_State
  imports Friend_Model Group_Model History_Model Cache_Manager Timestamps
begin

text \<open>
  The state of the singleton \<open>Service\<close> (\<open>project/server/service.h\<close>) and the few things all its
  handlers do.  A connection is its number.  \<open>out\<close> is what the handlers asked the network layer
  to do, oldest first: \<open>Send c js\<close> is \<open>c->send(js.dump().append("\r\n"))\<close>.
\<close>

datatype effect =
    Send nat json
  | ForceClose nat
  | FileBytes nat nat

record 'w svc = "'w dbs" +
  m_userConnMap :: "int \<Rightarrow> nat option"
  m_connUserMap :: "nat \<Rightarrow> int option"
  m_groupUserListMap :: "int \<Rightarrow> int list option"
  m_connStatusMap :: "(nat \<times> bool) list"
  out :: "effect list"

type_synonym 'w handler = "nat \<Rightarrow> json \<Rightarrow> timestamp \<Rightarrow> ('w svc, unit) prog"

text \<open>\<open>m_connUserMap[conn]\<close>, also where it is an argument of a log call: a missing entry is added, with value 0.\<close>

definition conn_user :: "nat \<Rightarrow> ('w svc, int) prog" where
  "conn_user c s = (case m_connUserMap s c of Some u \<Rightarrow> Done u s
     | None \<Rightarrow> Done 0 (s\<lparr>m_connUserMap := (m_connUserMap s)(c \<mapsto> 0)\<rparr>))"

definition log_conn_user :: "nat \<Rightarrow> ('w svc, unit) prog" where
  "log_conn_user c = bnd (conn_user c) (\<lambda>_. ret ())"

definition emit :: "effect \<Rightarrow> ('w svc, unit) prog" where
  "emit e = modify (\<lambda>s. s\<lparr>out := out s @ [e]\<rparr>)"

definition send :: "nat \<Rightarrow> json \<Rightarrow> ('w svc, unit) prog" where
  "send c js = emit (Send c js)"

text \<open>\<open>auto it = m_userConnMap.find(id); if (it != end) it->second->send(...)\<close>\<close>

definition send_to_user :: "int \<Rightarrow> json \<Rightarrow> ('w svc, unit) prog" where
  "send_to_user u js = bnd (reads (\<lambda>s. m_userConnMap s u)) (\<lambda>c.
     case c of None \<Rightarrow> ret () | Some c \<Rightarrow> send c js)"

definition int_field :: "json \<Rightarrow> string \<Rightarrow> ('s, int) prog" where
  "int_field js k = lift_option TypeError (js_int js k)"

text \<open>\<open>vec.push_back(js.dump())\<close> for each element, and the vector as a JSON array of strings.\<close>

definition dumped :: "'w env \<Rightarrow> ('a \<Rightarrow> json) \<Rightarrow> 'a list \<Rightarrow> json" where
  "dumped E f xs = JArr (map (\<lambda>x. JStr (json_dump E (f x))) xs)"

definition user_id_name :: "user \<Rightarrow> json" where
  "user_id_name u = JObj [(''id'', JInt (m_id u)), (''name'', JStr (m_name u))]"

definition user_id_name_state :: "user \<Rightarrow> json" where
  "user_id_name_state u =
     JObj [(''id'', JInt (m_id u)), (''name'', JStr (m_name u)), (''state'', JStr (m_state u))]"

definition user_id_name_role :: "user \<Rightarrow> json" where
  "user_id_name_role u =
     JObj [(''id'', JInt (m_id u)), (''name'', JStr (m_name u)), (''role'', JStr (m_state u))]"

definition group_id_name :: "group \<Rightarrow> json" where
  "group_id_name g = JObj [(''id'', JInt (g_id g)), (''name'', JStr (g_name g))]"

section \<open>Lemmas\<close>

text \<open>The frame of a database operation does not reach the members of \<open>Service\<close>.\<close>

lemma frame_svc:
  assumes "frame s t"
  shows "m_userConnMap t = m_userConnMap s" "m_connUserMap t = m_connUserMap s"
    "m_groupUserListMap t = m_groupUserListMap s" "m_connStatusMap t = m_connStatusMap s" "out t = out s"
  using assms by (auto simp: frame_def)

lemma runs_conn_user [wp]:
  assumes "\<And>u. m_connUserMap s c = Some u \<Longrightarrow> Q u s"
    and "m_connUserMap s c = None \<Longrightarrow> Q 0 (s\<lparr>m_connUserMap := (m_connUserMap s)(c \<mapsto> 0)\<rparr>)"
  shows "runs (conn_user c) s Q X B"
  using assms by (auto simp: runs_def conn_user_def split: option.splits)

lemma runs_emit [wp]: "Q () (s\<lparr>out := out s @ [e]\<rparr>) \<Longrightarrow> runs (emit e) s Q X B"
  by (simp add: runs_def emit_def)

lemma runs_send [wp]: "Q () (s\<lparr>out := out s @ [Send c js]\<rparr>) \<Longrightarrow> runs (send c js) s Q X B"
  by (simp add: runs_def emit_def send_def)

lemma runs_send_to_user [wp]:
  assumes "m_userConnMap s u = None \<Longrightarrow> Q () s"
    and "\<And>c. m_userConnMap s u = Some c \<Longrightarrow> Q () (s\<lparr>out := out s @ [Send c js]\<rparr>)"
  shows "runs (send_to_user u js) s Q X B"
  using assms by (auto simp: runs_def send_to_user_def send_def emit_def bnd_apply split: option.splits)

lemma runs_int_field [wp]:
  "(js_int js k = None \<Longrightarrow> X TypeError s) \<Longrightarrow> (\<And>i. js_int js k = Some i \<Longrightarrow> Q i s) \<Longrightarrow>
    runs (int_field js k) s Q X B"
  unfolding int_field_def by (rule runs_lift_option)

lemma runs_str_field [wp]:
  "(js_string js k = None \<Longrightarrow> X TypeError s) \<Longrightarrow> (\<And>v. js_string js k = Some v \<Longrightarrow> Q v s) \<Longrightarrow>
    runs (str_field js k) s Q X B"
  unfolding str_field_def by (rule runs_lift_option)

lemma keeps_int_field [keeps_rules]: "keeps P (int_field js k)"
  and keeps_str_field [keeps_rules]: "keeps P (str_field js k)"
  by (simp_all add: int_field_def str_field_def keeps_lift_option)

end
