(* ===== verification/Session_Service.thy ===== *)
theory Session_Service
  imports Service_State
begin

text \<open>
  \<open>project/server/service.cc\<close>: the start-up of the service, registration, login, the list of all
  users, the heartbeat and the end of a connection.
\<close>

section \<open>Start-up and reset\<close>

definition groupUserListMapInit :: "'w env \<Rightarrow> ('w svc, unit) prog" where
  "groupUserListMapInit E = bnd (GroupModel_queryAllGroup E) (\<lambda>groupVec.
     for_each (\<lambda>g. bnd (GroupModel_queryGroupMember E (g_id g)) (\<lambda>userVec.
       modify (\<lambda>s. s\<lparr>m_groupUserListMap :=
         (m_groupUserListMap s)(g_id g \<mapsto> map m_id userVec)\<rparr>))) groupVec)"

definition UserstateInit :: "'w env \<Rightarrow> ('w svc, unit) prog" where
  "UserstateInit E = bnd (UserModel_query_all E) (\<lambda>userVec.
     for_each (\<lambda>u. if m_state u = ''online''
       then bnd (UserModel_updateState E (u\<lparr>m_state := ''offline''\<rparr>)) (\<lambda>_. ret ())
       else ret ()) userVec)"

definition reset_service :: "'w env \<Rightarrow> ('w svc, unit) prog" where
  "reset_service E = andthen (UserModel_resetState E) (flushCacheToDatabase E)"

section \<open>Registration and login\<close>

definition reg :: "'w env \<Rightarrow> 'w handler" where
  "reg E conn js time =
     bnd (str_field js ''name'') (\<lambda>name.
     bnd (str_field js ''password'') (\<lambda>pwd.
     bnd (UserModel_insert E (new_user\<lparr>m_name := name, m_password := pwd\<rparr>)) (\<lambda>(state, user).
     if state then send conn (message REG_SUCCESS [(''id'', JInt (m_id user))])
     else send conn (message REG_FAIL []))))"

text \<open>The two texts are Chinese: "login succeeded" and "login failed, the user does not exist".\<close>

definition login_success_text :: string where
  "login_success_text = [CHR 0xE7, CHR 0x99, CHR 0xBB, CHR 0xE5, CHR 0xBD, CHR 0x95,
     CHR 0xE6, CHR 0x88, CHR 0x90, CHR 0xE5, CHR 0x8A, CHR 0x9F]"

definition login_fail_text :: string where
  "login_fail_text = [CHR 0xE7, CHR 0x99, CHR 0xBB, CHR 0xE5, CHR 0xBD, CHR 0x95,
     CHR 0xE5, CHR 0xA4, CHR 0xB1, CHR 0xE8, CHR 0xB4, CHR 0xA5, CHR '','', CHR '' '',
     CHR 0xE7, CHR 0x94, CHR 0xA8, CHR 0xE6, CHR 0x88, CHR 0xB7, CHR 0xE4, CHR 0xB8, CHR 0x8D,
     CHR 0xE5, CHR 0xAD, CHR 0x98, CHR 0xE5, CHR 0x9C, CHR 0xA8]"

text \<open>The three assignments and the message to the client.\<close>

definition enter_session :: "nat \<Rightarrow> user \<Rightarrow> ('w svc, unit) prog" where
  "enter_session conn user = modify (\<lambda>s. s\<lparr>m_userConnMap := (m_userConnMap s)(m_id user \<mapsto> conn),
     m_connUserMap := (m_connUserMap s)(conn \<mapsto> m_id user),
     m_connStatusMap := AList.update conn True (m_connStatusMap s)\<rparr>)"

definition friend_online :: "user \<Rightarrow> json" where
  "friend_online user =
     message FRIEND_ONLINE [(''id'', JInt (m_id user)), (''name'', JStr (m_name user))]"

definition login :: "'w env \<Rightarrow> 'w handler" where
  "login E conn js time =
     bnd (str_field js ''name'') (\<lambda>name.
     bnd (str_field js ''password'') (\<lambda>pwd.
     bnd (UserModel_query_name E name) (\<lambda>user.
     if m_name user = name \<and> m_password user = pwd then
       if m_state user = ''online'' then send conn (message LOGIN_REPEAT [])
       else
         andthen (enter_session conn user)
         (bnd (UserModel_updateState E (user\<lparr>m_state := ''online''\<rparr>)) (\<lambda>_.
          andthen (send conn (message LOGIN_SUCCESS [(''msg'', JStr login_success_text),
            (''id'', JInt (m_id user)), (''name'', JStr (m_name user))]))
          (bnd (FriendModel_query E (m_id user)) (\<lambda>userVec.
           for_each (\<lambda>u. send_to_user (m_id u) (friend_online user)) userVec))))
     else send conn (message LOGIN_FAIL [(''msg'', JStr login_fail_text)]))))"

definition handleDisplayAllUserList :: "'w env \<Rightarrow> 'w handler" where
  "handleDisplayAllUserList E conn js time =
     andthen (log_conn_user conn)
     (bnd (UserModel_query_all E) (\<lambda>userVec.
      send conn (message DISPLAY_ALLUSER_LIST [(''users'', dumped E user_id_name_state userVec)])))"

section \<open>Heartbeat and end of a connection\<close>

definition setConnStatus :: "nat \<Rightarrow> bool \<Rightarrow> ('w svc, unit) prog" where
  "setConnStatus conn status =
     modify (\<lambda>s. s\<lparr>m_connStatusMap := AList.update conn status (m_connStatusMap s)\<rparr>)"

definition removeConnStatus :: "nat \<Rightarrow> ('w svc, unit) prog" where
  "removeConnStatus conn = modify (\<lambda>s. s\<lparr>m_connStatusMap := AList.delete conn (m_connStatusMap s)\<rparr>)"

definition addConnStatus :: "nat \<Rightarrow> ('w svc, unit) prog" where
  "addConnStatus conn = modify (\<lambda>s. s\<lparr>m_connStatusMap := AList.update conn True (m_connStatusMap s)\<rparr>)"

text \<open>\<open>updateState\<close> of the user found under the number, with state offline.\<close>

definition set_offline :: "'w env \<Rightarrow> int \<Rightarrow> ('w svc, unit) prog" where
  "set_offline E i = bnd (UserModel_query_id E i) (\<lambda>user.
     bnd (UserModel_updateState E (user\<lparr>m_state := ''offline''\<rparr>)) (\<lambda>_. ret ()))"

text \<open>The body of the second loop: a connection that did not send anything for a full period.\<close>

definition drop_conn :: "'w env \<Rightarrow> nat \<Rightarrow> ('w svc, unit) prog" where
  "drop_conn E conn =
     bnd (conn_user conn) (\<lambda>i.
     andthen (send_to_user i (message CLIENT_LONGTIME_EXIT []))
     (andthen (emit (ForceClose conn))
     (andthen (modify (\<lambda>s. s\<lparr>m_userConnMap := (m_userConnMap s)(i := None),
        m_connUserMap := (m_connUserMap s)(conn := None),
        m_connStatusMap := AList.delete conn (m_connStatusMap s)\<rparr>))
     (set_offline E i))))"

definition silent_conns :: "(nat \<times> bool) list \<Rightarrow> nat list" where
  "silent_conns al = map fst (filter (\<lambda>(c, alive). \<not> alive) al)"

definition checkIfConnAlive :: "'w env \<Rightarrow> ('w svc, unit) prog" where
  "checkIfConnAlive E =
     bnd (reads (\<lambda>s. silent_conns (m_connStatusMap s))) (\<lambda>connectionsToDelete.
     andthen (modify (\<lambda>s. s\<lparr>m_connStatusMap := map (\<lambda>(c, alive). (c, False)) (m_connStatusMap s)\<rparr>))
     (for_each (drop_conn E) connectionsToDelete))"

definition forget_conn :: "nat \<Rightarrow> int \<Rightarrow> ('w svc, unit) prog" where
  "forget_conn conn u = modify (\<lambda>s. s\<lparr>m_connStatusMap := AList.delete conn (m_connStatusMap s),
     m_connUserMap := (m_connUserMap s)(conn := None), m_userConnMap := (m_userConnMap s)(u := None)\<rparr>)"

definition clientClose :: "'w env \<Rightarrow> nat \<Rightarrow> ('w svc, unit) prog" where
  "clientClose E conn =
     bnd (reads (\<lambda>s. case m_connUserMap s conn of None \<Rightarrow> -1 | Some u \<Rightarrow> u)) (\<lambda>userId.
     bnd (reads (\<lambda>s. m_connUserMap s conn)) (\<lambda>it.
     andthen (case it of None \<Rightarrow> ret () | Some u \<Rightarrow> forget_conn conn u)
     (andthen (removeConnStatus conn)
     (if userId \<noteq> -1 then set_offline E userId else ret ()))))"

end
