(* ===== verification/Friend_Service.thy ===== *)
theory Friend_Service
  imports Session_Service
begin

text \<open>\<open>project/server/service.cc\<close>: the handlers on friends and blocked friends.\<close>

text \<open>The first \<open>if\<close> of the handler: the request is stored and announced.\<close>

definition send_request :: "'w env \<Rightarrow> nat \<Rightarrow> int \<Rightarrow> int \<Rightarrow> ('w svc, unit) prog" where
  "send_request E conn from_id to_id =
     andthen (FriendModel_insert E from_id to_id ''request'')
     (andthen (send conn (message ADD_FRIEND_REQUEST []))
      (send_to_user to_id (message TO_ADD_FRIEND_REQUEST [])))"

text \<open>The second: the request of the other side is accepted.\<close>

definition accept_request :: "'w env \<Rightarrow> nat \<Rightarrow> string \<Rightarrow> int \<Rightarrow> int \<Rightarrow> ('w svc, unit) prog" where
  "accept_request E conn add_name from_id to_id =
     andthen (FriendModel_insert E from_id to_id ''friend'')
     (andthen (FriendModel_modify E to_id from_id ''friend'')
     (bnd (UserModel_query_id E to_id) (\<lambda>friend.
      andthen (send conn (message ADD_FRIEND_SUCCESS [(''friend_id'', JInt to_id),
         (''friend_name'', JStr add_name), (''friend_state'', JStr (m_state friend))]))
      (if m_state friend = ''online'' then
         bnd (reads (\<lambda>s. m_userConnMap s to_id)) (\<lambda>it.
         case it of None \<Rightarrow> ret ()
         | Some c \<Rightarrow> bnd (UserModel_query_id E from_id) (\<lambda>from.
             send c (message THE_OTHER_AGREE_FRIEND_REQUEST [(''friend_name'', JStr (m_name from))])))
       else ret ()))))"

definition handleAddFriend :: "'w env \<Rightarrow> 'w handler" where
  "handleAddFriend E conn js time =
     bnd (str_field js ''add_name'') (\<lambda>add_name.
     andthen (log_conn_user conn)
     (bnd (UserModel_query_name E add_name) (\<lambda>add_user.
      bnd (conn_user conn) (\<lambda>from_id.
      bnd (FriendModel_getState E from_id (m_id add_user)) (\<lambda>state1.
      bnd (FriendModel_getState E (m_id add_user) from_id) (\<lambda>state2.
      andthen
        (if state1 = '''' \<and> state2 = '''' \<or> state1 = ''request'' \<and> state2 = ''''
         then send_request E conn from_id (m_id add_user) else ret ())
        (if state1 = '''' \<and> state2 = ''request''
         then accept_request E conn add_name from_id (m_id add_user) else ret ())))))))"

definition handleDeleteFriend :: "'w env \<Rightarrow> 'w handler" where
  "handleDeleteFriend E conn js time =
     bnd (int_field js ''del_id'') (\<lambda>delete_id.
     andthen (log_conn_user conn)
     (bnd (UserModel_query_id E delete_id) (\<lambda>delete_user.
      bnd (conn_user conn) (\<lambda>from_id.
      bnd (FriendModel_getState E from_id (m_id delete_user)) (\<lambda>state1.
      bnd (FriendModel_getState E (m_id delete_user) from_id) (\<lambda>state2.
      if (state1 = ''friend'' \<or> state1 = ''block'') \<and> (state2 = ''friend'' \<or> state2 = ''block'')
      then FriendModel_deleteEach E from_id (m_id delete_user)
      else send conn (message DELETE_FRIEND_FAIL [])))))))"

definition handleBlockFriend :: "'w env \<Rightarrow> 'w handler" where
  "handleBlockFriend E conn js time =
     bnd (int_field js ''block_id'') (\<lambda>block_id.
     bnd (conn_user conn) (\<lambda>user_id.
     bnd (FriendModel_getState E user_id block_id) (\<lambda>state1.
     if state1 = ''friend'' then
       andthen (FriendModel_modify E user_id block_id ''block'')
       (send conn (message BLOCK_FRIEND_SUCCESS []))
     else send conn (message BLOCK_FRIEND_FAIL []))))"

definition handleUnBlockFriend :: "'w env \<Rightarrow> 'w handler" where
  "handleUnBlockFriend E conn js time =
     bnd (int_field js ''unblock_id'') (\<lambda>unblock_id.
     bnd (conn_user conn) (\<lambda>user_id.
     bnd (FriendModel_getState E user_id unblock_id) (\<lambda>state1.
     if state1 = ''block'' then
       andthen (FriendModel_modify E user_id unblock_id ''friend'')
       (send conn (message UNBLOCK_FRIEND_SUCCESS []))
     else send conn (message UNBLOCK_FRIEND_FAIL []))))"

definition handleCheckBlock :: "'w env \<Rightarrow> 'w handler" where
  "handleCheckBlock E conn js time =
     bnd (int_field js ''check_id'') (\<lambda>check_id.
     bnd (conn_user conn) (\<lambda>user_id.
     bnd (FriendModel_getState E user_id check_id) (\<lambda>state1.
     bnd (FriendModel_getState E check_id user_id) (\<lambda>state2.
     let response = message CHECK_BLOCK [(''state1'', JStr state1), (''state2'', JStr state2)] in
     andthen (send conn response) (send_to_user check_id response)))))"

definition handleBlockFriendList :: "'w env \<Rightarrow> 'w handler" where
  "handleBlockFriendList E conn js time =
     bnd (conn_user conn) (\<lambda>user_id.
     bnd (FriendModel_blockQuery E user_id) (\<lambda>userVec.
     send conn (message BLOCK_FRIEND_LIST [(''blocks'', dumped E user_id_name userVec)])))"

definition handleDisplayFriendList :: "'w env \<Rightarrow> 'w handler" where
  "handleDisplayFriendList E conn js time =
     bnd (conn_user conn) (\<lambda>i.
     bnd (FriendModel_query E i) (\<lambda>userVec.
     send conn (message DISPLAY_FRIEND_LIST [(''friends'', dumped E user_id_name_state userVec)])))"

definition handleFriendRequestList :: "'w env \<Rightarrow> 'w handler" where
  "handleFriendRequestList E conn js time =
     bnd (conn_user conn) (\<lambda>i.
     bnd (FriendModel_requestQuery E i) (\<lambda>userVec.
     send conn (message FRIEND_REQUEST_LIST [(''requests'', dumped E user_id_name userVec)])))"

end
