(* ===== verification/Group_Service.thy ===== *)
theory Group_Service
  imports Session_Service
begin

text \<open>
  \<open>project/server/service.cc\<close>: the handlers on groups.  \<open>m_groupUserListMap\<close> is the list of the
  members of each group, kept in memory beside the table \<open>GroupUser\<close>.
\<close>

definition push_member :: "int \<Rightarrow> int \<Rightarrow> ('w svc, unit) prog" where
  "push_member groupid userid = modify (\<lambda>s. s\<lparr>m_groupUserListMap := (m_groupUserListMap s)
     (groupid \<mapsto> (case m_groupUserListMap s groupid of None \<Rightarrow> [] | Some us \<Rightarrow> us) @ [userid])\<rparr>)"

text \<open>The erase-remove on \<open>m_groupUserListMap[groupid]\<close>.\<close>

definition erase_member :: "int \<Rightarrow> int \<Rightarrow> ('w svc, unit) prog" where
  "erase_member groupid userid = modify (\<lambda>s. s\<lparr>m_groupUserListMap := (m_groupUserListMap s)
     (groupid \<mapsto> removeAll userid
        (case m_groupUserListMap s groupid of None \<Rightarrow> [] | Some us \<Rightarrow> us))\<rparr>)"

text \<open>The same on \<open>m_groupUserListMap.find(groupid)->second\<close>, which is not checked against \<open>end()\<close>.\<close>

definition find_erase_member :: "int \<Rightarrow> int \<Rightarrow> ('w svc, unit) prog" where
  "find_erase_member groupid userid = bnd (reads (\<lambda>s. m_groupUserListMap s groupid)) (\<lambda>it.
     case it of None \<Rightarrow> halt BadIterator | Some us \<Rightarrow> erase_member groupid userid)"

definition handleCreateGroup :: "'w env \<Rightarrow> 'w handler" where
  "handleCreateGroup E conn js time =
     bnd (str_field js ''groupname'') (\<lambda>group_name.
     bnd (conn_user conn) (\<lambda>userid.
     bnd (GroupModel_createGroup E (new_group\<lparr>g_name := group_name\<rparr>)) (\<lambda>(created, group).
     if created then
       bnd (GroupModel_addGroup E userid (g_id group) ''master'') (\<lambda>_.
       andthen (push_member (g_id group) userid)
       (send conn (message CREATE_GROUP_SUCCESS [])))
     else send conn (message CREATE_GROUP_FAIL []))))"

definition handleDisplayAllGroupList :: "'w env \<Rightarrow> 'w handler" where
  "handleDisplayAllGroupList E conn js time =
     bnd (GroupModel_queryAllGroup E) (\<lambda>groupVec.
     send conn (message DISPLAY_ALLGROUP_LIST [(''groups'', dumped E group_id_name groupVec)]))"

definition response_to_master_or_manager :: "'w env \<Rightarrow> int \<Rightarrow> int \<Rightarrow> ('w svc, unit) prog" where
  "response_to_master_or_manager E groupid userid =
     bnd (GroupModel_queryGroupMember E groupid) (\<lambda>userVec.
     for_each (\<lambda>user. if m_state user = ''master'' \<or> m_state user = ''manager''
       then send_to_user (m_id user)
         (message GROUP_REQUEST [(''groupid'', JInt groupid), (''userid'', JInt userid)])
       else ret ()) userVec)"

definition requestAddGroup :: "'w env \<Rightarrow> 'w handler" where
  "requestAddGroup E conn js time =
     bnd (int_field js ''add_group_id'') (\<lambda>groupid.
     bnd (conn_user conn) (\<lambda>userid.
     bnd (GroupModel_addGroup E userid groupid ''request'') (\<lambda>ok.
     if ok then
       andthen (send conn (message REQUEST_GROUP_SUCCESS []))
       (response_to_master_or_manager E groupid userid)
     else
       bnd (GroupModel_ifMasterOrManagerORnormal E userid groupid) (\<lambda>member.
       if member then send conn (message ALREADY_IN_GROUP [])
       else send conn (message REQUEST_GROUP_FAIL [])))))"

definition handleGroupRequestList :: "'w env \<Rightarrow> 'w handler" where
  "handleGroupRequestList E conn js time =
     bnd (int_field js ''groupid'') (\<lambda>groupid.
     bnd (conn_user conn) (\<lambda>userid.
     bnd (GroupModel_ifMasterOrManager E userid groupid) (\<lambda>allowed.
     if \<not> allowed then send conn (message DISPLAY_GROUP_REQUEST_FAIL [])
     else bnd (GroupModel_queryGroupRequest E groupid) (\<lambda>userVec.
       send conn (message DISPLAY_GROUP_REQUEST [(''requests'', dumped E user_id_name userVec)])))))"

definition handleAddSomeoneToGroup :: "'w env \<Rightarrow> 'w handler" where
  "handleAddSomeoneToGroup E conn js time =
     bnd (int_field js ''groupid'') (\<lambda>groupid.
     bnd (int_field js ''userid'') (\<lambda>userid.
     andthen (log_conn_user conn)
     (bnd (conn_user conn) (\<lambda>me.
      bnd (GroupModel_ifMasterOrManager E me groupid) (\<lambda>allowed.
      if \<not> allowed then send conn (message ADD_GROUP_FAIL [])
      else
        andthen (GroupModel_modifyGroupRole E userid groupid ''normal'')
        (andthen (push_member groupid userid)
        (andthen (send conn (message ADD_GROUP_SUCCESS []))
        (bnd (conn_user conn) (\<lambda>accept_id.
         send_to_user userid (message GROUP_REQUEST_ACCEPTED
           [(''groupid'', JInt groupid), (''accept_id'', JInt accept_id)])))))))))) "

definition handleQuitGroup :: "'w env \<Rightarrow> 'w handler" where
  "handleQuitGroup E conn js time =
     bnd (int_field js ''groupid'') (\<lambda>groupid.
     bnd (conn_user conn) (\<lambda>userid.
     bnd (conn_user conn) (\<lambda>me.
     bnd (GroupModel_ifManagerOrNormal E me groupid) (\<lambda>allowed.
     if \<not> allowed then send conn (message QUIT_GROUP_FAIL [])
     else
       andthen (GroupModel_deleteGroupMember E userid groupid)
       (andthen (find_erase_member groupid userid)
       (send conn (message QUIT_GROUP_SUCCESS [])))))))"

definition handleShowOwnGroupList :: "'w env \<Rightarrow> 'w handler" where
  "handleShowOwnGroupList E conn js time =
     bnd (conn_user conn) (\<lambda>userid.
     bnd (GroupModel_queryOwnGroup E userid) (\<lambda>groupVec.
     send conn (message DISPLAY_OWN_GROUP_LIST [(''groups'',
       dumped E group_id_name (filter (\<lambda>g. \<not> (g_role g = ''request'' \<or> g_role g = '''')) groupVec))])))"

definition handleShowGroupMemberList :: "'w env \<Rightarrow> 'w handler" where
  "handleShowGroupMemberList E conn js time =
     bnd (int_field js ''groupid'') (\<lambda>groupid.
     bnd (conn_user conn) (\<lambda>userid.
     bnd (GroupModel_ifMasterOrManagerORnormal E userid groupid) (\<lambda>allowed.
     if \<not> allowed then send conn (message DISPLAY_GROUP_MEMBER_FAIL [])
     else bnd (GroupModel_queryGroupMember E groupid) (\<lambda>userVec.
       send conn (message DISPLAY_GROUP_MEMBER_LIST
         [(''members'', dumped E user_id_name_role userVec)])))))"

definition handleDisplaySetManagerMemberList :: "'w env \<Rightarrow> 'w handler" where
  "handleDisplaySetManagerMemberList E conn js time =
     bnd (int_field js ''groupid'') (\<lambda>groupid.
     bnd (conn_user conn) (\<lambda>userid.
     bnd (GroupModel_ifMaster E userid groupid) (\<lambda>allowed.
     if \<not> allowed then send conn (message DISPLAY_SET_MANAGER_MEMBER_FAIL [])
     else bnd (GroupModel_queryGroupMember E groupid) (\<lambda>userVec.
       send conn (message DISPLAY_SET_MANAGER_MEMBER_LIST
         [(''members'', dumped E user_id_name_role userVec)])))))"

definition handleSetManager :: "'w env \<Rightarrow> 'w handler" where
  "handleSetManager E conn js time =
     bnd (int_field js ''groupid'') (\<lambda>groupid.
     bnd (int_field js ''userid'') (\<lambda>userid.
     andthen (log_conn_user conn)
     (bnd (GroupModel_queryGroupRole E userid groupid) (\<lambda>state.
      if state \<noteq> ''normal'' then send conn (message SET_MANAGER_FAIL [])
      else
        andthen (GroupModel_modifyGroupRole E userid groupid ''manager'')
        (andthen (send conn (message SET_MANAGER_SUCCESS []))
        (send_to_user userid (message SET_MANAGER_NOTICE [(''groupid'', JInt groupid)])))))))"

definition handleCancelManager :: "'w env \<Rightarrow> 'w handler" where
  "handleCancelManager E conn js time =
     bnd (int_field js ''groupid'') (\<lambda>groupid.
     bnd (int_field js ''userid'') (\<lambda>userid.
     andthen (log_conn_user conn)
     (bnd (GroupModel_ifManager E userid groupid) (\<lambda>manager.
      if \<not> manager then send conn (message CANCEL_MANAGER_FAIL [])
      else
        andthen (GroupModel_modifyGroupRole E userid groupid ''normal'')
        (send conn (message CANCEL_MANAGER_SUCCESS []))))))"

text \<open>The removal both branches of the handler end with.\<close>

definition kick :: "'w env \<Rightarrow> nat \<Rightarrow> int \<Rightarrow> int \<Rightarrow> ('w svc, unit) prog" where
  "kick E conn groupid userid =
     andthen (GroupModel_deleteGroupMember E userid groupid)
     (andthen (erase_member groupid userid)
     (andthen (send conn (message KICK_SOMEONE_SUCCESS []))
     (send_to_user userid (message KICK_SOMEONE_NOTICE [(''groupid'', JInt groupid)]))))"

definition handleKickSomeoneInGroup :: "'w env \<Rightarrow> 'w handler" where
  "handleKickSomeoneInGroup E conn js time =
     bnd (int_field js ''groupid'') (\<lambda>groupid.
     bnd (int_field js ''userid'') (\<lambda>userid.
     andthen (log_conn_user conn)
     (bnd (conn_user conn) (\<lambda>me.
      bnd (GroupModel_queryGroupRole E me groupid) (\<lambda>kick_state.
      bnd (GroupModel_queryGroupRole E userid groupid) (\<lambda>be_kick_state.
      if be_kick_state = '''' \<or> be_kick_state = ''request''
      then send conn (message KICK_SOMEONE_NOT_IN_GROUP [])
      else if kick_state = ''master'' then kick E conn groupid userid
      else if kick_state = ''manager'' then
        if be_kick_state = ''manager'' \<or> be_kick_state = ''master''
        then send conn (message KICK_SOMEONE_FAIL [])
        else kick E conn groupid userid
      else send conn (message KICK_SOMEONE_FAIL [])))))))"

definition handleCheckIfGroupMember :: "'w env \<Rightarrow> 'w handler" where
  "handleCheckIfGroupMember E conn js time =
     bnd (int_field js ''groupid'') (\<lambda>groupid.
     bnd (conn_user conn) (\<lambda>userid.
     bnd (GroupModel_queryGroupRole E userid groupid) (\<lambda>state.
     send conn (message CHECK_IF_GROUP_MEMBER
       [(''state'', JBool (\<not> (state = '''' \<or> state = ''request'')))]))))"

definition handleMasterDeleteGroup :: "'w env \<Rightarrow> 'w handler" where
  "handleMasterDeleteGroup E conn js time =
     bnd (int_field js ''groupid'') (\<lambda>groupid.
     bnd (conn_user conn) (\<lambda>userid.
     bnd (GroupModel_ifMaster E userid groupid) (\<lambda>allowed.
     if \<not> allowed then send conn (message MASTER_DELETE_GROUP_FAIL [])
     else
       andthen (GroupModel_deleteGroup E groupid)
       (andthen (modify (\<lambda>s. s\<lparr>m_groupUserListMap := (m_groupUserListMap s)(groupid := None)\<rparr>))
       (send conn (message MASTER_DELETE_GROUP_SUCCESS []))))))"

end
