(* ===== verification/Chat_Service.thy ===== *)
theory Chat_Service
  imports Session_Service
begin

text \<open>\<open>project/server/service.cc\<close>: the handlers on private and group chat, their history, and files.\<close>

section \<open>Chat\<close>

definition private_chat_message :: "string \<Rightarrow> string \<Rightarrow> timestamp \<Rightarrow> json" where
  "private_chat_message msg from_name time = message PRIVATE_CHAT
     [(''msg'', JStr msg), (''from_name'', JStr from_name), (''time'', JStr (toFormattedString time))]"

definition handlePrivateChat :: "'w env \<Rightarrow> 'w handler" where
  "handlePrivateChat E conn js time =
     bnd (str_field js ''msg'') (\<lambda>msg.
     bnd (str_field js ''from_name'') (\<lambda>from_name.
     bnd (int_field js ''id'') (\<lambda>to_id.
     bnd (conn_user conn) (\<lambda>me.
     andthen (storePrivateMessageInCache E (itos me) (itos to_id) msg)
     (send_to_user to_id (private_chat_message msg from_name time))))))"

text \<open>\<open>std::vector<int> userVec = m_groupUserListMap[groupid]\<close> adds an empty list where there is none.\<close>

definition group_users :: "int \<Rightarrow> ('w svc, int list) prog" where
  "group_users groupid s = (case m_groupUserListMap s groupid of Some us \<Rightarrow> Done us s
     | None \<Rightarrow> Done [] (s\<lparr>m_groupUserListMap := (m_groupUserListMap s)(groupid \<mapsto> [])\<rparr>))"

definition group_chat_message :: "string \<Rightarrow> string \<Rightarrow> timestamp \<Rightarrow> int \<Rightarrow> json" where
  "group_chat_message msg from_name time groupid = message GROUP_CHAT
     [(''msg'', JStr msg), (''from_name'', JStr from_name), (''time'', JStr (toFormattedString time)),
      (''groupid'', JInt groupid)]"

definition handleGroupChat :: "'w env \<Rightarrow> 'w handler" where
  "handleGroupChat E conn js time =
     bnd (int_field js ''groupid'') (\<lambda>groupid.
     bnd (str_field js ''msg'') (\<lambda>msg.
     bnd (str_field js ''from_name'') (\<lambda>from_name.
     bnd (group_users groupid) (\<lambda>userVec.
     bnd (conn_user conn) (\<lambda>me.
     andthen (storeGroupMessageInCache E (itos groupid) (itos me) msg)
     (for_each (\<lambda>userid. bnd (conn_user conn) (\<lambda>me.
        if userid = me then ret ()
        else send_to_user userid (group_chat_message msg from_name time groupid))) userVec))))))"

section \<open>History\<close>

definition private_history_json :: "private_row \<Rightarrow> json" where
  "private_history_json h = JObj [(''from'', JInt (p_sender h)), (''to'', JInt (p_receiver h)),
     (''msg'', JStr (p_message h)), (''time'', JStr (p_time h))]"

definition group_history_json :: "group_row \<Rightarrow> json" where
  "group_history_json h = JObj [(''from'', JInt (q_sender h)), (''groupid'', JInt (q_group h)),
     (''msg'', JStr (q_message h)), (''time'', JStr (q_time h))]"

definition handleDisplayPrivateHistory :: "'w env \<Rightarrow> 'w handler" where
  "handleDisplayPrivateHistory E conn js time =
     bnd (conn_user conn) (\<lambda>userid.
     bnd (int_field js ''id'') (\<lambda>friendid.
     bnd (queryPrivateHistory E userid friendid 50) (\<lambda>historyVec.
     send conn (message DISPLAY_PRIVATE_HISTORY
       [(''history'', dumped E private_history_json (rev historyVec))]))))"

definition handleDisplayGroupHistory :: "'w env \<Rightarrow> 'w handler" where
  "handleDisplayGroupHistory E conn js time =
     bnd (int_field js ''groupid'') (\<lambda>groupid.
     bnd (queryGroupHistory E groupid 50) (\<lambda>historyVec.
     send conn (message DISPLAY_GROUP_HISTORY
       [(''history'', dumped E group_history_json (rev historyVec))])))"

section \<open>Files\<close>

definition handleSendFileDataBase :: "'w env \<Rightarrow> 'w handler" where
  "handleSendFileDataBase E conn js time =
     bnd (int_field js ''sender'') (\<lambda>userid.
     bnd (int_field js ''receiver'') (\<lambda>recv_id.
     bnd (str_field js ''filename'') (\<lambda>filename.
     andthen (FileModel_insertFile E userid recv_id filename)
     (send conn (message SEND_FILE_DATABASE_SUCCESS [])))))"

definition file_json :: "file_entry \<Rightarrow> json" where
  "file_json f = JObj [(''sender'', JInt (f_sender f)), (''receiver'', JInt (f_receiver f)),
     (''filename'', JStr (f_name f)), (''time'', JStr (f_time f))]"

definition handleDisplayFileList :: "'w env \<Rightarrow> 'w handler" where
  "handleDisplayFileList E conn js time =
     bnd (conn_user conn) (\<lambda>userid.
     bnd (FileModel_query E userid) (\<lambda>fileVec.
     send conn (message VIEW_FILE [(''files'', dumped E file_json fileVec)])))"

text \<open>
  The \<open>sendfile\<close> loop: \<open>Some (rest, True, w)\<close> when it ends, with \<open>rest = 0\<close>, \<open>Some (rest, False, w)\<close>
  when an error ends it with \<open>rest\<close> bytes missing, \<open>None\<close> when it goes on forever: \<open>sendfile\<close> returns
  0 at the end of a file that has become shorter, and the loop does not look for that.
\<close>

partial_function (option) sendfile_loop :: "'w env \<Rightarrow> nat \<Rightarrow> 'w \<Rightarrow> (nat \<times> bool \<times> 'w) option" where
  "sendfile_loop E remaining w =
     (if remaining = 0 then Some (0, True, w)
      else case sendfile E remaining w of (r, w') \<Rightarrow>
        (case r of Sent k \<Rightarrow> sendfile_loop E (remaining - k) w'
         | WouldBlock \<Rightarrow> sendfile_loop E remaining w'
         | SendError \<Rightarrow> Some (remaining, False, w')))"

declare sendfile_loop.simps [code]

definition send_bytes :: "'w env \<Rightarrow> nat \<Rightarrow> nat \<Rightarrow> ('w svc, bool) prog" where
  "send_bytes E conn fileSize s = (case sendfile_loop E fileSize (world s) of
       None \<Rightarrow> Stuck Diverges
     | Some (rest, ok, w) \<Rightarrow>
         Done ok (s\<lparr>world := w, out := out s @ [FileBytes conn (fileSize - rest)]\<rparr>))"

definition fcntl :: "'w env \<Rightarrow> ('w svc, bool) prog" where
  "fcntl E s = (case fcntl_ok E (world s) of (ok, w) \<Rightarrow> Done ok (s\<lparr>world := w\<rparr>))"

definition open_stat :: "'w env \<Rightarrow> string \<Rightarrow> ('w svc, file_status) prog" where
  "open_stat E path s = (case stat_file E (c_str path) (world s) of (st, w) \<Rightarrow> Done st (s\<lparr>world := w\<rparr>))"

definition handleReceiveFile :: "'w env \<Rightarrow> 'w handler" where
  "handleReceiveFile E conn js time =
     bnd (str_field js ''filename'') (\<lambda>filename.
     bnd (open_stat E (''./received_files/'' @ filename)) (\<lambda>st.
     case st of
       OpenFailed \<Rightarrow> send conn (message RECEIVE_FILE_FAIL [])
     | StatFailed \<Rightarrow> ret ()
     | FileSize fileSize \<Rightarrow>
         bnd (conn_user conn) (\<lambda>me.
         andthen (modify (\<lambda>s. s\<lparr>m_userConnMap := (m_userConnMap s)(me := None)\<rparr>))
         (andthen (send conn (message SEND_FILE_SERVER
           [(''filename'', JStr filename), (''filesize'', JInt (int fileSize))]))
         (bnd (fcntl E) (\<lambda>got. if \<not> got then ret () else
          bnd (fcntl E) (\<lambda>blocking. if \<not> blocking then ret () else
          bnd (send_bytes E conn fileSize) (\<lambda>sent. if \<not> sent then ret () else
          bnd (fcntl E) (\<lambda>restored. if \<not> restored then ret () else
          bnd (conn_user conn) (\<lambda>me.
          andthen (modify (\<lambda>s. s\<lparr>m_userConnMap := (m_userConnMap s)(me \<mapsto> conn)\<rparr>))
          (andthen (send conn (message SEND_FILE_END []))
          (send conn (message RECEIVE_FILE_FINISH []))))))))))))) "

text \<open>When the loop ends without an error, every byte was handed to the kernel; the tables are untouched.\<close>

context services
begin

lemma sendfile_loop_result:
  "sendfile_loop F n w = Some r \<Longrightarrow> F = E \<Longrightarrow>
    view (snd (snd r)) = view w \<and> fst r \<le> n \<and> (fst (snd r) \<longrightarrow> fst r = 0)"
proof (induction F n w r rule: sendfile_loop.raw_induct [rotated, consumes 1])
  case (1 loop F n w r)
  show ?case
  proof (cases "n = 0")
    case True
    with 1(2) show ?thesis by auto
  next
    case False
    obtain st w1 where sf: "sendfile E n w = (st, w1)" by fastforce
    with sendfile_view [of n w] have w1: "view w1 = view w" by simp
    show ?thesis
    proof (cases st)
      case (Sent k)
      with 1(2,3) False sf have "loop E (n - k) w1 = Some r" by simp
      from 1(1) [OF this] 1(3) w1 show ?thesis by auto
    next
      case WouldBlock
      with 1(2,3) False sf have "loop E n w1 = Some r" by simp
      from 1(1) [OF this] 1(3) w1 show ?thesis by auto
    next
      case SendError
      with 1(2,3) False sf w1 show ?thesis by auto
    qed
  qed
qed

end

end
