(* ===== verification/Dispatch.thy ===== *)
theory Dispatch
  imports Friend_Service Group_Service Chat_Service
begin

text \<open>
  The table of handlers (the constructor of \<open>Service\<close> and \<open>getHandler\<close>) and the callbacks of
  \<open>project/server/server.cc\<close> that run them.  A handler runs as a task of the thread pool: an
  exception it throws ends up in the task's \<open>future\<close>, which nobody reads, and what the handler had
  changed stays.  \<open>served_in_turn\<close> takes the tasks one after the other, each to its end.  The pool has ten threads, so this is one of the
  orders the program allows, not all of them; theory \<open>Concurrent_Tasks\<close> cuts two of the tasks into pieces that interleave and shows
  what goes wrong then.  A task that is stuck has no step: one that waits for a connection forever, and one whose text breaks out of its SQL
  literal, as what MySQL makes of the statement is not modelled.
\<close>

definition m_handlersMap :: "'w env \<Rightarrow> (int \<times> 'w handler) list" where
  "m_handlersMap E = [
     (REG_MSG, reg E), (LOGIN_MSG, login E), (DISPLAY_ALLUSER_LIST, handleDisplayAllUserList E),
     (ADD_FRIEND, handleAddFriend E), (DELETE_FRIEND, handleDeleteFriend E),
     (PRIVATE_CHAT, handlePrivateChat E), (DISPLAY_FRIEND_LIST, handleDisplayFriendList E),
     (FRIEND_REQUEST_LIST, handleFriendRequestList E), (BLOCK_FRIEND, handleBlockFriend E),
     (UNBLOCK_FRIEND, handleUnBlockFriend E), (BLOCK_FRIEND_LIST, handleBlockFriendList E),
     (CHECK_BLOCK, handleCheckBlock E), (CREATE_GROUP, handleCreateGroup E),
     (DISPLAY_ALLGROUP_LIST, handleDisplayAllGroupList E), (REQUEST_GROUP, requestAddGroup E),
     (GROUP_REQUEST_LIST, handleGroupRequestList E), (ADD_GROUP, handleAddSomeoneToGroup E),
     (QUIT_GROUP, handleQuitGroup E), (DISPLAY_OWN_GROUP_LIST, handleShowOwnGroupList E),
     (DISPLAY_GROUP_MEMBER_LIST, handleShowGroupMemberList E),
     (DISPLAY_GROUP_SET_MANAGER_MEMBER_LIST, handleDisplaySetManagerMemberList E),
     (SET_MANAGER, handleSetManager E), (CANCEL_MANAGER, handleCancelManager E),
     (KICK_SOMEONE, handleKickSomeoneInGroup E), (CHECK_GROUP_MEMBER, handleCheckIfGroupMember E),
     (GROUP_CHAT, handleGroupChat E), (MASTER_DELETE_GROUP, handleMasterDeleteGroup E),
     (SEND_FILE_DATABASE, handleSendFileDataBase E), (VIEW_FILE, handleDisplayFileList E),
     (RECEIVE_FILE, handleReceiveFile E), (PRIVATE_CHAT_HISTORY, handleDisplayPrivateHistory E),
     (GROUP_CHAT_HISTORY, handleDisplayGroupHistory E)]"

definition getHandler :: "'w env \<Rightarrow> int \<Rightarrow> 'w handler" where
  "getHandler E msgid = (case map_of (m_handlersMap E) msgid of
     None \<Rightarrow> (\<lambda>conn js time. ret ()) | Some h \<Rightarrow> h)"

text \<open>What runs in the I/O thread, and the task it leaves for the pool.\<close>

definition onJsonMessage :: "'w env \<Rightarrow> nat \<Rightarrow> json \<Rightarrow> timestamp \<Rightarrow> ('w svc, ('w svc, unit) prog) prog" where
  "onJsonMessage E conn js time =
     andthen (setConnStatus conn True)
     (bnd (int_field js ''msgid'') (\<lambda>msgid. ret (getHandler E msgid conn js time)))"

definition onConnection :: "'w env \<Rightarrow> nat \<Rightarrow> bool \<Rightarrow> ('w svc, unit) prog" where
  "onConnection E conn connected =
     (if connected then setConnStatus conn True
      else andthen (clientClose E conn) (emit (ForceClose conn)))"

definition server_init :: "'w env \<Rightarrow> ('w svc, unit) prog" where
  "server_init E = andthen (groupUserListMapInit E) (UserstateInit E)"

text \<open>The state a program leaves behind, whether it returned or threw.\<close>

definition leaves :: "('s, 'a) prog \<Rightarrow> 's \<Rightarrow> 's option" where
  "leaves m s = (case m s of Done x s' \<Rightarrow> Some s' | Throw e s' \<Rightarrow> Some s' | Stuck b \<Rightarrow> None)"

text \<open>One callback, task, sweep or flush, run to its end.\<close>

inductive server_step :: "'w env \<Rightarrow> 'w svc \<Rightarrow> 'w svc \<Rightarrow> bool" for E where
  opened: "onConnection E conn True s = Done x s' \<Longrightarrow> server_step E s s'"
| closed: "onConnection E conn False s = Done x s' \<Longrightarrow> server_step E s s'"
| posted: "onJsonMessage E conn js time s = Done task s' \<Longrightarrow> server_step E s s'"
| handled: "leaves (getHandler E msgid conn js time) s = Some s' \<Longrightarrow> server_step E s s'"
| heartbeat: "checkIfConnAlive E s = Done x s' \<Longrightarrow> server_step E s s'"
| transfer_begins: "removeConnStatus conn s = Done x s' \<Longrightarrow> server_step E s s'"
| transfer_ends: "addConnStatus conn s = Done x s' \<Longrightarrow> server_step E s s'"
| flushed: "leaves (flushCacheToDatabase E) s = Some s' \<Longrightarrow> server_step E s s'"

inductive served_in_turn :: "'w env \<Rightarrow> 'w svc \<Rightarrow> 'w svc \<Rightarrow> bool" for E s0 where
  start: "served_in_turn E s0 s0"
| step: "served_in_turn E s0 s \<Longrightarrow> server_step E s s' \<Longrightarrow> served_in_turn E s0 s'"

lemma leaves_keeps: "keeps P m \<Longrightarrow> P s \<Longrightarrow> leaves m s = Some s' \<Longrightarrow> P s'"
  by (auto simp: leaves_def dest: keeps_Done keeps_Throw split: outcome.splits)

text \<open>An invariant of the server is one that each of its programs keeps.\<close>

lemma getHandler_keeps:
  assumes "\<And>msgid h. (msgid, h) \<in> set (m_handlersMap E) \<Longrightarrow> keeps P (h conn js time)"
  shows "keeps P (getHandler E msgid conn js time)"
  using assms by (auto simp: getHandler_def keeps_ret split: option.splits dest: map_of_SomeD)

lemma server_step_keeps:
  assumes step: "server_step E s s'" and s: "P s"
    and onConn: "\<And>conn b. keeps P (onConnection E conn b)"
    and status: "\<And>conn b. keeps P (setConnStatus conn b)" "\<And>conn. keeps P (removeConnStatus conn)"
      "\<And>conn. keeps P (addConnStatus conn)"
    and handler: "\<And>msgid h conn js time. (msgid, h) \<in> set (m_handlersMap E) \<Longrightarrow> keeps P (h conn js time)"
    and alive: "keeps P (checkIfConnAlive E)" and flush: "keeps P (flushCacheToDatabase E)"
  shows "P s'"
  using step
proof cases
  case (posted conn js time task)
  have "keeps P (onJsonMessage E conn js time)"
    unfolding onJsonMessage_def by (intro keeps_rules status)
  from keeps_Done [OF this s posted] show ?thesis .
next
  case (handled msgid conn js time)
  have "keeps P (getHandler E msgid conn js time)"
    by (rule getHandler_keeps) (rule handler)
  from leaves_keeps [OF this s handled] show ?thesis .
next
  case flushed
  from leaves_keeps [OF flush s flushed] show ?thesis .
next
  case (transfer_begins conn x)
  from keeps_Done [OF status(2) s transfer_begins] show ?thesis .
next
  case (transfer_ends conn x)
  from keeps_Done [OF status(3) s transfer_ends] show ?thesis .
qed (use s onConn alive in \<open>auto dest: keeps_Done\<close>)

lemma reachable_keeps:
  assumes "served_in_turn E s0 s" and "P s0"
    and "\<And>s s'. P s \<Longrightarrow> server_step E s s' \<Longrightarrow> P s'"
  shows "P s"
  using assms(1,2) by (induction) (auto intro: assms(3))

end
