(* ===== verification/Buffer.thy ===== *)
theory Buffer
  imports Prelude
begin

text \<open>
  \<open>project/m_netlib/Net/Buffer.h\<close> and \<open>Buffer.cc\<close>: a vector of bytes with a read index and a write
  index.  What a user of a buffer relies on is the interface \<open>byte_queue\<close>: bytes go in at the end and
  come out at the front.  An operation whose \<open>assert\<close> would fail has the value \<open>None\<close>.
\<close>

definition kCheapPrepend :: nat where
  "kCheapPrepend = 8"

definition kInitialSize :: nat where
  "kInitialSize = 1024"

record buffer =
  m_buffer :: string
  m_readIndex :: nat
  m_writeIndex :: nat

definition new_buffer :: buffer where
  "new_buffer = \<lparr>m_buffer = replicate (kCheapPrepend + kInitialSize) (CHR 0x00),
     m_readIndex = kCheapPrepend, m_writeIndex = kCheapPrepend\<rparr>"

definition readableBytes :: "buffer \<Rightarrow> nat" where
  "readableBytes b = m_writeIndex b - m_readIndex b"

definition writableBytes :: "buffer \<Rightarrow> nat" where
  "writableBytes b = length (m_buffer b) - m_writeIndex b"

definition prependableBytes :: "buffer \<Rightarrow> nat" where
  "prependableBytes b = m_readIndex b"

text \<open>The bytes from \<open>peek()\<close> to \<open>beginWrite()\<close>.\<close>

definition contents :: "buffer \<Rightarrow> string" where
  "contents b = drop (m_readIndex b) (take (m_writeIndex b) (m_buffer b))"

fun search_crlf :: "string \<Rightarrow> nat option" where
  "search_crlf (c # d # cs) = (if c = CHR 0x0D \<and> d = CHR 0x0A then Some 0
     else map_option Suc (search_crlf (d # cs)))"
| "search_crlf _ = None"

text \<open>The distance of the line end from \<open>peek()\<close>.\<close>

definition findCRLF :: "buffer \<Rightarrow> nat option" where
  "findCRLF b = search_crlf (contents b)"

definition retrieveAll :: "buffer \<Rightarrow> buffer" where
  "retrieveAll b = b\<lparr>m_readIndex := kCheapPrepend, m_writeIndex := kCheapPrepend\<rparr>"

definition retrieve :: "nat \<Rightarrow> buffer \<Rightarrow> buffer option" where
  "retrieve len b = (if readableBytes b < len then None
     else if len < readableBytes b then Some (b\<lparr>m_readIndex := m_readIndex b + len\<rparr>)
     else Some (retrieveAll b))"

text \<open>The argument is the distance of \<open>end\<close> from \<open>peek()\<close>.\<close>

definition retrieveUntil :: "nat \<Rightarrow> buffer \<Rightarrow> buffer option" where
  "retrieveUntil end b = retrieve end b"

definition retrieveAsString :: "buffer \<Rightarrow> string \<times> buffer" where
  "retrieveAsString b = (contents b, retrieveAll b)"

definition swap_buffers :: "buffer \<Rightarrow> buffer \<Rightarrow> buffer \<times> buffer" where
  "swap_buffers b rhs =
     (b\<lparr>m_buffer := m_buffer rhs, m_readIndex := m_readIndex rhs, m_writeIndex := m_writeIndex rhs\<rparr>,
      rhs\<lparr>m_buffer := m_buffer b, m_readIndex := m_readIndex b, m_writeIndex := m_writeIndex b\<rparr>)"

text \<open>\<open>std::copy\<close> of bytes to a position of the vector.\<close>

definition copy_to :: "string \<Rightarrow> nat \<Rightarrow> string \<Rightarrow> string" where
  "copy_to xs i v = take i v @ xs @ drop (i + length xs) v"

definition hasWritten :: "nat \<Rightarrow> buffer \<Rightarrow> buffer" where
  "hasWritten len b = b\<lparr>m_writeIndex := m_writeIndex b + len\<rparr>"

definition resize :: "nat \<Rightarrow> string \<Rightarrow> string" where
  "resize n v = take n v @ replicate (n - length v) (CHR 0x00)"

definition makeSpace :: "nat \<Rightarrow> buffer \<Rightarrow> buffer option" where
  "makeSpace len b =
     (if writableBytes b + prependableBytes b < len + kCheapPrepend
      then Some (b\<lparr>m_buffer := resize (m_writeIndex b + len) (m_buffer b)\<rparr>)
      else if \<not> kCheapPrepend < m_readIndex b then None
      else Some (b\<lparr>m_buffer := copy_to (contents b) kCheapPrepend (m_buffer b),
             m_readIndex := kCheapPrepend, m_writeIndex := kCheapPrepend + readableBytes b\<rparr>))"

definition ensureWritableBytes :: "nat \<Rightarrow> buffer \<Rightarrow> buffer option" where
  "ensureWritableBytes len b =
     Option.bind (if writableBytes b < len then makeSpace len b else Some b) (\<lambda>b'.
       if writableBytes b' < len then None else Some b')"

definition append_bytes :: "string \<Rightarrow> buffer \<Rightarrow> buffer option" where
  "append_bytes data b = Option.bind (ensureWritableBytes (length data) b) (\<lambda>b'.
     Some (hasWritten (length data) (b'\<lparr>m_buffer := copy_to data (m_writeIndex b') (m_buffer b')\<rparr>)))"

definition prepend :: "string \<Rightarrow> buffer \<Rightarrow> buffer option" where
  "prepend data b = (if prependableBytes b < length data then None
     else Some (b\<lparr>m_readIndex := m_readIndex b - length data,
       m_buffer := copy_to data (m_readIndex b - length data) (m_buffer b)\<rparr>))"

definition extrabuf_size :: nat where
  "extrabuf_size = 65536"

text \<open>
  \<open>data\<close> are the bytes one \<open>readv\<close> delivered: the first \<open>writableBytes()\<close> of them into the vector,
  the rest into \<open>extrabuf\<close>, which takes part only when it is the larger of the two.
\<close>

definition readv_capacity :: "buffer \<Rightarrow> nat" where
  "readv_capacity b =
     writableBytes b + (if writableBytes b < extrabuf_size then extrabuf_size else 0)"

definition readFd :: "string \<Rightarrow> buffer \<Rightarrow> buffer option" where
  "readFd data b =
     (let writable = writableBytes b;
          b' = b\<lparr>m_buffer := copy_to (take writable data) (m_writeIndex b) (m_buffer b)\<rparr>
      in if length data \<le> writable then Some (b'\<lparr>m_writeIndex := m_writeIndex b + length data\<rparr>)
         else append_bytes (drop writable data) (b'\<lparr>m_writeIndex := length (m_buffer b')\<rparr>))"

section \<open>The invariant and the contents\<close>

definition buffer_ok :: "buffer \<Rightarrow> bool" where
  "buffer_ok b \<longleftrightarrow> m_readIndex b \<le> m_writeIndex b \<and> m_writeIndex b \<le> length (m_buffer b) \<and>
     kCheapPrepend \<le> length (m_buffer b)"

lemma new_buffer_ok: "buffer_ok new_buffer" "contents new_buffer = []"
  by (simp_all add: buffer_ok_def new_buffer_def contents_def kCheapPrepend_def kInitialSize_def)

lemma swap_buffers [simp]: "swap_buffers b rhs = (rhs, b)"
  by (simp add: swap_buffers_def)

lemma contents_length: "buffer_ok b \<Longrightarrow> length (contents b) = readableBytes b"
  by (simp add: contents_def readableBytes_def buffer_ok_def)

lemma length_copy_to: "i + length xs \<le> length v \<Longrightarrow> length (copy_to xs i v) = length v"
  by (simp add: copy_to_def)

lemma retrieve_Some:
  assumes "buffer_ok b" and "len \<le> length (contents b)"
  obtains b' where "retrieve len b = Some b'" "buffer_ok b'" "contents b' = drop len (contents b)"
proof (cases "len < readableBytes b")
  case True
  then show ?thesis using assms that [of "b\<lparr>m_readIndex := m_readIndex b + len\<rparr>"]
    by (simp add: retrieve_def buffer_ok_def contents_def readableBytes_def add.commute)
next
  case False
  with assms have "len = readableBytes b" by (simp add: contents_length)
  with assms(1) that [of "retrieveAll b"] show ?thesis
    by (simp add: retrieve_def retrieveAll_def buffer_ok_def contents_def readableBytes_def)
qed

lemma retrieve_None: "buffer_ok b \<Longrightarrow> retrieve len b = None \<longleftrightarrow> length (contents b) < len"
  by (auto simp: retrieve_def contents_length)

lemma makeSpace_Some:
  assumes "buffer_ok b" and "writableBytes b < len"
  obtains b' where "makeSpace len b = Some b'" "buffer_ok b'" "contents b' = contents b"
    "len \<le> writableBytes b'"
proof (cases "writableBytes b + prependableBytes b < len + kCheapPrepend")
  case True
  from assms have "kCheapPrepend \<le> m_writeIndex b + len" "m_writeIndex b \<le> length (m_buffer b)"
    "m_readIndex b \<le> m_writeIndex b"
    by (auto simp: buffer_ok_def writableBytes_def)
  with True assms(2) that [of "b\<lparr>m_buffer := resize (m_writeIndex b + len) (m_buffer b)\<rparr>"] show ?thesis
    by (simp add: makeSpace_def resize_def buffer_ok_def contents_def writableBytes_def)
next
  case False
  with assms have r: "kCheapPrepend < m_readIndex b"
    by (simp add: writableBytes_def prependableBytes_def)
  from assms(1) have len: "length (contents b) = m_writeIndex b - m_readIndex b"
    by (simp add: contents_length readableBytes_def)
  let ?b = "b\<lparr>m_buffer := copy_to (contents b) kCheapPrepend (m_buffer b),
      m_readIndex := kCheapPrepend, m_writeIndex := kCheapPrepend + readableBytes b\<rparr>"
  show ?thesis
  proof (rule that [of ?b])
    show "makeSpace len b = Some ?b" using False r by (simp add: makeSpace_def)
    from r assms(1) len have "length (copy_to (contents b) kCheapPrepend (m_buffer b)) = length (m_buffer b)"
      by (intro length_copy_to) (auto simp: buffer_ok_def)
    with r assms(1) False show "buffer_ok ?b" "len \<le> writableBytes ?b"
      by (auto simp: buffer_ok_def readableBytes_def writableBytes_def prependableBytes_def)
    show "contents ?b = contents b"
      unfolding contents_def [of ?b] using r assms(1) len
      by (auto simp: copy_to_def readableBytes_def buffer_ok_def)
  qed
qed

lemma ensureWritableBytes_Some:
  assumes "buffer_ok b"
  obtains b' where "ensureWritableBytes len b = Some b'" "buffer_ok b'" "contents b' = contents b"
    "len \<le> writableBytes b'"
proof (cases "writableBytes b < len")
  case True
  from makeSpace_Some [OF assms True] obtain b' where "makeSpace len b = Some b'" "buffer_ok b'"
    "contents b' = contents b" "len \<le> writableBytes b'" .
  with True that show ?thesis by (simp add: ensureWritableBytes_def)
next
  case False
  with assms that [of b] show ?thesis by (simp add: ensureWritableBytes_def)
qed

lemma contents_written:
  assumes "buffer_ok b" and "length data \<le> writableBytes b"
  shows "buffer_ok (b\<lparr>m_buffer := copy_to data (m_writeIndex b) (m_buffer b), m_writeIndex := m_writeIndex b + length data\<rparr>)"
    and "contents (b\<lparr>m_buffer := copy_to data (m_writeIndex b) (m_buffer b), m_writeIndex := m_writeIndex b + length data\<rparr>)
      = contents b @ data"
  using assms by (auto simp: buffer_ok_def contents_def copy_to_def writableBytes_def)

lemma append_Some:
  assumes "buffer_ok b"
  obtains b' where "append_bytes data b = Some b'" "buffer_ok b'" "contents b' = contents b @ data"
proof -
  from ensureWritableBytes_Some [OF assms] obtain b1 where b1: "ensureWritableBytes (length data) b = Some b1"
    "buffer_ok b1" "contents b1 = contents b" "length data \<le> writableBytes b1" .
  from b1(1,3) contents_written [OF b1(2,4)] that show ?thesis
    by (simp add: append_bytes_def hasWritten_def)
qed

lemma readFd_Some:
  assumes "buffer_ok b"
  obtains b' where "readFd data b = Some b'" "buffer_ok b'" "contents b' = contents b @ data"
proof (cases "length data \<le> writableBytes b")
  case True
  with contents_written [OF assms True] that show ?thesis by (simp add: readFd_def Let_def)
next
  case False
  let ?d = "take (writableBytes b) data"
  let ?b = "b\<lparr>m_buffer := copy_to ?d (m_writeIndex b) (m_buffer b), m_writeIndex := m_writeIndex b + length ?d\<rparr>"
  have "length ?d \<le> writableBytes b" by simp
  note w = contents_written [OF assms this]
  from append_Some [OF w(1)] obtain b' where b': "append_bytes (drop (writableBytes b) data) ?b = Some b'"
    "buffer_ok b'" "contents b' = contents ?b @ drop (writableBytes b) data" .
  from False assms have "m_writeIndex b + length ?d = length (m_buffer b)"
    "length (copy_to ?d (m_writeIndex b) (m_buffer b)) = length (m_buffer b)"
    by (simp_all add: writableBytes_def buffer_ok_def length_copy_to)
  with False b' w(2) that show ?thesis by (simp add: readFd_def Let_def)
qed

section \<open>The interface\<close>

text \<open>
  \<open>byte_queue\<close> is what the codecs and the connection rely on: a queue of bytes, seen through
  \<open>bytes\<close>, whose operations succeed where the code calls them and keep \<open>ok\<close>.
\<close>

locale byte_queue =
  fixes ok :: "'q \<Rightarrow> bool" and bytes :: "'q \<Rightarrow> string"
    and put :: "string \<Rightarrow> 'q \<Rightarrow> 'q option" and take_off :: "nat \<Rightarrow> 'q \<Rightarrow> 'q option"
  assumes put_ok: "ok q \<Longrightarrow> \<exists>q'. put xs q = Some q' \<and> ok q' \<and> bytes q' = bytes q @ xs"
    and take_off_ok: "ok q \<Longrightarrow> n \<le> length (bytes q) \<Longrightarrow>
      \<exists>q'. take_off n q = Some q' \<and> ok q' \<and> bytes q' = drop n (bytes q)"
    and take_off_fails: "ok q \<Longrightarrow> length (bytes q) < n \<Longrightarrow> take_off n q = None"
begin

fun put_all :: "string list \<Rightarrow> 'q \<Rightarrow> 'q option" where
  "put_all [] q = Some q"
| "put_all (xs # xss) q = Option.bind (put xs q) (put_all xss)"

lemma put_all_ok: "ok q \<Longrightarrow> \<exists>q'. put_all xss q = Some q' \<and> ok q' \<and> bytes q' = bytes q @ concat xss"
proof (induction xss arbitrary: q)
  case (Cons xs xss)
  from put_ok [OF Cons.prems] obtain q1 where q1: "put xs q = Some q1" "ok q1" "bytes q1 = bytes q @ xs"
    by blast
  from Cons.IH [OF q1(2)] q1 show ?case by auto
qed auto

text \<open>What goes in comes out, in the order it went in, whatever the pieces.\<close>

lemma put_take:
  assumes "ok q" and "bytes q = []"
  shows "\<exists>q1 q2. put_all xss q = Some q1 \<and> take n (bytes q1) = take n (concat xss) \<and>
    (n \<le> length (concat xss) \<longrightarrow> take_off n q1 = Some q2 \<and> bytes q2 = drop n (concat xss))"
proof -
  from put_all_ok [OF assms(1), of xss] assms(2) obtain q1
    where q1: "put_all xss q = Some q1" "ok q1" "bytes q1 = concat xss" by auto
  with take_off_ok [OF q1(2), of n] show ?thesis by auto
qed

end

interpretation buffer: byte_queue buffer_ok contents append_bytes retrieve
proof
  fix q :: buffer and xs n
  show "buffer_ok q \<Longrightarrow> \<exists>q'. append_bytes xs q = Some q' \<and> buffer_ok q' \<and> contents q' = contents q @ xs"
    using append_Some by metis
  show "buffer_ok q \<Longrightarrow> n \<le> length (contents q) \<Longrightarrow>
      \<exists>q'. retrieve n q = Some q' \<and> buffer_ok q' \<and> contents q' = drop n (contents q)"
    using retrieve_Some by metis
  show "buffer_ok q \<Longrightarrow> length (contents q) < n \<Longrightarrow> retrieve n q = None"
    by (simp add: retrieve_None)
qed

interpretation read_buffer: byte_queue buffer_ok contents readFd retrieve
proof
  fix q :: buffer and xs n
  show "buffer_ok q \<Longrightarrow> \<exists>q'. readFd xs q = Some q' \<and> buffer_ok q' \<and> contents q' = contents q @ xs"
    using readFd_Some by metis
qed (use buffer.take_off_ok buffer.take_off_fails in auto)

section \<open>Line ends\<close>

lemma search_crlf_bound: "search_crlf cs = Some i \<Longrightarrow> i + 2 \<le> length cs"
  by (induction cs arbitrary: i rule: search_crlf.induct) (auto split: if_splits)

lemma search_crlf_line:
  "search_crlf cs = Some i \<Longrightarrow> cs = take i cs @ [CHR 0x0D, CHR 0x0A] @ drop (i + 2) cs"
  by (induction cs arbitrary: i rule: search_crlf.induct) (auto split: if_splits)

lemma search_crlf_append: "search_crlf cs = Some i \<Longrightarrow> search_crlf (cs @ ds) = Some i"
proof (induction cs arbitrary: i rule: search_crlf.induct)
  case (1 c d cs)
  then show ?case by (cases "search_crlf (d # cs)") (auto split: if_splits)
qed auto

lemma search_crlf_frame:
  "CHR 0x0D \<notin> set xs \<Longrightarrow> search_crlf (xs @ CHR 0x0D # CHR 0x0A # ys) = Some (length xs)"
proof (induction xs)
  case (Cons c xs)
  then show ?case by (cases xs) auto
qed simp

section \<open>Histories\<close>

text \<open>Any sequence of calls, on the buffer and on a plain string.\<close>

datatype buffer_op = Append string | ReadFd string | Retrieve nat

fun buffer_step :: "buffer_op \<Rightarrow> buffer \<Rightarrow> buffer option" where
  "buffer_step (Append xs) b = append_bytes xs b"
| "buffer_step (ReadFd xs) b = readFd xs b"
| "buffer_step (Retrieve n) b = retrieve n b"

fun string_step :: "buffer_op \<Rightarrow> string \<Rightarrow> string option" where
  "string_step (Append xs) q = Some (q @ xs)"
| "string_step (ReadFd xs) q = Some (q @ xs)"
| "string_step (Retrieve n) q = (if length q < n then None else Some (drop n q))"

fun run_ops :: "('o \<Rightarrow> 's \<Rightarrow> 's option) \<Rightarrow> 'o list \<Rightarrow> 's \<Rightarrow> 's option" where
  "run_ops f [] s = Some s"
| "run_ops f (x # xs) s = Option.bind (f x s) (run_ops f xs)"

lemma buffer_step_refines:
  assumes "buffer_ok b"
  shows "rel_option (\<lambda>b q. buffer_ok b \<and> contents b = q) (buffer_step x b) (string_step x (contents b))"
proof (cases x)
  case (Append xs)
  with buffer.put_ok [OF assms, of xs] show ?thesis by auto
next
  case (ReadFd xs)
  with read_buffer.put_ok [OF assms, of xs] show ?thesis by auto
next
  case (Retrieve n)
  with buffer.take_off_ok [OF assms, of n] buffer.take_off_fails [OF assms, of n] show ?thesis
    by (cases "length (contents b) < n") auto
qed

lemma buffer_run_refines:
  "buffer_ok b \<Longrightarrow> rel_option (\<lambda>b q. buffer_ok b \<and> contents b = q)
     (run_ops buffer_step xs b) (run_ops string_step xs (contents b))"
proof (induction xs arbitrary: b)
  case (Cons x xs)
  show ?case
  proof (cases "buffer_step x b")
    case None
    with buffer_step_refines [OF Cons.prems, of x] show ?thesis by simp
  next
    case (Some b')
    with buffer_step_refines [OF Cons.prems, of x] have "buffer_ok b'" "string_step x (contents b) = Some (contents b')"
      by (auto simp: option_rel_Some1)
    with Some Cons.IH show ?thesis by simp
  qed
qed simp

end
