(* ===== verification/Codec_Loop.thy ===== *)
theory Codec_Loop
  imports Buffer
begin

text \<open>
  What the two classes \<open>JsonCodec\<close> (\<open>project/ServerJsonCodec.h\<close>, \<open>project/ClientJsonCodec.h\<close>) share:
  the transfers in progress, the loop of \<open>onMessage\<close> over the input buffer, and the abstract decoder
  of a byte string that the loop refines.
\<close>

record transfer =
  t_path :: string
  t_written :: string
  fileSize :: nat

record codec =
  m_fileTransferStates :: "nat \<Rightarrow> transfer option"
  closed_files :: "(string \<times> string) list"
  shutdowns :: "nat list"

definition shutdown_conn :: "nat \<Rightarrow> ('m codec_scheme, unit) prog" where
  "shutdown_conn conn = modify (\<lambda>s. s\<lparr>shutdowns := shutdowns s @ [conn]\<rparr>)"

definition begin_transfer :: "nat \<Rightarrow> string \<Rightarrow> nat \<Rightarrow> ('m codec_scheme, unit) prog" where
  "begin_transfer conn path len = modify (\<lambda>s. s\<lparr>m_fileTransferStates :=
     (m_fileTransferStates s)(conn \<mapsto> \<lparr>t_path = path, t_written = [], fileSize = len\<rparr>)\<rparr>)"

definition close_transfer :: "nat \<Rightarrow> 'm codec_scheme \<Rightarrow> 'm codec_scheme" where
  "close_transfer conn s = (case m_fileTransferStates s conn of None \<Rightarrow> s
     | Some st \<Rightarrow> s\<lparr>closed_files := closed_files s @ [(t_path st, t_written st)],
         m_fileTransferStates := (m_fileTransferStates s)(conn := None)\<rparr>)"

text \<open>One block of file data: written, and the file closed when it is the last.\<close>

definition write_data :: "nat \<Rightarrow> transfer \<Rightarrow> string \<Rightarrow> 'm codec_scheme \<Rightarrow> 'm codec_scheme" where
  "write_data conn st bs s =
     (let st' = st\<lparr>t_written := t_written st @ bs, fileSize := fileSize st - length bs\<rparr>;
          s' = s\<lparr>m_fileTransferStates := (m_fileTransferStates s)(conn \<mapsto> st')\<rparr>
      in if fileSize st' = 0 then close_transfer conn s' else s')"

lemma retrieve_less:
  "retrieve n b = Some b' \<Longrightarrow> 0 < n \<Longrightarrow> readableBytes b \<noteq> 0 \<Longrightarrow> readableBytes b' < readableBytes b"
  by (auto simp: retrieve_def retrieveAll_def readableBytes_def split: if_splits)

lemma retrieve_zero:
  "retrieve 0 b = Some b' \<Longrightarrow> readableBytes b \<noteq> 0 \<Longrightarrow> readableBytes b' = readableBytes b"
  by (auto simp: retrieve_def readableBytes_def split: if_splits)

lemma write_data_zero: "fileSize st = 0 \<Longrightarrow> m_fileTransferStates (write_data conn st bs s) conn = None"
  by (simp add: write_data_def close_transfer_def Let_def)

text \<open>
  The loop of \<open>onMessage\<close>, the same in both codecs; \<open>line conn\<close> is what a codec does with one line, and
  its value says whether the loop goes on.  The value of the loop is the buffer as it leaves it.
\<close>

type_synonym 's line_handler = "nat \<Rightarrow> string \<Rightarrow> ('s, bool) prog"

function (sequential) codec_loop :: "'m codec_scheme line_handler \<Rightarrow> nat \<Rightarrow> buffer \<Rightarrow>
    ('m codec_scheme, buffer) prog" where
  "codec_loop line conn buf s =
     (if readableBytes buf = 0 then Done buf s
      else case m_fileTransferStates s conn of
        None \<Rightarrow>
          (case findCRLF buf of None \<Rightarrow> Done buf s
           | Some crlf \<Rightarrow>
             (case retrieveUntil (crlf + 2) buf of None \<Rightarrow> Stuck AssertFailed
              | Some buf' \<Rightarrow>
                (case line conn (take crlf (contents buf)) s of
                   Done True s' \<Rightarrow> codec_loop line conn buf' s'
                 | Done False s' \<Rightarrow> Done buf' s'
                 | Throw e s' \<Rightarrow> Throw e s'
                 | Stuck b \<Rightarrow> Stuck b)))
      | Some st \<Rightarrow>
          (let readable = min (readableBytes buf) (fileSize st) in
           case retrieve readable buf of None \<Rightarrow> Stuck AssertFailed
           | Some buf' \<Rightarrow> codec_loop line conn buf'
               (write_data conn st (take readable (contents buf)) s)))"
  by pat_completeness auto
termination
proof (relation "inv_image (less_than <*lex*> less_than) (\<lambda>(line, conn, buf, s).
    (readableBytes buf, case m_fileTransferStates s conn of None \<Rightarrow> 0 | Some st \<Rightarrow> 1))", goal_cases)
  case (3 line conn buf s st readable buf')
  then show ?case
    by (cases "readable = 0") (auto simp: write_data_zero dest: retrieve_less retrieve_zero)
qed (auto simp: retrieveUntil_def dest: retrieve_less)

declare codec_loop.simps [simp del]

text \<open>
  Bytes arrive (\<open>handleRead\<close> of \<open>TcpConnection\<close> with a positive count): they are appended to the input
  buffer and the codec runs.
\<close>

definition receive :: "'m codec_scheme line_handler \<Rightarrow> nat \<Rightarrow> string \<Rightarrow> buffer \<Rightarrow> ('m codec_scheme, buffer) prog" where
  "receive line conn data buf = (case readFd data buf of
     None \<Rightarrow> halt AssertFailed | Some buf' \<Rightarrow> codec_loop line conn buf')"

fun receive_all :: "'m codec_scheme line_handler \<Rightarrow> nat \<Rightarrow> string list \<Rightarrow> buffer \<Rightarrow> ('m codec_scheme, buffer) prog" where
  "receive_all line conn [] buf = ret buf"
| "receive_all line conn (xs # xss) buf =
     bnd (receive line conn xs buf) (receive_all line conn xss)"

section \<open>The abstract decoder\<close>

text \<open>
  \<open>decode\<close> reads a byte string, and the value is what is left of it.  The loop over the buffer
  refines it, and it does not depend on how the bytes are cut into reads.
\<close>

function (sequential) decode :: "'m codec_scheme line_handler \<Rightarrow> nat \<Rightarrow> string \<Rightarrow> ('m codec_scheme, string) prog" where
  "decode line conn xs s =
     (if xs = [] then Done xs s
      else case m_fileTransferStates s conn of
        None \<Rightarrow>
          (case search_crlf xs of None \<Rightarrow> Done xs s
           | Some i \<Rightarrow>
             (case line conn (take i xs) s of
                Done True s' \<Rightarrow> decode line conn (drop (i + 2) xs) s'
              | Done False s' \<Rightarrow> Done (drop (i + 2) xs) s'
              | Throw e s' \<Rightarrow> Throw e s'
              | Stuck b \<Rightarrow> Stuck b))
      | Some st \<Rightarrow>
          decode line conn (drop (fileSize st) xs)
            (write_data conn st (take (fileSize st) xs) s))"
  by pat_completeness auto
termination
proof (relation "inv_image (less_than <*lex*> less_than) (\<lambda>(line, conn, xs, s).
    (length xs, case m_fileTransferStates s conn of None \<Rightarrow> 0 | Some st \<Rightarrow> 1))", goal_cases)
  case (3 line conn xs s st)
  then show ?case by (cases "fileSize st") (auto simp: write_data_zero)
qed auto

declare decode.simps [simp del]

lemma decode_nil [simp]: "decode line conn [] s = Done [] s"
  by (simp add: decode.simps)

lemma decode_line:
  assumes "m_fileTransferStates s conn = None" and "search_crlf xs = Some i"
  shows "decode line conn xs s = (case line conn (take i xs) s of
      Done True s' \<Rightarrow> decode line conn (drop (i + 2) xs) s'
    | Done False s' \<Rightarrow> Done (drop (i + 2) xs) s' | Throw e s' \<Rightarrow> Throw e s' | Stuck b \<Rightarrow> Stuck b)"
proof -
  have "xs \<noteq> []" using assms(2) by (cases xs) auto
  with assms show ?thesis by (subst decode.simps) simp
qed

lemma decode_data:
  assumes "m_fileTransferStates s conn = Some st" and "xs \<noteq> []"
  shows "decode line conn xs s =
    decode line conn (drop (fileSize st) xs) (write_data conn st (take (fileSize st) xs) s)"
  using assms by (subst decode.simps) simp

section \<open>Refinement\<close>

text \<open>An outcome on buffers stands for the outcome on their contents.\<close>

fun see :: "('s, buffer) outcome \<Rightarrow> ('s, string) outcome" where
  "see (Done b s) = Done (contents b) s"
| "see (Throw e s) = Throw e s"
| "see (Stuck b) = Stuck b"

fun leaves_ok :: "('s, buffer) outcome \<Rightarrow> bool" where
  "leaves_ok (Done b s) = buffer_ok b"
| "leaves_ok _ = True"

lemma onMessage_decode:
  "buffer_ok b \<Longrightarrow> see (codec_loop line conn b s) = decode line conn (contents b) s \<and>
     leaves_ok (codec_loop line conn b s)"
proof (induction line conn b s rule: codec_loop.induct)
  case (1 line conn b s)
  show ?case
  proof (cases "contents b = []")
    case True
    with 1(3) contents_length [OF 1(3)] show ?thesis by (simp add: codec_loop.simps)
  next
    case False
    with contents_length [OF 1(3)] have ne: "readableBytes b \<noteq> 0" by (metis length_0_conv)
    show ?thesis
    proof (cases "m_fileTransferStates s conn")
      case None
      show ?thesis
      proof (cases "search_crlf (contents b)")
        case N: None
        with None ne 1(3) False show ?thesis
          by (simp add: codec_loop.simps decode.simps findCRLF_def)
      next
        case (Some i)
        from search_crlf_bound [OF Some] buffer.take_off_ok [OF 1(3), of "i + 2"] obtain b'
          where b': "retrieve (i + 2) b = Some b'" "buffer_ok b'" "contents b' = drop (i + 2) (contents b)"
          by auto
        note IH = 1(1) [OF ne None _ _ _ _ b'(2), of i True, unfolded findCRLF_def retrieveUntil_def, OF Some b'(1)]
        show ?thesis
        proof (cases "line conn (take i (contents b)) s")
          case (Done go s')
          with IH [of s'] ne None Some b' show ?thesis
            by (cases go) (simp_all add: codec_loop.simps [of line conn b s] findCRLF_def
                retrieveUntil_def decode_line)
        qed (use ne None Some b' in \<open>simp_all add: codec_loop.simps [of line conn b s] findCRLF_def
            retrieveUntil_def decode_line\<close>)
      qed
    next
      case (Some st)
      let ?n = "min (readableBytes b) (fileSize st)"
      have len: "length (contents b) = readableBytes b" by (rule contents_length [OF 1(3)])
      then have "?n \<le> length (contents b)" by simp
      from buffer.take_off_ok [OF 1(3) this] obtain b'
        where b': "retrieve ?n b = Some b'" "buffer_ok b'" "contents b' = drop ?n (contents b)" by auto
      have n: "take ?n (contents b) = take (fileSize st) (contents b)"
        "drop ?n (contents b) = drop (fileSize st) (contents b)"
        using len by (simp_all add: min_def)
      from 1(2) [OF ne Some refl b'(1,2)] b'(1,3) ne Some False show ?thesis
        by (simp add: codec_loop.simps [of line conn b s] decode_data Let_def n)
    qed
  qed
qed

section \<open>Reads may cut the bytes anywhere\<close>

lemma write_data_twice:
  assumes "length xs < fileSize st" and "m_fileTransferStates (write_data conn st xs s) conn = Some st'"
  shows "write_data conn st' ys (write_data conn st xs s) = write_data conn st (xs @ ys) s"
  using assms by (auto simp: write_data_def close_transfer_def Let_def split: if_splits)

lemma write_data_open:
  "length xs < fileSize st \<Longrightarrow> m_fileTransferStates (write_data conn st xs s) conn =
    Some (st\<lparr>t_written := t_written st @ xs, fileSize := fileSize st - length xs\<rparr>)"
  by (simp add: write_data_def Let_def)

text \<open>After a read the rest is decoded with the next one as if both had come at once.\<close>

lemma decode_append:
  "(\<And>l s s'. line conn l s \<noteq> Done False s') \<Longrightarrow> decode line conn (xs @ ys) s = (case decode line conn xs s of
    Done rest s' \<Rightarrow> decode line conn (rest @ ys) s' | Throw e s' \<Rightarrow> Throw e s' | Stuck b \<Rightarrow> Stuck b)"
proof (induction line conn xs s rule: decode.induct)
  case (1 line conn xs s)
  show ?case
  proof (cases "xs = []")
    case False
    show ?thesis
    proof (cases "m_fileTransferStates s conn")
      case None
      show ?thesis
      proof (cases "search_crlf xs")
        case N: None
        with None False show ?thesis by (simp add: decode.simps [of line conn xs s])
      next
        case (Some i)
        from search_crlf_bound [OF Some] have i: "take i (xs @ ys) = take i xs"
          "drop (i + 2) (xs @ ys) = drop (i + 2) xs @ ys" by simp_all
        note app = decode_line [OF None search_crlf_append [OF Some], of line ys, unfolded i]
        show ?thesis
        proof (cases "line conn (take i xs) s")
          case (Done go s')
          show ?thesis
          proof (cases go)
            case True
            with Done have "line conn (take i xs) s = Done True s'" by simp
            from 1(1) [OF False None Some this refl 1(3)] this show ?thesis
              by (simp add: decode_line [OF None Some] app)
          next
            case False
            with Done 1(3) show ?thesis by simp
          qed
        qed (simp_all add: decode_line [OF None Some] app)
      qed
    next
      case (Some st)
      show ?thesis
      proof (cases "fileSize st \<le> length xs")
        case True
        with 1(2) [OF False Some 1(3)] False show ?thesis by (simp add: decode_data [OF Some])
      next
        case less: False
        let ?s = "write_data conn st xs s"
        from less write_data_open [of xs st conn s] have st': "m_fileTransferStates ?s conn =
            Some (st\<lparr>t_written := t_written st @ xs, fileSize := fileSize st - length xs\<rparr>)" by simp
        have "decode line conn (xs @ ys) s = decode line conn ys ?s"
        proof (cases "ys = []")
          case True
          with less False show ?thesis by (simp add: decode_data [OF Some])
        next
          case ne: False
          from less False ne write_data_twice [OF _ st', of "take (fileSize st - length xs) ys"]
          show ?thesis by (simp add: decode_data [OF Some] decode_data [OF st'])
        qed
        with less False show ?thesis by (simp add: decode_data [OF Some, of xs])
      qed
    qed
  qed simp
qed

lemma receive_decode:
  assumes "buffer_ok b"
  shows "see (receive line conn xs b s) = decode line conn (contents b @ xs) s \<and>
    leaves_ok (receive line conn xs b s)"
proof -
  from read_buffer.put_ok [OF assms, of xs] obtain b'
    where "readFd xs b = Some b'" "buffer_ok b'" "contents b' = contents b @ xs" by blast
  with onMessage_decode [of b' line conn s] show ?thesis by (simp add: receive_def)
qed

lemma receive_all_decode:
  assumes open_all: "\<And>l s s'. line conn l s \<noteq> Done False s'"
  shows "buffer_ok b \<Longrightarrow> decode line conn (contents b) s = Done (contents b) s \<Longrightarrow>
    see (receive_all line conn xss b s) = decode line conn (contents b @ concat xss) s"
proof (induction xss arbitrary: b s)
  case (Cons xs xss)
  note r = receive_decode [OF Cons.prems(1), of line conn xs s]
  have all: "decode line conn ((contents b @ xs) @ concat xss) s =
      (case decode line conn (contents b @ xs) s of Done rest s' \<Rightarrow> decode line conn (rest @ concat xss) s'
       | Throw e s' \<Rightarrow> Throw e s' | Stuck b \<Rightarrow> Stuck b)"
    by (rule decode_append) (rule open_all)
  show ?case
  proof (cases "receive line conn xs b s")
    case (Done b1 s1)
    with r have d: "decode line conn (contents b @ xs) s = Done (contents b1) s1" and ok: "buffer_ok b1"
      by auto
    have "decode line conn (contents b1) s1 = Done (contents b1) s1"
      using decode_append [of line conn "contents b @ xs" "[]" s] open_all d by simp
    from Cons.IH [OF ok this] Done d all show ?thesis by (simp add: bnd_apply)
  qed (use all r [THEN conjunct1, symmetric] in \<open>simp_all add: bnd_apply\<close>)
qed simp

section \<open>Lines that stop the loop\<close>

text \<open>
  A line that stops the loop leaves what comes after it in the buffer.  \<open>onward line\<close> goes on after such a line, which is what
  the next read does; \<open>strict line\<close> rules such lines out.
\<close>

definition onward :: "'s line_handler \<Rightarrow> 's line_handler" where
  "onward line conn l s = (case line conn l s of Done go s' \<Rightarrow> Done True s' | Throw e s' \<Rightarrow> Throw e s' | Stuck b \<Rightarrow> Stuck b)"

definition strict :: "'s line_handler \<Rightarrow> 's line_handler" where
  "strict line conn l s = (case line conn l s of Done go s' \<Rightarrow> if go then Done True s' else Stuck AssertFailed
     | Throw e s' \<Rightarrow> Throw e s' | Stuck b \<Rightarrow> Stuck b)"

lemma onward_apply:
  "line conn l s = Done go s' \<Longrightarrow> onward line conn l s = Done True s'"
  "line conn l s = Throw e s' \<Longrightarrow> onward line conn l s = Throw e s'"
  "line conn l s = Stuck b \<Longrightarrow> onward line conn l s = Stuck b"
  by (simp_all add: onward_def)

lemma onward_goes: "onward line conn l s \<noteq> Done False s'"
  by (simp add: onward_def split: outcome.split)

lemma strict_goes: "strict line conn l s \<noteq> Done False s'"
  by (simp add: strict_def split: outcome.split)

lemma strict_True: "line conn l s = Done True s' \<Longrightarrow> strict line conn l s = Done True s'"
  by (simp add: strict_def)

text \<open>What the buffer still holds after a read, decoded to its end, makes of the bytes what decoding them to their end would have made.\<close>

lemma decode_onward:
  "decode (onward line) conn xs s = (case decode line conn xs s of
     Done rest s' \<Rightarrow> decode (onward line) conn rest s' | Throw e s' \<Rightarrow> Throw e s' | Stuck b \<Rightarrow> Stuck b)"
proof (induction line conn xs s rule: decode.induct)
  case (1 line conn xs s)
  show ?case
  proof (cases "xs = []")
    case False
    show ?thesis
    proof (cases "m_fileTransferStates s conn")
      case (Some st)
      with 1(2) [OF False Some] False show ?thesis by (simp add: decode_data [OF Some])
    next
      case None
      show ?thesis
      proof (cases "search_crlf xs")
        case N: None
        with None False show ?thesis by (simp add: decode.simps [of line conn xs s])
      next
        case (Some i)
        show ?thesis
        proof (cases "line conn (take i xs) s")
          case (Done go s')
          show ?thesis
          proof (cases go)
            case True
            with Done have "line conn (take i xs) s = Done True s'" by simp
            from 1(1) [OF False None Some this refl] this show ?thesis by (simp add: decode_line [OF None Some] onward_apply)
          qed (use Done in \<open>simp add: decode_line [OF None Some] onward_apply\<close>)
        qed (simp_all add: decode_line [OF None Some] onward_apply)
      qed
    qed
  qed simp
qed

lemma decode_onward_append:
  "decode (onward line) conn (xs @ ys) s = (case decode line conn xs s of
     Done rest s' \<Rightarrow> decode (onward line) conn (rest @ ys) s' | Throw e s' \<Rightarrow> Throw e s' | Stuck b \<Rightarrow> Stuck b)"
proof -
  note app = decode_append [of "onward line" conn _ ys, OF onward_goes]
  show ?thesis
  proof (cases "decode line conn xs s")
    case (Done rest s')
    then have "decode (onward line) conn xs s = decode (onward line) conn rest s'" by (subst decode_onward) simp
    with Done show ?thesis by (simp add: app [of xs s] app [of rest s'])
  next
    case (Throw e s')
    then have "decode (onward line) conn xs s = Throw e s'" by (subst decode_onward) simp
    with Throw show ?thesis by (simp add: app [of xs s])
  next
    case (Stuck x)
    then have "decode (onward line) conn xs s = Stuck x" by (subst decode_onward) simp
    with Stuck show ?thesis by (simp add: app [of xs s])
  qed
qed

lemma receive_all_onward:
  "buffer_ok b \<Longrightarrow> decode (onward line) conn (contents b @ concat xss) s = (case receive_all line conn xss b s of
     Done b' s' \<Rightarrow> decode (onward line) conn (contents b') s' | Throw e s' \<Rightarrow> Throw e s' | Stuck x \<Rightarrow> Stuck x)"
proof (induction xss arbitrary: b s)
  case (Cons xs xss)
  note r = receive_decode [OF Cons.prems, of line conn xs s]
  have app: "decode (onward line) conn (contents b @ concat (xs # xss)) s = (case decode line conn (contents b @ xs) s of
     Done rest s' \<Rightarrow> decode (onward line) conn (rest @ concat xss) s' | Throw e s' \<Rightarrow> Throw e s' | Stuck b \<Rightarrow> Stuck b)"
    using decode_onward_append [of line conn "contents b @ xs" "concat xss" s] by simp
  show ?case
  proof (cases "receive line conn xs b s")
    case (Done b1 s1)
    with r have "decode line conn (contents b @ xs) s = Done (contents b1) s1" and ok: "buffer_ok b1" by auto
    with Cons.IH [OF ok, of s1] Done show ?thesis unfolding app by (simp add: bnd_apply)
  qed (unfold app, use r [THEN conjunct1, symmetric] in \<open>simp_all add: bnd_apply\<close>)
qed simp

text \<open>Where no line stops the loop, \<open>strict line\<close> tells what the reads do.\<close>

lemma strict_codec:
  "(\<exists>x. codec_loop (strict line) conn b s = Stuck x) \<or> codec_loop (strict line) conn b s = codec_loop line conn b s"
proof (induction line conn b s rule: codec_loop.induct)
  case (1 line conn b s)
  note un = codec_loop.simps [of _ conn b s]
  show ?case
  proof (cases "m_fileTransferStates s conn")
    case None
    show ?thesis
    proof (cases "line conn (take (the (findCRLF b)) (contents b)) s")
      case (Done go s1)
      then have l: "strict line conn (take (the (findCRLF b)) (contents b)) s = (if go then Done True s1 else Stuck AssertFailed)"
        by (simp add: strict_def)
      from Done None l 1(1) [OF _ None _ _ _ refl, of "the (findCRLF b)" "the (retrieveUntil (the (findCRLF b) + 2) b)" s1]
      show ?thesis unfolding un by (cases go) (auto split: option.splits)
    next
      case (Throw e s1)
      then have "strict line conn (take (the (findCRLF b)) (contents b)) s = Throw e s1" by (simp add: strict_def)
      with Throw None show ?thesis unfolding un by (auto split: option.splits)
    next
      case (Stuck x)
      then have "strict line conn (take (the (findCRLF b)) (contents b)) s = Stuck x" by (simp add: strict_def)
      with Stuck None show ?thesis unfolding un by (auto split: option.splits)
    qed
  next
    case (Some st)
    with 1(2) [OF _ Some refl] show ?thesis unfolding un by (auto simp: Let_def split: option.splits)
  qed
qed

lemma strict_receive_all:
  "(\<exists>x. receive_all (strict line) conn xss b s = Stuck x) \<or> receive_all (strict line) conn xss b s = receive_all line conn xss b s"
proof (induction xss arbitrary: b s)
  case (Cons xs xss)
  have "(\<exists>x. receive (strict line) conn xs b s = Stuck x) \<or> receive (strict line) conn xs b s = receive line conn xs b s"
    by (cases "readFd xs b") (simp_all add: receive_def strict_codec)
  then show ?case
  proof (elim disjE exE)
    assume r: "receive (strict line) conn xs b s = receive line conn xs b s"
    show ?thesis using Cons.IH by (cases "receive line conn xs b s") (auto simp: bnd_apply r)
  qed (simp add: bnd_apply)
qed simp

lemma receive_all_strict:
  assumes "buffer_ok b" and "contents b = []" and "decode (strict line) conn (concat xss) s = Done rest s'"
  shows "see (receive_all line conn xss b s) = Done rest s'"
proof -
  have "see (receive_all (strict line) conn xss b s) = Done rest s'"
    using receive_all_decode [of "strict line" conn b s xss, OF strict_goes] assms by simp
  with strict_receive_all [of line conn xss b s] show ?thesis by auto
qed

section \<open>What the loop leaves\<close>

text \<open>Nothing more can be done with the bytes that are left.\<close>

definition drained :: "nat \<Rightarrow> string \<Rightarrow> 'm codec_scheme \<Rightarrow> bool" where
  "drained conn rest s \<longleftrightarrow> (case m_fileTransferStates s conn of None \<Rightarrow> search_crlf rest = None | Some st \<Rightarrow> rest = [])"

lemma drained_decode: "drained conn rest s \<Longrightarrow> decode line conn rest s = Done rest s"
  by (subst decode.simps) (auto simp: drained_def split: option.splits)

text \<open>The loop returns with bytes it could go on with only right after a line that stops it.\<close>

lemma decode_leaves:
  "decode line conn xs s = Done rest s' \<Longrightarrow> drained conn rest s' \<or>
    (\<exists>before l t. xs = before @ l @ [CHR 0x0D, CHR 0x0A] @ rest \<and> line conn l t = Done False s')"
proof (induction line conn xs s rule: decode.induct)
  case (1 line conn xs s)
  show ?case
  proof (cases "xs = []")
    case True
    with 1(3) show ?thesis by (auto simp: drained_def split: option.splits)
  next
    case False
    show ?thesis
    proof (cases "m_fileTransferStates s conn")
      case (Some st)
      from 1(3) False have "decode line conn (drop (fileSize st) xs) (write_data conn st (take (fileSize st) xs) s) = Done rest s'"
        by (simp add: decode_data [OF Some])
      from 1(2) [OF False Some this] show ?thesis by (metis append_assoc append_take_drop_id)
    next
      case None
      show ?thesis
      proof (cases "search_crlf xs")
        case N: None
        with None False 1(3) show ?thesis by (simp add: decode.simps [of line conn xs s] drained_def)
      next
        case (Some i)
        note xs = search_crlf_line [OF Some]
        from 1(3) obtain go s1 where l: "line conn (take i xs) s = Done go s1"
          by (auto simp: decode_line [OF None Some] split: outcome.splits)
        show ?thesis
        proof (cases go)
          case True
          with l have go: "line conn (take i xs) s = Done True s1" by simp
          from 1(3) go have "decode line conn (drop (i + 2) xs) s1 = Done rest s'"
            by (simp add: decode_line [OF None Some])
          from 1(1) [OF False None Some go refl this] xs show ?thesis by (metis append_assoc)
        next
          case False
          with l 1(3) have "line conn (take i xs) s = Done False s'" "rest = drop (i + 2) xs"
            by (auto simp: decode_line [OF None Some])
          with xs show ?thesis by (metis append_Nil)
        qed
      qed
    qed
  qed
qed

section \<open>Invariants of the loop\<close>

text \<open>What every line and every block of file data keeps, a read keeps.\<close>

lemma runs_codec_loop:
  "(\<And>st bs s. P s \<Longrightarrow> P (write_data conn st bs s)) \<Longrightarrow> (\<And>l. keeps P (line conn l)) \<Longrightarrow> P s \<Longrightarrow>
    runs (codec_loop line conn b) s (\<lambda>_. P) (\<lambda>_. P) (\<lambda>_. True)"
proof (induction line conn b s rule: codec_loop.induct)
  case (1 line conn b s)
  show ?case
  proof (cases "m_fileTransferStates s conn")
    case None
    show ?thesis
    proof (cases "line conn (take (the (findCRLF b)) (contents b)) s")
      case (Done go s1)
      with 1(4,5) have "P s1" by (blast dest: keeps_Done)
      with 1(1) [OF _ None _ _ _ _ 1(3,4)] 1(5) Done None show ?thesis
        unfolding runs_def by (subst codec_loop.simps) (cases go; auto split: option.splits)
    next
      case (Throw e s1)
      with 1(4,5) have "P s1" by (blast dest: keeps_Throw)
      with 1(5) Throw None show ?thesis
        unfolding runs_def by (subst codec_loop.simps) (auto split: option.splits)
    next
      case (Stuck bad)
      with 1(5) None show ?thesis
        unfolding runs_def by (subst codec_loop.simps) (auto split: option.splits)
    qed
  next
    case (Some st)
    show ?thesis
    proof (cases "readableBytes b = 0")
      case False
      with 1(2) [OF False Some refl _ 1(3,4)] 1(3,5) Some show ?thesis
        unfolding runs_def by (subst codec_loop.simps) (auto split: option.splits simp: Let_def)
    qed (use 1(5) in \<open>simp add: runs_def codec_loop.simps\<close>)
  qed
qed

lemma keeps_receive:
  assumes "\<And>l. keeps P (line conn l)" and "\<And>st bs s. P s \<Longrightarrow> P (write_data conn st bs s)"
  shows "keeps P (receive line conn data b)"
proof (cases "readFd data b")
  case (Some b')
  show ?thesis unfolding receive_def Some option.case
    by (rule keepsI, rule runs_codec_loop) (use assms in blast)+
qed (simp add: receive_def keeps_halt)

end
