(* ===== verification/Server_Codec.thy ===== *)
theory Server_Codec
  imports Dispatch Codec_Loop
begin

text \<open>
  \<open>project/ServerJsonCodec.h\<close>: what the server does with a line, and how the codec undoes the framing
  of the sender.  The state around \<open>Service\<close> is that of the codec and the tasks given to the thread pool.
\<close>

record 'w server = codec +
  service :: "'w svc"
  tasks :: "('w svc, unit) prog list"

definition in_service :: "('w svc, 'a) prog \<Rightarrow> ('w server, 'a) prog" where
  "in_service m s = (case m (service s) of Done x t \<Rightarrow> Done x (s\<lparr>service := t\<rparr>)
     | Throw e t \<Rightarrow> Throw e (s\<lparr>service := t\<rparr>) | Stuck b \<Rightarrow> Stuck b)"

definition enqueue_task :: "('w svc, unit) prog \<Rightarrow> ('w server, unit) prog" where
  "enqueue_task t = modify (\<lambda>s. s\<lparr>tasks := tasks s @ [t]\<rparr>)"

definition received_path :: "string \<Rightarrow> string" where
  "received_path filename = ''./received_files/'' @ filename"

definition size_field :: "json \<Rightarrow> string \<Rightarrow> ('s, nat) prog" where
  "size_field js k = lift_option TypeError (js_size js k)"

text \<open>
  One line.  Only \<open>parse_error\<close> is caught; the value says whether the loop goes on: it returns when
  the file cannot be opened.  \<open>can_open\<close> are the paths \<open>std::ofstream\<close> can open.
\<close>

definition server_line :: "'w env \<Rightarrow> (string \<Rightarrow> bool) \<Rightarrow> timestamp \<Rightarrow> 'w server line_handler" where
  "server_line E can_open time conn jsonString = (case json_parse E jsonString of
       None \<Rightarrow> andthen (shutdown_conn conn) (ret True)
     | Some js \<Rightarrow> bnd (int_field js ''msgid'') (\<lambda>msgid.
         if msgid = SEND_FILE then
           bnd (str_field js ''filename'') (\<lambda>filename.
           bnd (size_field js ''filesize'') (\<lambda>len.
           if can_open (received_path filename) then
             andthen (begin_transfer conn (received_path filename) len)
             (andthen (in_service (removeConnStatus conn)) (ret True))
           else andthen (shutdown_conn conn) (ret False)))
         else if msgid = SEND_FILE_END then
           andthen (modify (close_transfer conn)) (andthen (in_service (addConnStatus conn)) (ret True))
         else bnd (in_service (onJsonMessage E conn js time)) (\<lambda>task.
           andthen (enqueue_task task) (ret True))))"

definition server_onMessage :: "'w env \<Rightarrow> (string \<Rightarrow> bool) \<Rightarrow> nat \<Rightarrow> buffer \<Rightarrow> timestamp \<Rightarrow>
    ('w server, buffer) prog" where
  "server_onMessage E can_open conn buf time = codec_loop (server_line E can_open time) conn buf"

text \<open>\<open>Server::onMessage\<close>, the callback from before the codec, which nothing sets: a message is all the buffer holds, and nothing is caught.\<close>

definition Server_onMessage :: "'w env \<Rightarrow> nat \<Rightarrow> buffer \<Rightarrow> timestamp \<Rightarrow> ('w server, buffer) prog" where
  "Server_onMessage E conn buf time = (case retrieveAsString buf of (str, rest) \<Rightarrow>
     (case json_parse E str of None \<Rightarrow> raise ParseError
      | Some js \<Rightarrow> bnd (int_field js ''msgid'') (\<lambda>msgid.
          andthen (in_service (getHandler E msgid conn js time)) (ret rest))))"

text \<open>\<open>JsonCodec::send\<close>, and every \<open>conn->send(js.dump().append("\r\n"))\<close>.\<close>

definition frame_json :: "'w env \<Rightarrow> json \<Rightarrow> string" where
  "frame_json E js = json_dump E js @ [CHR 0x0D, CHR 0x0A]"

text \<open>A line that announces a file which cannot be opened.\<close>

definition refused :: "'w env \<Rightarrow> (string \<Rightarrow> bool) \<Rightarrow> string \<Rightarrow> bool" where
  "refused E can_open l \<longleftrightarrow> (case json_parse E l of None \<Rightarrow> False | Some js \<Rightarrow> js_int js ''msgid'' = Some SEND_FILE \<and>
     (case js_string js ''filename'' of None \<Rightarrow> False | Some filename \<Rightarrow> \<not> can_open (received_path filename)))"

lemma server_line_stops:
  "server_line E f t conn l s = Done False s' \<Longrightarrow> refused E f l \<and> s' = s\<lparr>shutdowns := shutdowns s @ [conn]\<rparr>"
  by (auto simp: server_line_def refused_def bnd_apply andthen_apply shutdown_conn_def begin_transfer_def int_field_def str_field_def size_field_def lift_option_def
      in_service_def removeConnStatus_def addConnStatus_def onJsonMessage_def enqueue_task_def
      split: option.splits outcome.splits if_splits)

section \<open>Framing\<close>

lemma frame_line:
  assumes "json_library E" and "wf_json js"
  shows "search_crlf (frame_json E js @ ys) = Some (length (json_dump E js))"
    and "take (length (json_dump E js)) (frame_json E js @ ys) = json_dump E js"
    and "drop (length (json_dump E js) + 2) (frame_json E js @ ys) = ys"
  using search_crlf_frame [of "json_dump E js" ys] json_library.dump_cr [OF assms]
  by (simp_all add: frame_json_def)

definition reread :: "'w env \<Rightarrow> json \<Rightarrow> json" where
  "reread E js = the (json_parse E (json_dump E js))"

lemma reread:
  assumes "json_library E" and "wf_json js"
  shows "json_parse E (json_dump E js) = Some (reread E js)" and "norm_json (reread E js) = norm_json js"
  using json_library.parse_dump [OF assms] by (auto simp: reread_def)

text \<open>A request that is not about a file becomes one task, with the fields the sender wrote.\<close>

definition posts :: "'w env \<Rightarrow> nat \<Rightarrow> timestamp \<Rightarrow> json \<Rightarrow> 'w server \<Rightarrow> 'w server" where
  "posts E conn t js s = s\<lparr>
     service := (service s)\<lparr>m_connStatusMap := AList.update conn True (m_connStatusMap (service s))\<rparr>,
     tasks := tasks s @ [getHandler E (the (js_int js ''msgid'')) conn (reread E js) t]\<rparr>"

lemma frame_request:
  assumes "json_library E" and "wf_json js" and "m_fileTransferStates s conn = None"
    and "js_int js ''msgid'' = Some msgid" and "msgid \<noteq> SEND_FILE" and "msgid \<noteq> SEND_FILE_END"
  shows "decode (strict (server_line E f t)) conn (frame_json E js @ ys) s = decode (strict (server_line E f t)) conn ys (posts E conn t js s)"
proof -
  note line = frame_line [OF assms(1,2), of ys] and again = reread [OF assms(1,2)]
  have "js_int (reread E js) ''msgid'' = Some msgid"
    using js_int_cong [OF again(2), of "''msgid''"] assms(4) by simp
  with again(1) assms(4-6) have "server_line E f t conn (json_dump E js) s = Done True (posts E conn t js s)"
    by (simp add: server_line_def bnd_apply andthen_apply int_field_def in_service_def onJsonMessage_def
        setConnStatus_def enqueue_task_def posts_def)
  with line show ?thesis by (simp add: decode_line [OF assms(3) line(1)] strict_True)
qed

lemma posts_transfers [simp]: "m_fileTransferStates (posts E conn t js s) = m_fileTransferStates s"
  by (simp add: posts_def)

definition request_like :: "json \<Rightarrow> bool" where
  "request_like js \<longleftrightarrow> wf_json js \<and> (case js_int js ''msgid'' of None \<Rightarrow> False
     | Some msgid \<Rightarrow> msgid \<noteq> SEND_FILE \<and> msgid \<noteq> SEND_FILE_END)"

lemma frame_requests:
  assumes "json_library E"
  shows "list_all request_like jss \<Longrightarrow> m_fileTransferStates s conn = None \<Longrightarrow>
    decode (strict (server_line E f t)) conn (concat (map (frame_json E) jss) @ ys) s =
    decode (strict (server_line E f t)) conn ys (fold (posts E conn t) jss s)"
proof (induction jss arbitrary: s)
  case (Cons js jss)
  from Cons.prems(1) obtain msgid where "wf_json js" "js_int js ''msgid'' = Some msgid"
    "msgid \<noteq> SEND_FILE" "msgid \<noteq> SEND_FILE_END" by (auto simp: request_like_def split: option.splits)
  from frame_request [OF assms this(1) Cons.prems(2) this(2-4), of f t "concat (map (frame_json E) jss) @ ys"]
    Cons.IH [of "posts E conn t js s"] Cons.prems show ?case by simp
qed simp

end
