(* ===== verification/Client_State.thy ===== *)
theory Client_State
  imports Server_Codec
begin

text \<open>
  The state of the chat client (\<open>project/client\<close>), and how its two threads meet.  The thread of the
  event loop runs the codec on what the server sends; the thread of the menus reads the terminal, sends
  requests and waits on semaphores.  An execution is given by the list of events still to come:
  bytes arrive, the user types a line, or the menu thread gets a turn (\<open>Tick\<close>) before more arrives.  The menu
  thread takes events where it blocks, loads a flag or sends.
\<close>

datatype sem = reg_sem | login_sem | show_all_user_list | show_friend_list | show_block_list
  | show_request_list | show_own_group_list | show_all_group_list | show_file_list
  | add_someone_to_group | set_manager | check_group_member | receive_file | check_if_block

datatype event = Arrive string | Typed string | Tick

datatype wire = Line json | Bytes nat

record 'w client = codec +
  sems :: "sem \<Rightarrow> nat"
  login_flag :: bool
  if_block :: bool
  if_friend :: bool
  if_master_ormanager :: bool
  if_master :: bool
  if_group_member :: bool
  CurrentUser :: user
  CurrentGroupChatId :: int
  private_chat_id :: int
  input_buffer :: buffer
  terminal :: string
  future :: "event list"
  requests :: "wire list"
  host_world :: 'w

text \<open>
  What the client calls outside its code: JSON text, \<open>open\<close>, \<open>fstat\<close>, \<open>fcntl\<close> and \<open>sendfile\<close> as on the
  server (\<open>h_env\<close>), \<open>stat\<close> with \<open>S_ISREG\<close> (\<open>None\<close> when \<open>stat\<close> fails), the files \<open>std::ofstream\<close> can open, and
  the SHA-256 digest of OpenSSL (\<open>None\<close> when a call of it fails).
\<close>

record 'w host =
  h_env :: "'w env"
  stat_regular :: "string \<Rightarrow> 'w \<Rightarrow> bool option"
  can_create :: "string \<Rightarrow> bool"
  sha256 :: "string \<Rightarrow> string option"

type_synonym ('w, 'a) menu = "('w client, 'a) prog"

text \<open>The client has one connection.\<close>

definition m_connection :: nat where
  "m_connection = 0"

definition sem_post :: "sem \<Rightarrow> ('w, unit) menu" where
  "sem_post k = modify (\<lambda>s. s\<lparr>sems := (sems s)(k := sems s k + 1)\<rparr>)"

text \<open>\<open>client.send(js.dump().append("\r\n"))\<close>; \<open>dump\<close> throws on text that is not UTF-8.\<close>

definition put_line :: "json \<Rightarrow> ('w, unit) menu" where
  "put_line js s = (if wf_json js then Done () (s\<lparr>requests := requests s @ [Line js]\<rparr>) else Throw TypeError s)"

section \<open>\<open>util.cc\<close>\<close>

definition isNumber :: "string \<Rightarrow> bool" where
  "isNumber s \<longleftrightarrow> s \<noteq> [] \<and> list_all is_digit s"

definition hex_digit :: "nat \<Rightarrow> char" where
  "hex_digit n = (if n < 10 then char_of (48 + n) else char_of (87 + n))"

text \<open>\<open>std::setw(2)\<close> with fill character 0.\<close>

fun bytesToHex :: "string \<Rightarrow> string" where
  "bytesToHex [] = []"
| "bytesToHex (b # bs) = hex_digit (of_char b div 16) # hex_digit (of_char b mod 16) # bytesToHex bs"

definition passwordToSha256 :: "'w host \<Rightarrow> string \<Rightarrow> string" where
  "passwordToSha256 H password = (case sha256 H password of None \<Rightarrow> [] | Some h \<Rightarrow> bytesToHex h)"

text \<open>\<open>std::stoi\<close> of a string of digits.\<close>

definition stoi :: "string \<Rightarrow> ('s, int) prog" where
  "stoi s = (if digits_val 0 s < 2 ^ 31 then ret (int (digits_val 0 s)) else raise OutOfRange)"

definition is_space :: "char \<Rightarrow> bool" where
  "is_space c \<longleftrightarrow> c = CHR '' '' \<or> 9 \<le> (of_char c :: nat) \<and> (of_char c :: nat) \<le> 13"

text \<open>
  \<open>std::cin >> n\<close> after the blanks: an optional sign and digits.  Without a digit \<open>n\<close> becomes 0, out of range
  the nearest \<open>int\<close>.
\<close>

definition clamp_int32 :: "int \<Rightarrow> int" where
  "clamp_int32 i = max (- (2 ^ 31)) (min (2 ^ 31 - 1) i)"

fun scan_int :: "string \<Rightarrow> int \<times> string" where
  "scan_int (c # cs) = (if c = CHR ''-'' then (clamp_int32 (- int (digits_val 0 cs)), dropWhile is_digit cs)
     else if c = CHR ''+'' then (clamp_int32 (int (digits_val 0 cs)), dropWhile is_digit cs)
     else (clamp_int32 (int (digits_val 0 (c # cs))), dropWhile is_digit (c # cs)))"
| "scan_int [] = (0, [])"

abbreviation newline :: char where
  "newline \<equiv> CHR 0x0A"

end
