(* ===== verification/Client_Messages.thy ===== *)
theory Client_Messages
  imports Client_State
begin

text \<open>
  \<open>project/client/clientService.cc\<close>, \<open>handleServerMessage\<close>: what the client does with a message of the
  server, and \<open>project/ClientJsonCodec.h\<close> around it.  What is only printed leaves no trace, but the field
  accesses and conversions of the printing code are here: they can throw.
\<close>

definition show_field :: "json \<Rightarrow> string \<Rightarrow> ('s, unit) prog" where
  "show_field js k = bnd (lift_option TypeError (field js k)) (\<lambda>v. ret ())"

definition show_fields :: "json \<Rightarrow> string list \<Rightarrow> ('s, unit) prog" where
  "show_fields js ks = for_each (show_field js) ks"

fun get_strings :: "json \<Rightarrow> string list option" where
  "get_strings (JArr xs) = those (map get_string xs)"
| "get_strings _ = None"

fun get_bool :: "json \<Rightarrow> bool option" where
  "get_bool (JBool b) = Some b"
| "get_bool _ = None"

text \<open>\<open>std::vector<std::string> vec = js[k]\<close>, and \<open>b = js[k]\<close> for a boolean.\<close>

definition strings_field :: "json \<Rightarrow> string \<Rightarrow> ('s, string list) prog" where
  "strings_field js k = lift_option TypeError (Option.bind (field js k) get_strings)"

definition bool_field :: "json \<Rightarrow> string \<Rightarrow> ('s, bool) prog" where
  "bool_field js k = lift_option TypeError (Option.bind (field js k) get_bool)"

text \<open>The elements of a list are JSON texts: each is parsed and some of its fields are printed.\<close>

definition show_texts :: "'w env \<Rightarrow> string list \<Rightarrow> string list \<Rightarrow> ('s, unit) prog" where
  "show_texts E ks vec = for_each (\<lambda>str.
     bnd (lift_option ParseError (json_parse E str)) (\<lambda>js. show_fields js ks)) vec"

definition displayAllUserList :: "'w env \<Rightarrow> json \<Rightarrow> ('s, unit) prog" where
  "displayAllUserList E js = bnd (strings_field js ''users'') (show_texts E [''id'', ''name'', ''state''])"

definition displayRequestList :: "'w env \<Rightarrow> json \<Rightarrow> ('s, unit) prog" where
  "displayRequestList E js = bnd (strings_field js ''requests'') (show_texts E [''id'', ''name''])"

definition displayFriendList :: "'w env \<Rightarrow> json \<Rightarrow> ('s, unit) prog" where
  "displayFriendList E js = bnd (strings_field js ''friends'') (show_texts E [''id'', ''name'', ''state''])"

definition displayBlockList :: "'w env \<Rightarrow> json \<Rightarrow> ('s, unit) prog" where
  "displayBlockList E js = bnd (strings_field js ''blocks'') (show_texts E [''id'', ''name''])"

definition displayAllGroupList :: "'w env \<Rightarrow> json \<Rightarrow> ('s, unit) prog" where
  "displayAllGroupList E js = bnd (strings_field js ''groups'') (show_texts E [''id'', ''name''])"

definition displayOwnGroupList :: "'w env \<Rightarrow> json \<Rightarrow> ('s, unit) prog" where
  "displayOwnGroupList E js = bnd (strings_field js ''groups'') (show_texts E [''id'', ''name''])"

definition displayGroupMemberList :: "'w env \<Rightarrow> json \<Rightarrow> ('s, unit) prog" where
  "displayGroupMemberList E js = bnd (strings_field js ''members'') (show_texts E [''id'', ''name'', ''role''])"

definition displayFileList :: "'w env \<Rightarrow> json \<Rightarrow> ('s, unit) prog" where
  "displayFileList E js = bnd (strings_field js ''files'') (show_texts E [''filename'', ''sender'', ''receiver'', ''time''])"

definition displayPrivateChatHistory :: "'w env \<Rightarrow> json \<Rightarrow> ('s, unit) prog" where
  "displayPrivateChatHistory E js = bnd (strings_field js ''history'') (show_texts E [''time'', ''from'', ''to'', ''msg''])"

definition displayGroupChatHistory :: "'w env \<Rightarrow> json \<Rightarrow> ('s, unit) prog" where
  "displayGroupChatHistory E js = bnd (strings_field js ''history'') (show_texts E [''time'', ''from'', ''groupid'', ''msg''])"

text \<open>The value tells whether anybody asked to join.\<close>

definition displayGroupRequestList :: "'w env \<Rightarrow> json \<Rightarrow> ('s, bool) prog" where
  "displayGroupRequestList E js = bnd (strings_field js ''requests'') (\<lambda>vec.
     if vec = [] then ret False
     else andthen (show_texts E [''id'', ''name''] vec) (ret True))"

definition show_private_chat :: "json \<Rightarrow> ('s, unit) prog" where
  "show_private_chat js = bnd (str_field js ''from_name'') (\<lambda>from_name.
     bnd (str_field js ''msg'') (\<lambda>msg. bnd (str_field js ''time'') (\<lambda>time. ret ())))"

definition show_group_chat :: "json \<Rightarrow> ('s, unit) prog" where
  "show_group_chat js = bnd (str_field js ''from_name'') (\<lambda>from_name.
     bnd (str_field js ''msg'') (\<lambda>msg. bnd (str_field js ''time'') (\<lambda>time.
     bnd (int_field js ''groupid'') (\<lambda>groupid. ret ()))))"

definition UserInit :: "json \<Rightarrow> ('w, unit) menu" where
  "UserInit js = bnd (int_field js ''id'') (\<lambda>i.
     andthen (modify (\<lambda>s. s\<lparr>CurrentUser := (CurrentUser s)\<lparr>m_id := i\<rparr>\<rparr>))
     (bnd (str_field js ''name'') (\<lambda>n.
      modify (\<lambda>s. s\<lparr>CurrentUser := (CurrentUser s)\<lparr>m_name := n\<rparr>\<rparr>))))"

definition checkIfBlock :: "int \<Rightarrow> ('w, unit) menu" where
  "checkIfBlock id_to_chat = put_line (message CHECK_BLOCK [(''check_id'', JInt id_to_chat)])"

text \<open>Comparison of a JSON value with a string and with a number.\<close>

definition is_text :: "json \<Rightarrow> string \<Rightarrow> string \<Rightarrow> bool" where
  "is_text js k v \<longleftrightarrow> field js k = Some (JStr v)"

definition is_int :: "json \<Rightarrow> string \<Rightarrow> int \<Rightarrow> bool" where
  "is_int js k i \<longleftrightarrow> field js k = Some (JInt i)"

definition take_block_state :: "json \<Rightarrow> ('w, unit) menu" where
  "take_block_state js = modify (\<lambda>s.
     let s1 = s\<lparr>if_block := is_text js ''state1'' ''block'' \<or> is_text js ''state2'' ''block''\<rparr>
     in s1\<lparr>if_friend := is_text js ''state1'' ''friend'' \<or> is_text js ''state2'' ''friend'' \<or> if_block s1\<rparr>)"

definition ExitChatRoom :: "('w, unit) menu" where
  "ExitChatRoom = raise ProcessExit"

text \<open>The \<open>switch\<close>; the cases that only print a fixed text are the last one.\<close>

definition handleServerMessage :: "'w env \<Rightarrow> json \<Rightarrow> ('w, unit) menu" where
  "handleServerMessage E js = bnd (int_field js ''msgid'') (\<lambda>msgid.
     if msgid = REG_SUCCESS then andthen (show_field js ''id'') (sem_post reg_sem)
     else if msgid = REG_FAIL then sem_post reg_sem
     else if msgid = LOGIN_SUCCESS then
       andthen (modify (\<lambda>s. s\<lparr>login_flag := True\<rparr>)) (andthen (UserInit js) (sem_post login_sem))
     else if msgid = LOGIN_REPEAT \<or> msgid = LOGIN_FAIL then
       andthen (modify (\<lambda>s. s\<lparr>login_flag := False\<rparr>)) (sem_post login_sem)
     else if msgid = DISPLAY_ALLUSER_LIST then andthen (displayAllUserList E js) (sem_post show_all_user_list)
     else if msgid = BLOCK_FRIEND_SUCCESS \<or> msgid = UNBLOCK_FRIEND_SUCCESS then
       bnd (reads private_chat_id) checkIfBlock
     else if msgid = PRIVATE_CHAT then show_private_chat js
     else if msgid = GROUP_CHAT then show_group_chat js
     else if msgid = FRIEND_REQUEST_LIST then andthen (displayRequestList E js) (sem_post show_request_list)
     else if msgid = DISPLAY_FRIEND_LIST then andthen (displayFriendList E js) (sem_post show_friend_list)
     else if msgid = BLOCK_FRIEND_LIST then andthen (displayBlockList E js) (sem_post show_block_list)
     else if msgid = CHECK_BLOCK then andthen (take_block_state js) (sem_post check_if_block)
     else if msgid = DISPLAY_ALLGROUP_LIST then andthen (displayAllGroupList E js) (sem_post show_all_group_list)
     else if msgid = GROUP_REQUEST then show_fields js [''userid'', ''groupid'']
     else if msgid = DISPLAY_GROUP_REQUEST then
       bnd (displayGroupRequestList E js) (\<lambda>b.
       andthen (modify (\<lambda>s. s\<lparr>if_master_ormanager := b\<rparr>)) (sem_post add_someone_to_group))
     else if msgid = DISPLAY_GROUP_REQUEST_FAIL then
       andthen (modify (\<lambda>s. s\<lparr>if_master_ormanager := False\<rparr>)) (sem_post add_someone_to_group)
     else if msgid = GROUP_REQUEST_ACCEPTED then show_fields js [''accept_id'', ''groupid'']
     else if msgid = DISPLAY_OWN_GROUP_LIST then andthen (displayOwnGroupList E js) (sem_post show_own_group_list)
     else if msgid = DISPLAY_GROUP_MEMBER_LIST then displayGroupMemberList E js
     else if msgid = DISPLAY_SET_MANAGER_MEMBER_FAIL then
       andthen (modify (\<lambda>s. s\<lparr>if_master := False\<rparr>)) (sem_post set_manager)
     else if msgid = DISPLAY_SET_MANAGER_MEMBER_LIST then
       andthen (displayGroupMemberList E js)
       (andthen (modify (\<lambda>s. s\<lparr>if_master := True\<rparr>)) (sem_post set_manager))
     else if msgid = CHECK_IF_GROUP_MEMBER then
       bnd (bool_field js ''state'') (\<lambda>b.
       andthen (modify (\<lambda>s. s\<lparr>if_group_member := b\<rparr>)) (sem_post check_group_member))
     else if msgid = VIEW_FILE then andthen (displayFileList E js) (sem_post show_file_list)
     else if msgid = RECEIVE_FILE_FINISH \<or> msgid = RECEIVE_FILE_FAIL then sem_post receive_file
     else if msgid = DISPLAY_PRIVATE_HISTORY then displayPrivateChatHistory E js
     else if msgid = DISPLAY_GROUP_HISTORY then displayGroupChatHistory E js
     else if msgid = CLIENT_LONGTIME_EXIT then andthen (shutdown_conn m_connection) ExitChatRoom
     else if msgid = SET_MANAGER_NOTICE then show_field js ''groupid''
     else if msgid = KICK_SOMEONE_NOTICE then
       modify (\<lambda>s. if is_int js ''groupid'' (CurrentGroupChatId s) then s\<lparr>if_group_member := False\<rparr> else s)
     else ret ())"

section \<open>The codec\<close>

definition catch_parse :: "('s, 'a) prog \<Rightarrow> ('s, 'a) prog \<Rightarrow> ('s, 'a) prog" where
  "catch_parse m k s = (case m s of Throw e s' \<Rightarrow> if e = ParseError then k s' else Throw e s' | r \<Rightarrow> r)"

definition client_line :: "'w host \<Rightarrow> 'w client line_handler" where
  "client_line H conn jsonString = catch_parse
     (bnd (lift_option ParseError (json_parse (h_env H) jsonString)) (\<lambda>js.
      bnd (int_field js ''msgid'') (\<lambda>msgid.
      if msgid = SEND_FILE_SERVER then
        bnd (str_field js ''filename'') (\<lambda>filename.
        bnd (size_field js ''filesize'') (\<lambda>len.
        if can_create H (''./'' @ filename) then
          andthen (begin_transfer conn (''./'' @ filename) len) (ret True)
        else andthen (shutdown_conn conn) (ret False)))
      else if msgid = SEND_FILE_END then andthen (modify (close_transfer conn)) (ret True)
      else andthen (handleServerMessage (h_env H) js) (ret True))))
     (andthen (shutdown_conn conn) (ret True))"

text \<open>Bytes of the server, given to the codec behind those it left in the buffer.\<close>

definition client_onMessage :: "'w host \<Rightarrow> string \<Rightarrow> ('w, unit) menu" where
  "client_onMessage H data s = (case receive (client_line H) m_connection data (input_buffer s) s of
       Done b s' \<Rightarrow> Done () (s'\<lparr>input_buffer := b\<rparr>) | Throw e s' \<Rightarrow> Throw e s' | Stuck b \<Rightarrow> Stuck b)"

text \<open>\<open>Client::onMessage\<close>, the callback from before the codec, which nothing sets: it parses what the buffer holds, and that is all.\<close>

definition Client_onMessage :: "'w host \<Rightarrow> ('w, unit) menu" where
  "Client_onMessage H = bnd (reads input_buffer) (\<lambda>buf. case retrieveAsString buf of (str, rest) \<Rightarrow>
     andthen (modify (\<lambda>s. s\<lparr>input_buffer := rest\<rparr>))
     (case json_parse (h_env H) str of None \<Rightarrow> raise ParseError | Some js \<Rightarrow> ret ()))"

end
