(* ===== verification/Client_Events.thy ===== *)
theory Client_Events
  imports Client_Messages
begin

text \<open>
  How the menu thread of the client waits: for a semaphore, for the user, or for its turn.  Meanwhile
  the events to come happen one after the other.
\<close>

fun happens :: "'w host \<Rightarrow> event \<Rightarrow> ('w, unit) menu" where
  "happens H (Arrive data) = client_onMessage H data"
| "happens H (Typed l) = modify (\<lambda>s. s\<lparr>terminal := terminal s @ l @ [newline]\<rparr>)"
| "happens H Tick = ret ()"

text \<open>\<open>got\<close> is what the thread waits for; with no event left it is still waiting.\<close>

fun block_on :: "'w host \<Rightarrow> ('w client \<Rightarrow> ('a \<times> 'w client) option) \<Rightarrow> event list \<Rightarrow> ('w, 'a) menu" where
  "block_on H got es s = (case got s of Some (x, s') \<Rightarrow> Done x s'
     | None \<Rightarrow> (case es of [] \<Rightarrow> Throw Waiting s
       | e # es' \<Rightarrow> bnd (happens H e) (\<lambda>_. block_on H got es') (s\<lparr>future := es'\<rparr>)))"

declare block_on.simps [simp del]

definition blocks :: "'w host \<Rightarrow> ('w client \<Rightarrow> ('a \<times> 'w client) option) \<Rightarrow> ('w, 'a) menu" where
  "blocks H got s = block_on H got (future s) s"

definition sem_ready :: "sem \<Rightarrow> 'w client \<Rightarrow> (unit \<times> 'w client) option" where
  "sem_ready k s = (if 0 < sems s k then Some ((), s\<lparr>sems := (sems s)(k := sems s k - 1)\<rparr>) else None)"

definition sem_wait :: "'w host \<Rightarrow> sem \<Rightarrow> ('w, unit) menu" where
  "sem_wait H k = blocks H (sem_ready k)"

text \<open>
  \<open>std::cin >> word\<close>, \<open>std::cin >> n\<close>, \<open>std::getline\<close> and \<open>clearInputBuffer\<close>.  The terminal gives whole lines,
  so a word is always followed by a character.
\<close>

definition word_ready :: "'w client \<Rightarrow> (string \<times> 'w client) option" where
  "word_ready s = (let cs = dropWhile is_space (terminal s) in if cs = [] then None
     else Some (takeWhile (\<lambda>c. \<not> is_space c) cs, s\<lparr>terminal := dropWhile (\<lambda>c. \<not> is_space c) cs\<rparr>))"

definition int_ready :: "'w client \<Rightarrow> (int \<times> 'w client) option" where
  "int_ready s = (let cs = dropWhile is_space (terminal s) in if cs = [] then None
     else Some (fst (scan_int cs), s\<lparr>terminal := snd (scan_int cs)\<rparr>))"

definition line_ready :: "'w client \<Rightarrow> (string \<times> 'w client) option" where
  "line_ready s = (if newline \<in> set (terminal s)
     then Some (takeWhile (\<lambda>c. c \<noteq> newline) (terminal s),
       s\<lparr>terminal := tl (dropWhile (\<lambda>c. c \<noteq> newline) (terminal s))\<rparr>)
     else None)"

definition read_word :: "'w host \<Rightarrow> ('w, string) menu" where
  "read_word H = blocks H word_ready"

definition read_int :: "'w host \<Rightarrow> ('w, int) menu" where
  "read_int H = blocks H int_ready"

definition getline :: "'w host \<Rightarrow> ('w, string) menu" where
  "getline H = blocks H line_ready"

definition clearInputBuffer :: "'w host \<Rightarrow> ('w, unit) menu" where
  "clearInputBuffer H = bnd (getline H) (\<lambda>_. ret ())"

definition getPassword :: "'w host \<Rightarrow> ('w, string) menu" where
  "getPassword H = getline H"

text \<open>
  Before the menu thread loads a flag or sends, the event thread may handle what has arrived: everything up
  to the next \<open>Tick\<close> or typed line.
\<close>

fun turn_on :: "'w host \<Rightarrow> event list \<Rightarrow> ('w, unit) menu" where
  "turn_on H (Arrive data # es) s = bnd (client_onMessage H data) (\<lambda>_. turn_on H es) (s\<lparr>future := es\<rparr>)"
| "turn_on H (Tick # es) s = Done () (s\<lparr>future := es\<rparr>)"
| "turn_on H es s = Done () s"

definition turn :: "'w host \<Rightarrow> ('w, unit) menu" where
  "turn H s = turn_on H (future s) s"

definition load :: "'w host \<Rightarrow> ('w client \<Rightarrow> 'a) \<Rightarrow> ('w, 'a) menu" where
  "load H f = andthen (turn H) (reads f)"

definition send_line :: "'w host \<Rightarrow> json \<Rightarrow> ('w, unit) menu" where
  "send_line H js = andthen (turn H) (put_line js)"

section \<open>Loops\<close>

text \<open>
  \<open>while (...) { ... }\<close> in a menu: the body says whether the loop goes on, with which value.  Every round of every loop of
  the client reads a line, so the lines still to come bound the number of rounds; that
  the guard of this definition is never false is proved for each loop (\<open>menu_loop_unfold\<close>).
\<close>

definition lines_in :: "string \<Rightarrow> nat" where
  "lines_in cs = length (filter (\<lambda>c. c = newline) cs)"

fun typed_lines :: "event \<Rightarrow> nat" where
  "typed_lines (Typed l) = lines_in l + 1"
| "typed_lines e = 0"

definition lines_left :: "'w client \<Rightarrow> nat" where
  "lines_left s = lines_in (terminal s) + sum_list (map typed_lines (future s))"

function menu_loop :: "('a \<Rightarrow> ('w, 'a option) menu) \<Rightarrow> 'a \<Rightarrow> ('w, unit) menu" where
  "menu_loop body a s = (case body a s of
       Done (Some a') s' \<Rightarrow> if lines_left s' < lines_left s then menu_loop body a' s' else Stuck Diverges
     | Done None s' \<Rightarrow> Done () s' | Throw e s' \<Rightarrow> Throw e s' | Stuck b \<Rightarrow> Stuck b)"
  by pat_completeness auto
termination by (relation "measure (\<lambda>(body, a, s). lines_left s)") auto

declare menu_loop.simps [simp del]

end
