(* ===== verification/Client_Menu.thy ===== *)
theory Client_Menu
  imports Client_Events Chat_Service
begin

text \<open>
  \<open>project/client/clientService.cc\<close>: the commands of the menus, one definition per function, and the two
  menus themselves.  The name of a function that the server has too gets the prefix \<open>client_\<close>.
\<close>

section \<open>Requests without a dialogue\<close>

definition tellServerWantToLookAllUserList :: "'w host \<Rightarrow> ('w, unit) menu" where
  "tellServerWantToLookAllUserList H = send_line H (message DISPLAY_ALLUSER_LIST [])"

definition tellServerWantToLookRequestList :: "'w host \<Rightarrow> ('w, unit) menu" where
  "tellServerWantToLookRequestList H = send_line H (message FRIEND_REQUEST_LIST [])"

definition tellServerWantToLookFriendList :: "'w host \<Rightarrow> ('w, unit) menu" where
  "tellServerWantToLookFriendList H = send_line H (message DISPLAY_FRIEND_LIST [])"

definition tellServerWantToLookBlockList :: "'w host \<Rightarrow> ('w, unit) menu" where
  "tellServerWantToLookBlockList H = send_line H (message BLOCK_FRIEND_LIST [])"

definition tellServerWantToLookPrivateChatHistory :: "'w host \<Rightarrow> int \<Rightarrow> ('w, unit) menu" where
  "tellServerWantToLookPrivateChatHistory H id_to_chat =
     send_line H (message PRIVATE_CHAT_HISTORY [(''id'', JInt id_to_chat)])"

definition tellServerWantToLookAllGroupList :: "'w host \<Rightarrow> ('w, unit) menu" where
  "tellServerWantToLookAllGroupList H = send_line H (message DISPLAY_ALLGROUP_LIST [])"

definition tellServerWantToLookGroupRequestList :: "'w host \<Rightarrow> int \<Rightarrow> ('w, unit) menu" where
  "tellServerWantToLookGroupRequestList H groupid =
     send_line H (message GROUP_REQUEST_LIST [(''groupid'', JInt groupid)])"

definition tellServerShowOwnGroupList :: "'w host \<Rightarrow> ('w, unit) menu" where
  "tellServerShowOwnGroupList H = send_line H (message DISPLAY_OWN_GROUP_LIST [])"

definition tellServerWantToLookGroupMemberList :: "'w host \<Rightarrow> int \<Rightarrow> ('w, unit) menu" where
  "tellServerWantToLookGroupMemberList H groupid =
     send_line H (message DISPLAY_GROUP_MEMBER_LIST [(''groupid'', JInt groupid)])"

definition tellServerWantToSetManagerGroupMemberList :: "'w host \<Rightarrow> int \<Rightarrow> ('w, unit) menu" where
  "tellServerWantToSetManagerGroupMemberList H groupid =
     send_line H (message DISPLAY_GROUP_SET_MANAGER_MEMBER_LIST [(''groupid'', JInt groupid)])"

definition checkIfGroupMember :: "'w host \<Rightarrow> int \<Rightarrow> ('w, unit) menu" where
  "checkIfGroupMember H groupid = send_line H (message CHECK_GROUP_MEMBER [(''groupid'', JInt groupid)])"

definition tellServerWantToLookGroupChatHistory :: "'w host \<Rightarrow> int \<Rightarrow> ('w, unit) menu" where
  "tellServerWantToLookGroupChatHistory H groupid =
     send_line H (message GROUP_CHAT_HISTORY [(''groupid'', JInt groupid)])"

definition viewfile :: "'w host \<Rightarrow> ('w, unit) menu" where
  "viewfile H = send_line H (message VIEW_FILE [])"

text \<open>\<open>checkIfBlock(Client&, int)\<close>, called by the menu thread.\<close>

definition menu_checkIfBlock :: "'w host \<Rightarrow> int \<Rightarrow> ('w, unit) menu" where
  "menu_checkIfBlock H id_to_chat = send_line H (message CHECK_BLOCK [(''check_id'', JInt id_to_chat)])"

section \<open>Dialogues\<close>

text \<open>\<open>cin >> x; clearInputBuffer();\<close>\<close>

definition ask_word :: "'w host \<Rightarrow> ('w, string) menu" where
  "ask_word H = bnd (read_word H) (\<lambda>w. andthen (clearInputBuffer H) (ret w))"

definition ask_int :: "'w host \<Rightarrow> ('w, int) menu" where
  "ask_int H = bnd (read_int H) (\<lambda>i. andthen (clearInputBuffer H) (ret i))"

text \<open>
  The check that follows every number read as text: not a number, or \<open>-1\<close>, and the command returns.
\<close>

definition if_number :: "string \<Rightarrow> ('s, unit) prog \<Rightarrow> ('s, unit) prog" where
  "if_number w k = (if \<not> isNumber w then ret () else if w = ''-1'' then ret () else k)"

definition client_reg :: "'w host \<Rightarrow> ('w, unit) menu" where
  "client_reg H =
     bnd (ask_word H) (\<lambda>name.
     bnd (getPassword H) (\<lambda>password.
     bnd (getPassword H) (\<lambda>password2.
     if password \<noteq> password2 then ret ()
     else andthen (send_line H (message REG_MSG
         [(''name'', JStr name), (''password'', JStr (passwordToSha256 H password))]))
       (sem_wait H reg_sem))))"

definition client_login :: "'w host \<Rightarrow> ('w, bool) menu" where
  "client_login H =
     bnd (ask_word H) (\<lambda>name.
     bnd (getPassword H) (\<lambda>password.
     andthen (send_line H (message LOGIN_MSG
       [(''name'', JStr name), (''password'', JStr (passwordToSha256 H password))]))
     (andthen (sem_wait H login_sem) (load H login_flag))))"

text \<open>The common end of \<open>addFriend\<close> and \<open>addFriendRequest\<close>.\<close>

definition ask_friend_name :: "'w host \<Rightarrow> ('w, unit) menu" where
  "ask_friend_name H =
     bnd (ask_word H) (\<lambda>name. if name = ''exit'' then ret () else
     bnd (load H (\<lambda>s. m_name (CurrentUser s))) (\<lambda>me. if name = me then ret ()
     else send_line H (message ADD_FRIEND [(''add_name'', JStr name)])))"

definition addFriend :: "'w host \<Rightarrow> ('w, unit) menu" where
  "addFriend H = andthen (tellServerWantToLookAllUserList H)
     (andthen (sem_wait H show_all_user_list) (ask_friend_name H))"

definition addFriendRequest :: "'w host \<Rightarrow> ('w, unit) menu" where
  "addFriendRequest H = andthen (tellServerWantToLookRequestList H)
     (andthen (sem_wait H show_request_list) (ask_friend_name H))"

definition deleteFriend :: "'w host \<Rightarrow> ('w, unit) menu" where
  "deleteFriend H = andthen (tellServerWantToLookFriendList H) (andthen (sem_wait H show_friend_list)
     (bnd (ask_int H) (\<lambda>i.
      bnd (load H (\<lambda>s. m_id (CurrentUser s))) (\<lambda>me.
      if i = me then ret () else if i = -1 then ret ()
      else send_line H (message DELETE_FRIEND [(''del_id'', JInt i)])))))"

definition blockFriend :: "'w host \<Rightarrow> ('w, unit) menu" where
  "blockFriend H = andthen (tellServerWantToLookFriendList H) (andthen (sem_wait H show_friend_list)
     (bnd (ask_int H) (\<lambda>i.
      bnd (load H (\<lambda>s. m_id (CurrentUser s))) (\<lambda>me.
      if i = me then ret () else if i = -1 then ret ()
      else send_line H (message BLOCK_FRIEND [(''block_id'', JInt i)])))))"

definition unblockFriend :: "'w host \<Rightarrow> ('w, unit) menu" where
  "unblockFriend H = andthen (tellServerWantToLookBlockList H) (andthen (sem_wait H show_block_list)
     (bnd (ask_int H) (\<lambda>i. if i = -1 then ret ()
      else send_line H (message UNBLOCK_FRIEND [(''unblock_id'', JInt i)]))))"

section \<open>Private chat\<close>

text \<open>One round of the loop; the value is the next \<open>if_display_private_history\<close>, \<open>None\<close> when the loop ends.\<close>

definition private_round :: "'w host \<Rightarrow> int \<Rightarrow> bool \<Rightarrow> ('w, bool option) menu" where
  "private_round H id_to_chat if_display_private_history =
     bnd (load H if_block) (\<lambda>blocked. if blocked then ret None else
     andthen (modify (\<lambda>s. s\<lparr>private_chat_id := id_to_chat\<rparr>))
     (andthen (if if_display_private_history then tellServerWantToLookPrivateChatHistory H id_to_chat else ret ())
     (bnd (getline H) (\<lambda>msg. if msg = ''exit'' then ret None else
      bnd (load H (\<lambda>s. m_name (CurrentUser s))) (\<lambda>me.
      andthen (send_line H (message PRIVATE_CHAT [(''id'', JInt id_to_chat), (''from_name'', JStr me), (''msg'', JStr msg)]))
        (ret (Some False)))))))"

definition privateChat :: "'w host \<Rightarrow> ('w, unit) menu" where
  "privateChat H = andthen (tellServerWantToLookFriendList H) (andthen (sem_wait H show_friend_list)
     (bnd (ask_int H) (\<lambda>id_to_chat. if id_to_chat = -1 then ret () else
      andthen (menu_checkIfBlock H id_to_chat) (andthen (sem_wait H check_if_block)
      (bnd (load H if_friend) (\<lambda>friends. if \<not> friends then ret ()
       else menu_loop (private_round H id_to_chat) True))))))"

section \<open>Groups\<close>

definition createGroup :: "'w host \<Rightarrow> ('w, unit) menu" where
  "createGroup H = bnd (ask_word H) (\<lambda>groupname. if groupname = ''exit'' then ret ()
     else send_line H (message CREATE_GROUP [(''groupname'', JStr groupname)]))"

definition requestEnterGroup :: "'w host \<Rightarrow> ('w, unit) menu" where
  "requestEnterGroup H = andthen (tellServerWantToLookAllGroupList H) (andthen (sem_wait H show_all_group_list)
     (bnd (ask_word H) (\<lambda>groupid. if_number groupid
      (bnd (stoi groupid) (\<lambda>g. send_line H (message REQUEST_GROUP [(''add_group_id'', JInt g)]))))))"

text \<open>Every other command on groups shows the user's own groups and asks for one of them.\<close>

definition ask_own_group :: "'w host \<Rightarrow> (string \<Rightarrow> ('w, unit) menu) \<Rightarrow> ('w, unit) menu" where
  "ask_own_group H k = andthen (tellServerShowOwnGroupList H) (andthen (sem_wait H show_own_group_list)
     (bnd (ask_word H) (\<lambda>groupid. if_number groupid (k groupid))))"

text \<open>\<open>response["groupid"] = std::stoi(groupid); response["userid"] = std::stoi(userid);\<close>\<close>

definition send_group_user :: "'w host \<Rightarrow> int \<Rightarrow> string \<Rightarrow> string \<Rightarrow> ('w, unit) menu" where
  "send_group_user H msgid groupid userid =
     bnd (stoi groupid) (\<lambda>g. bnd (stoi userid) (\<lambda>u.
     send_line H (message msgid [(''groupid'', JInt g), (''userid'', JInt u)])))"

definition addSomeoneToGroup :: "'w host \<Rightarrow> ('w, unit) menu" where
  "addSomeoneToGroup H = ask_own_group H (\<lambda>groupid.
     bnd (stoi groupid) (\<lambda>g.
     andthen (tellServerWantToLookGroupRequestList H g) (andthen (sem_wait H add_someone_to_group)
     (bnd (load H if_master_ormanager) (\<lambda>allowed. if \<not> allowed then ret () else
      bnd (ask_word H) (\<lambda>userid. if_number userid (send_group_user H ADD_GROUP groupid userid)))))))"

definition quitGroup :: "'w host \<Rightarrow> ('w, unit) menu" where
  "quitGroup H = ask_own_group H (\<lambda>groupid.
     bnd (stoi groupid) (\<lambda>g. send_line H (message QUIT_GROUP [(''groupid'', JInt g)])))"

definition GroupMemberList :: "'w host \<Rightarrow> ('w, unit) menu" where
  "GroupMemberList H = ask_own_group H (\<lambda>groupid.
     bnd (stoi groupid) (tellServerWantToLookGroupMemberList H))"

definition setGroupManager :: "'w host \<Rightarrow> ('w, unit) menu" where
  "setGroupManager H = ask_own_group H (\<lambda>groupid.
     bnd (stoi groupid) (\<lambda>g.
     andthen (tellServerWantToSetManagerGroupMemberList H g) (andthen (sem_wait H set_manager)
     (bnd (load H if_master) (\<lambda>allowed. if \<not> allowed then ret () else
      bnd (ask_word H) (\<lambda>userid. if_number userid
      (bnd (stoi userid) (\<lambda>u. bnd (load H (\<lambda>s. m_id (CurrentUser s))) (\<lambda>me. if u = me then ret ()
       else send_group_user H SET_MANAGER groupid userid)))))))))"

definition cancelGroupManager :: "'w host \<Rightarrow> ('w, unit) menu" where
  "cancelGroupManager H = ask_own_group H (\<lambda>groupid.
     bnd (stoi groupid) (\<lambda>g.
     andthen (tellServerWantToSetManagerGroupMemberList H g) (andthen (sem_wait H set_manager)
     (bnd (load H if_master) (\<lambda>allowed. if \<not> allowed then ret () else
      bnd (ask_word H) (\<lambda>userid. if_number userid (send_group_user H CANCEL_MANAGER groupid userid)))))))"

definition kickSomeoneInGroup :: "'w host \<Rightarrow> ('w, unit) menu" where
  "kickSomeoneInGroup H = ask_own_group H (\<lambda>groupid.
     bnd (stoi groupid) (\<lambda>g.
     andthen (tellServerWantToLookGroupMemberList H g)
     (bnd (ask_word H) (\<lambda>userid. if_number userid
      (bnd (stoi userid) (\<lambda>u. bnd (load H (\<lambda>s. m_id (CurrentUser s))) (\<lambda>me. if u = me then ret ()
       else send_group_user H KICK_SOMEONE groupid userid)))))))"

definition masterDeleteGroup :: "'w host \<Rightarrow> ('w, unit) menu" where
  "masterDeleteGroup H = ask_own_group H (\<lambda>groupid.
     bnd (stoi groupid) (\<lambda>g. send_line H (message MASTER_DELETE_GROUP [(''groupid'', JInt g)])))"

definition group_round :: "'w host \<Rightarrow> string \<Rightarrow> bool \<Rightarrow> ('w, bool option) menu" where
  "group_round H groupid if_display_group_history =
     bnd (load H if_group_member) (\<lambda>member. if \<not> member then ret None else
     andthen (if if_display_group_history
        then bnd (stoi groupid) (tellServerWantToLookGroupChatHistory H) else ret ())
     (bnd (getline H) (\<lambda>msg. if msg = ''exit'' then ret None else
      bnd (stoi groupid) (\<lambda>g.
      bnd (load H (\<lambda>s. m_name (CurrentUser s))) (\<lambda>me.
      andthen (send_line H (message GROUP_CHAT [(''groupid'', JInt g), (''from_name'', JStr me), (''msg'', JStr msg)]))
        (ret (Some False)))))))"

definition groupChat :: "'w host \<Rightarrow> ('w, unit) menu" where
  "groupChat H = ask_own_group H (\<lambda>groupid.
     bnd (stoi groupid) (\<lambda>g.
     andthen (checkIfGroupMember H g) (andthen (sem_wait H check_group_member)
     (bnd (load H if_group_member) (\<lambda>member. if \<not> member then ret () else
      bnd (stoi groupid) (\<lambda>g.
      andthen (modify (\<lambda>s. s\<lparr>CurrentGroupChatId := g\<rparr>))
      (andthen (menu_loop (group_round H groupid) True)
       (modify (\<lambda>s. s\<lparr>CurrentGroupChatId := -1\<rparr>)))))))))"

section \<open>Files\<close>

text \<open>\<open>filePath.substr(filePath.find_last_of("/\\") + 1)\<close>\<close>

definition base_name :: "string \<Rightarrow> string" where
  "base_name path = rev (takeWhile (\<lambda>c. c \<noteq> CHR ''/'' \<and> c \<noteq> CHR 0x5C) (rev path))"

definition client_fcntl :: "'w host \<Rightarrow> ('w, bool) menu" where
  "client_fcntl H s = (case fcntl_ok (h_env H) (host_world s) of (ok, w) \<Rightarrow> Done ok (s\<lparr>host_world := w\<rparr>))"

definition client_open :: "'w host \<Rightarrow> string \<Rightarrow> ('w, file_status) menu" where
  "client_open H path s =
     (case stat_file (h_env H) (c_str path) (host_world s) of (st, w) \<Rightarrow> Done st (s\<lparr>host_world := w\<rparr>))"

text \<open>The same loop around \<open>sendfile\<close> as on the server; the value tells whether every byte was sent.\<close>

definition client_send_bytes :: "'w host \<Rightarrow> nat \<Rightarrow> ('w, bool) menu" where
  "client_send_bytes H len s = (case sendfile_loop (h_env H) len (host_world s) of
       None \<Rightarrow> Stuck Diverges
     | Some (rest, ok, w) \<Rightarrow>
         Done ok (s\<lparr>host_world := w, requests := requests s @ [Bytes (len - rest)]\<rparr>))"

text \<open>
  \<open>S_ISLNK\<close> is asked of the result of \<open>stat\<close> after \<open>S_ISREG\<close> held for it, so it is false.  The line is not
  cleared when the receiver is not a number.
\<close>

definition client_sendfile :: "'w host \<Rightarrow> ('w, unit) menu" where
  "client_sendfile H = andthen (tellServerWantToLookFriendList H) (andthen (sem_wait H show_friend_list)
     (bnd (read_word H) (\<lambda>receiver_id. if_number receiver_id
      (bnd (ask_word H) (\<lambda>filePath.
       bnd (reads (\<lambda>s. stat_regular H (c_str filePath) (host_world s))) (\<lambda>file_stat.
       case file_stat of None \<Rightarrow> ret () | Some regular \<Rightarrow> if \<not> regular then ret () else
       bnd (client_open H filePath) (\<lambda>st. case st of OpenFailed \<Rightarrow> ret () | StatFailed \<Rightarrow> ret ()
       | FileSize len \<Rightarrow>
         andthen (send_line H (message SEND_FILE
           [(''filename'', JStr (base_name filePath)), (''filesize'', JInt (int len))]))
         (bnd (client_fcntl H) (\<lambda>got. if \<not> got then ret () else
          bnd (client_fcntl H) (\<lambda>blocking. if \<not> blocking then ret () else
          bnd (client_send_bytes H len) (\<lambda>sent. if \<not> sent then ret () else
          bnd (client_fcntl H) (\<lambda>restored. if \<not> restored then ret () else
          andthen (send_line H (message SEND_FILE_END []))
          (bnd (load H (\<lambda>s. m_id (CurrentUser s))) (\<lambda>me.
           bnd (stoi receiver_id) (\<lambda>receiver.
           send_line H (message SEND_FILE_DATABASE [(''filename'', JStr (base_name filePath)),
             (''sender'', JInt me), (''receiver'', JInt receiver)]))))))))))))))))"

definition receivefile :: "'w host \<Rightarrow> ('w, unit) menu" where
  "receivefile H = andthen (viewfile H) (andthen (sem_wait H show_file_list)
     (bnd (read_word H) (\<lambda>filename. if filename = ''exit'' then ret () else
      andthen (send_line H (message RECEIVE_FILE [(''filename'', JStr filename)]))
      (sem_wait H receive_file))))"

section \<open>The menus\<close>

definition command :: "'w host \<Rightarrow> int \<Rightarrow> ('w, unit) menu" where
  "command H choice =
     (if choice = 1 then privateChat H
      else if choice = 2 then groupChat H
      else if choice = 3 then addFriend H
      else if choice = 4 then deleteFriend H
      else if choice = 5 then blockFriend H
      else if choice = 6 then unblockFriend H
      else if choice = 7 then andthen (tellServerWantToLookFriendList H) (sem_wait H show_friend_list)
      else if choice = 8 then addFriendRequest H
      else if choice = 9 then createGroup H
      else if choice = 10 then requestEnterGroup H
      else if choice = 11 then quitGroup H
      else if choice = 12 then masterDeleteGroup H
      else if choice = 13 then andthen (tellServerWantToLookAllGroupList H) (sem_wait H show_all_group_list)
      else if choice = 14 then setGroupManager H
      else if choice = 15 then cancelGroupManager H
      else if choice = 16 then kickSomeoneInGroup H
      else if choice = 17 then GroupMemberList H
      else if choice = 18 then addSomeoneToGroup H
      else if choice = 19 then client_sendfile H
      else if choice = 20 then andthen (viewfile H) (sem_wait H show_file_list)
      else if choice = 21 then receivefile H
      else if choice = 22 then ExitChatRoom
      else ret ())"

text \<open>\<open>while (1)\<close>: the rounds never end the loop.\<close>

definition command_round :: "'w host \<Rightarrow> unit \<Rightarrow> ('w, unit option) menu" where
  "command_round H _ = bnd (ask_int H) (\<lambda>choice. andthen (command H choice) (ret (Some ())))"

definition EnterCommandMenu :: "'w host \<Rightarrow> ('w, unit) menu" where
  "EnterCommandMenu H = menu_loop (command_round H) ()"

definition semInit :: "('w, unit) menu" where
  "semInit = modify (\<lambda>s. s\<lparr>sems := (\<lambda>_. 0)\<rparr>)"

definition room_round :: "'w host \<Rightarrow> unit \<Rightarrow> ('w, unit option) menu" where
  "room_round H _ = bnd (ask_int H) (\<lambda>choice.
     andthen (if choice = 1 then client_reg H
       else if choice = 2 then bnd (client_login H) (\<lambda>ok. if ok then EnterCommandMenu H else ret ())
       else if choice = 3 then ExitChatRoom
       else ret ())
     (ret (Some ())))"

definition EnterChatRoom :: "'w host \<Rightarrow> ('w, unit) menu" where
  "EnterChatRoom H = andthen semInit (menu_loop (room_round H) ())"

text \<open>The client when the connection is established.\<close>

definition client_init :: "'w \<Rightarrow> event list \<Rightarrow> 'w client" where
  "client_init w es = \<lparr>m_fileTransferStates = (\<lambda>_. None), closed_files = [], shutdowns = [],
     sems = (\<lambda>_. 0), login_flag = False, if_block = False, if_friend = False, if_master_ormanager = False,
     if_master = False, if_group_member = False, CurrentUser = new_user,
     CurrentGroupChatId = -1, private_chat_id = -1, input_buffer = new_buffer, terminal = [],
     future = es, requests = [], host_world = w\<rparr>"

end
