(* ===== verification/Client_Invariants.thy ===== *)
theory Client_Invariants
  imports Client_Menu
begin

text \<open>
  Invariants of the client.  What the event thread does, and what the menu thread does, is stated once as
  an interface; an invariant that satisfies it is kept by every command (\<open>menu_invariant\<close>).
\<close>

section \<open>The requests of the protocol\<close>

datatype kind = IntField | StrField | SizeField

definition request_fields :: "(int \<times> (string \<times> kind) list) list" where
  "request_fields = [
     (REG_MSG, [(''name'', StrField), (''password'', StrField)]),
     (LOGIN_MSG, [(''name'', StrField), (''password'', StrField)]),
     (DISPLAY_ALLUSER_LIST, []), (ADD_FRIEND, [(''add_name'', StrField)]),
     (DELETE_FRIEND, [(''del_id'', IntField)]),
     (PRIVATE_CHAT, [(''id'', IntField), (''from_name'', StrField), (''msg'', StrField)]),
     (DISPLAY_FRIEND_LIST, []), (FRIEND_REQUEST_LIST, []),
     (BLOCK_FRIEND, [(''block_id'', IntField)]), (UNBLOCK_FRIEND, [(''unblock_id'', IntField)]),
     (BLOCK_FRIEND_LIST, []), (CHECK_BLOCK, [(''check_id'', IntField)]),
     (CREATE_GROUP, [(''groupname'', StrField)]), (DISPLAY_ALLGROUP_LIST, []),
     (REQUEST_GROUP, [(''add_group_id'', IntField)]), (GROUP_REQUEST_LIST, [(''groupid'', IntField)]),
     (ADD_GROUP, [(''groupid'', IntField), (''userid'', IntField)]), (QUIT_GROUP, [(''groupid'', IntField)]),
     (DISPLAY_OWN_GROUP_LIST, []), (DISPLAY_GROUP_MEMBER_LIST, [(''groupid'', IntField)]),
     (DISPLAY_GROUP_SET_MANAGER_MEMBER_LIST, [(''groupid'', IntField)]),
     (SET_MANAGER, [(''groupid'', IntField), (''userid'', IntField)]),
     (CANCEL_MANAGER, [(''groupid'', IntField), (''userid'', IntField)]),
     (KICK_SOMEONE, [(''groupid'', IntField), (''userid'', IntField)]),
     (CHECK_GROUP_MEMBER, [(''groupid'', IntField)]),
     (GROUP_CHAT, [(''groupid'', IntField), (''from_name'', StrField), (''msg'', StrField)]),
     (MASTER_DELETE_GROUP, [(''groupid'', IntField)]),
     (SEND_FILE, [(''filename'', StrField), (''filesize'', SizeField)]), (SEND_FILE_END, []),
     (SEND_FILE_DATABASE, [(''filename'', StrField), (''sender'', IntField), (''receiver'', IntField)]),
     (VIEW_FILE, []), (RECEIVE_FILE, [(''filename'', StrField)]),
     (PRIVATE_CHAT_HISTORY, [(''id'', IntField)]), (GROUP_CHAT_HISTORY, [(''groupid'', IntField)])]"

definition has_field :: "json \<Rightarrow> string \<times> kind \<Rightarrow> bool" where
  "has_field js f = (case snd f of IntField \<Rightarrow> js_int js (fst f) \<noteq> None
     | StrField \<Rightarrow> js_string js (fst f) \<noteq> None | SizeField \<Rightarrow> js_size js (fst f) \<noteq> None)"

definition request_ok :: "json \<Rightarrow> bool" where
  "request_ok js \<longleftrightarrow> wf_json js \<and> (case js_int js ''msgid'' of None \<Rightarrow> False
     | Some msgid \<Rightarrow> (case map_of request_fields msgid of None \<Rightarrow> False
       | Some fs \<Rightarrow> list_all (has_field js) fs))"

section \<open>The event thread\<close>

lemma keeps_catch_parse [keeps_rules]: "keeps P m \<Longrightarrow> keeps P k \<Longrightarrow> keeps P (catch_parse m k)"
proof (rule keepsI)
  fix s assume m: "keeps P m" and k: "keeps P k" and s: "P s"
  show "runs (catch_parse m k) s (\<lambda>_. P) (\<lambda>_. P) (\<lambda>_. True)"
  proof (cases "m s")
    case (Throw e s')
    with m s have "P s'" by (rule keeps_Throw)
    with keeps_runs [OF k this] Throw show ?thesis by (simp add: catch_parse_def runs_def)
  qed (use keeps_runs [OF m s] in \<open>simp_all add: catch_parse_def runs_def\<close>)
qed

lemma keeps_show [keeps_rules]:
  "keeps P (show_field js k)" "keeps P (show_fields js ks)" "keeps P (show_texts E ks vec)"
  "keeps P (strings_field js k)" "keeps P (bool_field js k)" "keeps P (size_field js k)"
  unfolding show_field_def show_fields_def show_texts_def strings_field_def bool_field_def size_field_def
  by (intro keeps_rules)+

lemmas display_defs = displayAllUserList_def displayRequestList_def displayFriendList_def displayBlockList_def
  displayAllGroupList_def displayOwnGroupList_def displayGroupMemberList_def displayFileList_def
  displayPrivateChatHistory_def displayGroupChatHistory_def displayGroupRequestList_def
  show_private_chat_def show_group_chat_def

lemma keeps_display [keeps_rules]:
  "keeps P (displayAllUserList E js)" "keeps P (displayRequestList E js)" "keeps P (displayFriendList E js)"
  "keeps P (displayBlockList E js)" "keeps P (displayAllGroupList E js)" "keeps P (displayOwnGroupList E js)"
  "keeps P (displayGroupMemberList E js)" "keeps P (displayFileList E js)"
  "keeps P (displayPrivateChatHistory E js)" "keeps P (displayGroupChatHistory E js)"
  "keeps P (displayGroupRequestList E js)" "keeps P (show_private_chat js)" "keeps P (show_group_chat js)"
  unfolding display_defs by (intro keeps_rules)+

lemmas request_defs = request_ok_def message_def js_int_def js_string_def js_size_def request_fields_def has_field_def to_int32_def

locale event_invariant =
  fixes P :: "'w client \<Rightarrow> bool"
  assumes calm: "P s \<Longrightarrow> requests t = requests s \<Longrightarrow> terminal t = terminal s \<Longrightarrow> future t = future s \<Longrightarrow> P t"
    and put: "P s \<Longrightarrow> request_ok js \<Longrightarrow> P (s\<lparr>requests := requests s @ [Line js]\<rparr>)"
begin

lemma modify_calm [keeps_rules]:
  "(\<And>s. requests (g s) = requests s \<and> terminal (g s) = terminal s \<and> future (g s) = future s) \<Longrightarrow> keeps P (modify g)"
  by (rule keeps_modify) (blast intro: calm)

lemma keeps_put_line [keeps_rules]: "(wf_json js \<Longrightarrow> request_ok js) \<Longrightarrow> keeps P (put_line js)"
  by (rule keepsI) (simp add: runs_def put_line_def put)

lemma keeps_sem_post [keeps_rules]: "keeps P (sem_post k)"
  unfolding sem_post_def by (intro keeps_rules) simp

lemma keeps_checkIfBlock [keeps_rules]: "keeps P (checkIfBlock i)"
  unfolding checkIfBlock_def by (intro keeps_rules) (simp add: request_defs)

lemma keeps_transfer [keeps_rules]:
  "keeps P (shutdown_conn c)" "keeps P (begin_transfer c path len)" "keeps P (modify (close_transfer c))"
  unfolding shutdown_conn_def begin_transfer_def
  by (intro keeps_rules; simp add: close_transfer_def split: option.split)+

lemma write_data_calm: "P s \<Longrightarrow> P (write_data c st bs s)"
  by (erule calm) (simp_all add: write_data_def close_transfer_def Let_def split: option.split)

lemma keeps_handleServerMessage [keeps_rules]: "keeps P (handleServerMessage E js)"
  unfolding handleServerMessage_def UserInit_def take_block_state_def ExitChatRoom_def
  by (intro keeps_rules; simp add: Let_def)

lemma keeps_onMessage [keeps_rules]: "keeps P (client_onMessage H data)"
proof -
  have "keeps P (client_line H c l)" for c l
    unfolding client_line_def by (intro keeps_rules)
  from keeps_receive [of P "client_line H" m_connection data, OF this write_data_calm]
  have r: "keeps P (receive (client_line H) m_connection data b)" for b .
  show ?thesis
  proof (rule keepsI)
    fix s assume "P s"
    from keeps_runs [OF r this, of "input_buffer s"]
    show "runs (client_onMessage H data) s (\<lambda>_. P) (\<lambda>_. P) (\<lambda>_. True)"
      by (auto simp: runs_def client_onMessage_def split: outcome.splits elim: calm)
  qed
qed

end

section \<open>The menu thread\<close>

lemma lines_in_simps [simp]:
  "lines_in [] = 0" "lines_in (c # cs) = (if c = newline then 1 else 0) + lines_in cs"
  "lines_in (xs @ ys) = lines_in xs + lines_in ys"
  by (simp_all add: lines_in_def)

lemma lines_in_dropWhile: "lines_in (dropWhile p cs) \<le> lines_in cs"
  by (induction cs) auto

lemma lines_in_scan: "lines_in (snd (scan_int cs)) \<le> lines_in cs"
  using lines_in_dropWhile [of is_digit "tl cs"] lines_in_dropWhile [of is_digit cs]
  by (cases cs) auto

lemma lines_in_rest:
  "newline \<in> set cs \<Longrightarrow> lines_in (tl (dropWhile (\<lambda>c. c \<noteq> newline) cs)) < lines_in cs"
  by (induction cs) auto

text \<open>What has arrived does not change what is still to come.\<close>

interpretation later: event_invariant "\<lambda>s. future s = es" for es
  by unfold_locales simp_all

locale menu_invariant = event_invariant P for P :: "'w client \<Rightarrow> bool" +
  assumes typed: "P s \<Longrightarrow> future s = Typed l # es \<Longrightarrow>
      P (s\<lparr>future := es, terminal := terminal s @ l @ [newline]\<rparr>)"
    and skip: "P s \<Longrightarrow> future s = e # es \<Longrightarrow> typed_lines e = 0 \<Longrightarrow> P (s\<lparr>future := es\<rparr>)"
    and eat: "P s \<Longrightarrow> lines_in cs \<le> lines_in (terminal s) \<Longrightarrow> P (s\<lparr>terminal := cs\<rparr>)"
    and bytes: "P s \<Longrightarrow> P (s\<lparr>host_world := w, requests := requests s @ [Bytes n]\<rparr>)"
begin

lemma arrival:
  assumes "P s" and "future s = Arrive data # es"
  shows "runs (client_onMessage H data) (s\<lparr>future := es\<rparr>) (\<lambda>_ t. P t \<and> future t = es) (\<lambda>_. P) (\<lambda>_. True)"
  by (rule runs_mono [OF runs_conj [OF keeps_runs [OF keeps_onMessage, OF skip [OF assms]]
        keeps_runs [OF later.keeps_onMessage [of es]]]]) auto

lemma event_happens:
  assumes "P s" and "future s = e # es"
  shows "runs (happens H e) (s\<lparr>future := es\<rparr>) (\<lambda>_ t. P t \<and> future t = es) (\<lambda>_. P) (\<lambda>_. True)"
  using assms by (cases e) (simp_all add: arrival typed skip)

lemma keeps_blocks:
  assumes ready: "\<And>s x t. P s \<Longrightarrow> got s = Some (x, t) \<Longrightarrow> P t"
  shows "keeps P (blocks H got)"
proof -
  have "P s \<Longrightarrow> future s = es \<Longrightarrow> runs (block_on H got es) s (\<lambda>_. P) (\<lambda>_. P) (\<lambda>_. True)" for es s
  proof (induction es arbitrary: s)
    case Nil
    with ready show ?case by (simp add: runs_def block_on.simps split: option.split)
  next
    case (Cons e es)
    show ?case
    proof (cases "got s")
      case None
      have "runs (bnd (happens H e) (\<lambda>_. block_on H got es)) (s\<lparr>future := es\<rparr>) (\<lambda>_. P) (\<lambda>_. P) (\<lambda>_. True)"
        by (rule runs_bnd, rule runs_mono [OF event_happens [OF Cons.prems]]) (simp_all add: Cons.IH)
      with None show ?thesis by (simp add: runs_def block_on.simps [of H got "e # es"])
    next
      case (Some r)
      with ready [OF Cons.prems(1), of "fst r" "snd r"] show ?thesis
        by (cases r) (simp add: runs_def block_on.simps)
    qed
  qed
  then show ?thesis by (simp add: keeps_def blocks_def runs_def)
qed

lemma keeps_sem_wait [keeps_rules]: "keeps P (sem_wait H k)"
  unfolding sem_wait_def
  by (rule keeps_blocks) (auto simp: sem_ready_def elim: calm split: if_splits)

lemma keeps_reads_terminal [keeps_rules]:
  "keeps P (read_word H)" "keeps P (read_int H)" "keeps P (getline H)"
proof -
  note shorter = order_trans [OF lines_in_dropWhile lines_in_dropWhile]
    order_trans [OF lines_in_scan lines_in_dropWhile] less_imp_le [OF lines_in_rest]
  show "keeps P (read_word H)" unfolding read_word_def
    by (rule keeps_blocks) (auto simp: word_ready_def Let_def intro!: eat shorter split: if_splits)
  show "keeps P (read_int H)" unfolding read_int_def
    by (rule keeps_blocks) (auto simp: int_ready_def Let_def intro!: eat shorter split: if_splits)
  show "keeps P (getline H)" unfolding getline_def
    by (rule keeps_blocks) (auto simp: line_ready_def intro!: eat shorter split: if_splits)
qed

lemma keeps_turn [keeps_rules]: "keeps P (turn H)"
proof -
  have "P s \<Longrightarrow> future s = es \<Longrightarrow> runs (turn_on H es) s (\<lambda>_. P) (\<lambda>_. P) (\<lambda>_. True)" for es s
  proof (induction es arbitrary: s)
    case (Cons e es)
    show ?case
    proof (cases e)
      case (Arrive data)
      have "runs (bnd (client_onMessage H data) (\<lambda>_. turn_on H es)) (s\<lparr>future := es\<rparr>) (\<lambda>_. P) (\<lambda>_. P) (\<lambda>_. True)"
        by (rule runs_bnd, rule runs_mono [OF arrival])
          (use Cons in \<open>simp_all add: Arrive\<close>)
      with Arrive show ?thesis by (simp add: runs_def)
    qed (use Cons.prems skip [of s e es] in \<open>simp_all add: runs_def\<close>)
  qed (simp add: runs_def)
  then show ?thesis by (simp add: keeps_def turn_def runs_def)
qed

lemma keeps_menu_loop [keeps_rules]:
  assumes "\<And>a. keeps P (body a)"
  shows "keeps P (menu_loop body a)"
proof -
  have "(\<And>a. keeps P (body a)) \<Longrightarrow> P s \<Longrightarrow> runs (menu_loop body a) s (\<lambda>_. P) (\<lambda>_. P) (\<lambda>_. True)" for body a s
  proof (induction body a s rule: menu_loop.induct)
    case (1 body a s)
    from keeps_runs [OF 1(2) 1(3), of a] 1(1) [OF _ _ _ 1(2)] show ?case
      unfolding runs_def by (subst menu_loop.simps) (auto split: outcome.splits option.splits)
  qed
  from this [of body, OF assms] show ?thesis by (rule keepsI)
qed

lemma keeps_send_line [keeps_rules]: "(wf_json js \<Longrightarrow> request_ok js) \<Longrightarrow> keeps P (send_line H js)"
  unfolding send_line_def by (intro keeps_rules)

lemma keeps_load [keeps_rules]: "keeps P (load H f)"
  unfolding load_def by (intro keeps_rules)

lemma keeps_stoi [keeps_rules]: "keeps P (stoi w)"
  unfolding stoi_def by (intro keeps_rules)

lemma keeps_if_number [keeps_rules]: "keeps P k \<Longrightarrow> keeps P (if_number w k)"
  unfolding if_number_def by (intro keeps_rules)

lemma keeps_ask [keeps_rules]: "keeps P (clearInputBuffer H)" "keeps P (ask_word H)" "keeps P (ask_int H)" "keeps P (getPassword H)"
  unfolding clearInputBuffer_def ask_word_def ask_int_def getPassword_def by (intro keeps_rules)+

lemma keeps_tell [keeps_rules]:
  "keeps P (tellServerWantToLookAllUserList H)" "keeps P (tellServerWantToLookRequestList H)"
  "keeps P (tellServerWantToLookFriendList H)" "keeps P (tellServerWantToLookBlockList H)"
  "keeps P (tellServerWantToLookPrivateChatHistory H i)" "keeps P (tellServerWantToLookAllGroupList H)"
  "keeps P (tellServerWantToLookGroupRequestList H i)" "keeps P (tellServerShowOwnGroupList H)"
  "keeps P (tellServerWantToLookGroupMemberList H i)" "keeps P (tellServerWantToSetManagerGroupMemberList H i)"
  "keeps P (checkIfGroupMember H i)" "keeps P (tellServerWantToLookGroupChatHistory H i)" "keeps P (viewfile H)"
  "keeps P (menu_checkIfBlock H i)"
  unfolding tellServerWantToLookAllUserList_def tellServerWantToLookRequestList_def tellServerWantToLookFriendList_def
    tellServerWantToLookBlockList_def tellServerWantToLookPrivateChatHistory_def tellServerWantToLookAllGroupList_def
    tellServerWantToLookGroupRequestList_def tellServerShowOwnGroupList_def tellServerWantToLookGroupMemberList_def
    tellServerWantToSetManagerGroupMemberList_def checkIfGroupMember_def tellServerWantToLookGroupChatHistory_def
    viewfile_def menu_checkIfBlock_def
  by (intro keeps_rules; simp add: request_defs)+

lemma keeps_friends [keeps_rules]:
  "keeps P (client_reg H)" "keeps P (client_login H)" "keeps P (addFriend H)" "keeps P (addFriendRequest H)"
  "keeps P (deleteFriend H)" "keeps P (blockFriend H)" "keeps P (unblockFriend H)"
  unfolding client_reg_def client_login_def addFriend_def addFriendRequest_def ask_friend_name_def
    deleteFriend_def blockFriend_def unblockFriend_def
  by (intro keeps_rules; simp add: request_defs)+

lemma keeps_private [keeps_rules]: "keeps P (private_round H i b)" "keeps P (privateChat H)"
proof -
  show round: "keeps P (private_round H i b)" for i b
    unfolding private_round_def by (intro keeps_rules; simp add: request_defs)
  show "keeps P (privateChat H)"
    unfolding privateChat_def by (intro keeps_rules round)
qed

lemma keeps_own_group [keeps_rules]: "(\<And>g. keeps P (k g)) \<Longrightarrow> keeps P (ask_own_group H k)"
  unfolding ask_own_group_def by (intro keeps_rules)

lemma keeps_send_group_user [keeps_rules]:
  "keeps P (send_group_user H ADD_GROUP g u)" "keeps P (send_group_user H SET_MANAGER g u)"
  "keeps P (send_group_user H CANCEL_MANAGER g u)" "keeps P (send_group_user H KICK_SOMEONE g u)"
  unfolding send_group_user_def by (intro keeps_rules; simp add: request_defs)+

lemma keeps_groups [keeps_rules]:
  "keeps P (createGroup H)" "keeps P (requestEnterGroup H)" "keeps P (addSomeoneToGroup H)" "keeps P (quitGroup H)"
  "keeps P (GroupMemberList H)" "keeps P (setGroupManager H)" "keeps P (cancelGroupManager H)"
  "keeps P (kickSomeoneInGroup H)" "keeps P (masterDeleteGroup H)"
  unfolding createGroup_def requestEnterGroup_def addSomeoneToGroup_def quitGroup_def GroupMemberList_def
    setGroupManager_def cancelGroupManager_def kickSomeoneInGroup_def masterDeleteGroup_def
  by (intro keeps_rules; simp add: request_defs)+

lemma keeps_group_chat [keeps_rules]: "keeps P (group_round H g b)" "keeps P (groupChat H)"
proof -
  show round: "keeps P (group_round H g b)" for g b
    unfolding group_round_def by (intro keeps_rules; simp add: request_defs)
  show "keeps P (groupChat H)"
    unfolding groupChat_def by (intro keeps_rules round; simp)
qed

lemma keeps_host [keeps_rules]:
  "keeps P (client_fcntl H)" "keeps P (client_open H path)" "keeps P (client_send_bytes H len)"
  by (rule keepsI, auto simp: runs_def client_fcntl_def client_open_def client_send_bytes_def
      split: prod.split option.split elim: calm intro: bytes)+

lemma keeps_case_file_status [keeps_rules]:
  "keeps P a \<Longrightarrow> keeps P b \<Longrightarrow> (\<And>n. keeps P (f n)) \<Longrightarrow>
    keeps P (case st of OpenFailed \<Rightarrow> a | StatFailed \<Rightarrow> b | FileSize n \<Rightarrow> f n)"
  by (cases st) simp_all

lemma keeps_files [keeps_rules]: "keeps P (client_sendfile H)" "keeps P (receivefile H)"
  unfolding client_sendfile_def receivefile_def by (intro keeps_rules; simp add: request_defs)+

lemma keeps_command [keeps_rules]: "keeps P (command H choice)"
  unfolding command_def ExitChatRoom_def by (intro keeps_rules)

lemma keeps_menus [keeps_rules]: "keeps P (EnterCommandMenu H)" "keeps P (EnterChatRoom H)"
  unfolding EnterChatRoom_def EnterCommandMenu_def room_round_def command_round_def semInit_def ExitChatRoom_def by (intro keeps_rules; simp)+

end

end
