(* ===== verification/Json_Text.thy ===== *)
theory Json_Text
  imports Json
begin

text \<open>
  A reference JSON text format: \<open>dump_json\<close> and \<open>parse_json\<close>, with the round trip.  It is no model of
  the vendored library; it is the concrete instance on which the laws of \<open>json_library\<close> hold and
  with which closed instances of the theorems are evaluated.
\<close>

abbreviation DQ :: char where "DQ \<equiv> CHR 0x22"
abbreviation BS :: char where "BS \<equiv> CHR 0x5C"
abbreviation CR :: char where "CR \<equiv> CHR 0x0D"
abbreviation LF :: char where "LF \<equiv> CHR 0x0A"

definition esc :: "char \<Rightarrow> string" where
  "esc c = (if c = DQ \<or> c = BS then [BS, c] else if c = CR then [BS, CHR ''r'']
    else if c = LF then [BS, CHR ''n''] else if c = CHR 0x00 then [BS, CHR ''0''] else [c])"

definition unesc :: "char \<Rightarrow> char" where
  "unesc c = (if c = CHR ''r'' then CR else if c = CHR ''n'' then LF else if c = CHR ''0'' then CHR 0x00 else c)"

definition dump_str :: "string \<Rightarrow> string" where
  "dump_str s = DQ # concat (map esc s) @ [DQ]"

fun dump_json :: "json \<Rightarrow> string"
  and dump_elems :: "json list \<Rightarrow> string"
  and dump_fields :: "(string \<times> json) list \<Rightarrow> string" where
  "dump_json JNull = ''null''"
| "dump_json (JBool b) = (if b then ''true'' else ''false'')"
| "dump_json (JInt i) = itos i"
| "dump_json (JStr s) = dump_str s"
| "dump_json (JArr xs) = CHR ''['' # dump_elems xs"
| "dump_json (JObj kvs) = CHR ''{'' # dump_fields kvs"
| "dump_elems [] = '']''"
| "dump_elems (x # xs) = dump_json x @ (if xs = [] then '']'' else CHR '','' # dump_elems xs)"
| "dump_fields [] = ''}''"
| "dump_fields ((k, v) # kvs) = dump_str k @ CHR '':'' # dump_json v @
     (if kvs = [] then ''}'' else CHR '','' # dump_fields kvs)"

fun parse_str :: "string \<Rightarrow> (string \<times> string) option" where
  "parse_str [] = None"
| "parse_str [c] = (if c = DQ then Some ([], []) else None)"
| "parse_str (c # d # cs) =
     (if c = DQ then Some ([], d # cs)
      else if c = BS then map_option (\<lambda>(s, r). (unesc d # s, r)) (parse_str cs)
      else map_option (\<lambda>(s, r). (c # s, r)) (parse_str (d # cs)))"

definition numeric :: "char \<Rightarrow> bool" where
  "numeric c \<longleftrightarrow> is_digit c \<or> c = CHR ''-''"

fun parse_value :: "nat \<Rightarrow> string \<Rightarrow> (json \<times> string) option"
  and parse_elems :: "nat \<Rightarrow> string \<Rightarrow> (json list \<times> string) option"
  and parse_fields :: "nat \<Rightarrow> string \<Rightarrow> ((string \<times> json) list \<times> string) option" where
  "parse_value 0 s = None"
| "parse_value (Suc n) [] = None"
| "parse_value (Suc n) (c # cs) =
     (if c = CHR ''n'' then (if take 3 cs = ''ull'' then Some (JNull, drop 3 cs) else None)
      else if c = CHR ''t'' then (if take 3 cs = ''rue'' then Some (JBool True, drop 3 cs) else None)
      else if c = CHR ''f'' then (if take 4 cs = ''alse'' then Some (JBool False, drop 4 cs) else None)
      else if c = DQ then map_option (\<lambda>(s, r). (JStr s, r)) (parse_str cs)
      else if c = CHR ''['' then map_option (\<lambda>(xs, r). (JArr xs, r)) (parse_elems n cs)
      else if c = CHR ''{'' then map_option (\<lambda>(xs, r). (JObj xs, r)) (parse_fields n cs)
      else if numeric c
        then Some (JInt (atoi (takeWhile numeric (c # cs))), dropWhile numeric (c # cs))
      else None)"
| "parse_elems 0 s = None"
| "parse_elems (Suc n) [] = None"
| "parse_elems (Suc n) (c # cs) =
     (if c = CHR '']'' then Some ([], cs)
      else (case parse_value n (c # cs) of None \<Rightarrow> None | Some (x, r) \<Rightarrow>
        (case r of [] \<Rightarrow> None | d # ds \<Rightarrow>
          if d = CHR '']'' then Some ([x], ds)
          else if d = CHR '','' then map_option (\<lambda>(xs, r'). (x # xs, r')) (parse_elems n ds)
          else None)))"
| "parse_fields 0 s = None"
| "parse_fields (Suc n) [] = None"
| "parse_fields (Suc n) (c # cs) =
     (if c = CHR ''}'' then Some ([], cs)
      else if c \<noteq> DQ then None
      else (case parse_str cs of None \<Rightarrow> None | Some (k, r) \<Rightarrow>
        (case r of [] \<Rightarrow> None | e # es \<Rightarrow>
          if e \<noteq> CHR '':'' then None
          else (case parse_value n es of None \<Rightarrow> None | Some (x, r') \<Rightarrow>
            (case r' of [] \<Rightarrow> None | d # ds \<Rightarrow>
              if d = CHR ''}'' then Some ([(k, x)], ds)
              else if d = CHR '','' then map_option (\<lambda>(xs, q). ((k, x) # xs, q)) (parse_fields n ds)
              else None)))))"

definition parse_json :: "string \<Rightarrow> json option" where
  "parse_json s = (case parse_value (Suc (length s)) s of Some (j, []) \<Rightarrow> Some j | _ \<Rightarrow> None)"

section \<open>Round trip\<close>

lemma parse_str_step: "t \<noteq> [] \<Longrightarrow> c \<noteq> DQ \<Longrightarrow> c \<noteq> BS \<Longrightarrow>
    parse_str (c # t) = map_option (\<lambda>(s, r). (c # s, r)) (parse_str t)"
  by (cases t) simp_all

lemma parse_str_dump: "parse_str (concat (map esc s) @ DQ # r) = Some (s, r)"
proof (induction s)
  case Nil
  then show ?case by (cases r) simp_all
next
  case (Cons c s)
  then show ?case by (auto simp: esc_def unesc_def parse_str_step)
qed

lemma parse_dump_str: "\<exists>cs. dump_str s @ r = DQ # cs \<and> parse_str cs = Some (s, r)"
  by (simp add: dump_str_def parse_str_dump)

lemma itos_numeric: "c \<in> set (itos i) \<Longrightarrow> numeric c"
  by (auto simp: itos_def numeric_def dest: nat_str_digits split: if_splits)

lemma itos_nonempty [simp]: "itos i \<noteq> []"
  by (simp add: itos_def)

definition stops :: "string \<Rightarrow> bool" where
  "stops r \<longleftrightarrow> (case r of [] \<Rightarrow> True | c # _ \<Rightarrow> \<not> numeric c)"

lemma takeWhile_itos: "stops r \<Longrightarrow> takeWhile numeric (itos i @ r) = itos i"
  and dropWhile_itos: "stops r \<Longrightarrow> dropWhile numeric (itos i @ r) = r"
  by (cases r; simp add: stops_def itos_numeric)+

lemma not_numeric [simp]: "\<not> numeric (CHR ''n'')" "\<not> numeric (CHR ''t'')" "\<not> numeric (CHR ''f'')"
  "\<not> numeric DQ" "\<not> numeric (CHR ''['')" "\<not> numeric (CHR ''{'')" "\<not> numeric (CHR '','')"
  "\<not> numeric (CHR '']'')" "\<not> numeric (CHR ''}'')"
  by (simp_all add: numeric_def is_digit_def)

lemma parse_value_int: "stops r \<Longrightarrow> parse_value (Suc n) (itos i @ r) = Some (JInt i, r)"
proof -
  assume r: "stops r"
  obtain c cs where c: "itos i = c # cs" by (cases "itos i") auto
  then have num: "numeric c" using itos_numeric [of c i] by simp
  then have "c \<noteq> CHR ''n''" "c \<noteq> CHR ''t''" "c \<noteq> CHR ''f''" "c \<noteq> DQ" "c \<noteq> CHR ''[''" "c \<noteq> CHR ''{''"
    using not_numeric by metis+
  then have "parse_value (Suc n) ((c # cs) @ r) =
      Some (JInt (atoi (takeWhile numeric ((c # cs) @ r))), dropWhile numeric ((c # cs) @ r))"
    using num by simp
  then show ?thesis using r by (simp only: c [symmetric] takeWhile_itos dropWhile_itos atoi_itos)
qed

lemma dump_json_head: "\<exists>c cs. dump_json j = c # cs \<and> c \<noteq> CHR '']'' \<and> c \<noteq> CHR ''}''"
proof (cases j)
  case (JInt i)
  obtain c cs where c: "itos i = c # cs" by (cases "itos i") auto
  then have "numeric c" using itos_numeric [of c i] by simp
  then have "c \<noteq> CHR '']'' \<and> c \<noteq> CHR ''}''" using not_numeric by metis
  with JInt c show ?thesis by simp
qed (auto simp: dump_str_def)

lemma parse_dump_all:
  "length (dump_json j) \<le> n \<Longrightarrow> stops r \<Longrightarrow> parse_value n (dump_json j @ r) = Some (j, r)"
  "length (dump_elems xs) \<le> n \<Longrightarrow> parse_elems n (dump_elems xs @ r) = Some (xs, r)"
  "length (dump_fields kvs) \<le> n \<Longrightarrow> parse_fields n (dump_fields kvs @ r) = Some (kvs, r)"
proof (induction j and xs and kvs arbitrary: n r and n r and n r
    rule: dump_json_dump_elems_dump_fields.induct)
  case 1
  then obtain m where "n = Suc m" by (cases n) auto
  then show ?case by simp
next
  case (2 b)
  then obtain m where "n = Suc m" by (cases n) (auto split: if_splits)
  then show ?case by simp
next
  case 7
  then obtain m where "n = Suc m" by (cases n) auto
  then show ?case by simp
next
  case 9
  then obtain m where "n = Suc m" by (cases n) auto
  then show ?case by simp
next
  case (3 i)
  then obtain m where "n = Suc m" by (cases n) (auto simp: Suc_le_eq)
  with 3 show ?case by (simp add: parse_value_int)
next
  case (4 s)
  then obtain m where "n = Suc m" by (cases n) (auto simp: dump_str_def)
  with parse_dump_str [of s r] show ?case by (auto simp: dump_str_def)
next
  case (5 xs)
  then obtain m where "n = Suc m" "length (dump_elems xs) \<le> m" by (cases n) auto
  with 5 show ?case by simp
next
  case (6 kvs)
  then obtain m where "n = Suc m" "length (dump_fields kvs) \<le> m" by (cases n) auto
  with 6 show ?case by simp
next
  case (8 x xs)
  obtain c cs where c: "dump_json x = c # cs" "c \<noteq> CHR '']''" using dump_json_head by blast
  have "length (dump_elems xs) + length (dump_json x) < n \<or> xs = [] \<and> length (dump_json x) < n"
    using "8.prems" c by (cases "xs = []") auto
  then obtain m where m: "n = Suc m" "length (dump_json x) \<le> m"
    "xs \<noteq> [] \<longrightarrow> length (dump_elems xs) \<le> m"
    by (cases n) auto
  have v: "parse_value m (dump_json x @ r') = Some (x, r')" if "stops r'" for r'
    using "8.IH"(1) m(2) that by blast
  show ?case
  proof (cases "xs = []")
    case True
    with v [of "CHR '']'' # r"] m c show ?thesis by (simp add: stops_def)
  next
    case False
    with v [of "CHR '','' # dump_elems xs @ r"] "8.IH"(2) m c show ?thesis
      by (simp add: stops_def)
  qed
next
  case (10 k v kvs)
  have "length (dump_fields kvs) + length (dump_json v) < n \<or> kvs = [] \<and> length (dump_json v) < n"
    using "10.prems" by (cases "kvs = []") auto
  then obtain m where m: "n = Suc m" "length (dump_json v) \<le> m"
    "kvs \<noteq> [] \<longrightarrow> length (dump_fields kvs) \<le> m"
    by (cases n) auto
  have v: "parse_value m (dump_json v @ r') = Some (v, r')" if "stops r'" for r'
    using "10.IH"(1) m(2) that by blast
  show ?case
  proof (cases "kvs = []")
    case True
    with v [of "CHR ''}'' # r"] m show ?thesis
      by (simp add: stops_def dump_str_def parse_str_dump)
  next
    case False
    with v [of "CHR '','' # dump_fields kvs @ r"] "10.IH"(2) m show ?thesis
      by (simp add: stops_def dump_str_def parse_str_dump)
  qed
qed

lemma parse_dump_json: "parse_json (dump_json j) = Some j"
  using parse_dump_all(1) [of j "Suc (length (dump_json j))" "[]"]
  by (simp add: parse_json_def stops_def)

definition one_line :: "string \<Rightarrow> bool" where
  "one_line s \<longleftrightarrow> CR \<notin> set s \<and> LF \<notin> set s \<and> CHR 0x00 \<notin> set s"

lemma esc_one_line: "one_line (esc c)"
  by (simp add: esc_def one_line_def)

lemma dump_str_one_line: "one_line (dump_str s)"
  using esc_one_line by (auto simp: dump_str_def one_line_def)

lemma itos_one_line: "one_line (itos i)"
  using itos_numeric [of CR i] itos_numeric [of LF i] itos_numeric [of "CHR 0x00" i]
  by (auto simp: numeric_def is_digit_def one_line_def)

lemma one_line_simps [simp]:
  "one_line []" "one_line (c # s) \<longleftrightarrow> c \<noteq> CR \<and> c \<noteq> LF \<and> c \<noteq> CHR 0x00 \<and> one_line s"
  "one_line (s @ t) \<longleftrightarrow> one_line s \<and> one_line t"
  by (auto simp: one_line_def)

lemma dump_one_line:
  "one_line (dump_json j)" "one_line (dump_elems xs)" "one_line (dump_fields kvs)"
  by (induction j and xs and kvs rule: dump_json_dump_elems_dump_fields.induct)
    (simp_all add: dump_str_one_line itos_one_line)

end
