(* ===== verification/Reference_Env.thy ===== *)
theory Reference_Env
  imports Services Json_Text
begin

text \<open>
  The reference environment: the world is the database view itself, statements are executed by
  \<open>run_stmt\<close> and queries answered by \<open>select_rows\<close>, nothing ever fails, the collation is byte
  equality and the JSON text format is the one of \<open>Json_Text\<close>.  It shows that the laws of
  \<open>Services\<close> can hold together, and closed instances of the theorems run on it.
\<close>

fun auto_id :: "stmt \<Rightarrow> db \<Rightarrow> int" where
  "auto_id (InsertUser n p s) d = next_user d"
| "auto_id (InsertGroup n) d = next_group d"
| "auto_id st d = 0"

definition ref_exec :: "stmt \<Rightarrow> db \<Rightarrow> bool \<times> db" where
  "ref_exec st d = (if st_fits st then
     (case run_stmt (\<lambda>s. s) (auto_id st d) st d of None \<Rightarrow> (False, d) | Some d' \<Rightarrow> (True, d'))
     else (False, d))"

definition ref_env :: "db env" where
  "ref_env = \<lparr>mysql_exec = ref_exec,
     mysql_select = (\<lambda>q d. (Some (select_rows (\<lambda>s. s) q d), d)),
     mysql_insert_id = last_id,
     mysql_real_connect = (\<lambda>d. (True, d)),
     redis_rpush = (\<lambda>k v d. (True, d\<lparr>redis_lists := (redis_lists d)(k := redis_lists d k @ [v])\<rparr>)),
     redis_lrange_all = (\<lambda>k d. (Some (redis_lists d k), d)),
     redis_ltrim_none = (\<lambda>k d. (True, d\<lparr>redis_lists := (redis_lists d)(k := [])\<rparr>)),
     current_timestamp = (\<lambda>d. ''2024-08-12 10:00:00''),
     stat_file = (\<lambda>f d. (FileSize 3, d)),
     fcntl_ok = (\<lambda>d. (True, d)),
     sendfile = (\<lambda>n d. (Sent n, d)),
     json_dump = dump_json,
     json_parse = parse_json\<rparr>"

lemma ref_exec_complete: "\<exists>i. run_stmt (\<lambda>s. s) i st d \<noteq> None \<Longrightarrow>
    run_stmt (\<lambda>s. s) (auto_id st d) st d \<noteq> None"
proof (cases "is_auto st")
  case False
  then have "run_stmt (\<lambda>s. s) i st d = run_stmt (\<lambda>s. s) (auto_id st d) st d" for i
    by (cases st) simp_all
  moreover assume "\<exists>i. run_stmt (\<lambda>s. s) i st d \<noteq> None"
  ultimately show ?thesis by metis
next
  case True
  moreover assume "\<exists>i. run_stmt (\<lambda>s. s) i st d \<noteq> None"
  ultimately show ?thesis by (cases st) (simp_all split: if_split_asm)
qed

lemma rev_sort_desc: "sorted_wrt (\<lambda>x y. f y \<le> f x) (rev (sort_key f xs))"
  using sorted_sort_key [of f xs] by (simp only: sorted_wrt_rev sorted_map)

lemma select_answers: "answers ci q d (select_rows ci q d)"
proof (cases q)
  case (QPrivateHistory a b n)
  let ?xs = "filter (\<lambda>r. p_sender r = a \<and> p_receiver r = b \<or> p_sender r = b \<and> p_receiver r = a)
    (t_private d)"
  show ?thesis unfolding QPrivateHistory answers.simps
    by (rule exI [of _ "rev (sort_key p_time ?xs)"])
      (auto simp: rev_sort_desc private_cols_def)
next
  case (QGroupHistory g n)
  let ?xs = "filter (\<lambda>r. q_group r = g) (t_gchat d)"
  show ?thesis unfolding QGroupHistory answers.simps
    by (rule exI [of _ "rev (sort_key q_time ?xs)"])
      (auto simp: rev_sort_desc group_cols_def)
qed simp_all

lemma auto_last_id: "is_auto st \<Longrightarrow> ref_exec st w = (True, w') \<Longrightarrow> mysql_insert_id ref_env w' = last_id w'"
  by (simp add: ref_env_def)

interpretation ref: reliable_services ref_env "\<lambda>d. d" "\<lambda>s. s"
proof unfold_locales
  fix st :: stmt and w w' :: db
  show "mysql_exec ref_env st w = (True, w') \<Longrightarrow> \<exists>i. run_stmt (\<lambda>s. s) i st w = Some w'"
    by (auto simp: ref_env_def ref_exec_def split: if_splits option.splits)
  show "mysql_exec ref_env st w = (False, w') \<Longrightarrow> w' = w"
    by (auto simp: ref_env_def ref_exec_def split: if_splits option.splits)
  show "st_fits st \<Longrightarrow> \<exists>i. run_stmt (\<lambda>s. s) i st w \<noteq> None \<Longrightarrow> fst (mysql_exec ref_env st w)"
    using ref_exec_complete [of st w]
    by (auto simp: ref_env_def ref_exec_def split: option.splits)
qed (auto simp: ref_env_def select_answers)

interpretation ref_json: json_library ref_env
  by unfold_locales (use dump_one_line(1) in \<open>auto simp: ref_env_def parse_dump_json one_line_def\<close>)

end
