(* ===== verification/Sample_World.thy ===== *)
theory Sample_World
  imports Dispatch Reference_Env
begin

text \<open>
  A small server on the reference environment, for closed instances of the theorems: three users,
  two of them friends and logged in, a group with a master, a manager and a request, two connections
  in either pool.
\<close>

definition sample_db :: db where
  "sample_db = \<lparr>
     t_user = [(1, \<lparr>u_name = ''alice'', u_password = ''a'', u_state = ''online''\<rparr>),
       (2, \<lparr>u_name = ''bob'', u_password = ''b'', u_state = ''online''\<rparr>),
       (3, \<lparr>u_name = ''carol'', u_password = ''c'', u_state = ''offline''\<rparr>)],
     t_friend = [((1, 2), ''friend''), ((2, 1), ''friend''), ((3, 1), ''request'')],
     t_group = [(1, ''team'')],
     t_member = [((1, 1), ''master''), ((1, 2), ''manager''), ((1, 3), ''request'')],
     t_private = [], t_gchat = [], next_user = 4, next_group = 2, last_id = 0, savepoint = None,
     redis_lists = (\<lambda>k. [])\<rparr>"

definition sample :: "db svc" where
  "sample = \<lparr>m_pool = [0, 1], redis_ready = True, redis_pool = [0, 1], world = sample_db,
     m_userConnMap = [1 \<mapsto> 10, 2 \<mapsto> 20], m_connUserMap = [10 \<mapsto> 1, 20 \<mapsto> 2],
     m_groupUserListMap = [1 \<mapsto> [1, 2]],
     m_connStatusMap = [(10, True), (20, True), (30, True)], out = []\<rparr>"

text \<open>Requests as the client writes them.\<close>

definition req_create :: "string \<Rightarrow> json" where
  "req_create name = message CREATE_GROUP [(''groupname'', JStr name)]"

definition req_login :: "string \<Rightarrow> string \<Rightarrow> json" where
  "req_login name pwd = message LOGIN_MSG [(''name'', JStr name), (''password'', JStr pwd)]"

definition after :: "('s, 'a) prog \<Rightarrow> 's \<Rightarrow> 's" where
  "after m s = the (leaves m s)"

lemma after_leaves: "leaves m s \<noteq> None \<Longrightarrow> leaves m s = Some (after m s)"
  by (simp add: after_def)

end
