(* ===== verification/Client_Properties.thy ===== *)
theory Client_Properties
  imports Client_Invariants Sample_World
begin

text \<open>The properties of the client, with closed instances.\<close>

section \<open>Lines bound the loops\<close>

interpretation lines: menu_invariant "\<lambda>s. lines_left s \<le> n" for n
  by unfold_locales (auto simp: lines_left_def)

text \<open>\<open>calm\<close>: no line is added; \<open>spends\<close>: when it returns, it has used one; \<open>paid\<close>: when it goes on.\<close>

definition calm :: "('w, 'a) menu \<Rightarrow> bool" where
  "calm m \<longleftrightarrow> (\<forall>n. keeps (\<lambda>s. lines_left s \<le> n) m)"

definition spends :: "('w, 'a) menu \<Rightarrow> bool" where
  "spends m \<longleftrightarrow> (\<forall>s. runs m s (\<lambda>x t. lines_left t < lines_left s) (\<lambda>_ _. True) (\<lambda>_. True))"

definition paid :: "('w, 'a option) menu \<Rightarrow> bool" where
  "paid m \<longleftrightarrow> (\<forall>s. runs m s (\<lambda>x t. x \<noteq> None \<longrightarrow> lines_left t < lines_left s) (\<lambda>_ _. True) (\<lambda>_. True))"

lemma calm_runs: "calm m \<Longrightarrow> runs m s (\<lambda>_ t. lines_left t \<le> lines_left s) (\<lambda>_ _. True) (\<lambda>_. True)"
  by (auto simp: calm_def intro: runs_mono [OF keeps_runs])

lemma spends_getline: "spends (getline H)"
proof -
  have "future s = es \<Longrightarrow> lines_left s \<le> n \<Longrightarrow>
      runs (block_on H line_ready es) s (\<lambda>x t. lines_left t < n) (\<lambda>_ _. True) (\<lambda>_. True)" for es n and s :: "'a client"
  proof (induction es arbitrary: s)
    case Nil
    then show ?case using lines_in_rest [of "terminal s"]
      by (auto simp: runs_def block_on.simps line_ready_def lines_left_def)
  next
    case (Cons e es)
    show ?case
    proof (cases "newline \<in> set (terminal s)")
      case True
      with Cons.prems lines_in_rest [OF True] show ?thesis
        by (simp add: runs_def block_on.simps line_ready_def lines_left_def)
    next
      case False
      then have wait: "line_ready s = None" by (simp add: line_ready_def)
      have "runs (bnd (happens H e) (\<lambda>_. block_on H line_ready es)) (s\<lparr>future := es\<rparr>)
          (\<lambda>x t. lines_left t < n) (\<lambda>_ _. True) (\<lambda>_. True)"
        by (rule runs_bnd, rule runs_mono [OF lines.event_happens [OF Cons.prems(2,1)]])
          (simp_all add: Cons.IH)
      with wait show ?thesis by (simp add: runs_def block_on.simps [of H _ "e # es"])
    qed
  qed
  then show ?thesis by (simp add: spends_def getline_def blocks_def runs_def)
qed

lemma spends_first: "spends m \<Longrightarrow> (\<And>x. calm (f x)) \<Longrightarrow> spends (bnd m f)"
  and spends_later: "calm m \<Longrightarrow> (\<And>x. spends (f x)) \<Longrightarrow> spends (bnd m f)"
  and paid_first: "spends m \<Longrightarrow> (\<And>x. calm (g x)) \<Longrightarrow> paid (bnd m g)"
  and paid_later: "calm m \<Longrightarrow> (\<And>x. paid (g x)) \<Longrightarrow> paid (bnd m g)"
proof -
  note by_cases = runs_mono [OF calm_runs] order.strict_trans1 order.strict_trans2
  show "spends m \<Longrightarrow> (\<And>x. calm (f x)) \<Longrightarrow> spends (bnd m f)"
    unfolding spends_def
    by (intro allI runs_bnd) (erule allE, erule runs_mono, rule by_cases, auto)
  show "calm m \<Longrightarrow> (\<And>x. spends (f x)) \<Longrightarrow> spends (bnd m f)"
    unfolding spends_def
    by (intro allI runs_bnd) (rule by_cases(1), assumption, rule runs_mono, blast, auto)
  show "spends m \<Longrightarrow> (\<And>x. calm (g x)) \<Longrightarrow> paid (bnd m g)"
    unfolding spends_def paid_def
    by (intro allI runs_bnd) (erule allE, erule runs_mono, rule by_cases, auto)
  show "calm m \<Longrightarrow> (\<And>x. paid (g x)) \<Longrightarrow> paid (bnd m g)"
    unfolding paid_def
    by (intro allI runs_bnd) (rule by_cases(1), assumption, rule runs_mono, blast, auto)
qed

lemma paid_if: "(b \<Longrightarrow> paid m) \<Longrightarrow> (\<not> b \<Longrightarrow> paid k) \<Longrightarrow> paid (if b then m else k)"
  and paid_None: "paid (ret None)"
  by (simp_all add: paid_def)

lemma paid_andthen: "calm m \<Longrightarrow> paid k \<Longrightarrow> paid (andthen m k)"
  unfolding andthen_def by (rule paid_later)

lemma spends_ask_int: "spends (ask_int H)"
  unfolding ask_int_def clearInputBuffer_def andthen_def
  by (intro spends_later spends_first spends_getline) (auto simp: calm_def intro: lines.keeps_reads_terminal keeps_ret)

lemma calmI: "(\<And>n. keeps (\<lambda>s. lines_left s \<le> n) m) \<Longrightarrow> calm m"
  by (simp add: calm_def)

lemma paid_rounds:
  "paid (private_round H i b)" "paid (group_round H g b)" "paid (command_round H u)" "paid (room_round H u)"
  unfolding private_round_def group_round_def command_round_def room_round_def ExitChatRoom_def
  by ((rule paid_None paid_first [OF spends_getline] paid_first [OF spends_ask_int] paid_if paid_andthen
      paid_later calmI keeps_rules | simp add: request_defs)+)

lemma menu_loop_unfold:
  assumes "\<And>a. paid (body a)"
  shows "menu_loop body a s = (case body a s of Done (Some a') s' \<Rightarrow> menu_loop body a' s'
    | Done None s' \<Rightarrow> Done () s' | Throw e s' \<Rightarrow> Throw e s' | Stuck b \<Rightarrow> Stuck b)"
  using assms [of a] by (subst menu_loop.simps) (auto simp: paid_def runs_def split: outcome.splits option.splits)

end
