(* ===== verification/Protocol.thy ===== *)
theory Protocol
  imports Client_Invariants
begin

text \<open>
  The messages of the server as the client reads them: which fields a message has, and that the client
  handles every such message without dying.
\<close>

datatype reply_kind = IntReply | StrReply | BoolReply | SizeReply | TextsReply

definition reply_fields :: "(int \<times> (string \<times> reply_kind) list) list" where
  "reply_fields = [
     (LOGIN_SUCCESS, [(''id'', IntReply), (''name'', StrReply)]),
     (DISPLAY_ALLUSER_LIST, [(''users'', TextsReply)]),
     (PRIVATE_CHAT, [(''from_name'', StrReply), (''msg'', StrReply), (''time'', StrReply)]),
     (GROUP_CHAT, [(''from_name'', StrReply), (''msg'', StrReply), (''time'', StrReply), (''groupid'', IntReply)]),
     (FRIEND_REQUEST_LIST, [(''requests'', TextsReply)]), (DISPLAY_FRIEND_LIST, [(''friends'', TextsReply)]),
     (BLOCK_FRIEND_LIST, [(''blocks'', TextsReply)]), (DISPLAY_ALLGROUP_LIST, [(''groups'', TextsReply)]),
     (DISPLAY_GROUP_REQUEST, [(''requests'', TextsReply)]), (DISPLAY_OWN_GROUP_LIST, [(''groups'', TextsReply)]),
     (DISPLAY_GROUP_MEMBER_LIST, [(''members'', TextsReply)]),
     (DISPLAY_SET_MANAGER_MEMBER_LIST, [(''members'', TextsReply)]),
     (CHECK_IF_GROUP_MEMBER, [(''state'', BoolReply)]), (VIEW_FILE, [(''files'', TextsReply)]),
     (DISPLAY_PRIVATE_HISTORY, [(''history'', TextsReply)]), (DISPLAY_GROUP_HISTORY, [(''history'', TextsReply)]),
     (SEND_FILE_SERVER, [(''filename'', StrReply), (''filesize'', SizeReply)])]"

text \<open>A text the client can print fields of: it is an object, or it is not parsed at all.\<close>

definition object_text :: "'w env \<Rightarrow> string \<Rightarrow> bool" where
  "object_text E str = (case json_parse E str of Some (JObj kvs) \<Rightarrow> True | None \<Rightarrow> True | _ \<Rightarrow> False)"

definition has_reply :: "'w env \<Rightarrow> json \<Rightarrow> string \<times> reply_kind \<Rightarrow> bool" where
  "has_reply E js f = (case snd f of IntReply \<Rightarrow> js_int js (fst f) \<noteq> None
     | StrReply \<Rightarrow> js_string js (fst f) \<noteq> None
     | BoolReply \<Rightarrow> Option.bind (field js (fst f)) get_bool \<noteq> None
     | SizeReply \<Rightarrow> js_size js (fst f) \<noteq> None
     | TextsReply \<Rightarrow> (case Option.bind (field js (fst f)) get_strings of None \<Rightarrow> False
         | Some vec \<Rightarrow> list_all (object_text E) vec))"

definition reply_ok :: "'w env \<Rightarrow> json \<Rightarrow> bool" where
  "reply_ok E js \<longleftrightarrow> (case js of JObj kvs \<Rightarrow> True | _ \<Rightarrow> False) \<and> (case js_int js ''msgid'' of None \<Rightarrow> False
     | Some msgid \<Rightarrow> (case map_of reply_fields msgid of None \<Rightarrow> True | Some fs \<Rightarrow> list_all (has_reply E js) fs))"

section \<open>The client handles every reply\<close>

text \<open>\<open>survives X m\<close>: the only throws are those of the parser, which the codec catches, and the exit if \<open>X\<close> allows it.\<close>

definition survives :: "bool \<Rightarrow> ('s, 'a) prog \<Rightarrow> bool" where
  "survives X m \<longleftrightarrow> (\<forall>s. runs m s (\<lambda>_ _. True) (\<lambda>e _. e = ParseError \<or> X \<and> e = ProcessExit) (\<lambda>_. True))"

named_theorems survives_rules \<open>rules that show that a program survives\<close>

lemma survives_plain [survives_rules]:
  "survives X (ret x)" "survives X (reads f)" "survives X (modify g)" "X \<Longrightarrow> survives X ExitChatRoom"
  "survives X (sem_post k)" "survives X (shutdown_conn c)" "survives X (begin_transfer c p n)"
  by (simp_all add: survives_def ExitChatRoom_def sem_post_def shutdown_conn_def begin_transfer_def)

lemma survives_bnd [survives_rules]: "survives X m \<Longrightarrow> (\<And>x. survives X (f x)) \<Longrightarrow> survives X (bnd m f)"
  unfolding survives_def by (intro allI runs_bnd) (erule allE, erule runs_mono, auto)

lemma survives_andthen [survives_rules]: "survives X m \<Longrightarrow> survives X k \<Longrightarrow> survives X (andthen m k)"
  unfolding andthen_def by (intro survives_bnd)

lemma survives_if [survives_rules]: "(b \<Longrightarrow> survives X m) \<Longrightarrow> (\<not> b \<Longrightarrow> survives X k) \<Longrightarrow> survives X (if b then m else k)"
  by simp

text \<open>What a known field reads as.\<close>

lemma survives_field:
  "v = Some x \<Longrightarrow> survives X (f x) \<Longrightarrow> survives X (bnd (lift_option e v) f)"
  by (simp add: survives_def runs_def bnd_apply)

lemma survives_known [simp]: "survives X (bnd (ret x) f) \<longleftrightarrow> survives X (f x)"
  by (simp add: survives_def runs_def bnd_apply)

lemma survives_checkIfBlock [survives_rules]: "survives X (checkIfBlock i)"
proof -
  have "utf8 ''msgid''" "utf8 ''check_id''" by code_simp+
  then show ?thesis by (simp add: checkIfBlock_def put_line_def survives_def runs_def message_def)
qed

lemma survives_shows [survives_rules]: "survives X (show_fields (JObj kvs) ks)" "survives X (show_field (JObj kvs) k)"
proof -
  show one: "survives X (show_field (JObj kvs) k)" for k
    unfolding show_field_def by (auto simp: survives_def runs_def bnd_apply split: option.splits)
  show "survives X (show_fields (JObj kvs) ks)" unfolding show_fields_def
    by (induction ks) (simp_all add: one survives_rules del: ret_apply)
qed

lemma survives_texts [survives_rules]: "list_all (object_text E) vec \<Longrightarrow> survives X (show_texts E ks vec)"
proof -
  have "survives X (bnd (lift_option ParseError (json_parse E str)) (\<lambda>js. show_fields js ks))" if "object_text E str" for str
  proof (cases "json_parse E str")
    case None
    then show ?thesis by (simp add: survives_def runs_def bnd_apply)
  next
    case (Some js)
    with that obtain kvs where "js = JObj kvs" by (cases js) (simp_all add: object_text_def)
    with Some show ?thesis by (auto intro!: survives_rules)
  qed
  note each = this
  show "list_all (object_text E) vec \<Longrightarrow> survives X (show_texts E ks vec)"
    unfolding show_texts_def by (induction vec) (auto intro!: survives_andthen survives_plain each)
qed

lemma survives_has:
  "has_reply E js (k, TextsReply) \<Longrightarrow> survives X (bnd (strings_field js k) (show_texts E ks))"
  "has_reply E js (k, TextsReply) \<Longrightarrow> (\<And>vec. list_all (object_text E) vec \<Longrightarrow> survives X (f vec)) \<Longrightarrow>
    survives X (bnd (strings_field js k) f)"
  "has_reply E js (k, IntReply) \<Longrightarrow> (\<And>i. survives X (g i)) \<Longrightarrow> survives X (bnd (int_field js k) g)"
  "has_reply E js (k, StrReply) \<Longrightarrow> (\<And>v. survives X (h v)) \<Longrightarrow> survives X (bnd (str_field js k) h)"
  "has_reply E js (k, BoolReply) \<Longrightarrow> (\<And>b. survives X (l b)) \<Longrightarrow> survives X (bnd (bool_field js k) l)"
  "has_reply E js (k, SizeReply) \<Longrightarrow> (\<And>n. survives X (z n)) \<Longrightarrow> survives X (bnd (size_field js k) z)"
  unfolding strings_field_def int_field_def str_field_def bool_field_def size_field_def has_reply_def
  by (auto intro!: survives_texts split: option.splits)

lemma handleServerMessage_survives:
  assumes "reply_ok E js"
  shows "survives (js_int js ''msgid'' = Some CLIENT_LONGTIME_EXIT) (handleServerMessage E js)"
proof -
  from assms obtain kvs msgid where js: "js = JObj kvs" and msgid: "js_int js ''msgid'' = Some msgid"
    and fields: "case map_of reply_fields msgid of None \<Rightarrow> True | Some fs \<Rightarrow> list_all (has_reply E js) fs"
    by (auto simp: reply_ok_def split: json.splits option.splits)
  show ?thesis
    unfolding handleServerMessage_def int_field_def [of js "''msgid''"]
    by (rule survives_field [OF msgid])
      (use fields in \<open>auto simp: msgid [unfolded js] reply_fields_def display_defs UserInit_def take_block_state_def js
        intro!: survives_if survives_rules survives_has\<close>)
qed

text \<open>And so does the codec around it, whatever the client is in the middle of.\<close>

lemma client_line_survives:
  assumes "json_parse (h_env H) l = Some js" and "reply_ok (h_env H) js"
  shows "runs (client_line H conn l) s (\<lambda>_ _. True)
    (\<lambda>e _. e = ProcessExit \<and> js_int js ''msgid'' = Some CLIENT_LONGTIME_EXIT) (\<lambda>_. True)"
proof -
  from assms(2) obtain kvs msgid where js: "js = JObj kvs" and msgid: "js_int js ''msgid'' = Some msgid"
    and fields: "case map_of reply_fields msgid of None \<Rightarrow> True | Some fs \<Rightarrow> list_all (has_reply (h_env H) js) fs"
    by (auto simp: reply_ok_def split: json.splits option.splits)
  let ?body = "bnd (lift_option ParseError (json_parse (h_env H) l)) (\<lambda>js.
      bnd (int_field js ''msgid'') (\<lambda>msgid.
      if msgid = SEND_FILE_SERVER then
        bnd (str_field js ''filename'') (\<lambda>filename.
        bnd (size_field js ''filesize'') (\<lambda>len.
        if can_create H (''./'' @ filename) then
          andthen (begin_transfer conn (''./'' @ filename) len) (ret True)
        else andthen (shutdown_conn conn) (ret False)))
      else if msgid = SEND_FILE_END then andthen (modify (close_transfer conn)) (ret True)
      else andthen (handleServerMessage (h_env H) js) (ret True)))"
  let ?exit = "js_int js ''msgid'' = Some CLIENT_LONGTIME_EXIT"
  have "survives ?exit ?body"
    using fields handleServerMessage_survives [OF assms(2)]
    by (auto simp: assms(1) int_field_def [of js "''msgid''"] msgid reply_fields_def
        intro!: survives_if survives_has survives_plain survives_andthen simp del: ret_apply)
  then have "runs ?body s (\<lambda>_ _. True) (\<lambda>e _. e = ParseError \<or> ?exit \<and> e = ProcessExit) (\<lambda>_. True)"
    by (simp add: survives_def)
  then show ?thesis
    unfolding client_line_def runs_def catch_parse_def
    by (auto simp: shutdown_conn_def andthen_apply bnd_apply split: outcome.splits)
qed

section \<open>Semaphores\<close>

text \<open>Which messages post a semaphore, and which requests are followed by a wait for it.\<close>

fun posted_by :: "sem \<Rightarrow> int list" where
  "posted_by reg_sem = [REG_SUCCESS, REG_FAIL]"
| "posted_by login_sem = [LOGIN_SUCCESS, LOGIN_REPEAT, LOGIN_FAIL]"
| "posted_by show_all_user_list = [DISPLAY_ALLUSER_LIST]"
| "posted_by show_friend_list = [DISPLAY_FRIEND_LIST]"
| "posted_by show_block_list = [BLOCK_FRIEND_LIST]"
| "posted_by show_request_list = [FRIEND_REQUEST_LIST]"
| "posted_by show_own_group_list = [DISPLAY_OWN_GROUP_LIST]"
| "posted_by show_all_group_list = [DISPLAY_ALLGROUP_LIST]"
| "posted_by show_file_list = [VIEW_FILE]"
| "posted_by add_someone_to_group = [DISPLAY_GROUP_REQUEST, DISPLAY_GROUP_REQUEST_FAIL]"
| "posted_by set_manager = [DISPLAY_SET_MANAGER_MEMBER_LIST, DISPLAY_SET_MANAGER_MEMBER_FAIL]"
| "posted_by check_group_member = [CHECK_IF_GROUP_MEMBER]"
| "posted_by receive_file = [RECEIVE_FILE_FINISH, RECEIVE_FILE_FAIL]"
| "posted_by check_if_block = [CHECK_BLOCK]"

definition always_answered :: "(int \<times> sem) list" where
  "always_answered = [(REG_MSG, reg_sem), (LOGIN_MSG, login_sem), (DISPLAY_ALLUSER_LIST, show_all_user_list),
     (DISPLAY_FRIEND_LIST, show_friend_list), (BLOCK_FRIEND_LIST, show_block_list),
     (FRIEND_REQUEST_LIST, show_request_list), (DISPLAY_OWN_GROUP_LIST, show_own_group_list),
     (DISPLAY_ALLGROUP_LIST, show_all_group_list), (VIEW_FILE, show_file_list),
     (GROUP_REQUEST_LIST, add_someone_to_group), (DISPLAY_GROUP_SET_MANAGER_MEMBER_LIST, set_manager),
     (CHECK_GROUP_MEMBER, check_group_member), (CHECK_BLOCK, check_if_block)]"

text \<open>And the request for a file, whose answer may not come.\<close>

definition awaited :: "(int \<times> sem) list" where
  "awaited = always_answered @ [(RECEIVE_FILE, receive_file)]"

text \<open>A message of the list posts its semaphore when it has been handled.\<close>

definition adds :: "sem \<Rightarrow> ('w, 'a) menu \<Rightarrow> bool" where
  "adds k m \<longleftrightarrow> (\<forall>s. runs m s (\<lambda>_ t. sems t k = sems s k + 1) (\<lambda>_ _. True) (\<lambda>_. True))"

lemma adds_post: "adds k (sem_post k)"
  by (simp add: adds_def sem_post_def)

lemma adds_later:
  assumes "\<And>n. keeps (\<lambda>s. sems s = n) m" and "\<And>x. adds k (f x)"
  shows "adds k (bnd m f)"
  unfolding adds_def
proof (intro allI runs_bnd, rule runs_mono [OF keeps_runs [OF assms(1) refl]])
  fix s x and t :: "'a client"
  assume "sems t = sems s"
  with assms(2) [unfolded adds_def, rule_format, of x t]
  show "runs (f x) t (\<lambda>_ u. sems u k = sems s k + 1) (\<lambda>_ _. True) (\<lambda>_. True)" by simp
qed simp_all

lemma adds_andthen: "(\<And>n. keeps (\<lambda>s. sems s = n) m) \<Longrightarrow> adds k p \<Longrightarrow> adds k (andthen m p)"
  unfolding andthen_def by (rule adds_later)

lemma posted_by_posts:
  assumes "js_int js ''msgid'' = Some i" and "i \<in> set (posted_by k)" and "handleServerMessage E js c = Done () c'"
  shows "sems c' k = sems c k + 1"
proof -
  have "adds k (handleServerMessage E js)"
    using assms(2) unfolding handleServerMessage_def int_field_def assms(1) lift_option_simps bnd_ret
    by (cases k) (auto simp: UserInit_def take_block_state_def int_field_def bool_field_def str_field_def
        intro!: adds_andthen adds_later adds_post keeps_display keeps_show keeps_bnd keeps_andthen keeps_lift_option keeps_modify)
  with assms(3) show ?thesis by (simp add: adds_def runs_def split: outcome.splits)
qed

end
