(* ===== verification/Server_Invariants.thy ===== *)
theory Server_Invariants
  imports Dispatch
begin

text \<open>
  Invariants of the whole server, whatever MySQL and Redis refuse to do.  \<open>handler_invariant\<close> is the
  contract a property has to meet to be kept by every handler on friends, groups, chat and files, and
  \<open>server_invariant\<close> adds what registration, login, the heartbeat and the end of a connection need.
  Inside the locales every handler but one, and every callback, is shown to keep the property.  The
  exception is \<open>handleCreateGroup\<close>, the one operation that inserts a group and a master, and that does
  not always give its connection back.
\<close>

text \<open>The statements all other operations run.\<close>

fun routine :: "stmt \<Rightarrow> bool" where
  "routine (InsertUser n p s) \<longleftrightarrow> s = ''offline''"
| "routine (UpdateUserState s k) \<longleftrightarrow> s = ''online'' \<or> s = ''offline''"
| "routine (InsertFriend a b s) \<longleftrightarrow> s = ''request'' \<or> s = ''friend''"
| "routine (UpdateFriend s a b) \<longleftrightarrow> s = ''friend'' \<or> s = ''block''"
| "routine (InsertMember g u r) \<longleftrightarrow> r = ''request''"
| "routine (UpdateRole r u g) \<longleftrightarrow> r = ''normal'' \<or> r = ''manager''"
| "routine (InsertGroup n) \<longleftrightarrow> False"
| "routine st \<longleftrightarrow> True"

lemma c_str_offline: "c_str ''offline'' = ''offline''"
  by (simp add: c_str_def)

fun user_stmt :: "stmt \<Rightarrow> bool" where
  "user_stmt (InsertUser n p s) \<longleftrightarrow> True"
| "user_stmt (UpdateUserState s k) \<longleftrightarrow> True"
| "user_stmt ResetUserState \<longleftrightarrow> True"
| "user_stmt st \<longleftrightarrow> False"

fun flush_stmt :: "stmt \<Rightarrow> bool" where
  "flush_stmt (InsertPrivate rs) \<longleftrightarrow> True"
| "flush_stmt (InsertGroupChat rs) \<longleftrightarrow> True"
| "flush_stmt StartTransaction \<longleftrightarrow> True"
| "flush_stmt Commit \<longleftrightarrow> True"
| "flush_stmt Rollback \<longleftrightarrow> True"
| "flush_stmt st \<longleftrightarrow> False"

locale handler_invariant = services E view ci
  for E :: "'w env" and view and ci +
  fixes P :: "'w svc \<Rightarrow> bool"
  assumes same: "P s \<Longrightarrow> frame s s' \<Longrightarrow> view (world s') = view (world s) \<Longrightarrow> P s'"
    and silent: "P s \<Longrightarrow> P (s\<lparr>out := x\<rparr>)"
    and guest: "P s \<Longrightarrow> m_connUserMap s c = None \<Longrightarrow>
      P (s\<lparr>m_connUserMap := (m_connUserMap s)(c \<mapsto> 0)\<rparr>)"
    and groups: "P s \<Longrightarrow> P (s\<lparr>m_groupUserListMap := g\<rparr>)"
    and routes: "P s \<Longrightarrow> P (s\<lparr>m_userConnMap := r\<rparr>)"
    and plain_stmt: "P s \<Longrightarrow> frame s s' \<Longrightarrow> routine st \<Longrightarrow> \<not> user_stmt st \<Longrightarrow>
      run_stmt ci i st (view (world s)) = Some (view (world s')) \<Longrightarrow> P s'"
    and redis: "P s \<Longrightarrow> frame s s' \<Longrightarrow> view (world s') = (view (world s))\<lparr>redis_lists := l\<rparr> \<Longrightarrow> P s'"
begin

lemma finds_keeps: "does view m (finds R) \<Longrightarrow> keeps P m"
  by (erule does_keeps) (auto simp: finds_def intro: same)

lemma tried_keeps: "does view m (tried ci st) \<Longrightarrow> routine st \<Longrightarrow> \<not> user_stmt st \<Longrightarrow> keeps P m"
  by (erule does_keeps) (auto simp: tried_def intro: same plain_stmt split: if_splits)

lemma drop_tried_keeps: "does view m (\<lambda>d u d'. \<exists>ok. tried ci st d ok d') \<Longrightarrow> routine st \<Longrightarrow>
    \<not> user_stmt st \<Longrightarrow> keeps P m"
  by (erule does_keeps) (auto simp: tried_def intro: same plain_stmt split: if_splits)

lemma pushed_keeps: "does view m (\<lambda>d u d'. \<exists>val ok. pushed key val d ok d') \<Longrightarrow> keeps P m"
  by (erule does_keeps) (auto simp: pushed_def intro: same redis split: if_splits)

lemma keeps_conn_user: "keeps P (conn_user c)"
  by (rule keepsI, rule runs_conn_user) (auto intro: guest)

lemma keeps_group_users: "keeps P (group_users g)"
  by (auto simp: keeps_def runs_def group_users_def intro: groups split: option.splits)

lemma keeps_emit: "keeps P (emit e)"
  by (rule keepsI, rule runs_emit) (auto intro: silent)

lemma keeps_send: "keeps P (send c js)"
  unfolding send_def by (rule keeps_emit)

lemma keeps_send_to_user: "keeps P (send_to_user u js)"
  unfolding send_to_user_def by (intro keeps_rules keeps_send)

lemma keeps_log_conn_user: "keeps P (log_conn_user c)"
  unfolding log_conn_user_def by (intro keeps_rules keeps_conn_user)

lemma keeps_query_name: "keeps P (UserModel_query_name E n)"
  by (rule keepsI, rule query_name_does) (auto intro: same)

lemma keeps_insert_file: "keeps P (FileModel_insertFile E a b f)"
  by (rule keepsI, rule insertFile_runs) (auto intro: same)

lemmas op_keeps =
  keeps_conn_user keeps_group_users keeps_emit keeps_send keeps_send_to_user keeps_log_conn_user
  keeps_query_name keeps_insert_file
  finds_keeps [OF query_id_tried] finds_keeps [OF query_all_tried]
  finds_keeps [OF friend_query_tried] finds_keeps [OF requestQuery_tried]
  finds_keeps [OF blockQuery_tried] finds_keeps [OF getState_tried]
  finds_keeps [OF queryAllGroup_tried] finds_keeps [OF queryGroupMember_tried]
  finds_keeps [OF queryGroupRequest_tried] finds_keeps [OF queryOwnGroup_tried]
  finds_keeps [OF queryGroupRole_tried] finds_keeps [OF ifMaster_tried] finds_keeps [OF ifManager_tried]
  finds_keeps [OF ifMasterOrManager_tried] finds_keeps [OF ifManagerOrNormal_tried]
  finds_keeps [OF ifMember_tried] finds_keeps [OF queryPrivateHistory_tried]
  finds_keeps [OF queryGroupHistory_tried] finds_keeps [OF FileModel_query_tried]
  drop_tried_keeps [OF friend_insert_tried] drop_tried_keeps [OF friend_modify_tried]
  drop_tried_keeps [OF friend_delete_tried] tried_keeps [OF addGroup_tried]
  drop_tried_keeps [OF modifyGroupRole_tried] drop_tried_keeps [OF deleteGroupMember_tried]
  pushed_keeps [OF storePrivate_tried] pushed_keeps [OF storeGroup_tried]

lemma keeps_deleteGroup: "keeps P (GroupModel_deleteGroup E g)"
  unfolding GroupModel_deleteGroup_def by (intro keeps_rules tried_keeps [OF update_tried]) simp_all

lemma keeps_groups: "keeps P (modify (\<lambda>s. s\<lparr>m_groupUserListMap := f s\<rparr>))"
  and keeps_routes: "keeps P (modify (\<lambda>s. s\<lparr>m_userConnMap := h s\<rparr>))"
  by (rule keeps_modify, simp add: groups routes)+

lemma user_list_keeps: "keeps P (handleDisplayAllUserList E conn js time)"
  unfolding handleDisplayAllUserList_def by (intro keeps_rules op_keeps)

lemma friend_handlers_keep:
  "keeps P (handleAddFriend E conn js time)" "keeps P (handleDeleteFriend E conn js time)"
  "keeps P (handleBlockFriend E conn js time)" "keeps P (handleUnBlockFriend E conn js time)"
  "keeps P (handleCheckBlock E conn js time)" "keeps P (handleBlockFriendList E conn js time)"
  "keeps P (handleDisplayFriendList E conn js time)" "keeps P (handleFriendRequestList E conn js time)"
  unfolding handleAddFriend_def handleDeleteFriend_def handleBlockFriend_def handleUnBlockFriend_def
    handleCheckBlock_def handleBlockFriendList_def handleDisplayFriendList_def
    handleFriendRequestList_def send_request_def accept_request_def Let_def
  by (intro keeps_rules op_keeps; simp)+

lemma group_handlers_keep:
  "keeps P (handleDisplayAllGroupList E conn js time)" "keeps P (requestAddGroup E conn js time)"
  "keeps P (handleGroupRequestList E conn js time)" "keeps P (handleAddSomeoneToGroup E conn js time)"
  "keeps P (handleQuitGroup E conn js time)" "keeps P (handleShowOwnGroupList E conn js time)"
  "keeps P (handleShowGroupMemberList E conn js time)"
  "keeps P (handleDisplaySetManagerMemberList E conn js time)"
  "keeps P (handleSetManager E conn js time)" "keeps P (handleCancelManager E conn js time)"
  "keeps P (handleKickSomeoneInGroup E conn js time)"
  "keeps P (handleCheckIfGroupMember E conn js time)" "keeps P (handleMasterDeleteGroup E conn js time)"
  unfolding handleDisplayAllGroupList_def requestAddGroup_def handleGroupRequestList_def
    handleAddSomeoneToGroup_def handleQuitGroup_def handleShowOwnGroupList_def
    handleShowGroupMemberList_def handleDisplaySetManagerMemberList_def handleSetManager_def
    handleCancelManager_def handleKickSomeoneInGroup_def handleCheckIfGroupMember_def
    handleMasterDeleteGroup_def response_to_master_or_manager_def kick_def push_member_def
    erase_member_def find_erase_member_def
  by (intro keeps_rules op_keeps keeps_groups keeps_deleteGroup; simp)+

lemma chat_handlers_keep:
  "keeps P (handlePrivateChat E conn js time)" "keeps P (handleGroupChat E conn js time)"
  "keeps P (handleDisplayPrivateHistory E conn js time)"
  "keeps P (handleDisplayGroupHistory E conn js time)" "keeps P (handleSendFileDataBase E conn js time)"
  "keeps P (handleDisplayFileList E conn js time)"
  unfolding handlePrivateChat_def handleGroupChat_def handleDisplayPrivateHistory_def
    handleDisplayGroupHistory_def handleSendFileDataBase_def handleDisplayFileList_def
  by (intro keeps_rules op_keeps; simp)+

lemma keeps_world: "P s \<Longrightarrow> view w = view (world s) \<Longrightarrow> P (s\<lparr>world := w\<rparr>)"
  by (rule same [OF _ frame_world]) simp_all

lemma keeps_world_out: "P s \<Longrightarrow> view w = view (world s) \<Longrightarrow> P (s\<lparr>world := w, out := x\<rparr>)"
  using silent [OF keeps_world, of s w x] by simp

lemma keeps_fcntl: "keeps P (fcntl E)"
  using fcntl_view by (auto simp: keeps_def runs_def fcntl_def split: prod.splits intro!: keeps_world)
    (metis snd_conv)

lemma keeps_open_stat: "keeps P (open_stat E path)"
  using stat_view by (auto simp: keeps_def runs_def open_stat_def split: prod.splits intro!: keeps_world)
    (metis snd_conv)

lemma keeps_send_bytes: "keeps P (send_bytes E conn n)"
  by (auto simp: keeps_def runs_def send_bytes_def split: option.splits intro!: keeps_world_out
      dest: sendfile_loop_result)

lemma keeps_case_file_status: "keeps P a \<Longrightarrow> keeps P b \<Longrightarrow> (\<And>n. keeps P (c n)) \<Longrightarrow>
    keeps P (case st of OpenFailed \<Rightarrow> a | StatFailed \<Rightarrow> b | FileSize n \<Rightarrow> c n)"
  by (cases st) simp_all

lemma receive_file_keeps: "keeps P (handleReceiveFile E conn js time)"
  unfolding handleReceiveFile_def
  by (intro keeps_case_file_status keeps_rules op_keeps keeps_fcntl keeps_open_stat keeps_send_bytes
      keeps_routes)

text \<open>Every handler of the table but three.\<close>

lemma handlers_keep:
  assumes "(msgid, h) \<in> set (m_handlersMap E)" and "msgid \<notin> {CREATE_GROUP, REG_MSG, LOGIN_MSG}"
  shows "keeps P (h conn js time)"
  using assms unfolding m_handlersMap_def
  by (auto simp: user_list_keeps friend_handlers_keep group_handlers_keep chat_handlers_keep
      receive_file_keeps)

end

text \<open>
  \<open>loose_invariant\<close>: the property also survives a new group followed by its master, and does not
  look at the pool of MySQL connections, so \<open>handleCreateGroup\<close> and the flush of the caches keep it.
\<close>

locale loose_invariant = handler_invariant E view ci P
  for E :: "'w env" and view and ci and P +
  assumes pool: "P s \<Longrightarrow> P (s\<lparr>m_pool := q\<rparr>)"
    and new_group: "P s \<Longrightarrow> frame s t \<Longrightarrow>
      run_stmt ci i (InsertGroup n) (view (world s)) = Some (view (world t)) \<Longrightarrow> P t"
    and new_master: "P s \<Longrightarrow> frame s t \<Longrightarrow>
      run_stmt ci i (InsertGroup n) (view (world s)) = Some (view (world t)) \<Longrightarrow> frame t u \<Longrightarrow>
      run_stmt ci j (InsertMember i v ''master'') (view (world t)) = Some (view (world u)) \<Longrightarrow> P u"
begin

lemma keeps_push_member: "keeps P (push_member g u)"
  unfolding push_member_def by (rule keeps_groups)

lemma keeps_flush_stmt: "does view m (tried ci st) \<Longrightarrow> flush_stmt st \<Longrightarrow> keeps P m"
  by (erule tried_keeps) (cases st; simp)+

lemma createGroup_keeps: "keeps P (handleCreateGroup E conn js time)"
  unfolding handleCreateGroup_def
proof (rule keeps_bnd [OF keeps_str_field], rule keeps_bnd [OF keeps_conn_user], rule keepsI)
  fix group_name userid s
  let ?k = "\<lambda>(created, group). if created
      then bnd (GroupModel_addGroup E userid (g_id group) ''master'') (\<lambda>_.
        andthen (push_member (g_id group) userid) (send conn (message CREATE_GROUP_SUCCESS [])))
      else send conn (message CREATE_GROUP_FAIL [])"
  assume s: "P s"
  show "runs (bnd (GroupModel_createGroup E (new_group\<lparr>g_name := group_name\<rparr>)) ?k) s
      (\<lambda>_. P) (\<lambda>_. P) (\<lambda>_. True)"
  proof (rule runs_bnd, rule createGroup_runs, goal_cases)
    case (1 i t)
    have rest: "runs (andthen (push_member i userid) (send conn js')) u (\<lambda>_. P) (\<lambda>_. P) (\<lambda>_. True)"
      if "P u" for u js'
      by (rule keeps_runs [OF keeps_andthen [OF keeps_push_member keeps_send] that])
    have "runs (bnd (GroupModel_addGroup E userid i ''master'') (\<lambda>_. andthen (push_member i userid)
        (send conn (message CREATE_GROUP_SUCCESS [])))) t (\<lambda>_. P) (\<lambda>_. P) (\<lambda>_. True)"
    proof (rule runs_bnd, rule does_runs [OF addGroup_tried], rule rest)
      fix ok u
      assume u: "frame t u" "tried ci (InsertMember i userid ''master'') (view (world t)) ok (view (world u))"
      from new_group [OF s 1] have "P t" .
      with u new_master [OF s 1 u(1)] show "P u"
        by (cases ok) (auto simp: tried_def intro: same simp del: run_stmt.simps)
    qed simp
    then show ?case by simp
  next
    case (2 c q w)
    have "P (s\<lparr>world := w, m_pool := q\<rparr>)" by (rule pool [OF keeps_world [OF s 2(2)]])
    then have "P (s\<lparr>m_pool := q, world := w\<rparr>)" by (cases s) simp
    then show ?case by (simp add: keeps_runs [OF keeps_send])
  qed simp_all
qed

lemma batches_keep:
  assumes "\<And>rs. keeps P (vals rs)" and "\<And>vs. flush_stmt (f vs)"
  shows "keeps P (flush_batches E vals f msgs)"
proof (induction msgs rule: length_induct)
  case (1 msgs)
  have upd: "keeps P (update_batch E f vs)" for vs
    unfolding update_batch_def
    by (intro keeps_rules keeps_flush_stmt [OF mysql_update_tried assms(2)])
  show ?case
  proof (cases "msgs = []")
    case True
    then show ?thesis by (subst flush_batches.simps) (simp add: keeps_ret del: ret_apply)
  next
    case False
    then have "keeps P (flush_batches E vals f (drop batchSize msgs))"
      by (intro 1 [rule_format]) (simp add: batchSize_def)
    then show ?thesis
      by (subst flush_batches.simps) (intro keeps_rules assms(1) upd)
  qed
qed

lemma values_keep:
  "keeps P (private_values F rs)" "keeps P (group_values F rs)"
  by (induction rs) (auto intro!: keeps_rules simp del: ret_apply split: option.splits)

lemma flush_list_keeps:
  assumes "\<And>rs. keeps P (vals rs)" and "\<And>vs. flush_stmt (f vs)"
  shows "keeps P (flush_list E key vals f)"
proof -
  have get: "keeps P getConnection"
    by (auto simp: keeps_def runs_def getConnection_def intro: pool split: option.splits)
  have rel: "keeps P (releaseConnection c)" for c
    by (simp add: keeps_def runs_def releaseConnection_def pool)
  have trim: "keeps P (ltrim E key)"
    by (rule does_keeps [OF ltrim_tried]) (auto simp: trimmed_def intro: same redis split: if_splits)
  have upd: "keeps P (mysql_update E st)" if "flush_stmt st" for st
    by (rule keeps_flush_stmt [OF mysql_update_tried that])
  show ?thesis unfolding flush_list_def write_batches_def
    by (intro keeps_rules get rel trim upd finds_keeps [OF lrange_tried] batches_keep assms)
      simp_all
qed

lemma flush_keeps: "keeps P (flushCacheToDatabase E)"
  unfolding flushCacheToDatabase_def flushPrivateChatCache_def flushGroupChatCache_def
  by (intro keeps_rules flush_list_keeps values_keep) (simp_all add: private_stmt_def group_stmt_def)

end

locale server_invariant = handler_invariant E view ci P
  for E :: "'w env" and view and ci and P +
  assumes members: "P s \<Longrightarrow> m_pool s' = m_pool s \<Longrightarrow> redis_ready s' = redis_ready s \<Longrightarrow>
      redis_pool s' = redis_pool s \<Longrightarrow> world s' = world s \<Longrightarrow> P s'"
    and stmt: "P s \<Longrightarrow> frame s s' \<Longrightarrow> routine st \<Longrightarrow>
      run_stmt ci i st (view (world s)) = Some (view (world s')) \<Longrightarrow> P s'"
begin

lemma keeps_members: "(\<And>s. m_pool (g s) = m_pool s \<and> redis_ready (g s) = redis_ready s \<and>
    redis_pool (g s) = redis_pool s \<and> world (g s) = world s) \<Longrightarrow> keeps P (modify g)"
  by (rule keeps_modify) (blast intro: members)

lemma keeps_stmt: "does view m (tried ci st) \<Longrightarrow> routine st \<Longrightarrow> keeps P m"
  by (erule does_keeps) (auto simp: tried_def intro: same stmt split: if_splits)

lemma keeps_updateState: "m_state u = ''online'' \<or> m_state u = ''offline'' \<Longrightarrow> keeps P (UserModel_updateState E u)"
  by (rule keeps_stmt [OF updateState_tried]) simp

lemma keeps_user_insert:
  assumes "m_state u = ''offline''"
  shows "keeps P (UserModel_insert E u)"
proof (rule keepsI, rule UserModel_insert_runs)
  fix s s' :: "'w svc" and i
  let ?st = "InsertUser (c_str (m_name u)) (c_str (m_password u)) (c_str (m_state u))"
  have "routine ?st" by (simp add: assms c_str_offline)
  moreover assume "P s" and "frame s s'" and run: "run_stmt ci i ?st (view (world s)) = Some (view (world s'))"
  ultimately show "P s'" using stmt [OF _ _ _ run] by blast
next
  fix s s' :: "'w svc"
  assume "P s" and "frame s s'" and "view (world s') = view (world s)"
  then show "P s'" by (rule same)
qed simp_all


lemma keeps_set_offline: "keeps P (set_offline E i)"
  unfolding set_offline_def by (intro keeps_rules op_keeps keeps_updateState) simp

lemma session_keeps:
  "keeps P (reg E conn js time)" "keeps P (login E conn js time)"
  unfolding reg_def login_def enter_session_def
  by (intro keeps_rules op_keeps keeps_members keeps_updateState keeps_user_insert; simp add: new_user_def)+

lemma status_keeps:
  "keeps P (setConnStatus conn b)" "keeps P (removeConnStatus conn)" "keeps P (addConnStatus conn)"
  unfolding setConnStatus_def removeConnStatus_def addConnStatus_def
  by (rule keeps_members, simp)+

lemma checkIfConnAlive_keeps: "keeps P (checkIfConnAlive E)"
  unfolding checkIfConnAlive_def drop_conn_def
  by (intro keeps_rules op_keeps keeps_members keeps_updateState keeps_user_insert keeps_set_offline) simp_all

lemma clientClose_keeps: "keeps P (clientClose E conn)"
  unfolding clientClose_def forget_conn_def
  by (intro keeps_rules op_keeps keeps_members keeps_updateState keeps_user_insert keeps_set_offline status_keeps) simp_all

lemma onConnection_keeps: "keeps P (onConnection E conn b)"
  unfolding onConnection_def by (intro keeps_rules op_keeps status_keeps clientClose_keeps)

text \<open>Every handler of the table but one.\<close>

lemma all_handlers_keep:
  assumes "(msgid, h) \<in> set (m_handlersMap E)" and "msgid \<noteq> CREATE_GROUP"
  shows "keeps P (h conn js time)"
proof (cases "msgid = REG_MSG \<or> msgid = LOGIN_MSG")
  case True
  with assms show ?thesis by (auto simp: m_handlersMap_def session_keeps)
next
  case False
  with assms handlers_keep show ?thesis by blast
qed

lemma request_keeps: "msgid \<noteq> CREATE_GROUP \<Longrightarrow> keeps P (getHandler E msgid conn js time)"
  by (auto simp: getHandler_def keeps_ret split: option.splits dest!: map_of_SomeD intro: all_handlers_keep)

end

end
