(* ===== verification/Server_Replies.thy ===== *)
theory Server_Replies
  imports Protocol Server_Invariants
begin

text \<open>
  What the handlers send.  \<open>emits m\<close>: \<open>m\<close> only adds messages the client understands; \<open>answers conn ids m\<close>:
  when \<open>m\<close> returns it has sent \<open>conn\<close> a message with one of the identifiers \<open>ids\<close>.  Both are relative to
  what may go wrong: a property \<open>R\<close> of the pools, the throws \<open>X\<close> and the stuck ends \<open>B\<close>.
\<close>

definition extends :: "(json \<Rightarrow> bool) \<Rightarrow> effect list \<Rightarrow> effect list \<Rightarrow> bool" where
  "extends ok es es' \<longleftrightarrow> (\<exists>new. es' = es @ new \<and>
     list_all (\<lambda>e. case e of Send c js \<Rightarrow> ok js | _ \<Rightarrow> True) new)"

lemma extends_refl [simp]: "extends ok es es"
  by (simp add: extends_def)

lemma extends_trans: "extends ok xs ys \<Longrightarrow> extends ok ys zs \<Longrightarrow> extends ok xs zs"
  by (auto simp: extends_def)

lemma extends_more: "(case e of Send c js \<Rightarrow> ok js | _ \<Rightarrow> True) \<Longrightarrow> extends ok es (es @ [e])"
  by (simp add: extends_def)

locale emission = services E view ci for E :: "'w env" and view and ci +
  fixes R :: "'w svc \<Rightarrow> bool" and X :: "exn \<Rightarrow> bool" and B :: "stuck \<Rightarrow> bool"
  assumes R_frame: "R s \<Longrightarrow> frame s t \<Longrightarrow> R t"
    and R_members: "R s \<Longrightarrow> m_pool t = m_pool s \<Longrightarrow> redis_ready t = redis_ready s \<Longrightarrow>
      redis_pool t = redis_pool s \<Longrightarrow> R t"
    and short: "R s \<Longrightarrow> \<not> ready s \<Longrightarrow> B b"
    and sql: "B SqlOverrun" "B SqlInjected"
    and texts: "json_parse E (json_dump E (JObj kvs)) = Some j \<Longrightarrow> \<exists>kvs'. j = JObj kvs'"
begin

definition emits :: "('w svc, 'a) prog \<Rightarrow> bool" where
  "emits m \<longleftrightarrow> (\<forall>s. R s \<longrightarrow> runs m s (\<lambda>_ t. R t \<and> extends (reply_ok E) (out s) (out t))
     (\<lambda>e t. X e \<and> extends (reply_ok E) (out s) (out t)) B)"

lemma emitsI: "(\<And>s. R s \<Longrightarrow> runs m s (\<lambda>_ t. R t \<and> extends (reply_ok E) (out s) (out t))
     (\<lambda>e t. X e \<and> extends (reply_ok E) (out s) (out t)) B) \<Longrightarrow> emits m"
  by (simp add: emits_def)

lemma emits_bnd: "emits m \<Longrightarrow> (\<And>x. emits (f x)) \<Longrightarrow> emits (bnd m f)"
  unfolding emits_def
  by (intro allI impI runs_bnd, erule allE, erule (1) impE, erule runs_mono)
    (auto intro: runs_mono extends_trans)

lemma emits_andthen: "emits m \<Longrightarrow> emits k \<Longrightarrow> emits (andthen m k)"
  unfolding andthen_def by (rule emits_bnd)

lemma emits_plain: "emits (ret x)" "emits (reads f)"
  by (simp_all add: emits_def)

lemma emits_if: "(b \<Longrightarrow> emits m) \<Longrightarrow> (\<not> b \<Longrightarrow> emits k) \<Longrightarrow> emits (if b then m else k)"
  by simp

lemma emits_option: "emits m \<Longrightarrow> (\<And>x. emits (k x)) \<Longrightarrow> emits (case v of None \<Rightarrow> m | Some x \<Rightarrow> k x)"
  by (cases v) simp_all

lemma emits_for_each: "(\<And>x. emits (f x)) \<Longrightarrow> emits (for_each f xs)"
  by (induction xs) (auto intro: emits_plain emits_andthen simp del: ret_apply)

lemma emits_members: "(\<And>s. m_pool (g s) = m_pool s \<and> redis_ready (g s) = redis_ready s \<and>
    redis_pool (g s) = redis_pool s \<and> out (g s) = out s) \<Longrightarrow> emits (modify g)"
  by (rule emitsI) (simp, blast intro: R_members)

lemma emits_emit: "(case e of Send c js \<Rightarrow> reply_ok E js | _ \<Rightarrow> True) \<Longrightarrow> emits (emit e)"
  by (rule emitsI, rule runs_emit) (auto intro: extends_more R_members)

lemma emits_send: "reply_ok E js \<Longrightarrow> emits (send c js)"
  unfolding send_def by (rule emits_emit) simp

lemma emits_send_to_user: "reply_ok E js \<Longrightarrow> emits (send_to_user u js)"
  unfolding send_to_user_def by (intro emits_bnd emits_plain emits_option emits_send)

lemma emits_conn_user: "emits (conn_user c)"
  by (rule emitsI, rule runs_conn_user) (auto intro: R_members)

lemma emits_log: "emits (log_conn_user c)"
  unfolding log_conn_user_def by (intro emits_bnd emits_conn_user emits_plain)

lemma emits_group_users: "emits (group_users g)"
  by (rule emitsI) (auto simp: runs_def group_users_def intro: R_members split: option.splits)

lemma emits_does: "does view m D \<Longrightarrow> emits m"
  by (rule emitsI, erule does_runs) (auto simp: frame_svc intro: R_frame short)

lemma emits_query_name: "emits (UserModel_query_name E n)"
  by (rule emitsI, rule query_name_does) (auto simp: frame_svc sql intro: R_frame short)

lemma emits_insert_file: "emits (FileModel_insertFile E a b f)"
  by (rule emitsI, rule insertFile_runs) (auto simp: frame_svc sql intro: R_frame short)

lemma emits_user_insert: "emits (UserModel_insert E u)"
proof (rule emitsI, rule UserModel_insert_runs)
  fix s :: "'w svc" assume "R s" and "m_pool s = []"
  then show "B PoolEmpty" by (intro short [of s]) (simp_all add: ready_def)
qed (auto simp: frame_svc sql intro: R_frame)

lemma emits_int_field: "has_field js (k, IntField) \<or> X TypeError \<Longrightarrow> emits (int_field js k)"
  and emits_str_field: "has_field js (k, StrField) \<or> X TypeError \<Longrightarrow> emits (str_field js k)"
  by (rule emitsI, auto simp: runs_def int_field_def str_field_def lift_option_def has_field_def split: option.splits)+

lemmas emits_rules = emits_plain emits_bnd emits_andthen emits_if emits_option emits_for_each emits_members
  emits_emit emits_send emits_send_to_user emits_conn_user emits_log emits_group_users emits_query_name
  emits_insert_file emits_user_insert emits_int_field emits_str_field
  emits_does [OF query_id_tried] emits_does [OF query_all_tried]
  emits_does [OF updateState_tried] emits_does [OF friend_query_tried] emits_does [OF requestQuery_tried]
  emits_does [OF blockQuery_tried] emits_does [OF getState_tried]
  emits_does [OF queryAllGroup_tried] emits_does [OF queryGroupMember_tried]
  emits_does [OF queryGroupRequest_tried] emits_does [OF queryOwnGroup_tried]
  emits_does [OF queryGroupRole_tried] emits_does [OF ifMaster_tried] emits_does [OF ifManager_tried]
  emits_does [OF ifMasterOrManager_tried] emits_does [OF ifManagerOrNormal_tried]
  emits_does [OF ifMember_tried] emits_does [OF queryPrivateHistory_tried]
  emits_does [OF queryGroupHistory_tried] emits_does [OF FileModel_query_tried]
  emits_does [OF friend_insert_tried] emits_does [OF friend_modify_tried]
  emits_does [OF friend_delete_tried] emits_does [OF addGroup_tried]
  emits_does [OF modifyGroupRole_tried] emits_does [OF deleteGroupMember_tried] emits_does [OF update_tried]
  emits_does [OF storePrivate_tried] emits_does [OF storeGroup_tried]

text \<open>A request has the fields its handler reads, or type errors are admitted.\<close>

definition served :: "int \<Rightarrow> json \<Rightarrow> bool" where
  "served msgid js \<longleftrightarrow> list_all (\<lambda>f. has_field js f \<or> X TypeError)
     (case map_of request_fields msgid of None \<Rightarrow> [] | Some fs \<Rightarrow> fs)"

lemma object_text_dump: "object_text E (json_dump E (JObj kvs))"
proof (cases "json_parse E (json_dump E (JObj kvs))")
  case (Some j)
  with texts [OF Some] show ?thesis by (auto simp: object_text_def)
qed (simp add: object_text_def)

lemma get_strings_dumped: "get_strings (dumped E f xs) = Some (map (\<lambda>x. json_dump E (f x)) xs)"
proof -
  have "those (map get_string (map (\<lambda>x. JStr (json_dump E (f x))) xs)) = Some (map (\<lambda>x. json_dump E (f x)) xs)"
    by (induction xs) simp_all
  then show ?thesis by (simp add: dumped_def del: map_map)
qed

lemma list_all_dumped: "(\<And>x. \<exists>kvs. f x = JObj kvs) \<Longrightarrow> list_all (object_text E) (map (\<lambda>x. json_dump E (f x)) xs)"
  by (induction xs) (simp_all, metis object_text_dump)

lemmas reply_defs = reply_ok_def message_def js_int_def js_string_def js_size_def to_int32_def reply_fields_def
  has_reply_def get_strings_dumped list_all_dumped
  user_id_name_def user_id_name_state_def user_id_name_role_def group_id_name_def file_json_def
  private_history_json_def group_history_json_def private_chat_message_def group_chat_message_def friend_online_def

lemmas serve_defs = served_def request_fields_def reply_defs

lemma session_emits:
  "served REG_MSG js \<Longrightarrow> emits (reg E conn js time)" "served LOGIN_MSG js \<Longrightarrow> emits (login E conn js time)"
  "emits (handleDisplayAllUserList E conn js time)"
  unfolding reg_def login_def enter_session_def handleDisplayAllUserList_def
  by (intro emits_rules; auto simp: serve_defs intro!: emits_rules)+


lemma friend_emits:
  "served ADD_FRIEND js \<Longrightarrow> emits (handleAddFriend E conn js time)"
  "served DELETE_FRIEND js \<Longrightarrow> emits (handleDeleteFriend E conn js time)"
  "served BLOCK_FRIEND js \<Longrightarrow> emits (handleBlockFriend E conn js time)"
  "served UNBLOCK_FRIEND js \<Longrightarrow> emits (handleUnBlockFriend E conn js time)"
  "served CHECK_BLOCK js \<Longrightarrow> emits (handleCheckBlock E conn js time)"
  "emits (handleBlockFriendList E conn js time)" "emits (handleDisplayFriendList E conn js time)"
  "emits (handleFriendRequestList E conn js time)"
  unfolding handleAddFriend_def handleDeleteFriend_def handleBlockFriend_def handleUnBlockFriend_def
    handleCheckBlock_def handleBlockFriendList_def handleDisplayFriendList_def
    handleFriendRequestList_def send_request_def accept_request_def Let_def
  by (intro emits_rules; simp add: serve_defs)+

lemma group_emits:
  "emits (handleDisplayAllGroupList E conn js time)"
  "served REQUEST_GROUP js \<Longrightarrow> emits (requestAddGroup E conn js time)"
  "served GROUP_REQUEST_LIST js \<Longrightarrow> emits (handleGroupRequestList E conn js time)"
  "served ADD_GROUP js \<Longrightarrow> emits (handleAddSomeoneToGroup E conn js time)"
  "emits (handleShowOwnGroupList E conn js time)"
  "served DISPLAY_GROUP_MEMBER_LIST js \<Longrightarrow> emits (handleShowGroupMemberList E conn js time)"
  "served DISPLAY_GROUP_SET_MANAGER_MEMBER_LIST js \<Longrightarrow> emits (handleDisplaySetManagerMemberList E conn js time)"
  "served SET_MANAGER js \<Longrightarrow> emits (handleSetManager E conn js time)"
  "served CANCEL_MANAGER js \<Longrightarrow> emits (handleCancelManager E conn js time)"
  "served KICK_SOMEONE js \<Longrightarrow> emits (handleKickSomeoneInGroup E conn js time)"
  "served CHECK_GROUP_MEMBER js \<Longrightarrow> emits (handleCheckIfGroupMember E conn js time)"
  "served MASTER_DELETE_GROUP js \<Longrightarrow> emits (handleMasterDeleteGroup E conn js time)"
  unfolding handleDisplayAllGroupList_def requestAddGroup_def handleGroupRequestList_def
    handleAddSomeoneToGroup_def handleShowOwnGroupList_def handleShowGroupMemberList_def
    handleDisplaySetManagerMemberList_def handleSetManager_def handleCancelManager_def
    handleKickSomeoneInGroup_def handleCheckIfGroupMember_def handleMasterDeleteGroup_def
    response_to_master_or_manager_def kick_def push_member_def erase_member_def GroupModel_deleteGroup_def
  by (intro emits_rules; simp add: serve_defs)+

lemma chat_emits:
  "served PRIVATE_CHAT js \<Longrightarrow> emits (handlePrivateChat E conn js time)"
  "served GROUP_CHAT js \<Longrightarrow> emits (handleGroupChat E conn js time)"
  "served PRIVATE_CHAT_HISTORY js \<Longrightarrow> emits (handleDisplayPrivateHistory E conn js time)"
  "served GROUP_CHAT_HISTORY js \<Longrightarrow> emits (handleDisplayGroupHistory E conn js time)"
  "served SEND_FILE_DATABASE js \<Longrightarrow> emits (handleSendFileDataBase E conn js time)"
  "emits (handleDisplayFileList E conn js time)"
  unfolding handlePrivateChat_def handleGroupChat_def handleDisplayPrivateHistory_def
    handleDisplayGroupHistory_def handleSendFileDataBase_def handleDisplayFileList_def
  by (intro emits_rules; simp add: serve_defs)+

section \<open>Answers\<close>

definition answer :: "nat \<Rightarrow> int set \<Rightarrow> effect list \<Rightarrow> effect list \<Rightarrow> bool" where
  "answer conn ids es es' \<longleftrightarrow> (\<exists>new js. es' = es @ new \<and> Send conn js \<in> set new \<and> reply_ok E js \<and>
     js_int js ''msgid'' \<in> Some ` ids)"

lemma answer_later: "extends ok xs ys \<Longrightarrow> answer conn ids ys zs \<Longrightarrow> answer conn ids xs zs"
  unfolding extends_def answer_def by (elim exE conjE) (rule exI, rule exI, auto)

lemma answer_now: "reply_ok E js \<Longrightarrow> js_int js ''msgid'' \<in> Some ` ids \<Longrightarrow>
    extends ok (xs @ [Send conn js]) ys \<Longrightarrow> answer conn ids xs ys"
  unfolding extends_def answer_def by (elim exE conjE) (rule exI, rule exI [of _ js], auto)

definition answers_with :: "nat \<Rightarrow> int set \<Rightarrow> ('w svc, 'a) prog \<Rightarrow> bool" where
  "answers_with conn ids m \<longleftrightarrow> (\<forall>s. R s \<longrightarrow> runs m s (\<lambda>_ t. answer conn ids (out s) (out t)) (\<lambda>e t. X e) B)"

lemma answers_send: "reply_ok E js \<Longrightarrow> js_int js ''msgid'' \<in> Some ` ids \<Longrightarrow> answers_with conn ids (send conn js)"
  unfolding answers_with_def by (intro allI impI runs_send) (simp add: answer_now [where ok = "\<lambda>_. True"])

lemma answers_later:
  assumes "emits m" and "\<And>x. answers_with conn ids (f x)"
  shows "answers_with conn ids (bnd m f)"
  unfolding answers_with_def
proof (intro allI impI runs_bnd)
  fix s assume "R s"
  from assms(1) [unfolded emits_def, rule_format, OF this]
  show "runs m s (\<lambda>x t. runs (f x) t (\<lambda>_ u. answer conn ids (out s) (out u)) (\<lambda>e t. X e) B) (\<lambda>e t. X e) B"
  proof (rule runs_mono, elim conjE)
    fix x t assume "R t" and ext: "extends (reply_ok E) (out s) (out t)"
    from assms(2) [unfolded answers_with_def, rule_format, OF \<open>R t\<close>, of x]
    show "runs (f x) t (\<lambda>_ u. answer conn ids (out s) (out u)) (\<lambda>e t. X e) B"
      by (rule runs_mono) (auto intro: answer_later [OF ext])
  qed simp_all
qed

lemma answers_andthen: "emits m \<Longrightarrow> answers_with conn ids k \<Longrightarrow> answers_with conn ids (andthen m k)"
  unfolding andthen_def by (rule answers_later)

lemma answers_if: "(b \<Longrightarrow> answers_with conn ids m) \<Longrightarrow> (\<not> b \<Longrightarrow> answers_with conn ids k) \<Longrightarrow>
    answers_with conn ids (if b then m else k)"
  by simp

text \<open>The message is sent first and more follows.\<close>

lemma answers_now:
  assumes "reply_ok E js" and "js_int js ''msgid'' \<in> Some ` ids" and "emits k"
  shows "answers_with conn ids (andthen (send conn js) k)"
  unfolding answers_with_def
proof (intro allI impI)
  fix s assume "R s"
  let ?s = "s\<lparr>out := out s @ [Send conn js]\<rparr>"
  have "R ?s" by (rule R_members [OF \<open>R s\<close>]) simp_all
  from assms(3) [unfolded emits_def, rule_format, OF this] have "runs k ?s (\<lambda>_ t. R t \<and> extends (reply_ok E) (out ?s) (out t)) (\<lambda>e t. X e \<and> extends (reply_ok E) (out ?s) (out t)) B" .
  then have "runs k ?s (\<lambda>_ t. answer conn ids (out s) (out t)) (\<lambda>e t. X e) B"
    by (rule runs_mono) (auto intro: answer_now [OF assms(1,2)])
  then show "runs (andthen (send conn js) k) s (\<lambda>_ t. answer conn ids (out s) (out t)) (\<lambda>e t. X e) B"
    by (simp add: andthen_def runs_bnd runs_send)
qed

lemma answers_prod: "(\<And>x y. answers_with conn ids (k x y)) \<Longrightarrow> answers_with conn ids (case v of (x, y) \<Rightarrow> k x y)"
  by (cases v) simp

lemmas answers_rules = answers_now answers_send answers_if answers_prod answers_later answers_andthen

lemma awaited_answers:
  "served REG_MSG js \<Longrightarrow> answers_with conn (set (posted_by reg_sem)) (reg E conn js time)"
  "served LOGIN_MSG js \<Longrightarrow> answers_with conn (set (posted_by login_sem)) (login E conn js time)"
  "answers_with conn (set (posted_by show_all_user_list)) (handleDisplayAllUserList E conn js time)"
  "answers_with conn (set (posted_by show_friend_list)) (handleDisplayFriendList E conn js time)"
  "answers_with conn (set (posted_by show_block_list)) (handleBlockFriendList E conn js time)"
  "answers_with conn (set (posted_by show_request_list)) (handleFriendRequestList E conn js time)"
  "served CHECK_BLOCK js \<Longrightarrow> answers_with conn (set (posted_by check_if_block)) (handleCheckBlock E conn js time)"
  "answers_with conn (set (posted_by show_own_group_list)) (handleShowOwnGroupList E conn js time)"
  "answers_with conn (set (posted_by show_all_group_list)) (handleDisplayAllGroupList E conn js time)"
  "answers_with conn (set (posted_by show_file_list)) (handleDisplayFileList E conn js time)"
  "served GROUP_REQUEST_LIST js \<Longrightarrow>
    answers_with conn (set (posted_by add_someone_to_group)) (handleGroupRequestList E conn js time)"
  "served DISPLAY_GROUP_SET_MANAGER_MEMBER_LIST js \<Longrightarrow>
    answers_with conn (set (posted_by set_manager)) (handleDisplaySetManagerMemberList E conn js time)"
  "served CHECK_GROUP_MEMBER js \<Longrightarrow>
    answers_with conn (set (posted_by check_group_member)) (handleCheckIfGroupMember E conn js time)"
  unfolding reg_def login_def enter_session_def handleDisplayAllUserList_def handleDisplayFriendList_def
    handleBlockFriendList_def handleFriendRequestList_def handleCheckBlock_def handleShowOwnGroupList_def
    handleDisplayAllGroupList_def handleDisplayFileList_def handleGroupRequestList_def
    handleDisplaySetManagerMemberList_def handleCheckIfGroupMember_def Let_def
  by (rule answers_rules emits_rules | clarsimp simp: serve_defs)+

lemma awaited_getHandler:
  assumes "(msgid, k) \<in> set always_answered" and "served msgid js"
  shows "answers_with conn (set (posted_by k)) (getHandler E msgid conn js time)"
  using assms unfolding always_answered_def
  by (auto simp: getHandler_def m_handlersMap_def intro: awaited_answers simp del: posted_by.simps)

end

text \<open>
  Where everything may go wrong, the rest of the server can be added: the handlers that can end badly, the
  heartbeat, the end of a connection and the flush of the caches.
\<close>

locale any_emission = emission E view ci R X B for E :: "'w env" and view and ci and R and X and B +
  assumes any: "R s" "B b"
begin

lemma emits_iff: "emits m \<longleftrightarrow> (\<forall>s. runs m s (\<lambda>_ t. extends (reply_ok E) (out s) (out t))
    (\<lambda>e t. X e \<and> extends (reply_ok E) (out s) (out t)) (\<lambda>_. True))"
  by (simp add: emits_def any runs_def split: outcome.split)

lemma same_out: "(\<And>s. runs m s (\<lambda>_ t. out t = out s) (\<lambda>_ _. False) (\<lambda>_. True)) \<Longrightarrow> emits m"
  unfolding emits_iff by (rule allI, rule runs_mono, assumption) simp_all

lemma emits_pool: "emits getConnection" "emits (releaseConnection c)"
  by (rule same_out, simp add: runs_def getConnection_def releaseConnection_def split: option.splits)+

lemma emits_createGroup: "emits (GroupModel_createGroup E g)"
  by (rule same_out, rule createGroup_runs) (simp_all add: frame_svc)

lemma emits_case_file_status: "emits a \<Longrightarrow> emits b \<Longrightarrow> (\<And>n. emits (f n)) \<Longrightarrow>
    emits (case st of OpenFailed \<Rightarrow> a | StatFailed \<Rightarrow> b | FileSize n \<Rightarrow> f n)"
  by (cases st) simp_all

lemma emits_kernel: "emits (fcntl E)" "emits (open_stat E path)" "emits (send_bytes E conn n)"
  by (simp_all add: emits_iff runs_def fcntl_def open_stat_def send_bytes_def extends_def split: prod.split option.split)

lemma emits_halt: "emits (halt b)" "X e \<Longrightarrow> emits (lift_option e v)"
  by (simp_all add: emits_iff runs_def lift_option_def split: option.split)

lemma rest_emits:
  "served CREATE_GROUP js \<Longrightarrow> emits (handleCreateGroup E conn js time)"
  "served QUIT_GROUP js \<Longrightarrow> emits (handleQuitGroup E conn js time)"
  "served RECEIVE_FILE js \<Longrightarrow> emits (handleReceiveFile E conn js time)"
  unfolding handleCreateGroup_def handleQuitGroup_def find_erase_member_def erase_member_def push_member_def
    handleReceiveFile_def
  by (intro emits_rules emits_createGroup emits_halt emits_kernel emits_case_file_status;
      auto simp: serve_defs any intro!: emits_rules)+

lemma status_emits: "emits (setConnStatus conn b)" "emits (removeConnStatus conn)" "emits (addConnStatus conn)"
  unfolding setConnStatus_def removeConnStatus_def addConnStatus_def by (rule emits_members, simp)+

lemma background_emits: "emits (checkIfConnAlive E)" "emits (onConnection E conn b)"
  unfolding checkIfConnAlive_def drop_conn_def onConnection_def clientClose_def forget_conn_def set_offline_def
  by (intro emits_rules status_emits; simp add: reply_defs)+

lemma values_emit:
  assumes "X TypeError" and "X ParseError"
  shows "emits (private_values F rs)" "emits (group_values F rs)"
  using assms by (induction rs) (auto intro!: emits_rules emits_halt simp del: ret_apply split: option.split)

lemma batches_emit:
  assumes "\<And>rs. emits (vals rs)"
  shows "emits (flush_batches E vals f msgs)"
proof (induction msgs rule: length_induct)
  case (1 msgs)
  show ?case
  proof (cases "msgs = []")
    case True
    then show ?thesis by (subst flush_batches.simps) (simp add: emits_plain del: ret_apply)
  next
    case False
    then have "emits (flush_batches E vals f (drop batchSize msgs))"
      by (intro 1 [rule_format]) (simp add: batchSize_def)
    then show ?thesis
      unfolding flush_batches.simps [of E vals f msgs] update_batch_def
      by (intro emits_rules assms emits_halt emits_does [OF mysql_update_tried])
  qed
qed

lemma flush_emits: "X TypeError \<Longrightarrow> X ParseError \<Longrightarrow> emits (flushCacheToDatabase E)"
  unfolding flushCacheToDatabase_def flushPrivateChatCache_def flushGroupChatCache_def flush_list_def write_batches_def
  by (intro emits_rules emits_pool values_emit batches_emit emits_does [OF lrange_tried]
      emits_does [OF ltrim_tried] emits_does [OF mysql_update_tried])

lemma handlers_emit:
  assumes "(msgid, h) \<in> set (m_handlersMap E)" and "served msgid js"
  shows "emits (h conn js time)"
  using assms unfolding m_handlersMap_def
  by (auto simp: session_emits friend_emits group_emits chat_emits rest_emits)

end

end
