(* ===== verification/Codec_Properties.thy ===== *)
theory Codec_Properties
  imports Server_Codec Sample_World
begin

text \<open>The properties of the byte buffer and of the server's codec, with closed instances.\<close>

text \<open>
  C4. A buffer is a queue of bytes: any sequence of appends, reads from the socket and retrievals on a
  new buffer succeeds exactly when it does on a plain byte string, and leaves the same bytes.
\<close>

theorem buffer_is_byte_queue:
  "rel_option (\<lambda>b q. contents b = q) (run_ops buffer_step ops new_buffer) (run_ops string_step ops [])"
proof -
  have "rel_option (\<lambda>b q. buffer_ok b \<and> contents b = q)
      (run_ops buffer_step ops new_buffer) (run_ops string_step ops [])"
    using buffer_run_refines [OF new_buffer_ok(1), of ops] by (simp add: new_buffer_ok(2))
  then show ?thesis by (rule option.rel_mono_strong) simp
qed

text \<open>
  Some complete line, or bytes of a file, wait in the buffer for the next read.  That happens after a line that names a file
  which cannot be opened, and only then (see \<open>codec_drains_buffer\<close>).
\<close>

definition held_up :: "nat \<Rightarrow> ('w server, buffer) outcome \<Rightarrow> bool" where
  "held_up conn r \<longleftrightarrow> (case r of Done b s \<Rightarrow> \<not> drained conn (contents b) s | _ \<Rightarrow> False)"

text \<open>
  C5. What the server makes of a byte stream does not depend on how TCP cuts it.  Of two sequences of reads with the same
  bytes, each of which has used all it could, the outcome, the state and the bytes left in the buffer are the same.  The
  exception is a sequence whose last read stopped at a file that could not be opened, with bytes behind that line: those wait for the next read.
\<close>

theorem segmentation_independent:
  assumes "concat xss = concat yss"
    and "\<not> held_up conn (receive_all (server_line E can_open t) conn xss new_buffer s)"
    and "\<not> held_up conn (receive_all (server_line E can_open t) conn yss new_buffer s)"
  shows "see (receive_all (server_line E can_open t) conn xss new_buffer s) =
    see (receive_all (server_line E can_open t) conn yss new_buffer s)"
proof -
  let ?line = "server_line E can_open t"
  have "decode (onward ?line) conn (concat zss) s = see (receive_all ?line conn zss new_buffer s)"
    if "\<not> held_up conn (receive_all ?line conn zss new_buffer s)" for zss
    using receive_all_onward [OF new_buffer_ok(1), of ?line conn zss s] that
    by (auto simp: new_buffer_ok held_up_def drained_decode split: outcome.splits)
  from this [OF assms(2)] this [OF assms(3)] assms(1) show ?thesis by simp
qed

definition sample_server :: "db server" where
  "sample_server = \<lparr>m_fileTransferStates = Map.empty, closed_files = [],
     shutdowns = [], service = sample, tasks = []\<rparr>"

theorem segmentation_independent_witness:
  "see (receive_all (server_line ref_env (\<lambda>p. False) 0) 10 [''a'', [CHR 0x0D], CHR 0x0A # ''b''] new_buffer sample_server) =
    see (receive_all (server_line ref_env (\<lambda>p. False) 0) 10 [''a'' @ [CHR 0x0D, CHR 0x0A], ''b''] new_buffer sample_server)"
  by (rule segmentation_independent) code_simp+

text \<open>
  C6. The codec undoes the framing: requests sent one after the other, in any cut, become tasks in the
  order they were sent, each with the fields its sender wrote, and nothing is left in the buffer.
\<close>

theorem requests_round_trip:
  assumes "json_library E" and "list_all request_like jss"
    and "m_fileTransferStates s conn = None" and "concat xss = concat (map (frame_json E) jss)"
  shows "see (receive_all (server_line E can_open t) conn xss new_buffer s) = Done [] (fold (posts E conn t) jss s)"
  using frame_requests [OF assms(1-3), of can_open t "[]"] assms(4) by (intro receive_all_strict new_buffer_ok) simp

theorem requests_round_trip_witness:
  "see (receive_all (server_line ref_env (\<lambda>p. True) 0) 30 [frame_json ref_env (req_login ''carol'' ''c'') @
      frame_json ref_env (req_create ''chess'')] new_buffer sample_server) =
    Done [] (posts ref_env 30 0 (req_create ''chess'') (posts ref_env 30 0 (req_login ''carol'' ''c'') sample_server))"
proof -
  have "list_all request_like [req_login ''carol'' ''c'', req_create ''chess'']" by code_simp
  from requests_round_trip [OF ref_json.json_library_axioms this, of sample_server 30
      "[frame_json ref_env (req_login ''carol'' ''c'') @ frame_json ref_env (req_create ''chess'')]" "\<lambda>p. True" 0]
  show ?thesis by (simp add: sample_server_def)
qed

section \<open>Files\<close>

definition announce :: "string \<Rightarrow> nat \<Rightarrow> json" where
  "announce filename n = message SEND_FILE [(''filename'', JStr filename), (''filesize'', JInt (int n))]"

lemma announce_fields:
  assumes "utf8 filename" and "n < 2 ^ 64"
  shows "wf_json (announce filename n)" "js_int (announce filename n) ''msgid'' = Some SEND_FILE"
    "js_string (announce filename n) ''filename'' = Some filename"
    "js_size (announce filename n) ''filesize'' = Some n"
  using assms by (simp_all add: announce_def message_def js_int_def js_string_def js_size_def to_int32_def)

lemma js_size_cong: "norm_json j = norm_json j' \<Longrightarrow> js_size j k = js_size j' k"
  by (metis js_size_norm)

definition transferring :: "nat \<Rightarrow> string \<Rightarrow> nat \<Rightarrow> 'w server \<Rightarrow> 'w server" where
  "transferring conn path n s = s\<lparr>
     m_fileTransferStates := (m_fileTransferStates s)(conn \<mapsto> \<lparr>t_path = path, t_written = [], fileSize = n\<rparr>),
     service := (service s)\<lparr>m_connStatusMap := AList.delete conn (m_connStatusMap (service s))\<rparr>\<rparr>"

lemma frame_announce:
  assumes "json_library E" and "utf8 filename" and "n < 2 ^ 64" and "m_fileTransferStates s conn = None"
    and "f (received_path filename)"
  shows "decode (strict (server_line E f t)) conn (frame_json E (announce filename n) @ ys) s =
    decode (strict (server_line E f t)) conn ys (transferring conn (received_path filename) n s)"
proof -
  note js = announce_fields [OF assms(2,3)]
  note line = frame_line [OF assms(1) js(1), of ys] and again = reread [OF assms(1) js(1)]
  from js js_int_cong [OF again(2)] js_string_cong [OF again(2)] js_size_cong [OF again(2)]
  have "js_int (reread E (announce filename n)) ''msgid'' = Some SEND_FILE"
    "js_string (reread E (announce filename n)) ''filename'' = Some filename"
    "js_size (reread E (announce filename n)) ''filesize'' = Some n" by simp_all
  with again(1) assms(5) have "server_line E f t conn (json_dump E (announce filename n)) s =
      Done True (transferring conn (received_path filename) n s)"
    by (simp add: server_line_def bnd_apply andthen_apply int_field_def str_field_def size_field_def
        begin_transfer_def in_service_def removeConnStatus_def transferring_def)
  with line show ?thesis by (simp add: decode_line [OF assms(4) line(1)] strict_True)
qed



section \<open>The state the loop leaves, and its error path\<close>

text \<open>
  C8. The loop of \<open>onMessage\<close> ends for every buffer content, and when it returns it has used everything it could: no complete
  line is left, and during a file transfer no byte at all.  There is one exception, the early return: then the line before the
  bytes that are left names a file that cannot be opened, and the last thing done was to shut the connection down.
\<close>

theorem codec_drains_buffer:
  assumes "buffer_ok b" and "server_onMessage E can_open conn b t s = Done b' s'"
  shows "(case m_fileTransferStates s' conn of None \<Rightarrow> findCRLF b' = None | Some st \<Rightarrow> readableBytes b' = 0) \<or>
    (\<exists>before l u. contents b = before @ l @ [CHR 0x0D, CHR 0x0A] @ contents b' \<and> refused E can_open l \<and>
       s' = u\<lparr>shutdowns := shutdowns u @ [conn]\<rparr>)"
proof -
  from onMessage_decode [OF assms(1), of "server_line E can_open t" conn s] assms(2) [unfolded server_onMessage_def]
  have d: "decode (server_line E can_open t) conn (contents b) s = Done (contents b') s'" and "buffer_ok b'" by auto
  from decode_leaves [OF d] show ?thesis
  proof (elim disjE exE conjE)
    assume "drained conn (contents b') s'"
    with contents_length [OF \<open>buffer_ok b'\<close>] show ?thesis by (auto simp: drained_def findCRLF_def split: option.splits)
  next
    fix before l u
    assume "contents b = before @ l @ [CHR 0x0D, CHR 0x0A] @ contents b'" and "server_line E can_open t conn l u = Done False s'"
    with server_line_stops [OF this(2)] show ?thesis by blast
  qed
qed

definition half_line :: buffer where
  "half_line = new_buffer\<lparr>m_buffer := copy_to ''ab'' 8 (m_buffer new_buffer), m_writeIndex := 10\<rparr>"

theorem codec_drains_buffer_witness: "findCRLF half_line = None"
proof -
  have ok: "buffer_ok half_line"
    by (simp add: half_line_def buffer_ok_def new_buffer_def kCheapPrepend_def kInitialSize_def copy_to_def)
  have c: "contents half_line = ''ab''"
    by (simp add: half_line_def contents_def new_buffer_def kCheapPrepend_def kInitialSize_def copy_to_def)
  then have run: "server_onMessage ref_env (\<lambda>p. True) 10 half_line 0 sample_server = Done half_line sample_server"
    unfolding server_onMessage_def by (subst codec_loop.simps) (simp add: sample_server_def findCRLF_def)
  from codec_drains_buffer [OF ok run] show ?thesis by (auto simp: sample_server_def refused_def split: option.splits)
qed

text \<open>
  C9. A line that is JSON but has no number under \<open>msgid\<close> throws out of the codec: \<open>onMessage\<close> catches parse errors only, so the
  type error goes to its caller, whatever came before the line was read and whatever follows it.  \<open>conn\<close> need not be logged in.
\<close>

theorem untyped_line_escapes:
  assumes "json_parse E line = Some js" and "js_int js ''msgid'' = None" and "CHR 0x0D \<notin> set line"
    and "m_fileTransferStates s conn = None" and "buffer_ok b" and "contents b = line @ [CHR 0x0D, CHR 0x0A] @ later"
  shows "server_onMessage E can_open conn b t s = Throw TypeError s"
proof -
  have "decode (server_line E can_open t) conn (contents b) s = Throw TypeError s"
    using search_crlf_frame [OF assms(3), of later] assms(1,2)
    by (simp add: assms(6) decode_line [OF assms(4)] server_line_def bnd_apply int_field_def)
  with onMessage_decode [OF assms(5), of "server_line E can_open t" conn s] show ?thesis
    unfolding server_onMessage_def by (cases "codec_loop (server_line E can_open t) conn b s") auto
qed

definition braces_line :: buffer where
  "braces_line = new_buffer\<lparr>m_buffer := copy_to [CHR 0x7B, CHR 0x7D, CHR 0x0D, CHR 0x0A] 8 (m_buffer new_buffer), m_writeIndex := 12\<rparr>"

theorem untyped_line_escapes_witness:
  "server_onMessage ref_env (\<lambda>p. True) 30 braces_line 0 sample_server = Throw TypeError sample_server"
proof -
  have line: "json_parse ref_env [CHR 0x7B, CHR 0x7D] = Some (JObj [])" by code_simp
  have b: "buffer_ok braces_line" "contents braces_line = [CHR 0x7B, CHR 0x7D] @ [CHR 0x0D, CHR 0x0A] @ []"
    by (simp_all add: braces_line_def buffer_ok_def contents_def new_buffer_def kCheapPrepend_def kInitialSize_def copy_to_def)
  show ?thesis by (rule untyped_line_escapes [OF line _ _ _ b]) (simp_all add: js_int_def sample_server_def)
qed

end
