(* ===== verification/Table_Invariants.thy ===== *)
theory Table_Invariants
  imports Server_Invariants
begin

text \<open>
  Invariants of the tables alone.  \<open>table_invariant\<close> is the contract: the property survives the
  routine statements, the Redis commands, and a new group followed by its master.  Under it the
  whole server keeps the property, \<open>handleCreateGroup\<close> and the flush of the caches included.
  Two properties meet the contract: words from the enumerations of \<open>init.sql\<close>, and at most one master
  in a group.
\<close>

locale table_invariant = services E view ci
  for E :: "'w env" and view and ci +
  fixes I :: "db \<Rightarrow> bool"
  assumes I_stmt: "I d \<Longrightarrow> routine st \<Longrightarrow> run_stmt ci i st d = Some d' \<Longrightarrow> I d'"
    and I_redis: "I d \<Longrightarrow> I (d\<lparr>redis_lists := r\<rparr>)"
    and I_group: "I d \<Longrightarrow> run_stmt ci i (InsertGroup n) d = Some d' \<Longrightarrow> I d'"
    and I_master: "I d \<Longrightarrow> run_stmt ci i (InsertGroup n) d = Some d' \<Longrightarrow>
      run_stmt ci j (InsertMember i u ''master'') d' = Some d'' \<Longrightarrow> I d''"

sublocale table_invariant \<subseteq> server: server_invariant E view ci "\<lambda>s. I (view (world s))"
  by unfold_locales (auto intro: I_stmt simp: I_redis)

sublocale table_invariant \<subseteq> loose: loose_invariant E view ci "\<lambda>s. I (view (world s))"
  by unfold_locales (auto intro: I_group I_master simp del: run_stmt.simps)

context table_invariant
begin

lemma step_keeps: "server_step E s s' \<Longrightarrow> I (view (world s)) \<Longrightarrow> I (view (world s'))"
proof (rule server_step_keeps [where P = "\<lambda>s. I (view (world s))"])
  fix msgid h conn js time
  assume "(msgid, h) \<in> set (m_handlersMap E)"
  then show "keeps (\<lambda>s. I (view (world s))) (h conn js time)"
    using loose.createGroup_keeps server.all_handlers_keep [of msgid h]
    by (cases "msgid = CREATE_GROUP") (auto simp: m_handlersMap_def)
qed (auto intro: server.onConnection_keeps server.status_keeps server.checkIfConnAlive_keeps
    loose.flush_keeps)

lemma reachable_I: "served_in_turn E s0 s \<Longrightarrow> I (view (world s0)) \<Longrightarrow> I (view (world s))"
  by (rule reachable_keeps [where P = "\<lambda>s. I (view (world s))"]) (auto intro: step_keeps)

end

section \<open>The words of the enumerations\<close>

definition words_in :: "(string \<Rightarrow> bool) \<Rightarrow> (string \<Rightarrow> bool) \<Rightarrow> (string \<Rightarrow> bool) \<Rightarrow> db \<Rightarrow> bool" where
  "words_in S F R d \<longleftrightarrow> list_all (\<lambda>(k, u). S (u_state u)) (t_user d) \<and>
     list_all (\<lambda>(k, s). F s) (t_friend d) \<and> list_all (\<lambda>(k, r). R r) (t_member d)"

fun stmt_words :: "(string \<Rightarrow> bool) \<Rightarrow> (string \<Rightarrow> bool) \<Rightarrow> (string \<Rightarrow> bool) \<Rightarrow> stmt \<Rightarrow> bool" where
  "stmt_words S F R (InsertUser n p s) = S s"
| "stmt_words S F R (UpdateUserState s k) = S s"
| "stmt_words S F R (InsertFriend a b s) = F s"
| "stmt_words S F R (UpdateFriend s a b) = F s"
| "stmt_words S F R (InsertMember g u r) = R r"
| "stmt_words S F R (UpdateRole r u g) = R r"
| "stmt_words S F R st = True"

lemma words_in_stmt:
  "words_in S F R d \<Longrightarrow> S ''offline'' \<Longrightarrow> stmt_words S F R st \<Longrightarrow> run_stmt ci i st d = Some d' \<Longrightarrow>
    words_in S F R d'"
  by (cases st) (auto simp: words_in_def list_all_iff split: if_split_asm option.splits prod.splits)

definition words_ok :: "db \<Rightarrow> bool" where
  "words_ok = words_in (\<lambda>s. s \<in> {''online'', ''offline''}) (\<lambda>s. s \<in> {''request'', ''friend'', ''block''})
     (\<lambda>r. r \<in> {''request'', ''normal'', ''manager'', ''master''})"

lemma words_ok_redis: "words_ok (d\<lparr>redis_lists := r\<rparr>) = words_ok d"
  by (simp add: words_ok_def words_in_def)

lemma words_ok_stmt:
  assumes "words_ok d"
    and "routine st \<or> (\<exists>g u. st = InsertMember g u ''master'') \<or> (\<exists>n. st = InsertGroup n)"
    and "run_stmt ci i st d = Some d'"
  shows "words_ok d'"
  unfolding words_ok_def
  by (rule words_in_stmt [OF assms(1) [unfolded words_ok_def] _ _ assms(3)], simp)
    (use assms(2) in \<open>cases st; simp; elim disjE; simp\<close>)

lemma words_invariant:
  assumes "services E view ci"
  shows "table_invariant E view ci words_ok"
proof (rule table_invariant.intro [OF assms], rule table_invariant_axioms.intro)
  show "words_ok d'" if "words_ok d" "routine st" "run_stmt ci i st d = Some d'" for d d' st i
    by (rule words_ok_stmt [OF that(1) disjI1 [OF that(2)] that(3)])
  show group: "words_ok d'" if "words_ok d" "run_stmt ci i (InsertGroup n) d = Some d'" for d d' i n
    by (rule words_ok_stmt [OF that(1) _ that(2)]) simp
  show "words_ok d''" if "words_ok d" "run_stmt ci i (InsertGroup n) d = Some d'"
    "run_stmt ci j (InsertMember i u ''master'') d' = Some d''" for d d' d'' i j n u
    by (rule words_ok_stmt [OF group [OF that(1,2)] _ that(3)]) simp
qed (simp add: words_ok_redis)

section \<open>One master\<close>

text \<open>No group has two masters, and every group with a master is one that was created.\<close>

definition masters_ok :: "db \<Rightarrow> bool" where
  "masters_ok d \<longleftrightarrow> (\<forall>g u. ((g, u), ''master'') \<in> set (t_member d) \<longrightarrow> g < next_group d \<and>
     (\<forall>v. ((g, v), ''master'') \<in> set (t_member d) \<longrightarrow> u = v))"

lemma masters_ok_redis: "masters_ok (d\<lparr>redis_lists := r\<rparr>) = masters_ok d"
  by (simp add: masters_ok_def)

lemma masters_ok_mono: "masters_ok d \<Longrightarrow> next_group d \<le> next_group d' \<Longrightarrow>
    (\<And>p. (p, ''master'') \<in> set (t_member d') \<Longrightarrow> (p, ''master'') \<in> set (t_member d)) \<Longrightarrow> masters_ok d'"
  unfolding masters_ok_def by (meson order_less_le_trans)

lemma masters_ok_routine:
  assumes "masters_ok d" "routine st" "run_stmt ci i st d = Some d'"
  shows "masters_ok d'"
  by (rule masters_ok_mono [OF assms(1)])
    (use assms(2,3) in \<open>cases st; auto split: if_split_asm option.splits prod.splits\<close>)+

lemma masters_ok_group:
  assumes "masters_ok d" "run_stmt ci i (InsertGroup n) d = Some d'"
  shows "masters_ok d'" "t_member d' = t_member d" "next_group d \<le> i" "next_group d' = i + 1"
proof -
  from assms(2) show "t_member d' = t_member d" "next_group d \<le> i" "next_group d' = i + 1"
    by (auto split: if_split_asm)
  then show "masters_ok d'" by (intro masters_ok_mono [OF assms(1)]) simp_all
qed

lemma masters_ok_master:
  assumes d: "masters_ok d" and g: "run_stmt ci i (InsertGroup n) d = Some d'"
    and m: "run_stmt ci j (InsertMember i u ''master'') d' = Some d''"
  shows "masters_ok d''"
proof -
  note d' = masters_ok_group [OF d g]
  from m have d'': "t_member d'' = t_member d' @ [((i, u), ''master'')]" "next_group d'' = next_group d'"
    by (auto split: if_split_asm)
  from d d' have "((i, v), ''master'') \<notin> set (t_member d')" for v
    unfolding masters_ok_def d'(2) by (meson leD)
  with d'(1) show ?thesis unfolding masters_ok_def d'' using d'(4) by auto
qed

lemma masters_invariant:
  assumes "services E view ci"
  shows "table_invariant E view ci masters_ok"
proof (rule table_invariant.intro [OF assms], rule table_invariant_axioms.intro)
  show "masters_ok d'" if "masters_ok d" "run_stmt ci i (InsertGroup n) d = Some d'" for d d' i n
    by (rule masters_ok_group(1) [OF that])
  show "masters_ok d'" if "masters_ok d" "routine st" "run_stmt ci i st d = Some d'" for d d' st i
    by (rule masters_ok_routine [OF that])
  show "masters_ok d''" if "masters_ok d" "run_stmt ci i (InsertGroup n) d = Some d'"
    "run_stmt ci j (InsertMember i u ''master'') d' = Some d''" for d d' d'' i j n u
    by (rule masters_ok_master [OF that])
qed (simp add: masters_ok_redis)

end
