(* ===== verification/Session_Invariant.thy ===== *)
theory Session_Invariant
  imports Server_Invariants
begin

text \<open>
  Who is logged in: while MySQL and Redis answer, a user who is logged in on a connection is marked
  online in the table, and is logged in on no other connection.  The table's numbers start at 1, so 0
  (what \<open>m_connUserMap[conn]\<close> adds for a connection without a login) and -1 (the default \<open>User\<close>)
  are nobody.
\<close>

definition users_ok :: "db \<Rightarrow> bool" where
  "users_ok d \<longleftrightarrow> 0 < next_user d \<and> distinct (map fst (t_user d)) \<and>
     (\<forall>k r. user_of d k = Some r \<longrightarrow> 0 < k \<and> k < next_user d)"

definition bound :: "db \<Rightarrow> (nat \<Rightarrow> int option) \<Rightarrow> nat \<Rightarrow> int \<Rightarrow> bool" where
  "bound d C c u \<longleftrightarrow> u < next_user d \<and> (\<forall>r. user_of d u = Some r \<longrightarrow> u_state r = ''online'') \<and>
     (0 < u \<longrightarrow> (\<forall>c'. C c' = Some u \<longrightarrow> c' = c))"

definition sessions_in :: "db \<Rightarrow> (nat \<Rightarrow> int option) \<Rightarrow> bool" where
  "sessions_in d C \<longleftrightarrow> users_ok d \<and> (\<forall>c u. C c = Some u \<longrightarrow> bound d C c u)"

definition sessions_ok :: "('w \<Rightarrow> db) \<Rightarrow> 'w svc \<Rightarrow> bool" where
  "sessions_ok view s \<longleftrightarrow> sessions_in (view (world s)) (m_connUserMap s)"

lemma sessions_users:
  "sessions_in d C \<Longrightarrow> t_user d' = t_user d \<Longrightarrow> next_user d' = next_user d \<Longrightarrow> sessions_in d' C"
  by (simp add: sessions_in_def users_ok_def bound_def)

lemma sessions_guest:
  assumes "sessions_in d C"
  shows "sessions_in d (C(c \<mapsto> 0))"
proof -
  have "user_of d 0 = None"
    using assms unfolding sessions_in_def users_ok_def by (metis less_irrefl not_None_eq)
  with assms show ?thesis by (auto simp: sessions_in_def users_ok_def bound_def)
qed

lemma plain_users:
  "\<not> user_stmt st \<Longrightarrow> run_stmt ci i st d = Some d' \<Longrightarrow> t_user d' = t_user d \<and> next_user d' = next_user d"
  by (cases st) (auto split: if_split_asm option.splits prod.splits)

lemma sessions_plain: "sessions_ok view s \<Longrightarrow> frame s t \<Longrightarrow> \<not> user_stmt st \<Longrightarrow>
    run_stmt ci i st (view (world s)) = Some (view (world t)) \<Longrightarrow> sessions_ok view t"
  using plain_users [of st ci i "view (world s)" "view (world t)"]
  by (auto simp: sessions_ok_def frame_svc intro: sessions_users)

lemma sessions_handler:
  assumes "services E view ci"
  shows "handler_invariant E view ci (sessions_ok view)"
proof (rule handler_invariant.intro [OF assms], rule handler_invariant_axioms.intro)
  show "sessions_ok view t" if "sessions_ok view s" "frame s t" "routine st" "\<not> user_stmt st"
    "run_stmt ci i st (view (world s)) = Some (view (world t))" for s t st i
    by (rule sessions_plain [OF that(1,2,4,5)])
qed (auto simp: sessions_ok_def frame_svc intro: sessions_guest sessions_users)

lemma sessions_loose:
  assumes "services E view ci"
  shows "loose_invariant E view ci (sessions_ok view)"
proof (rule loose_invariant.intro [OF sessions_handler [OF assms]], rule loose_invariant_axioms.intro)
  show group: "sessions_ok view t" if "sessions_ok view s" "frame s t"
    "run_stmt ci i (InsertGroup n) (view (world s)) = Some (view (world t))" for s t i n
    by (rule sessions_plain [OF that(1,2) _ that(3)]) simp
  show "sessions_ok view u" if "sessions_ok view s" "frame s t"
    "run_stmt ci i (InsertGroup n) (view (world s)) = Some (view (world t))" "frame t u"
    "run_stmt ci j (InsertMember i v ''master'') (view (world t)) = Some (view (world u))"
    for s t u i n j v
    by (rule sessions_plain [OF group [OF that(1-3)] that(4) _ that(5)]) simp
qed (simp add: sessions_ok_def)

section \<open>The operations that log in and out\<close>

text \<open>Marking a user offline is harmless once no connection has him.\<close>

definition vacant :: "db \<Rightarrow> (nat \<Rightarrow> int option) \<Rightarrow> int \<Rightarrow> bool" where
  "vacant d C u \<longleftrightarrow> (\<forall>c. C c = Some u \<longrightarrow> user_of d u = None)"

lemma user_of_set_state: "map_of (map (\<lambda>(k', u). (k', if k' = k then u\<lparr>u_state := st\<rparr> else u)) us) k'' =
    (if k'' = k then map_option (\<lambda>u. u\<lparr>u_state := st\<rparr>) (map_of us k'') else map_of us k'')"
  by (induction us) auto

lemma fst_set_state: "map fst (map (\<lambda>(k', u). (k', if k' = k then f u else u)) us) = map fst us"
  by (induction us) auto

lemma users_ok_set_state:
  "users_ok (d\<lparr>t_user := map (\<lambda>(k', u). (k', if k' = k then u\<lparr>u_state := st\<rparr> else u)) (t_user d)\<rparr>) = users_ok d"
  by (auto simp: users_ok_def user_of_set_state fst_set_state simp del: map_map split: if_splits)

definition with_state :: "string \<Rightarrow> int \<Rightarrow> db \<Rightarrow> db" where
  "with_state st k d = d\<lparr>t_user := map (\<lambda>(k', u). (k', if k' = k then u\<lparr>u_state := st\<rparr> else u)) (t_user d)\<rparr>"

lemma sure_state: "sure ci (UpdateUserState st k) d ok d' \<longleftrightarrow> ok \<and> d' = with_state st k d"
  by (simp add: sure_def with_state_def)

lemma with_state_simps [simp]: "next_user (with_state st k d) = next_user d"
  "users_ok (with_state st k d) = users_ok d"
  "user_of (with_state st k d) u =
    (if u = k then map_option (\<lambda>r. r\<lparr>u_state := st\<rparr>) (user_of d u) else user_of d u)"
  by (simp add: with_state_def, simp add: with_state_def users_ok_set_state,
      simp add: with_state_def user_of_set_state)

lemma sessions_offline:
  assumes "sessions_in d C" and "vacant d C k"
  shows "sessions_in (with_state ''offline'' k d) C"
  using assms unfolding sessions_in_def bound_def vacant_def by (auto split: if_splits)

lemma sessions_online:
  assumes "sessions_in d C" and "k < next_user d" and "0 < k \<Longrightarrow> k \<notin> ran C"
  shows "sessions_in (with_state ''online'' k d) (C(c \<mapsto> k))"
  using assms unfolding sessions_in_def bound_def ran_def by (auto split: if_splits)

text \<open>The number of a user a connection is logged in as; taken off, he is vacant.\<close>

lemma sessions_erase: "sessions_in d C \<Longrightarrow> sessions_in d (C(c := None))"
  unfolding sessions_in_def bound_def by (auto split: if_splits)

lemma vacant_erase:
  assumes "sessions_in d C" and "C c = Some k"
  shows "vacant d (C(c := None)) k"
proof (cases "0 < k")
  case True
  with assms show ?thesis unfolding sessions_in_def bound_def vacant_def by auto
next
  case False
  with assms have "user_of d k = None" unfolding sessions_in_def users_ok_def by (metis not_None_eq)
  then show ?thesis by (simp add: vacant_def)
qed

lemma stored_id: "m_id (stored_user d k) = k \<or> m_id (stored_user d k) = -1"
  by (simp add: stored_user_def user_record_def new_user_def split: option.splits)

lemma vacant_none: "users_ok d \<Longrightarrow> k \<le> 0 \<Longrightarrow> vacant d C k"
  unfolding users_ok_def vacant_def by (metis leD not_None_eq)

lemma insert_user_row: "run_stmt ci i (InsertUser n p st) d = Some d' \<Longrightarrow>
    \<exists>r. t_user d' = t_user d @ [(i, r)] \<and> next_user d' = i + 1 \<and> next_user d \<le> i"
  by (auto split: if_split_asm)

context reliable_services
begin

lemma set_offline_sessions:
  assumes "sessions_ok view s" and "vacant (view (world s)) (m_connUserMap s) k"
  shows "runs (set_offline E k) s (\<lambda>_. sessions_ok view) X (\<lambda>_. True)"
  unfolding set_offline_def
proof (rule runs_bnd, rule finds_runs [OF query_id_sure], rule runs_bnd, rule does_runs [OF updateState_sure])
  fix u t x t'
  assume t: "frame s t" "view (world t) = view (world s)" and u: "u = stored_user (view (world s)) k"
    and x: "frame t t'"
    "sure ci (UpdateUserState (m_state (u\<lparr>m_state := ''offline''\<rparr>)) (m_id (u\<lparr>m_state := ''offline''\<rparr>)))
      (view (world t)) x (view (world t'))"
  have "vacant (view (world s)) (m_connUserMap s) (m_id u)"
    using assms stored_id [of "view (world s)" k] u vacant_none [of "view (world s)" "-1"]
    by (auto simp: sessions_ok_def sessions_in_def)
  with assms(1) t x show "runs (ret ()) t' (\<lambda>_. sessions_ok view) X (\<lambda>_. True)"
    by (simp add: sessions_ok_def sure_state frame_svc sessions_offline del: ret_apply)
qed simp_all

lemma clientClose_sessions: "keeps (sessions_ok view) (clientClose E c)"
proof (rule keepsI)
  fix s assume s: "sessions_ok view s"
  let ?Q = "\<lambda>_ :: unit. sessions_ok view"
  show "runs (clientClose E c) s (\<lambda>_. sessions_ok view) (\<lambda>_. sessions_ok view) (\<lambda>_. True)"
  proof (cases "m_connUserMap s c")
    case None
    with s show ?thesis
      by (auto simp: clientClose_def removeConnStatus_def sessions_ok_def intro!: wp)
  next
    case (Some u)
    let ?t = "s\<lparr>m_connStatusMap := AList.delete c (AList.delete c (m_connStatusMap s)),
        m_connUserMap := (m_connUserMap s)(c := None), m_userConnMap := (m_userConnMap s)(u := None)\<rparr>"
    from s have t: "sessions_ok view ?t" by (simp add: sessions_ok_def sessions_erase)
    from s Some have v: "vacant (view (world ?t)) (m_connUserMap ?t) u"
      by (simp add: sessions_ok_def vacant_erase)
    have "runs (set_offline E u) ?t ?Q (\<lambda>_. sessions_ok view) (\<lambda>_. True)"
      by (rule set_offline_sessions [OF t v])
    with Some t show ?thesis
      by (cases s) (auto simp: clientClose_def forget_conn_def removeConnStatus_def intro!: wp)
  qed
qed

lemma drop_conn_sessions: "keeps (sessions_ok view) (drop_conn E c)"
proof (rule keepsI)
  fix s assume s: "sessions_ok view s"
  let ?body = "\<lambda>i. andthen (send_to_user i (message CLIENT_LONGTIME_EXIT []))
     (andthen (emit (ForceClose c))
     (andthen (modify (\<lambda>s. s\<lparr>m_userConnMap := (m_userConnMap s)(i := None),
        m_connUserMap := (m_connUserMap s)(c := None),
        m_connStatusMap := AList.delete c (m_connStatusMap s)\<rparr>))
     (set_offline E i)))"
  have body: "runs (?body i) t (\<lambda>_. sessions_ok view) (\<lambda>_. sessions_ok view) (\<lambda>_. True)"
    if t: "sessions_ok view t" "m_connUserMap t c = Some i" for t i
    by (intro wp set_offline_sessions)
      (use t in \<open>simp_all add: sessions_ok_def sessions_erase vacant_erase\<close>)
  show "runs (drop_conn E c) s (\<lambda>_. sessions_ok view) (\<lambda>_. sessions_ok view) (\<lambda>_. True)"
    unfolding drop_conn_def
    by (rule runs_bnd, rule runs_conn_user; rule body)
      (use s in \<open>simp_all add: sessions_ok_def sessions_guest\<close>)
qed

lemma heartbeat_sessions: "keeps (sessions_ok view) (checkIfConnAlive E)"
  unfolding checkIfConnAlive_def
  by (intro keeps_rules keeps_modify drop_conn_sessions) (simp add: sessions_ok_def)

lemma status_sessions: "keeps (sessions_ok view) (setConnStatus c b)"
  "keeps (sessions_ok view) (removeConnStatus c)" "keeps (sessions_ok view) (addConnStatus c)"
  unfolding setConnStatus_def removeConnStatus_def addConnStatus_def
  by (rule keeps_modify, simp add: sessions_ok_def)+

lemma emit_sessions: "keeps (sessions_ok view) (emit e)"
  unfolding emit_def by (rule keeps_modify) (simp add: sessions_ok_def)

lemma onConnection_sessions: "keeps (sessions_ok view) (onConnection E c b)"
  unfolding onConnection_def by (intro keeps_rules status_sessions clientClose_sessions emit_sessions)

lemma send_sessions: "keeps (sessions_ok view) (send c js)"
  "keeps (sessions_ok view) (send_to_user u js)"
  unfolding send_to_user_def send_def by (intro keeps_rules emit_sessions)+

lemma reg_sessions: "keeps (sessions_ok view) (reg E c js time)"
  unfolding reg_def
proof (rule keeps_bnd [OF keeps_str_field], rule keeps_bnd [OF keeps_str_field], rule keeps_bnd, rule keepsI)
  fix name pwd s
  assume s: "sessions_ok view s"
  let ?u = "new_user\<lparr>m_name := name, m_password := pwd\<rparr>"
  show "runs (UserModel_insert E ?u) s (\<lambda>_. sessions_ok view) (\<lambda>_. sessions_ok view) (\<lambda>_. True)"
  proof (rule UserModel_insert_runs)
    fix i t
    assume t: "frame s t"
      and run: "run_stmt ci i (InsertUser (c_str (m_name ?u)) (c_str (m_password ?u)) (c_str (m_state ?u)))
        (view (world s)) = Some (view (world t))"
    let ?d = "view (world s)" and ?d' = "view (world t)"
    from insert_user_row [OF run] obtain r
      where r: "t_user ?d' = t_user ?d @ [(i, r)]" "next_user ?d' = i + 1" "next_user ?d \<le> i" by blast
    from s have C: "sessions_in ?d (m_connUserMap s)" by (simp add: sessions_ok_def)
    from C r have none: "user_of ?d i = None"
      unfolding sessions_in_def users_ok_def by (metis leD not_None_eq)
    then have look: "user_of ?d' k = (if k = i then Some r else user_of ?d k)" for k
      by (auto simp: r map_add_def split: option.splits)
    have "users_ok ?d'"
      using C none r by (fastforce simp: sessions_in_def users_ok_def look map_of_eq_None_iff)
    moreover have "bound ?d' (m_connUserMap s) c u" if "m_connUserMap s c = Some u" for c u
      using C that r unfolding sessions_in_def bound_def look by fastforce
    ultimately have "sessions_in ?d' (m_connUserMap s)" by (simp add: sessions_in_def)
    with t show "sessions_ok view t" by (simp add: sessions_ok_def frame_svc)
  qed (use s in \<open>auto simp: sessions_ok_def frame_svc\<close>)
qed (intro keeps_rules send_sessions)

lemma named_id:
  assumes "users_ok d" and "named ci n d u"
  shows "m_id u = -1 \<or> (\<exists>r. user_of d (m_id u) = Some r \<and> u = user_record (m_id u) r)"
proof (cases "u = new_user")
  case True
  then show ?thesis by (simp add: new_user_def)
next
  case False
  with assms(2) obtain k r where "(k, r) \<in> set (t_user d)" "u = user_record k r"
    by (auto simp: named_def split: if_splits)
  with assms(1) show ?thesis by (simp add: users_ok_def user_record_def)
qed

lemma enter_sessions:
  assumes "sessions_ok view s" and "named ci n (view (world s)) u" and "m_state u \<noteq> ''online''"
  shows "m_id u < next_user (view (world s))" and "0 < m_id u \<Longrightarrow> m_id u \<notin> ran (m_connUserMap s)"
proof -
  from assms(1) have C: "sessions_in (view (world s)) (m_connUserMap s)" by (simp add: sessions_ok_def)
  then have ok: "users_ok (view (world s))" by (simp add: sessions_in_def)
  from named_id [OF ok assms(2)] ok show "m_id u < next_user (view (world s))"
    unfolding users_ok_def by (metis less_trans neg_less_0_iff_less zero_less_one)
  show "m_id u \<notin> ran (m_connUserMap s)" if pos: "0 < m_id u"
  proof
    assume "m_id u \<in> ran (m_connUserMap s)"
    then obtain c where "m_connUserMap s c = Some (m_id u)" by (auto simp: ran_def)
    with C have "bound (view (world s)) (m_connUserMap s) c (m_id u)" by (simp add: sessions_in_def)
    moreover from named_id [OF ok assms(2)] pos obtain r
      where r: "user_of (view (world s)) (m_id u) = Some r" "u = user_record (m_id u) r" by auto
    moreover have "m_state u = u_state r" by (subst r(2)) (simp add: user_record_def)
    ultimately show False using assms(3) by (simp add: bound_def)
  qed
qed

lemma login_sessions: "keeps (sessions_ok view) (login E c js time)"
  unfolding login_def
proof (rule keeps_bnd [OF keeps_str_field], rule keeps_bnd [OF keeps_str_field], rule keepsI, rule runs_bnd)
  fix name pwd s
  let ?k = "\<lambda>user. if m_name user = name \<and> m_password user = pwd then
       if m_state user = ''online'' then send c (message LOGIN_REPEAT [])
       else
         andthen (enter_session c user)
         (bnd (UserModel_updateState E (user\<lparr>m_state := ''online''\<rparr>)) (\<lambda>_.
          andthen (send c (message LOGIN_SUCCESS [(''msg'', JStr login_success_text),
            (''id'', JInt (m_id user)), (''name'', JStr (m_name user))]))
          (bnd (FriendModel_query E (m_id user)) (\<lambda>userVec.
           for_each (\<lambda>u. send_to_user (m_id u) (friend_online user)) userVec))))
     else send c (message LOGIN_FAIL [(''msg'', JStr login_fail_text)])"
  assume s: "sessions_ok view s"
  have tell: "runs (bnd (FriendModel_query E k) (\<lambda>us. for_each (\<lambda>u. send_to_user (m_id u) j) us)) t
      (\<lambda>_. sessions_ok view) (\<lambda>_. sessions_ok view) (\<lambda>_. True)" if "sessions_ok view t" for k t j
    by (rule keeps_runs [OF keeps_bnd [OF handler_invariant.finds_keeps [OF sessions_handler
            [OF services_axioms] friend_query_tried] keeps_for_each [OF send_sessions(2)]] that])
  show "runs (UserModel_query_name E name) s
      (\<lambda>user t. runs (?k user) t (\<lambda>_. sessions_ok view) (\<lambda>_. sessions_ok view) (\<lambda>_. True))
      (\<lambda>_. sessions_ok view) (\<lambda>_. True)"
  proof (rule query_name_named)
    fix u t
    assume t: "frame s t" "view (world t) = view (world s)"
      and u: "named ci (c_str name) (view (world s)) u"
    from s t have ok: "sessions_ok view t" by (simp add: sessions_ok_def frame_svc)
    note enter = enter_sessions [OF s u]
    show "runs (?k u) t (\<lambda>_. sessions_ok view) (\<lambda>_. sessions_ok view) (\<lambda>_. True)"
    proof (intro runs_if keeps_runs [OF send_sessions(1) ok])
      assume off: "m_state u \<noteq> ''online''"
      let ?t = "t\<lparr>m_userConnMap := (m_userConnMap t)(m_id u \<mapsto> c),
        m_connUserMap := (m_connUserMap t)(c \<mapsto> m_id u), m_connStatusMap := AList.update c True (m_connStatusMap t)\<rparr>"
      have "sessions_ok view v" if "frame ?t v"
        "sure ci (UpdateUserState ''online'' (m_id u)) (view (world ?t)) x (view (world v))" for x v
        using that s t enter [OF off]
        by (simp add: sessions_ok_def sure_state frame_svc sessions_online)
      then show "runs (andthen (enter_session c u)
         (bnd (UserModel_updateState E (u\<lparr>m_state := ''online''\<rparr>)) (\<lambda>_.
          andthen (send c (message LOGIN_SUCCESS [(''msg'', JStr login_success_text),
            (''id'', JInt (m_id u)), (''name'', JStr (m_name u))]))
          (bnd (FriendModel_query E (m_id u)) (\<lambda>userVec.
           for_each (\<lambda>v. send_to_user (m_id v) (friend_online u)) userVec))))) t
         (\<lambda>_. sessions_ok view) (\<lambda>_. sessions_ok view) (\<lambda>_. True)"
        unfolding enter_session_def
        by (intro runs_andthen runs_modify runs_bnd does_runs [OF updateState_sure] runs_send tell)
          (simp_all add: sessions_ok_def)
    qed
  qed simp_all
qed

lemma sessions_step: "server_step E s s' \<Longrightarrow> sessions_ok view s \<Longrightarrow> sessions_ok view s'"
proof (rule server_step_keeps [where P = "sessions_ok view"])
  note loose = sessions_loose [OF services_axioms] and handler = sessions_handler [OF services_axioms]
  fix msgid h conn js time
  assume h: "(msgid, h) \<in> set (m_handlersMap E)"
  show "keeps (sessions_ok view) (h conn js time)"
  proof (cases "msgid \<in> {CREATE_GROUP, REG_MSG, LOGIN_MSG}")
    case True
    with h show ?thesis
      by (auto simp: m_handlersMap_def reg_sessions login_sessions
          loose_invariant.createGroup_keeps [OF loose])
  next
    case False
    with h show ?thesis by (rule handler_invariant.handlers_keep [OF handler])
  qed
qed (auto intro: onConnection_sessions status_sessions heartbeat_sessions
    loose_invariant.flush_keeps [OF sessions_loose [OF services_axioms]])

lemma sessions_reachable: "served_in_turn E s0 s \<Longrightarrow> sessions_ok view s0 \<Longrightarrow> sessions_ok view s"
  by (rule reachable_keeps [where P = "sessions_ok view"]) (auto intro: sessions_step)

end

end
