(* ===== verification/Server_Properties.thy ===== *)
theory Server_Properties
  imports Table_Invariants Session_Invariant Sample_World
begin

text \<open>
  The properties of the server as a whole: what holds in every state its steps lead to, with closed
  instances on the sample server.
\<close>

section \<open>The invariants on the reference environment\<close>

interpretation ref_words: table_invariant ref_env "\<lambda>d. d" "\<lambda>s. s" words_ok
  by (rule words_invariant) (rule ref.services_axioms)

interpretation ref_masters: table_invariant ref_env "\<lambda>d. d" "\<lambda>s. s" masters_ok
  by (rule masters_invariant) (rule ref.services_axioms)

interpretation ref_sessions: loose_invariant ref_env "\<lambda>d. d" "\<lambda>s. s" "sessions_ok (\<lambda>d. d)"
  by (rule sessions_loose) (rule ref.services_axioms)

lemma handled_after: "leaves (getHandler E msgid conn js time) s \<noteq> None \<Longrightarrow>
    server_step E s (after (getHandler E msgid conn js time) s)"
  by (rule server_step.handled) (rule after_leaves)

lemma reachable_after: "leaves (getHandler E msgid conn js time) s \<noteq> None \<Longrightarrow>
    served_in_turn E s (after (getHandler E msgid conn js time) s)"
  by (rule served_in_turn.step [OF served_in_turn.start handled_after])

section \<open>Sessions\<close>

text \<open>
  C1. Sessions, when the tasks run one after the other: as long as MySQL and Redis answer and no name breaks out of its SQL literal, a
  user number above 0 that is logged in is logged in on one connection only, and the table marks that user online.  (With two logins at a
  time this fails: \<open>concurrent_logins_both_succeed\<close>.)
\<close>

theorem one_session_per_user:
  assumes "reliable_services E view ci"
    and "users_ok (view (world s0))" and "m_connUserMap s0 = Map.empty"
    and "served_in_turn E s0 s"
    and "m_connUserMap s c = Some u" and "0 < u"
  shows "(\<forall>c'. m_connUserMap s c' = Some u \<longrightarrow> c' = c) \<and>
    (\<forall>r. user_of (view (world s)) u = Some r \<longrightarrow> u_state r = ''online'')"
proof -
  have "sessions_ok view s0" using assms(2,3) by (simp add: sessions_ok_def sessions_in_def)
  from reliable_services.sessions_reachable [OF assms(1,4) this] assms(5,6) show ?thesis
    by (simp add: sessions_ok_def sessions_in_def bound_def)
qed

definition sample_start :: "db svc" where
  "sample_start = sample\<lparr>m_userConnMap := Map.empty, m_connUserMap := Map.empty\<rparr>"

definition carol_in :: "db svc" where
  "carol_in = after (getHandler ref_env LOGIN_MSG 30 (req_login ''carol'' ''c'') 0) sample_start"

lemma sample_users_ok: "users_ok sample_db"
  by (auto simp: users_ok_def sample_db_def split: if_splits)

lemma carol_in_reachable: "served_in_turn ref_env sample_start carol_in"
proof -
  have "leaves (getHandler ref_env LOGIN_MSG 30 (req_login ''carol'' ''c'') 0) sample_start \<noteq> None"
    by code_simp
  then show ?thesis unfolding carol_in_def by (rule reachable_after)
qed

lemma carol_in_login: "m_connUserMap carol_in 30 = Some 3"
  by code_simp

lemma sample_start_simps: "users_ok (world sample_start)" "m_connUserMap sample_start = Map.empty"
  using sample_users_ok by (simp_all add: sample_start_def sample_def)

lemma carol_in_row: "user_of (world carol_in) 3 = Some \<lparr>u_name = ''carol'', u_password = ''c'', u_state = ''online''\<rparr>"
  by code_simp

theorem one_session_per_user_witness:
  "m_connUserMap carol_in 20 \<noteq> Some 3 \<and>
   map_option u_state (user_of (world carol_in) 3) = Some ''online''"
proof -
  note carol = one_session_per_user [OF ref.reliable_services_axioms sample_start_simps
      carol_in_reachable carol_in_login zero_less_numeral]
  have "m_connUserMap carol_in 20 \<noteq> Some 3"
  proof
    assume "m_connUserMap carol_in 20 = Some 3"
    from conjunct1 [OF carol, rule_format, OF this] show False by simp
  qed
  moreover from conjunct2 [OF carol, rule_format, OF carol_in_row]
  have "map_option u_state (user_of (world carol_in) 3) = Some ''online''"
    by (simp only: carol_in_row option.map)
  ultimately show ?thesis ..
qed

section \<open>Tables\<close>

text \<open>
  C2. Masters, when the tasks run one after the other and no name breaks out of its SQL literal: no group ever has two masters, whatever
  statements MySQL refuses on the way, and only created groups have one.
\<close>

theorem one_master_per_group:
  assumes "services E view ci" and "served_in_turn E s0 s" and "masters_ok (view (world s0))"
  shows "masters_ok (view (world s))"
  by (rule table_invariant.reachable_I [OF masters_invariant [OF assms(1)] assms(2,3)])

definition group_made :: "db svc" where
  "group_made = after (getHandler ref_env CREATE_GROUP 10 (req_create ''chess'') 0) sample"

lemma group_made_reachable: "served_in_turn ref_env sample group_made"
proof -
  have "leaves (getHandler ref_env CREATE_GROUP 10 (req_create ''chess'') 0) sample \<noteq> None" by code_simp
  then show ?thesis unfolding group_made_def by (rule reachable_after)
qed

lemma sample_world [simp]: "world sample = sample_db"
  by (simp add: sample_def)

theorem one_master_per_group_witness:
  "role_of (world group_made) 2 1 = Some ''master'' \<and> masters_ok (world group_made)"
proof -
  have start: "masters_ok (world sample)"
    by (auto simp: masters_ok_def sample_db_def)
  have "role_of (world group_made) 2 1 = Some ''master''" by code_simp
  with one_master_per_group [OF ref.services_axioms group_made_reachable start] show ?thesis by simp
qed

text \<open>C3. The server writes into the enumeration columns only words that \<open>init.sql\<close> lists there.\<close>

theorem words_stay_listed:
  assumes "services E view ci" and "served_in_turn E s0 s" and "words_ok (view (world s0))"
  shows "words_ok (view (world s))"
  by (rule table_invariant.reachable_I [OF words_invariant [OF assms(1)] assms(2,3)])

theorem words_stay_listed_witness: "words_ok (world group_made)"
proof -
  have start: "words_ok (world sample)" by (simp add: words_ok_def words_in_def sample_db_def)
  from words_stay_listed [OF ref.services_axioms group_made_reachable start] show ?thesis by simp
qed

end
