(* ===== verification/Protocol_Properties.thy ===== *)
theory Protocol_Properties
  imports Client_Properties Server_Replies Codec_Properties Server_Properties
begin

text \<open>
  The two programs together: what the client sends suits the server, what the server sends suits the
  client, and what the client waits for comes.
\<close>

section \<open>The client alone\<close>

definition after_round :: "('a \<Rightarrow> ('w, 'a option) menu) \<Rightarrow> ('w client, 'a option) outcome \<Rightarrow> ('w client, unit) outcome" where
  "after_round body r = (case r of Done (Some a) s \<Rightarrow> menu_loop body a s | Done None s \<Rightarrow> Done () s
     | Throw e s \<Rightarrow> Throw e s | Stuck b \<Rightarrow> Stuck b)"

text \<open>The state after \<open>n\<close> rounds of a loop, if each of them returns and goes on.\<close>

fun after_rounds :: "('a \<Rightarrow> ('w, 'a option) menu) \<Rightarrow> nat \<Rightarrow> 'a \<Rightarrow> 'w client \<Rightarrow> ('a \<times> 'w client) option" where
  "after_rounds body 0 a s = Some (a, s)"
| "after_rounds body (Suc n) a s = (case body a s of Done (Some a') s' \<Rightarrow> after_rounds body n a' s' | _ \<Rightarrow> None)"

lemma paid_bound:
  assumes "\<And>a. paid (body a)"
  shows "after_rounds body n a s = Some (a', s') \<Longrightarrow> n + lines_left s' \<le> lines_left s"
proof (induction n arbitrary: a s)
  case (Suc n)
  from Suc.prems obtain b t where t: "body a s = Done (Some b) t" "after_rounds body n b t = Some (a', s')"
    by (auto split: outcome.splits option.splits)
  have "lines_left t < lines_left s" using assms [of a] t(1) by (auto simp: paid_def runs_def dest!: spec [of _ s])
  with Suc.IH [OF t(2)] show ?case by simp
qed simp

definition ref_host :: "db host" where
  "ref_host = \<lparr>h_env = ref_env, stat_regular = (\<lambda>p w. Some True), can_create = (\<lambda>p. True), sha256 = (\<lambda>p. Some p)\<rparr>"



interpretation typed_requests: menu_invariant "\<lambda>s. \<forall>js. Line js \<in> set (requests s) \<longrightarrow> request_ok js"
  by unfold_locales auto

text \<open>
  C11. Whatever the user types and whatever arrives, every request the client sends has the fields, of
  the right types, that its handler on the server reads.
\<close>

theorem client_requests_typed:
  assumes "leaves (EnterChatRoom H) (client_init w es) = Some s" and "Line js \<in> set (requests s)"
  shows "request_ok js"
  using leaves_keeps [OF typed_requests.keeps_menus(2) _ assms(1)] assms(2) by (simp add: client_init_def)

definition carol_types :: "event list" where
  "carol_types = [Typed ''2'', Typed ''carol'', Typed ''c'']"

theorem client_requests_typed_witness:
  "requests (after (EnterChatRoom ref_host) (client_init sample_db carol_types)) = [Line (req_login ''carol'' ''63'')] \<and>
    request_ok (req_login ''carol'' ''63'')"
proof -
  let ?s = "after (EnterChatRoom ref_host) (client_init sample_db carol_types)"
  have "leaves (EnterChatRoom ref_host) (client_init sample_db carol_types) \<noteq> None" by code_simp
  from after_leaves [OF this] have l: "leaves (EnterChatRoom ref_host) (client_init sample_db carol_types) = Some ?s" .
  have r: "requests ?s = [Line (req_login ''carol'' ''63'')]" by code_simp
  with client_requests_typed [OF l] show ?thesis by simp
qed

section \<open>The client's requests on the server\<close>

text \<open>\<open>dumps_objects\<close>: the text of an object, if it is parsed at all, is an object again.\<close>

definition dumps_objects :: "'w env \<Rightarrow> bool" where
  "dumps_objects E \<longleftrightarrow> (\<forall>kvs j. json_parse E (json_dump E (JObj kvs)) = Some j \<longrightarrow> (\<exists>kvs'. j = JObj kvs'))"

lemma ref_dumps_objects: "dumps_objects ref_env"
  by (auto simp: dumps_objects_def ref_env_def parse_json_def split: option.splits prod.splits list.splits)

lemma any_emissionI:
  assumes "services E view ci" and "dumps_objects E"
  shows "any_emission E view ci (\<lambda>_. True) (\<lambda>_. True)"
proof -
  from assms(1) show ?thesis
    by (intro any_emission.intro emission.intro emission_axioms.intro any_emission_axioms.intro)
      (use assms(2) in \<open>auto simp: dumps_objects_def\<close>)
qed

interpretation ref_emission: any_emission ref_env "\<lambda>d. d" "\<lambda>s. s" "\<lambda>_. True" X "\<lambda>_. True" for X
  by (rule any_emissionI [OF ref.services_axioms ref_dumps_objects])

lemma has_field_cong: "norm_json j = norm_json j' \<Longrightarrow> has_field j f = has_field j' f"
  using js_int_cong [of j j' "fst f"] js_string_cong [of j j' "fst f"] js_size_cong [of j j' "fst f"]
  by (simp add: has_field_def split: kind.split)

text \<open>
  C12. No request of the client hurts the server: the line it arrives as is handled without an
  exception in the I/O thread, and the task it becomes throws none either.
\<close>

theorem client_requests_harmless:
  assumes "services E view ci" and "dumps_objects E" and "json_library E" and "request_ok js"
  shows "runs (server_line E can_open t conn (json_dump E js)) s (\<lambda>_ _. True) (\<lambda>_ _. False) (\<lambda>_. False) \<and>
    (\<forall>msgid. js_int js ''msgid'' = Some msgid \<longrightarrow>
       runs (getHandler E msgid conn (reread E js) t) u (\<lambda>_ _. True) (\<lambda>_ _. False) (\<lambda>_. True))"
proof -
  from assms(4) obtain msgid fs where wf: "wf_json js" and msgid: "js_int js ''msgid'' = Some msgid"
    and fs: "map_of request_fields msgid = Some fs" "list_all (has_field js) fs"
    by (auto simp: request_ok_def split: option.splits)
  note again = reread [OF assms(3) wf]
  have typed: "list_all (has_field (reread E js)) fs"
    using fs(2) has_field_cong [OF again(2)] by (simp add: list_all_iff)
  have id: "js_int (reread E js) ''msgid'' = Some msgid"
    using js_int_cong [OF again(2)] msgid by simp
  have "runs (server_line E can_open t conn (json_dump E js)) s (\<lambda>_ _. True) (\<lambda>_ _. False) (\<lambda>_. False)"
    using typed fs(1) unfolding server_line_def again(1) option.case runs_def
    by (auto simp: bnd_apply andthen_apply int_field_def str_field_def size_field_def id shutdown_conn_def
        begin_transfer_def in_service_def removeConnStatus_def addConnStatus_def onJsonMessage_def setConnStatus_def
        enqueue_task_def has_field_def request_fields_def split: outcome.splits if_splits option.splits)
  moreover have "runs (getHandler E msgid conn (reread E js) t) u (\<lambda>_ _. True) (\<lambda>_ _. False) (\<lambda>_. True)"
  proof (cases "map_of (m_handlersMap E) msgid")
    case (Some h)
    note em = any_emissionI [OF assms(1,2)]
    from any_emission.handlers_emit [OF em map_of_SomeD [OF Some], of "\<lambda>_. False" "reread E js" conn t] typed fs(1)
    have "emission.emits E (\<lambda>_. True) (\<lambda>_. False) (\<lambda>_. True) (h conn (reread E js) t)"
      by (simp add: emission.served_def [OF any_emission.axioms(1) [OF em]])
    then show ?thesis
      unfolding emission.emits_def [OF any_emission.axioms(1) [OF em]]
      by (auto simp: getHandler_def Some intro: runs_mono)
  qed (simp add: getHandler_def)
  ultimately show ?thesis using msgid by simp
qed

theorem client_requests_harmless_witness:
  "runs (server_line ref_env (\<lambda>p. True) 0 30 (json_dump ref_env (req_login ''carol'' ''c''))) sample_server
      (\<lambda>_ _. True) (\<lambda>_ _. False) (\<lambda>_. False) \<and>
    runs (getHandler ref_env LOGIN_MSG 30 (reread ref_env (req_login ''carol'' ''c'')) 0) sample
      (\<lambda>_ _. True) (\<lambda>_ _. False) (\<lambda>_. True)"
proof -
  have "request_ok (req_login ''carol'' ''c'')" by code_simp
  from client_requests_harmless [OF ref.services_axioms ref_dumps_objects ref_json.json_library_axioms this,
      of "\<lambda>p. True" 0 30 sample_server sample]
  show ?thesis by (simp add: req_login_def js_int_message_id)
qed

section \<open>What the client waits for\<close>

abbreviation sql_trouble :: "stuck \<Rightarrow> bool" where
  "sql_trouble b \<equiv> b = SqlOverrun \<or> b = SqlInjected"

lemma ready_emissionI:
  assumes "services E view ci" and "dumps_objects E"
  shows "emission E view ci ready sql_trouble"
  by (intro emission.intro emission_axioms.intro assms(1))
    (simp_all add: frame_ready assms(2) [unfolded dumps_objects_def], simp add: ready_def)

interpretation ready_emission: emission ref_env "\<lambda>d. d" "\<lambda>s. s" ready X sql_trouble for X
  by (rule ready_emissionI [OF ref.services_axioms ref_dumps_objects])

text \<open>The message posts the semaphore \<open>k\<close> whenever the client handles it; \<open>conn\<close> was sent such a message since the effects were \<open>es\<close>.\<close>

definition posts_sem :: "'w env \<Rightarrow> sem \<Rightarrow> json \<Rightarrow> bool" where
  "posts_sem E k reply \<longleftrightarrow> (\<forall>c c'. handleServerMessage E reply c = Done () c' \<longrightarrow> sems c' k = sems c k + 1)"

definition wakes :: "'w env \<Rightarrow> nat \<Rightarrow> sem \<Rightarrow> effect list \<Rightarrow> effect list \<Rightarrow> bool" where
  "wakes E conn k es es' \<longleftrightarrow> (\<exists>reply. Send conn reply \<in> set (drop (length es) es') \<and> posts_sem E k reply)"

text \<open>The file cannot be opened, or all of it goes out and no call on the socket fails.\<close>

definition file_request_ends_well :: "'w env \<Rightarrow> string \<Rightarrow> 'w \<Rightarrow> bool" where
  "file_request_ends_well E filename w = (case stat_file E (c_str (received_path filename)) w of (st, w1) \<Rightarrow>
     (case st of OpenFailed \<Rightarrow> True | StatFailed \<Rightarrow> False
      | FileSize n \<Rightarrow> (case fcntl_ok E w1 of (got, w2) \<Rightarrow> got \<and> (case fcntl_ok E w2 of (blocking, w3) \<Rightarrow> blocking \<and>
          (case sendfile_loop E n w3 of Some (rest, ok, w4) \<Rightarrow> ok \<and> fst (fcntl_ok E w4) | None \<Rightarrow> False)))))"

lemma posts_file:
  "\<not> posts_sem E k (message SEND_FILE_SERVER kvs)" "posts_sem E receive_file (message RECEIVE_FILE_FAIL [])"
  "posts_sem E receive_file (message RECEIVE_FILE_FINISH [])"
proof -
  have "handleServerMessage E (message SEND_FILE_SERVER kvs) c = Done () c" for c
    unfolding handleServerMessage_def int_field_def by (simp add: js_int_message_id bnd_apply)
  then show "\<not> posts_sem E k (message SEND_FILE_SERVER kvs)" by (simp add: posts_sem_def)
  show "posts_sem E receive_file (message RECEIVE_FILE_FAIL [])"
    unfolding posts_sem_def by (intro allI impI, rule posted_by_posts [of _ RECEIVE_FILE_FAIL]) (simp_all add: js_int_message_id)
  show "posts_sem E receive_file (message RECEIVE_FILE_FINISH [])"
    unfolding posts_sem_def by (intro allI impI, rule posted_by_posts [of _ RECEIVE_FILE_FINISH]) (simp_all add: js_int_message_id)
qed

lemma wakes_apply: "wakes E conn k es (es @ new) \<longleftrightarrow> (\<exists>reply. Send conn reply \<in> set new \<and> posts_sem E k reply)"
  by (simp add: wakes_def)

lemma conn_user_apply: "conn_user c s = Done (case m_connUserMap s c of Some u \<Rightarrow> u | None \<Rightarrow> 0)
    (if m_connUserMap s c = None then s\<lparr>m_connUserMap := (m_connUserMap s)(c \<mapsto> 0)\<rparr> else s)"
  by (simp add: conn_user_def split: option.split)

lemma receive_file_answer:
  assumes "js_string js ''filename'' = Some filename"
  shows "runs (handleReceiveFile E conn js t) s
    (\<lambda>_ s'. wakes E conn receive_file (out s) (out s') \<longleftrightarrow> file_request_ends_well E filename (world s)) (\<lambda>_ _. False) (\<lambda>b. b = Diverges)"
proof (cases "stat_file E (c_str (received_path filename)) (world s)")
  case (Pair st w)
  note calls = runs_def handleReceiveFile_def [folded received_path_def] str_field_def assms bnd_apply andthen_apply open_stat_def send_def emit_def Pair file_request_ends_well_def
  note sock = fcntl_def send_bytes_def conn_user_apply split_beta
  show ?thesis
  proof (cases st)
    case OpenFailed
    then show ?thesis by (simp add: calls wakes_apply posts_file)
  next
    case StatFailed
    then show ?thesis by (simp add: calls wakes_def)
  next
    case (FileSize n)
    let ?w2 = "fcntl_ok E w"
    let ?w3 = "fcntl_ok E (snd ?w2)"
    show ?thesis
    proof (cases "fst ?w2 \<and> fst ?w3")
      case False
      then show ?thesis by (auto simp: calls sock FileSize wakes_apply posts_file)
    next
      case True
      show ?thesis
      proof (cases "sendfile_loop E n (snd ?w3)")
        case None
        with True show ?thesis by (simp add: calls sock FileSize)
      next
        case (Some r)
        with True show ?thesis
          by (cases r; cases "fst (snd r)"; cases "fst (fcntl_ok E (snd (snd r)))")
            (auto simp: calls sock FileSize wakes_apply posts_file)
      qed
    qed
  qed
qed



section \<open>What the server sends\<close>

lemma get_norm: "get_strings (norm_json j) = get_strings j" "get_bool (norm_json j) = get_bool j"
proof -
  have "those (map get_string (map norm_json xs)) = those (map get_string xs)" for xs
    by (simp add: comp_def get_string_norm)
  then show "get_strings (norm_json j) = get_strings j" "get_bool (norm_json j) = get_bool j"
    by (cases j; simp del: map_map)+
qed

lemma reply_ok_norm: "reply_ok E (norm_json j) = reply_ok E j"
proof -
  have bind: "Option.bind (map_option norm_json v) get_strings = Option.bind v get_strings"
    "Option.bind (map_option norm_json v) get_bool = Option.bind v get_bool" for v
    by (cases v; simp add: get_norm)+
  have "has_reply E (norm_json j) f = has_reply E j f" for f
    by (simp add: has_reply_def js_int_norm js_string_norm js_size_norm field_norm bind split: reply_kind.split)
  then have "has_reply E (norm_json j) = has_reply E j" by (simp add: fun_eq_iff)
  moreover have "(case norm_json j of JObj kvs \<Rightarrow> True | _ \<Rightarrow> False) = (case j of JObj kvs \<Rightarrow> True | _ \<Rightarrow> False)"
    by (cases j) simp_all
  ultimately show ?thesis by (simp only: reply_ok_def js_int_norm)
qed

lemma reply_ok_cong: "norm_json j = norm_json j' \<Longrightarrow> reply_ok E j = reply_ok E j'"
  by (metis reply_ok_norm)

definition sent_ok :: "'w env \<Rightarrow> 'w svc \<Rightarrow> bool" where
  "sent_ok E s \<longleftrightarrow> list_all (\<lambda>e. case e of Send c js \<Rightarrow> reply_ok E js | _ \<Rightarrow> True) (out s)"

lemma emits_sent_ok:
  assumes "any_emission E view ci (\<lambda>_. True) (\<lambda>_. True)" and "emission.emits E (\<lambda>_. True) X (\<lambda>_. True) m"
  shows "keeps (sent_ok E) m"
proof (rule keepsI)
  fix s assume s: "sent_ok E s"
  have "sent_ok E t" if "extends (reply_ok E) (out s) (out t)" for t
    using s that by (auto simp: sent_ok_def extends_def)
  with assms(2) [unfolded emission.emits_def [OF any_emission.axioms(1) [OF assms(1)]]]
  show "runs m s (\<lambda>_. sent_ok E) (\<lambda>_. sent_ok E) (\<lambda>_. True)"
    by (blast intro: runs_mono)
qed

text \<open>
  C14. The client survives the server: in every state the server reaches, taking its tasks one after the other, every message it has sent
  is one the client handles without a type error.  The only message that ends the client is the one meant to, \<open>CLIENT_LONGTIME_EXIT\<close>.
\<close>

theorem client_survives_server:
  assumes "services E view ci" and "dumps_objects E" and "json_library E" and "served_in_turn E s0 s" and "out s0 = []"
    and "Send conn js \<in> set (out s)" and "wf_json js" and "h_env H = E"
  shows "runs (client_line H c (json_dump E js)) u (\<lambda>_ _. True)
    (\<lambda>e _. e = ProcessExit \<and> js_int js ''msgid'' = Some CLIENT_LONGTIME_EXIT) (\<lambda>_. True)"
proof -
  note em = any_emissionI [OF assms(1,2)]
  note ok = emits_sent_ok [OF em]
  have "sent_ok E s"
  proof (rule reachable_keeps [OF assms(4)])
    show "sent_ok E s0" using assms(5) by (simp add: sent_ok_def)
    show "sent_ok E b" if "sent_ok E a" and "server_step E a b" for a b
    proof (rule server_step_keeps [where P = "sent_ok E", OF that(2,1)])
      show "keeps (sent_ok E) (h conn js time)" if "(msgid, h) \<in> set (m_handlersMap E)" for msgid h conn js time
        by (rule ok [where X = "\<lambda>_. True", OF any_emission.handlers_emit [OF em that]])
          (simp add: emission.served_def [OF any_emission.axioms(1) [OF em]] list_all_iff)
    qed (rule ok [where X = "\<lambda>_. True"] any_emission.background_emits [OF em] any_emission.status_emits [OF em]
        any_emission.flush_emits [OF em] TrueI)+
  qed
  with assms(6) have "reply_ok E js" by (auto simp: sent_ok_def list_all_iff)
  then have "reply_ok (h_env H) (reread E js)"
    using reply_ok_cong reread(2) [OF assms(3,7)] assms(8) by metis
  moreover have "json_parse (h_env H) (json_dump E js) = Some (reread E js)"
    using reread(1) [OF assms(3,7)] assms(8) by simp
  moreover have "js_int (reread E js) ''msgid'' = js_int js ''msgid''" by (rule js_int_cong [OF reread(2) [OF assms(3,7)]])
  ultimately show ?thesis using client_line_survives [of H "json_dump E js" "reread E js" c u] by simp
qed

theorem client_survives_server_witness:
  "runs (client_line ref_host 0 (json_dump ref_env (message CREATE_GROUP_SUCCESS []))) (client_init sample_db [])
    (\<lambda>_ _. True) (\<lambda>_ _. False) (\<lambda>_. True)"
proof -
  have start: "out sample = []" by (simp add: sample_def)
  have sent: "Send 10 (message CREATE_GROUP_SUCCESS []) \<in> set (out group_made)" by code_simp
  have wf: "wf_json (message CREATE_GROUP_SUCCESS [])" by code_simp
  have host: "h_env ref_host = ref_env" by (simp add: ref_host_def)
  from client_survives_server [OF ref.services_axioms ref_dumps_objects ref_json.json_library_axioms
      group_made_reachable start sent wf host, of 0 "client_init sample_db []"] show ?thesis
    by (simp add: js_int_message_id)
qed

end
