(* ===== verification/Session_Behaviour.thy ===== *)
theory Session_Behaviour
  imports Server_Properties
begin

text \<open>
  What the handlers on sessions and friends do on every branch, when MySQL and Redis work
  (\<open>reliable_services\<close>), with closed instances.
\<close>

section \<open>Login\<close>

text \<open>The messages to the friends who are online, in the order of the list.\<close>

definition online_news :: "(int \<Rightarrow> nat option) \<Rightarrow> json \<Rightarrow> user list \<Rightarrow> effect list" where
  "online_news conns js us = concat (map (\<lambda>f. case conns (m_id f) of None \<Rightarrow> [] | Some c \<Rightarrow> [Send c js]) us)"

lemma send_to_all_runs:
  assumes "Q () (s\<lparr>out := out s @ online_news (m_userConnMap s) js us\<rparr>)"
  shows "runs (for_each (\<lambda>u. send_to_user (m_id u) js) us) s Q X B"
  using assms
proof (induction us arbitrary: s)
  case Nil
  then show ?case by (simp add: online_news_def del: ret_apply)
next
  case (Cons u us)
  have "runs (for_each (\<lambda>u. send_to_user (m_id u) js) us)
      (s\<lparr>out := out s @ (case m_userConnMap s (m_id u) of None \<Rightarrow> [] | Some c \<Rightarrow> [Send c js])\<rparr>) Q X B"
    by (rule Cons.IH) (use Cons.prems in \<open>simp add: online_news_def\<close>)
  then show ?case
    by (simp only: for_each.simps) (rule runs_andthen, rule runs_send_to_user, simp_all)
qed

definition wrong_login :: json where
  "wrong_login = message LOGIN_FAIL [(''msg'', JStr login_fail_text)]"

definition good_login :: "user \<Rightarrow> json" where
  "good_login u = message LOGIN_SUCCESS [(''msg'', JStr login_success_text), (''id'', JInt (m_id u)), (''name'', JStr (m_name u))]"

definition set_online :: "db \<Rightarrow> int \<Rightarrow> db" where
  "set_online d k = d\<lparr>t_user := map (\<lambda>(k', u). (k', if k' = k then u\<lparr>u_state := ''online''\<rparr> else u)) (t_user d)\<rparr>"

text \<open>Same tables, same sessions, one message more.\<close>

definition only_says :: "('w \<Rightarrow> db) \<Rightarrow> 'w svc \<Rightarrow> 'w svc \<Rightarrow> effect list \<Rightarrow> bool" where
  "only_says view s s' es \<longleftrightarrow> view (world s') = view (world s) \<and> m_userConnMap s' = m_userConnMap s \<and>
     m_connUserMap s' = m_connUserMap s \<and> m_groupUserListMap s' = m_groupUserListMap s \<and> out s' = out s @ es"

definition login_effect :: "('w \<Rightarrow> db) \<Rightarrow> nat \<Rightarrow> string \<Rightarrow> string \<Rightarrow> user \<Rightarrow> 'w svc \<Rightarrow> 'w svc \<Rightarrow> bool" where
  "login_effect view conn name pwd u s s' \<longleftrightarrow>
     (if m_name u \<noteq> name \<or> m_password u \<noteq> pwd then only_says view s s' [Send conn wrong_login]
      else if m_state u = ''online'' then only_says view s s' [Send conn (message LOGIN_REPEAT [])]
      else view (world s') = set_online (view (world s)) (m_id u) \<and>
        m_userConnMap s' = (m_userConnMap s)(m_id u \<mapsto> conn) \<and>
        m_connUserMap s' = (m_connUserMap s)(conn \<mapsto> m_id u) \<and>
        (\<exists>us. mset us = mset (friend_list (set_online (view (world s)) (m_id u)) (m_id u)) \<and>
           out s' = out s @ Send conn (good_login u) # online_news (m_userConnMap s') (friend_online u) us))"

lemma only_saysI:
  "frame s t \<Longrightarrow> view (world t) = view (world s) \<Longrightarrow> only_says view s (t\<lparr>out := out t @ es\<rparr>) es"
  by (simp add: only_says_def frame_svc)

lemma login_spec:
  assumes "reliable_services E view ci" and "ready s"
    and "js_string js ''name'' = Some name" and "js_string js ''password'' = Some pwd"
    and "length (sql_user_by_name name) < 1024" and "plain (c_str name)"
  shows "\<exists>u s'. named ci (c_str name) (view (world s)) u \<and> login E conn js t s = Done () s' \<and>
    login_effect view conn name pwd u s s'"
proof -
  note r = assms(1)
  have "runs (login E conn js t) s
      (\<lambda>_ s'. \<exists>u. named ci (c_str name) (view (world s)) u \<and> login_effect view conn name pwd u s s')
      (\<lambda>_ _. False) (\<lambda>_. False)"
    unfolding login_def enter_session_def str_field_def assms(3,4) lift_option_simps
  proof (rule runs_bnd, rule runs_ret, rule runs_bnd, rule runs_ret, rule runs_bnd,
      rule finds_runs [OF reliable_services.query_name_sure [OF r assms(5,6)]], goal_cases)
    case (1 u s1)
    show ?case
    proof (cases "m_name u = name \<and> m_password u = pwd \<and> m_state u \<noteq> ''online''")
      case False
      with 1 show ?thesis
        by (auto simp: login_effect_def wrong_login_def intro!: wp exI [of _ u] only_saysI)
    next
      case True
      let ?s1 = "s1\<lparr>m_userConnMap := (m_userConnMap s1)(m_id u \<mapsto> conn),
        m_connUserMap := (m_connUserMap s1)(conn \<mapsto> m_id u),
        m_connStatusMap := AList.update conn True (m_connStatusMap s1)\<rparr>"
      have ready: "ready ?s1" using frame_ready [OF 1(1)] assms(2) by (simp add: ready_def)
      have go: "runs (bnd (UserModel_updateState E (u\<lparr>m_state := ''online''\<rparr>)) (\<lambda>_.
          andthen (send conn (good_login u)) (bnd (FriendModel_query E (m_id u)) (\<lambda>userVec.
          for_each (\<lambda>f. send_to_user (m_id f) (friend_online u)) userVec)))) ?s1
        (\<lambda>_ s'. \<exists>u. named ci (c_str name) (view (world s)) u \<and> login_effect view conn name pwd u s s')
        (\<lambda>_ _. False) (\<lambda>_. False)"
      proof (rule runs_bnd, rule does_runs [OF reliable_services.updateState_sure [OF r]], goal_cases)
        case (1 ok s2)
        then have s2: "frame ?s1 s2" "view (world s2) = set_online (view (world s)) (m_id u)"
          using \<open>view (world s1) = view (world s)\<close> by (simp_all add: sure_def set_online_def)
        show ?case
        proof (rule runs_andthen, rule runs_send, rule runs_bnd, rule finds_runs [OF reliable_services.friend_query_sure [OF r]],
            rule send_to_all_runs, goal_cases)
          case (1 us s3)
          then show ?case using True \<open>named ci (c_str name) (view (world s)) u\<close> s2 \<open>frame s s1\<close>
            by (auto simp: login_effect_def frame_svc intro!: exI [of _ u] exI [of _ us])
        next
          case (2 b)
          with ready frame_ready [OF s2(1)] show ?case by (simp add: ready_def)
        qed
      qed (use ready in simp)
      with True show ?thesis by (simp add: good_login_def runs_andthen runs_modify)
    qed
  qed (simp_all add: assms(2))
  then show ?thesis by (auto simp: runs_returns)
qed

text \<open>
  C15. Login, on every branch: the answer depends on the row found under the name, exactly compared; a
  login that succeeds marks the user online, enters both maps and tells the friends who are online.
\<close>

theorem login_outcome:
  assumes "reliable_services E view ci" and "ready s"
    and "js_string js ''name'' = Some name" and "js_string js ''password'' = Some pwd"
    and "length (sql_user_by_name name) < 1024" and "plain (c_str name)"
  shows "\<exists>u s'. named ci (c_str name) (view (world s)) u \<and> login E conn js t s = Done () s' \<and>
    login_effect view conn name pwd u s s'"
  using assms by (rule login_spec)

lemma sample_ready: "ready sample"
  by (simp add: ready_def sample_def)

lemma plain_simps [simp]: "plain []" "plain (c # cs) \<longleftrightarrow> c \<noteq> CHR 0x27 \<and> c \<noteq> CHR 0x5C \<and> plain cs"
  by (auto simp: plain_def)

theorem login_outcome_witness:
  "\<exists>s'. login ref_env 30 (req_login ''carol'' ''c'') 0 sample = Done () s' \<and> m_connUserMap s' 30 = Some 3 \<and>
    user_of (world s') 3 = Some \<lparr>u_name = ''carol'', u_password = ''c'', u_state = ''online''\<rparr>"
proof -
  let ?js = "req_login ''carol'' ''c''"
  have js: "js_string ?js ''name'' = Some ''carol''" "js_string ?js ''password'' = Some ''c''" by code_simp+
  have sql: "length (sql_user_by_name ''carol'') < 1024" "plain (c_str ''carol'')" by code_simp+
  from login_outcome [OF ref.reliable_services_axioms sample_ready js sql, of 30 0] obtain u s'
    where u: "named (\<lambda>s. s) (c_str ''carol'') sample_db u" and run: "login ref_env 30 ?js 0 sample = Done () s'"
      and eff: "login_effect (\<lambda>d. d) 30 ''carol'' ''c'' u sample s'" by auto
  from u have "u = \<lparr>m_id = 3, m_name = ''carol'', m_password = ''c'', m_state = ''offline''\<rparr>"
    by (auto simp: named_def sample_db_def c_str_def user_record_def)
  with eff run show ?thesis by (auto simp: login_effect_def set_online_def sample_db_def)
qed

text \<open>
  Where nobody has the empty name, logging in with an empty name and an empty password succeeds, as user -1.
\<close>

theorem empty_login_succeeds:
  assumes "reliable_services E view ci" and "ready s"
    and "js_string js ''name'' = Some []" and "js_string js ''password'' = Some []"
    and "list_all (\<lambda>(k, u). ci (u_name u) \<noteq> ci []) (t_user (view (world s)))"
  shows "\<exists>s'. login E conn js t s = Done () s' \<and> m_connUserMap s' conn = Some (- 1) \<and>
    m_userConnMap s' (- 1) = Some conn \<and> Send conn (good_login new_user) \<in> set (out s')"
proof -
  have sql: "length (sql_user_by_name []) < 1024" "plain (c_str [])" by code_simp+
  from login_spec [OF assms(1-4) sql] obtain u s' where u: "named ci (c_str []) (view (world s)) u"
    and run: "login E conn js t s = Done () s'" and eff: "login_effect view conn [] [] u s s'" by blast
  have "\<not> (\<exists>(k, r) \<in> set (t_user (view (world s))). ci (u_name r) = ci [])"
    using assms(5) by (auto simp: list_all_iff)
  with u have "u = new_user" by (simp add: named_def c_str_def split: if_splits)
  with eff run show ?thesis by (auto simp: login_effect_def new_user_def)
qed

theorem empty_login_succeeds_witness:
  "\<exists>s'. login ref_env 30 (req_login [] []) 0 sample = Done () s' \<and> m_connUserMap s' 30 = Some (- 1)"
proof -
  have js: "js_string (req_login [] []) ''name'' = Some []" "js_string (req_login [] []) ''password'' = Some []" by code_simp+
  have "list_all (\<lambda>(k, u). u_name u \<noteq> []) (t_user (world sample))" by code_simp
  from empty_login_succeeds [OF ref.reliable_services_axioms sample_ready js this, of 30 0] show ?thesis by blast
qed

end
