(* ===== verification/Friend_Behaviour.thy ===== *)
theory Friend_Behaviour
  imports Session_Behaviour
begin

text \<open>
  The friend table as an abstract relation: four operations on it, the handlers that implement them when
  MySQL works, and the symmetry of friendship.
\<close>

definition friendship :: "db \<Rightarrow> int \<Rightarrow> int \<Rightarrow> string option" where
  "friendship d a b = friend_of d a b"

definition set_friend :: "int \<Rightarrow> int \<Rightarrow> string \<Rightarrow> db \<Rightarrow> db" where
  "set_friend a b v d = d\<lparr>t_friend := map (\<lambda>(k, w). (k, if k = (a, b) then v else w)) (t_friend d)\<rparr>"

definition add_friend :: "int \<Rightarrow> int \<Rightarrow> string \<Rightarrow> db \<Rightarrow> db" where
  "add_friend a b v d = d\<lparr>t_friend := t_friend d @ [((a, b), v)]\<rparr>"

definition befriend :: "int \<Rightarrow> int \<Rightarrow> db \<Rightarrow> db" where
  "befriend a b d = (case (friendship d a b, friendship d b a) of
     (None, None) \<Rightarrow> add_friend a b ''request'' d
   | (None, Some v) \<Rightarrow> if v = ''request'' then set_friend b a ''friend'' (add_friend a b ''friend'' d) else d
   | _ \<Rightarrow> d)"

definition linked :: "db \<Rightarrow> int \<Rightarrow> int \<Rightarrow> bool" where
  "linked d a b \<longleftrightarrow> friendship d a b = Some ''friend'' \<or> friendship d a b = Some ''block''"

definition unfriend :: "int \<Rightarrow> int \<Rightarrow> db \<Rightarrow> db" where
  "unfriend a b d = (if linked d a b \<and> linked d b a
     then d\<lparr>t_friend := filter (\<lambda>(k, v). k \<noteq> (a, b) \<and> k \<noteq> (b, a)) (t_friend d)\<rparr> else d)"

definition block :: "int \<Rightarrow> int \<Rightarrow> db \<Rightarrow> db" where
  "block a b d = (if friendship d a b = Some ''friend'' then set_friend a b ''block'' d else d)"

definition unblock :: "int \<Rightarrow> int \<Rightarrow> db \<Rightarrow> db" where
  "unblock a b d = (if friendship d a b = Some ''block'' then set_friend a b ''friend'' d else d)"

definition friends_symmetric :: "db \<Rightarrow> bool" where
  "friends_symmetric d \<longleftrightarrow> (\<forall>a b. linked d a b \<longrightarrow> linked d b a)"

section \<open>Symmetry\<close>

lemma friendship_simps [simp]:
  "friendship (set_friend a b v d) x y = (if (x, y) = (a, b) then map_option (\<lambda>_. v) (friendship d a b) else friendship d x y)"
  "friendship (add_friend a b v d) x y = (case friendship d x y of None \<Rightarrow> if (x, y) = (a, b) then Some v else None | w \<Rightarrow> w)"
proof -
  have "map_of (map (\<lambda>(k, w). (k, if k = c then v else w)) xs) z =
      (if z = c then map_option (\<lambda>_. v) (map_of xs c) else map_of xs z)" for c z and xs :: "((int \<times> int) \<times> string) list"
    by (induction xs) auto
  then show "friendship (set_friend a b v d) x y = (if (x, y) = (a, b) then map_option (\<lambda>_. v) (friendship d a b) else friendship d x y)"
    by (simp add: set_friend_def friendship_def)
  show "friendship (add_friend a b v d) x y = (case friendship d x y of None \<Rightarrow> if (x, y) = (a, b) then Some v else None | w \<Rightarrow> w)"
    by (simp add: add_friend_def friendship_def map_add_def split: option.split)
qed

lemma friend_of_delete: "map_of (filter (\<lambda>(k, v). k \<noteq> c \<and> k \<noteq> e) xs) z = (if z = c \<or> z = e then None else map_of xs z)"
  by (induction xs) auto

text \<open>Who is linked to whom afterwards.\<close>

lemma linked_befriend: "linked (befriend a b d) x y \<longleftrightarrow> linked d x y \<or>
    friendship d a b = None \<and> friendship d b a = Some ''request'' \<and> ((x, y) = (a, b) \<or> (x, y) = (b, a))"
proof (cases "friendship d a b")
  case None
  note ab = this
  show ?thesis
  proof (cases "friendship d b a")
    case N: None
    with ab show ?thesis by (auto simp: linked_def befriend_def split: option.split)
  next
    case (Some v)
    with ab have "b \<noteq> a" by auto
    then show ?thesis
      by (cases "x = a"; cases "y = b"; cases "x = b"; cases "y = a"; cases "v = ''request''")
        (use ab Some in \<open>simp_all add: linked_def befriend_def split: option.split\<close>)
  qed
qed (auto simp: linked_def befriend_def)

lemma linked_unfriend: "linked (unfriend a b d) x y \<longleftrightarrow> linked d x y \<and>
    \<not> (linked d a b \<and> linked d b a \<and> ((x, y) = (a, b) \<or> (x, y) = (b, a)))"
  by (simp add: unfriend_def linked_def friendship_def friend_of_delete)

lemma linked_block: "linked (block a b d) x y \<longleftrightarrow> linked d x y"
  and linked_unblock: "linked (unblock a b d) x y \<longleftrightarrow> linked d x y"
  by (auto simp: block_def unblock_def linked_def)

lemma symmetric_ops:
  assumes "friends_symmetric d"
  shows "friends_symmetric (befriend a b d)" "friends_symmetric (unfriend a b d)"
    "friends_symmetric (block a b d)" "friends_symmetric (unblock a b d)"
  using assms unfolding friends_symmetric_def linked_befriend linked_unfriend linked_block linked_unblock by blast+

section \<open>The handlers implement the operations\<close>

text \<open>One step of a handler whose pools are filled: a query, and a statement whose value is dropped.\<close>

lemma friend_state_empty: "words_ok d \<Longrightarrow> friend_state d a b = [] \<longleftrightarrow> friendship d a b = None"
  by (fastforce simp: words_ok_def words_in_def list_all_iff friend_state_def friendship_def dest!: map_of_SomeD
      split: option.splits)

lemma friend_state_word: "v \<noteq> [] \<Longrightarrow> friend_state d a b = v \<longleftrightarrow> friendship d a b = Some v"
  by (auto simp: friend_state_def friendship_def split: option.splits)

context reliable_services
begin

lemma query_step:
  assumes "does view m (finds R)" and "ready s"
    and "\<And>x t. frame s t \<Longrightarrow> view (world t) = view (world s) \<Longrightarrow> ready t \<Longrightarrow> R (view (world s)) x \<Longrightarrow>
      runs (f x) t Q (\<lambda>_ _. False) (\<lambda>_. False)"
  shows "runs (bnd m f) s Q (\<lambda>_ _. False) (\<lambda>_. False)"
  by (rule runs_bnd, rule finds_runs [OF assms(1)]) (auto simp: assms(2) frame_ready intro: assms(3))

lemma update_step:
  assumes "does view m (\<lambda>d u d'. \<exists>ok. sure ci st d ok d')" and "ready s" and "run_stmt ci 0 st (view (world s)) = Some d"
    and "\<And>t. frame s t \<Longrightarrow> view (world t) = d \<Longrightarrow> ready t \<Longrightarrow> runs k t Q (\<lambda>_ _. False) (\<lambda>_. False)"
  shows "runs (andthen m k) s Q (\<lambda>_ _. False) (\<lambda>_. False)"
  by (rule runs_andthen, rule does_runs [OF assms(1)])
    (auto simp: assms(2,3) sure_def frame_ready intro: assms(4) split: option.splits)

lemma known_user: "m_connUserMap s c = Some a \<Longrightarrow> runs (f a) s Q X B \<Longrightarrow> runs (bnd (conn_user c) f) s Q X B"
  by (rule runs_bnd, rule runs_conn_user) simp_all

lemma logged_user: "m_connUserMap s c = Some a \<Longrightarrow> runs k s Q X B \<Longrightarrow> runs (andthen (log_conn_user c) k) s Q X B"
  unfolding log_conn_user_def by (rule runs_andthen, rule runs_bnd, rule runs_conn_user) simp_all

lemma block_runs:
  assumes "ready s" and "words_ok (view (world s))" and "m_connUserMap s conn = Some a" and "js_int js ''block_id'' = Some b"
  shows "runs (handleBlockFriend E conn js t) s
    (\<lambda>_ s'. view (world s') = block a b (view (world s))) (\<lambda>_ _. False) (\<lambda>_. False)"
  unfolding handleBlockFriend_def int_field_def assms(4) lift_option_simps bnd_ret
proof (rule known_user [OF assms(3)], rule query_step [OF getState_sure assms(1)], goal_cases)
  case (1 x u)
  show ?case
  proof (cases "friendship (view (world s)) a b = Some ''friend''")
    case True
    with 1 have "x = ''friend''" by (simp add: friend_state_word)
    then show ?thesis
      by (simp only: if_True simp_thms, intro update_step [OF friend_modify_sure 1(3)] runs_send)
        (simp_all add: 1 block_def True set_friend_def)
  next
    case False
    with 1 have "x \<noteq> ''friend''" by (simp add: friend_state_word)
    with 1 False show ?thesis by (simp add: block_def runs_send)
  qed
qed

lemma unblock_runs:
  assumes "ready s" and "words_ok (view (world s))" and "m_connUserMap s conn = Some a" and "js_int js ''unblock_id'' = Some b"
  shows "runs (handleUnBlockFriend E conn js t) s
    (\<lambda>_ s'. view (world s') = unblock a b (view (world s))) (\<lambda>_ _. False) (\<lambda>_. False)"
  unfolding handleUnBlockFriend_def int_field_def assms(4) lift_option_simps bnd_ret
proof (rule known_user [OF assms(3)], rule query_step [OF getState_sure assms(1)], goal_cases)
  case (1 x u)
  show ?case
  proof (cases "friendship (view (world s)) a b = Some ''block''")
    case True
    with 1 have "x = ''block''" by (simp add: friend_state_word)
    then show ?thesis
      by (simp only: if_True simp_thms, intro update_step [OF friend_modify_sure 1(3)] runs_send)
        (simp_all add: 1 unblock_def True set_friend_def)
  next
    case False
    with 1 have "x \<noteq> ''block''" by (simp add: friend_state_word)
    with 1 False show ?thesis by (simp add: unblock_def runs_send)
  qed
qed

lemma delete_runs:
  assumes "ready s" and "m_connUserMap s conn = Some a" and "js_int js ''del_id'' = Some b"
  shows "runs (handleDeleteFriend E conn js t) s
    (\<lambda>_ s'. view (world s') = unfriend a (m_id (stored_user (view (world s)) b)) (view (world s))) (\<lambda>_ _. False) (\<lambda>_. False)"
  unfolding handleDeleteFriend_def int_field_def assms(3) lift_option_simps bnd_ret
proof (rule logged_user [OF assms(2)], rule query_step [OF query_id_sure assms(1)], rule known_user [where a = a], goal_cases)
  case (1 u s1)
  then show ?case using assms(2) by (simp add: frame_svc)
next
  case (2 u s1)
  show ?case
  proof (rule query_step [OF getState_sure 2(3)], rule query_step [OF getState_sure], assumption, goal_cases)
    case (1 x s2 y s3)
    let ?d = "view (world s)"
    have views: "view (world s3) = ?d" "view (world s2) = ?d" using 1 2 by simp_all
    have x: "x = friend_state ?d a (m_id u)" and y: "y = friend_state ?d (m_id u) a" and ready: "ready s3"
      using 1 2 views by simp_all
    have linked: "(x = ''friend'' \<or> x = ''block'') \<and> (y = ''friend'' \<or> y = ''block'') \<longleftrightarrow>
        linked ?d a (m_id u) \<and> linked ?d (m_id u) a"
      by (simp add: x y friend_state_word linked_def)
    have "runs (FriendModel_deleteEach E a (m_id u)) s3 (\<lambda>_ s'. view (world s') =
        ?d\<lparr>t_friend := filter (\<lambda>(k, v). k \<noteq> (a, m_id u) \<and> k \<noteq> (m_id u, a)) (t_friend ?d)\<rparr>) (\<lambda>_ _. False) (\<lambda>_. False)"
      by (rule does_runs [OF friend_delete_sure]) (auto simp: sure_def views ready)
    with 2 linked views show ?case by (simp add: unfriend_def runs_send)
  qed
qed

lemma request_runs:
  assumes "ready s"
  shows "runs (send_request E conn a b) s (\<lambda>_ t. view (world t) = (if friendship (view (world s)) a b = None
    then add_friend a b ''request'' (view (world s)) else view (world s))) (\<lambda>_ _. False) (\<lambda>_. False)"
  unfolding send_request_def
proof (rule runs_andthen, rule does_runs [OF friend_insert_sure], goal_cases)
  case (1 x t)
  have "view (world t) = (if friendship (view (world s)) a b = None
      then add_friend a b ''request'' (view (world s)) else view (world s))"
    using 1(2) by (auto simp: sure_def friendship_def add_friend_def)
  then show ?case by (intro wp) simp_all
qed (simp add: assms)

lemma accept_runs:
  assumes "ready s" and "friendship (view (world s)) a b = None"
  shows "runs (accept_request E conn name a b) s (\<lambda>_ t. view (world t) =
    set_friend b a ''friend'' (add_friend a b ''friend'' (view (world s)))) (\<lambda>_ _. False) (\<lambda>_. False)"
  unfolding accept_request_def
proof (rule update_step [OF friend_insert_sure assms(1), where d = "add_friend a b ''friend'' (view (world s))"], goal_cases)
  case 1
  from assms(2) show ?case by (simp add: friendship_def add_friend_def del: map_of_eq_None_iff)
next
  case (2 s1)
  show ?case
  proof (rule update_step [OF friend_modify_sure 2(3) run_stmt.simps(5)],
      rule query_step [OF query_id_sure], assumption, goal_cases)
    case (1 s2 f s3)
    have v: "view (world s3) = set_friend b a ''friend'' (add_friend a b ''friend'' (view (world s)))"
      using 1 2 by (simp add: set_friend_def add_friend_def)
    have ask: "runs (bnd (UserModel_query_id E a) (\<lambda>u. send c (g u))) t
        (\<lambda>_ t. view (world t) = view (world s3)) (\<lambda>_ _. False) (\<lambda>_. False)"
      if "view (world t) = view (world s3)" "ready t" for t c g
      by (rule query_step [OF query_id_sure that(2)], rule runs_send) (simp add: that(1))
    have "ready (s3\<lparr>out := e\<rparr>)" for e using 1 by (simp add: ready_def)
    then show ?case unfolding v [symmetric]
      by - (rule runs_andthen, rule runs_send, rule runs_if; auto intro!: runs_bnd [of "reads _"] runs_case_option ask)
  qed
qed

lemma add_runs:
  assumes "ready s" and "words_ok (view (world s))" and "m_connUserMap s conn = Some a" and "js_string js ''add_name'' = Some name"
    and "length (sql_user_by_name name) < 1024" and "plain (c_str name)"
  shows "runs (handleAddFriend E conn js t) s (\<lambda>_ s'. \<exists>u. named ci (c_str name) (view (world s)) u \<and>
    view (world s') = befriend a (m_id u) (view (world s))) (\<lambda>_ _. False) (\<lambda>_. False)"
  unfolding handleAddFriend_def str_field_def assms(4) lift_option_simps bnd_ret
proof (rule logged_user [OF assms(3)], rule query_step [OF query_name_sure [OF assms(5,6)] assms(1)], rule known_user [where a = a], goal_cases)
  case (1 u s1)
  then show ?case using assms(3) by (simp add: frame_svc)
next
  case (2 u s1)
  show ?case
  proof (rule query_step [OF getState_sure 2(3)], rule query_step [OF getState_sure], assumption, goal_cases)
    case (1 x s2 y s3)
    let ?d = "view (world s)" and ?b = "m_id u"
    have views: "view (world s3) = ?d" "view (world s2) = ?d" using 1 2 by simp_all
    have x: "x = friend_state ?d a ?b" and y: "y = friend_state ?d ?b a" and ready: "ready s3"
      using 1 2 views by simp_all
    have goal: "runs m s3 (\<lambda>_ s'. \<exists>u. named ci (c_str name) ?d u \<and> view (world s') = befriend a (m_id u) ?d)
        (\<lambda>_ _. False) (\<lambda>_. False)"
      if "runs m s3 (\<lambda>_ s'. view (world s') = befriend a ?b ?d) (\<lambda>_ _. False) (\<lambda>_. False)" for m
      by (rule runs_mono [OF that]) (use 2(4) in auto)
    note words = friend_state_empty [OF assms(2)] friend_state_word
    have quiet: "runs (andthen (send_request E conn a ?b) (ret ())) s3 (\<lambda>_ t. view (world t) =
        (if friendship ?d a ?b = None then add_friend a ?b ''request'' ?d else ?d)) (\<lambda>_ _. False) (\<lambda>_. False)"
      by (rule runs_andthen, rule runs_mono [OF request_runs [OF ready]]) (simp_all add: views)
    show ?case
    proof (rule goal, cases "friendship ?d a ?b")
      case None
      then have "x = []" by (simp add: x words)
      show "runs (andthen (if x = [] \<and> y = [] \<or> x = ''request'' \<and> y = [] then send_request E conn a ?b else ret ())
          (if x = [] \<and> y = ''request'' then accept_request E conn name a ?b else ret ())) s3
        (\<lambda>_ t. view (world t) = befriend a ?b ?d) (\<lambda>_ _. False) (\<lambda>_. False)"
      proof (cases "friendship ?d ?b a")
        case N: None
        then have "y = []" by (simp add: y words)
        with \<open>x = []\<close> quiet None N show ?thesis by (simp add: befriend_def del: ret_apply)
      next
        case (Some v)
        then have "y \<noteq> []" and v: "y = ''request'' \<longleftrightarrow> v = ''request''" by (simp_all add: y words)
        show ?thesis
        proof (cases "v = ''request''")
          case True
          with None Some have "befriend a ?b ?d = set_friend ?b a ''friend'' (add_friend a ?b ''friend'' ?d)"
            by (simp add: befriend_def)
          with accept_runs [OF ready, of a ?b conn name, unfolded views, OF None] \<open>x = []\<close> v True show ?thesis
            by (simp add: andthen_def bnd_ret del: ret_apply)
        next
          case False
          with None Some have "befriend a ?b ?d = ?d" by (simp add: befriend_def)
          with False v \<open>y \<noteq> []\<close> views show ?thesis by (simp add: andthen_def bnd_ret del: ret_apply)
        qed
      qed
    next
      case (Some v)
      then have "x \<noteq> []" by (simp add: x words)
      with Some quiet show "runs (andthen (if x = [] \<and> y = [] \<or> x = ''request'' \<and> y = [] then send_request E conn a ?b else ret ())
          (if x = [] \<and> y = ''request'' then accept_request E conn name a ?b else ret ())) s3
        (\<lambda>_ t. view (world t) = befriend a ?b ?d) (\<lambda>_ _. False) (\<lambda>_. False)"
        by (cases "x = ''request'' \<and> y = []") (simp_all add: befriend_def andthen_def bnd_ret views del: ret_apply)
    qed
  qed
qed

end

text \<open>
  C17. The four handlers that change friendships implement the four operations on the relation: for a
  logged in user they return, and the friend table afterwards is the one the operation gives.
\<close>

theorem friend_handlers_refine:
  assumes "reliable_services E view ci" and "ready s" and "words_ok (view (world s))" and "m_connUserMap s conn = Some a"
  shows "(\<forall>name. js_string js ''add_name'' = Some name \<and> length (sql_user_by_name name) < 1024 \<and> plain (c_str name) \<longrightarrow>
      (\<exists>u s'. named ci (c_str name) (view (world s)) u \<and> handleAddFriend E conn js t s = Done () s' \<and>
        view (world s') = befriend a (m_id u) (view (world s)))) \<and>
    (\<forall>b. js_int js ''del_id'' = Some b \<longrightarrow> (\<exists>s'. handleDeleteFriend E conn js t s = Done () s' \<and>
        view (world s') = unfriend a (m_id (stored_user (view (world s)) b)) (view (world s)))) \<and>
    (\<forall>b. js_int js ''block_id'' = Some b \<longrightarrow> (\<exists>s'. handleBlockFriend E conn js t s = Done () s' \<and>
        view (world s') = block a b (view (world s)))) \<and>
    (\<forall>b. js_int js ''unblock_id'' = Some b \<longrightarrow> (\<exists>s'. handleUnBlockFriend E conn js t s = Done () s' \<and>
        view (world s') = unblock a b (view (world s))))"
  using reliable_services.add_runs [OF assms] reliable_services.delete_runs [OF assms(1,2,4)]
    reliable_services.block_runs [OF assms] reliable_services.unblock_runs [OF assms]
  unfolding runs_returns by fastforce

definition req_add :: "string \<Rightarrow> json" where
  "req_add name = message ADD_FRIEND [(''add_name'', JStr name)]"

theorem friend_handlers_refine_witness:
  "\<exists>s'. handleAddFriend ref_env 10 (req_add ''carol'') 0 sample = Done () s' \<and>
    friendship (world s') 1 3 = Some ''friend'' \<and> friendship (world s') 3 1 = Some ''friend''"
proof -
  let ?js = "req_add ''carol''"
  have w: "words_ok (world sample)" by (simp add: words_ok_def words_in_def sample_db_def)
  have c: "m_connUserMap sample 10 = Some 1" by (simp add: sample_def)
  have js: "js_string ?js ''add_name'' = Some ''carol''" "length (sql_user_by_name ''carol'') < 1024" "plain (c_str ''carol'')"
    by code_simp+
  from friend_handlers_refine [OF ref.reliable_services_axioms sample_ready w c, of ?js 0, THEN conjunct1] js
  obtain u s' where u: "named (\<lambda>s. s) (c_str ''carol'') (world sample) u"
    and run: "handleAddFriend ref_env 10 ?js 0 sample = Done () s'" "world s' = befriend 1 (m_id u) (world sample)" by blast
  from u have "m_id u = 3" by (auto simp: named_def sample_db_def c_str_def user_record_def)
  with run show ?thesis by (auto simp: befriend_def friendship_def sample_db_def set_friend_def add_friend_def)
qed

text \<open>
  Friendship stays mutual: after any of the four handlers, whenever \<open>a\<close> has \<open>b\<close> as a friend, blocked or not,
  \<open>b\<close> has \<open>a\<close>, if it was so before.
\<close>

theorem friendship_stays_mutual:
  assumes "reliable_services E view ci" and "ready s" and "words_ok (view (world s))" and "m_connUserMap s conn = Some a"
    and "friends_symmetric (view (world s))"
    and "h \<in> {handleAddFriend E, handleDeleteFriend E, handleBlockFriend E, handleUnBlockFriend E}"
    and "h conn js t s = Done () s'"
  shows "friends_symmetric (view (world s'))"
proof -
  note sym = symmetric_ops [OF assms(5)]
  consider "h = handleAddFriend E" | "h = handleDeleteFriend E" | "h = handleBlockFriend E" | "h = handleUnBlockFriend E"
    using assms(6) by blast
  then show ?thesis
  proof cases
    case 1
    then obtain name where name: "js_string js ''add_name'' = Some name"
      using assms(7) by (cases "js_string js ''add_name''") (auto simp: handleAddFriend_def str_field_def bnd_apply)
    have "length (sql_user_by_name name) < 1024 \<and> plain (c_str name)"
      using assms(4,7) 1 by (auto simp: handleAddFriend_def str_field_def name run log_conn_user_def conn_user_def
          UserModel_query_name_def guarded_def split: if_splits)
    with runs_Done [OF reliable_services.add_runs [OF assms(1-4) name]] assms(7) 1 sym(1) show ?thesis by metis
  next
    case 2
    then obtain b where b: "js_int js ''del_id'' = Some b"
      using assms(7) by (cases "js_int js ''del_id''") (auto simp: handleDeleteFriend_def int_field_def bnd_apply)
    from runs_Done [OF reliable_services.delete_runs [OF assms(1,2,4) b]] assms(7) 2 sym(2) show ?thesis by metis
  next
    case 3
    then obtain b where b: "js_int js ''block_id'' = Some b"
      using assms(7) by (cases "js_int js ''block_id''") (auto simp: handleBlockFriend_def int_field_def bnd_apply)
    from runs_Done [OF reliable_services.block_runs [OF assms(1-4) b]] assms(7) 3 sym(3) show ?thesis by metis
  next
    case 4
    then obtain b where b: "js_int js ''unblock_id'' = Some b"
      using assms(7) by (cases "js_int js ''unblock_id''") (auto simp: handleUnBlockFriend_def int_field_def bnd_apply)
    from runs_Done [OF reliable_services.unblock_runs [OF assms(1-4) b]] assms(7) 4 sym(4) show ?thesis by metis
  qed
qed

definition blocked :: "db svc" where
  "blocked = after (handleBlockFriend ref_env 10 (message BLOCK_FRIEND [(''block_id'', JInt 2)]) 0) sample"

theorem friendship_stays_mutual_witness: "friends_symmetric (world blocked) \<and> friendship (world blocked) 1 2 = Some ''block''"
proof -
  let ?js = "message BLOCK_FRIEND [(''block_id'', JInt 2)]"
  have w: "words_ok (world sample)" by (simp add: words_ok_def words_in_def sample_db_def)
  have c: "m_connUserMap sample 10 = Some 1" by (simp add: sample_def)
  have sym: "friends_symmetric (world sample)" by (auto simp: friends_symmetric_def linked_def friendship_def sample_db_def)
  have b: "js_int ?js ''block_id'' = Some 2" by code_simp
  from reliable_services.block_runs [OF ref.reliable_services_axioms sample_ready w c b, of 0]
  have run: "handleBlockFriend ref_env 10 ?js 0 sample = Done () blocked"
    by (auto simp: runs_returns blocked_def after_def leaves_def)
  have "friendship (world blocked) 1 2 = Some ''block''" by code_simp
  moreover have "friends_symmetric (world blocked)"
    by (rule friendship_stays_mutual [where h = "handleBlockFriend ref_env", OF ref.reliable_services_axioms sample_ready w c sym _ run]) simp
  ultimately show ?thesis by simp
qed

end
