(* ===== verification/History_Cache.thy ===== *)
theory History_Cache
  imports Cache_Manager
begin

text \<open>
  The way of a message through the two Redis lists: \<open>cached\<close> says which rows are waiting in them.  A flush
  that meets no error appends them to the history tables; one whose statement MySQL refuses takes everything back
  that it has inserted, and the messages are gone.
\<close>

definition private_text :: "'w env \<Rightarrow> private_row \<Rightarrow> string" where
  "private_text E r = json_dump E (private_record (itos (p_sender r)) (itos (p_receiver r)) (p_message r) (p_time r))"

definition group_text :: "'w env \<Rightarrow> group_row \<Rightarrow> string" where
  "group_text E r = json_dump E (group_record (itos (q_group r)) (itos (q_sender r)) (q_message r) (q_time r))"

definition cached :: "'w env \<Rightarrow> db \<Rightarrow> private_row list \<Rightarrow> group_row list \<Rightarrow> bool" where
  "cached E d P G \<longleftrightarrow> redis_lists d private_chat_cache = map (private_text E) P \<and>
     redis_lists d group_chat_cache = map (group_text E) G"

text \<open>A message as it may come from a client: UTF-8, not too long for the column, with a time of the clock.\<close>

definition storable :: "string \<Rightarrow> string \<Rightarrow> bool" where
  "storable m t \<longleftrightarrow> utf8 m \<and> length m \<le> 65535 \<and> datetime t"

section \<open>SQL literals\<close>

lemma literal_step: "c \<noteq> CHR 0x27 \<Longrightarrow> c \<noteq> CHR 0x5C \<Longrightarrow> literal_value (c # t) = map_option ((#) c) (literal_value t)"
  by (cases t) simp_all

lemma literal_escape [simp]: "literal_value (escapeSQLString m) = Some m"
proof (induction m)
  case Nil
  then show ?case by (simp add: escapeSQLString_def)
next
  case (Cons c m)
  then have "literal_value (escape_char c @ escapeSQLString m) = Some (c # m)"
    by (simp add: escape_char_def literal_step mysql_unescape_def)
  then show ?case by (simp add: escapeSQLString_def)
qed

lemma escape_nul [simp]: "CHR 0x00 \<in> set (escapeSQLString m) \<longleftrightarrow> CHR 0x00 \<in> set m"
  by (induction m) (auto simp: escapeSQLString_def escape_char_def)

lemma utf8_ascii: "\<forall>c \<in> set s. (of_char c :: nat) < 0x80 \<Longrightarrow> utf8 s"
  by (induction s) simp_all

text \<open>The characters of a time and of a number.\<close>

definition tame :: "char \<Rightarrow> bool" where
  "tame c \<longleftrightarrow> is_digit c \<or> c \<in> {CHR ''-'', CHR '':'', CHR '' ''}"

lemma tame_simps [simp]: "\<not> tame (CHR 0x00)" "\<not> tame (CHR 0x27)" "\<not> tame (CHR 0x5C)" "tame c \<Longrightarrow> (of_char c :: nat) < 0x80"
  by (auto simp: tame_def is_digit_def)

lemma datetime_tame: "datetime t \<Longrightarrow> list_all tame t"
  by (cases t rule: datetime.cases) (simp_all add: tame_def)

lemma itos_tame: "list_all tame (itos i)"
  by (auto simp: list_all_iff tame_def itos_def dest: nat_str_digits)

lemma tame_text: "list_all tame s \<Longrightarrow> utf8 s \<and> plain s \<and> CHR 0x00 \<notin> set s"
  unfolding plain_def list_all_iff by (metis tame_simps utf8_ascii)

lemmas number_text [simp] = tame_text [OF itos_tame]
lemmas time_text = tame_text [OF datetime_tame]

section \<open>Reading the lists back\<close>

definition private_group :: "private_row \<Rightarrow> value_group" where
  "private_group r = (itos (p_sender r), itos (p_receiver r), escapeSQLString (p_message r), p_time r)"

definition group_group :: "group_row \<Rightarrow> value_group" where
  "group_group r = (itos (q_group r), itos (q_sender r), escapeSQLString (q_message r), q_time r)"

lemma record_keys: "utf8 ''sender_id''" "utf8 ''receiver_id''" "utf8 ''group_id''" "utf8 ''message''" "utf8 ''timestamp''"
  by code_simp+

lemma record_wf: "storable m t \<Longrightarrow> wf_json (private_record (itos a) (itos b) m t) \<and> wf_json (group_record (itos a) (itos b) m t)"
  by (simp add: private_record_def group_record_def storable_def time_text record_keys)

lemma private_values_texts:
  assumes "json_library E" and "list_all (\<lambda>r. storable (p_message r) (p_time r)) rs"
  shows "private_values E (map (private_text E) rs) = ret (map private_group rs)"
  using assms(2)
proof (induction rs)
  case (Cons r rs)
  let ?rec = "private_record (itos (p_sender r)) (itos (p_receiver r)) (p_message r) (p_time r)"
  obtain j where j: "json_parse E (private_text E r) = Some j" "norm_json j = norm_json ?rec"
    using json_library.parse_dump [OF assms(1)] record_wf Cons.prems by (fastforce simp: private_text_def)
  have "js_string j k = js_string ?rec k" for k using j(2) by (rule js_string_cong)
  then show ?case using Cons j(1)
    by (simp add: str_field_def private_record_def js_string_obj bnd_apply private_group_def fun_eq_iff)
qed (simp add: fun_eq_iff)

lemma group_values_texts:
  assumes "json_library E" and "list_all (\<lambda>r. storable (q_message r) (q_time r)) rs"
  shows "group_values E (map (group_text E) rs) = ret (map group_group rs)"
  using assms(2)
proof (induction rs)
  case (Cons r rs)
  let ?rec = "group_record (itos (q_group r)) (itos (q_sender r)) (q_message r) (q_time r)"
  obtain j where j: "json_parse E (group_text E r) = Some j" "norm_json j = norm_json ?rec"
    using json_library.parse_dump [OF assms(1)] record_wf Cons.prems by (fastforce simp: group_text_def)
  have "js_string j k = js_string ?rec k" for k using j(2) by (rule js_string_cong)
  then show ?case using Cons j(1)
    by (simp add: str_field_def group_record_def js_string_obj bnd_apply group_group_def fun_eq_iff)
qed (simp add: fun_eq_iff)

lemma private_stmt_rows: "private_stmt (map private_group rs) = InsertPrivate rs"
  and group_stmt_rows: "group_stmt (map group_group qs) = InsertGroupChat qs"
  by (simp_all add: private_stmt_def group_stmt_def private_group_def group_group_def case_prod_beta comp_def map_idI)

section \<open>A flush of one list\<close>

text \<open>What is put between the quotes is free of errors but for a NUL in a message.\<close>

lemma private_groups_ok:
  assumes "list_all (\<lambda>r. storable (p_message r) (p_time r)) rs"
  shows "literals_closed (map private_group rs)"
    and "has_nul (map private_group rs) \<longleftrightarrow> (\<exists>r \<in> set rs. CHR 0x00 \<in> set (p_message r))"
  using assms by (auto simp: literals_closed_def has_nul_def private_group_def storable_def list_all_iff time_text)

lemma group_groups_ok:
  assumes "list_all (\<lambda>r. storable (q_message r) (q_time r)) rs"
  shows "literals_closed (map group_group rs)"
    and "has_nul (map group_group rs) \<longleftrightarrow> (\<exists>r \<in> set rs. CHR 0x00 \<in> set (q_message r))"
  using assms by (auto simp: literals_closed_def has_nul_def group_group_def storable_def list_all_iff time_text)

text \<open>The rows of both kinds appended, and a list emptied.\<close>

definition append_rows :: "private_row list \<Rightarrow> group_row list \<Rightarrow> db \<Rightarrow> db" where
  "append_rows P G d = d\<lparr>t_private := t_private d @ P, t_gchat := t_gchat d @ G\<rparr>"

definition emptied :: "string \<Rightarrow> db \<Rightarrow> db" where
  "emptied key d = d\<lparr>redis_lists := (redis_lists d)(key := [])\<rparr>"

lemma append_rows_simps [simp]:
  "append_rows [] [] d = d" "append_rows P G (append_rows P' G' d) = append_rows (P' @ P) (G' @ G) d"
  "savepoint (append_rows P G d) = savepoint d"
  by (simp_all add: append_rows_def)

context reliable_services
begin

lemma statement_done:
  assumes "st_fits st" and "\<not> is_auto st" and "run_stmt ci 0 st (view (world s)) = Some d"
  obtains w where "mysql_update E st s = Done True (s\<lparr>world := w\<rparr>)" "view w = d"
proof -
  obtain ok w where w: "mysql_exec E st (world s) = (ok, w)" by fastforce
  from exec_sure [OF assms(1,2) w] assms(3) have "ok" "view w = d" by (simp_all add: sure_def)
  with w show ?thesis by (intro that [of w]) (simp_all add: mysql_update_def)
qed

end

text \<open>
  The contract of a list and its table: \<open>enc r\<close> is the text of the row \<open>r\<close> on the list, \<open>g r\<close> what it puts
  into the statement, \<open>p\<close> and \<open>q\<close> the rows it stands for; \<open>fine\<close> rows are read back, \<open>nul\<close> rows refused.
\<close>

locale flushed_list = reliable_services E view ci for E :: "'w env" and view ci +
  fixes vals :: "string list \<Rightarrow> (('w, 'm) dbs_scheme, value_group list) prog" and f :: "value_group list \<Rightarrow> stmt"
    and enc :: "'r \<Rightarrow> string" and g :: "'r \<Rightarrow> value_group" and fine nul :: "'r \<Rightarrow> bool"
    and p :: "'r \<Rightarrow> private_row list" and q :: "'r \<Rightarrow> group_row list"
  assumes read: "list_all fine rs \<Longrightarrow> vals (map enc rs) = ret (map g rs)"
    and closed: "list_all fine rs \<Longrightarrow> literals_closed (map g rs)"
    and has_nul: "list_all fine rs \<Longrightarrow> has_nul (map g rs) \<longleftrightarrow> (\<exists>r \<in> set rs. nul r)"
    and fits: "list_all fine rs \<Longrightarrow> st_fits (f (map g rs)) \<and> \<not> is_auto (f (map g rs))"
    and inserts: "rs \<noteq> [] \<Longrightarrow> run_stmt ci 0 (f (map g rs)) d =
      Some (append_rows (concat (map p rs)) (concat (map q rs)) d)"
begin

abbreviation add :: "'r list \<Rightarrow> db \<Rightarrow> db" where
  "add rs \<equiv> append_rows (concat (map p rs)) (concat (map q rs))"

lemma flush_batches_done:
  "list_all fine rs \<Longrightarrow> \<exists>w qs. flush_batches E vals f (map enc rs) s = Done (\<forall>r \<in> set rs. \<not> nul r) (s\<lparr>world := w\<rparr>) \<and>
    view w = add qs (view (world s)) \<and> ((\<forall>r \<in> set rs. \<not> nul r) \<longrightarrow> qs = rs)"
proof (induction rs arbitrary: s rule: length_induct)
  case (1 rs)
  let ?now = "take batchSize rs" and ?rest = "drop batchSize rs"
  show ?case
  proof (cases "rs = []")
    case True
    then show ?thesis
      by (intro exI [of _ "world s"] exI [of _ "[]"]) (simp add: flush_batches.simps)
  next
    case False
    have parts: "list_all fine ?now" "list_all fine ?rest" "length ?rest < length rs" "?now \<noteq> []"
      using 1(2) False by (auto simp: list_all_iff batchSize_def dest: in_set_takeD in_set_dropD)
    have split: "(\<forall>r \<in> set rs. \<not> nul r) \<longleftrightarrow> (\<forall>r \<in> set ?now. \<not> nul r) \<and> (\<forall>r \<in> set ?rest. \<not> nul r)"
      by (metis UnE UnI1 UnI2 append_take_drop_id set_append)
    have step: "flush_batches E vals f (map enc rs) = bnd (update_batch E f (map g ?now)) (\<lambda>ok.
        if ok then flush_batches E vals f (map enc ?rest) else ret False)"
      using False read [OF parts(1)] by (subst flush_batches.simps) (simp add: bnd_ret take_map drop_map cong: if_cong)
    show ?thesis
    proof (cases "\<forall>r \<in> set ?now. \<not> nul r")
      case True
      obtain w where w: "mysql_update E (f (map g ?now)) s = Done True (s\<lparr>world := w\<rparr>)" "view w = add ?now (view (world s))"
        using statement_done inserts [OF parts(4)] fits [OF parts(1)] by blast
      from 1(1) parts obtain w' qs where w': "flush_batches E vals f (map enc ?rest) (s\<lparr>world := w\<rparr>) =
          Done (\<forall>r \<in> set ?rest. \<not> nul r) (s\<lparr>world := w\<rparr>\<lparr>world := w'\<rparr>)"
        "view w' = add qs (view w)" "(\<forall>r \<in> set ?rest. \<not> nul r) \<longrightarrow> qs = ?rest" by fastforce
      have "add qs (view w) = add (?now @ qs) (view (world s))" using w(2) by simp
      with True w w' split closed [OF parts(1)] has_nul [OF parts(1)] show ?thesis
        by (intro exI [of _ w'] exI [of _ "?now @ qs"]) (auto simp: step bnd_apply update_batch_def)
    next
      case False
      with split has_nul [OF parts(1)] show ?thesis
        by (intro exI [of _ "world s"] exI [of _ "[]"]) (auto simp: step bnd_apply update_batch_def)
    qed
  qed
qed

text \<open>The transaction: everything is written, or nothing.\<close>

definition written :: "'r list \<Rightarrow> db \<Rightarrow> db" where
  "written rs d = (if \<forall>r \<in> set rs. \<not> nul r then add rs d else d)\<lparr>savepoint := None\<rparr>"

lemma rolled_back: "run_stmt ci 0 Rollback (add qs (d\<lparr>savepoint := Some (t_private d, t_gchat d)\<rparr>)) = Some (d\<lparr>savepoint := None\<rparr>)"
  by (cases d) (simp add: append_rows_def)

lemma write_batches_done:
  assumes "ready s" and "list_all fine rs"
  shows "\<exists>s'. write_batches E vals f (map enc rs) s = Done () s' \<and> frame s s' \<and> view (world s') = written rs (view (world s))"
proof -
  let ?d = "view (world s)" and ?ok = "\<forall>r \<in> set rs. \<not> nul r"
  from assms(1) have "m_pool s \<noteq> []" by (simp add: ready_def)
  then obtain c p' where cq: "pool_take (m_pool s) = Some (c, p')" by (cases "m_pool s") auto
  let ?t = "s\<lparr>m_pool := p'\<rparr>" and ?d2 = "?d\<lparr>savepoint := Some (t_private ?d, t_gchat ?d)\<rparr>"
  obtain w1 where w1: "mysql_update E StartTransaction ?t = Done True (?t\<lparr>world := w1\<rparr>)" "view w1 = ?d2"
    by (rule statement_done [of StartTransaction ?t ?d2]) simp_all
  obtain w2 qs where w2: "flush_batches E vals f (map enc rs) (?t\<lparr>world := w1\<rparr>) = Done ?ok (?t\<lparr>world := w2\<rparr>)"
    "view w2 = add qs ?d2" "?ok \<longrightarrow> qs = rs" using flush_batches_done [OF assms(2), of "?t\<lparr>world := w1\<rparr>"] w1(2) by auto
  obtain w3 where w3: "mysql_update E (if ?ok then Commit else Rollback) (?t\<lparr>world := w2\<rparr>) = Done True (?t\<lparr>world := w3\<rparr>)"
    "view w3 = written rs ?d"
  proof (cases ?ok)
    case True
    have "run_stmt ci 0 Commit (view w2) = Some (written rs ?d)"
      using True w2(2,3) by (simp add: written_def append_rows_def)
    then show ?thesis
      by - (rule statement_done [of Commit "?t\<lparr>world := w2\<rparr>"]; use True in \<open>auto intro: that\<close>)
  next
    case False
    have "run_stmt ci 0 Rollback (view w2) = Some (written rs ?d)"
      using False w2(2) rolled_back [of qs ?d] by (auto simp: written_def)
    then show ?thesis
      by - (rule statement_done [of Rollback "?t\<lparr>world := w2\<rparr>"]; use False in \<open>auto intro!: that split: if_split\<close>)
  qed
  with w1 w2(1) cq queue_frame [OF cq, of w3] show ?thesis
    by (cases ?ok) (simp_all add: write_batches_def bnd_apply getConnection_def releaseConnection_def)
qed

text \<open>The whole flush of one list.\<close>

definition after_flush :: "string \<Rightarrow> 'r list \<Rightarrow> db \<Rightarrow> db" where
  "after_flush key rs d = (if rs = [] then d else written rs (emptied key d))"

lemma flush_list_done:
  assumes "ready s" and "redis_lists (view (world s)) (c_str key) = map enc rs" and "list_all fine rs"
  shows "\<exists>s'. flush_list E key vals f s = Done () s' \<and> frame s s' \<and> view (world s') = after_flush (c_str key) rs (view (world s))"
proof -
  let ?Q = "\<lambda>_ s'. frame s s' \<and> view (world s') = after_flush (c_str key) rs (view (world s))"
  have "runs (flush_list E key vals f) s ?Q (\<lambda>_ _. False) (\<lambda>_. False)"
    unfolding flush_list_def
  proof (rule runs_bnd, rule finds_runs [OF lrange_sure], rule runs_if, goal_cases)
    case (1 vs t)
    then show ?case using assms(2) by (simp add: after_flush_def)
  next
    case (2 vs t)
    show ?case
    proof (rule runs_andthen, rule does_runs [OF ltrim_sure], goal_cases)
      case (1 u t')
      then have t': "ready t'" "frame s t'" "view (world t') = emptied (c_str key) (view (world s))"
        using 2 assms(1) by (auto simp: frame_ready trimmed_def emptied_def intro: frame_trans)
      from write_batches_done [OF t'(1) assms(3)] 2 assms(2) t'(2,3) show ?case
        by (auto simp: runs_def after_flush_def intro: frame_trans)
    qed (use 2 assms(1) in \<open>simp add: frame_ready\<close>)
  qed (simp_all add: assms(1))
  then show ?thesis by (simp add: runs_returns)
qed

end

end
