(* ===== verification/Chat_Behaviour.thy ===== *)
theory Chat_Behaviour
  imports Friend_Behaviour History_Cache
begin

text \<open>
  The way of a chat message, when MySQL and Redis work: to the members of the group who are online, to the cache,
  and with the next flush to the history tables.
\<close>

section \<open>The two lists\<close>

lemma cache_keys [simp]: "c_str private_chat_cache = private_chat_cache" "c_str group_chat_cache = group_chat_cache"
  "private_chat_cache \<noteq> group_chat_cache" "group_chat_cache \<noteq> private_chat_cache"
  by (simp_all add: private_chat_cache_def group_chat_cache_def c_str_def)

lemma private_flushed:
  assumes "reliable_services E view ci" and "json_library E"
  shows "flushed_list E view ci (private_values E) private_stmt (private_text E) private_group
    (\<lambda>r. storable (p_message r) (p_time r)) (\<lambda>r. CHR 0x00 \<in> set (p_message r)) (\<lambda>r. [r]) (\<lambda>r. [])"
  by (intro flushed_list.intro flushed_list_axioms.intro assms(1))
    (auto simp: private_values_texts [OF assms(2)] private_groups_ok private_stmt_rows append_rows_def storable_def list_all_iff)

lemma group_flushed:
  assumes "reliable_services E view ci" and "json_library E"
  shows "flushed_list E view ci (group_values E) group_stmt (group_text E) group_group
    (\<lambda>r. storable (q_message r) (q_time r)) (\<lambda>r. CHR 0x00 \<in> set (q_message r)) (\<lambda>r. []) (\<lambda>r. [r])"
  by (intro flushed_list.intro flushed_list_axioms.intro assms(1))
    (auto simp: group_values_texts [OF assms(2)] group_groups_ok group_stmt_rows append_rows_def storable_def list_all_iff)

interpretation ref_private: flushed_list ref_env "\<lambda>d. d" "\<lambda>s. s" "private_values ref_env" private_stmt
    "private_text ref_env" private_group "\<lambda>r. storable (p_message r) (p_time r)" "\<lambda>r. CHR 0x00 \<in> set (p_message r)"
    "\<lambda>r. [r]" "\<lambda>r. []"
  by (rule private_flushed [OF ref.reliable_services_axioms ref_json.json_library_axioms])

interpretation ref_group: flushed_list ref_env "\<lambda>d. d" "\<lambda>s. s" "group_values ref_env" group_stmt
    "group_text ref_env" group_group "\<lambda>r. storable (q_message r) (q_time r)" "\<lambda>r. CHR 0x00 \<in> set (q_message r)"
    "\<lambda>r. []" "\<lambda>r. [r]"
  by (rule group_flushed [OF ref.reliable_services_axioms ref_json.json_library_axioms])

lemma flush_done:
  assumes r: "reliable_services E view ci" "json_library E" and "ready s" and "cached E (view (world s)) P G"
    and "list_all (\<lambda>r. storable (p_message r) (p_time r)) P" and "list_all (\<lambda>r. storable (q_message r) (q_time r)) G"
  shows "\<exists>s' l b. flushCacheToDatabase E s = Done () s' \<and> frame s s' \<and> cached E (view (world s')) [] [] \<and>
    view (world s') = append_rows (if \<exists>r \<in> set P. CHR 0x00 \<in> set (p_message r) then [] else P)
      (if \<exists>r \<in> set G. CHR 0x00 \<in> set (q_message r) then [] else G) ((view (world s))\<lparr>redis_lists := l, savepoint := b\<rparr>)"
proof -
  note private_defs = flushed_list.after_flush_def [OF private_flushed [OF r]] flushed_list.written_def [OF private_flushed [OF r]]
    and group_defs = flushed_list.after_flush_def [OF group_flushed [OF r]] flushed_list.written_def [OF group_flushed [OF r]]
  obtain t where t: "flushPrivateChatCache E s = Done () t" "frame s t"
    "view (world t) = flushed_list.after_flush (\<lambda>r. CHR 0x00 \<in> set (p_message r)) (\<lambda>r. [r]) (\<lambda>r. []) private_chat_cache P (view (world s))"
    using flushed_list.flush_list_done [OF private_flushed [OF r] assms(3), of private_chat_cache P] assms(4,5)
    by (auto simp: flushPrivateChatCache_def cached_def)
  have rt: "ready t" using t(2) assms(3) frame_ready by auto
  have lists: "redis_lists (view (world t)) group_chat_cache = map (group_text E) G" "redis_lists (view (world t)) private_chat_cache = []"
    using assms(4) by (auto simp: t(3) private_defs cached_def append_rows_def emptied_def)
  obtain s' where s': "flushGroupChatCache E t = Done () s'" "frame t s'"
    "view (world s') = flushed_list.after_flush (\<lambda>r. CHR 0x00 \<in> set (q_message r)) (\<lambda>r. []) (\<lambda>r. [r]) group_chat_cache G (view (world t))"
    using flushed_list.flush_list_done [OF group_flushed [OF r] rt, of group_chat_cache G] assms(6) lists(1)
    by (auto simp: flushGroupChatCache_def)
  have "flushCacheToDatabase E s = Done () s'" using t(1) s'(1) by (simp add: flushCacheToDatabase_def run)
  moreover have "frame s s'" using t(2) s'(2) by (rule frame_trans)
  moreover have "cached E (view (world s')) [] []" using lists
    by (auto simp: s'(3) group_defs cached_def append_rows_def emptied_def)
  moreover have "\<exists>l b. view (world s') = append_rows (if \<exists>r \<in> set P. CHR 0x00 \<in> set (p_message r) then [] else P)
      (if \<exists>r \<in> set G. CHR 0x00 \<in> set (q_message r) then [] else G) ((view (world s))\<lparr>redis_lists := l, savepoint := b\<rparr>)"
    by (rule exI [of _ "redis_lists (view (world s'))"], rule exI [of _ "savepoint (view (world s'))"])
      (auto simp: s'(3) t(3) private_defs
        group_defs append_rows_def emptied_def)
  ultimately show ?thesis by blast
qed

section \<open>Sending\<close>

text \<open>A push on a list whose text holds no NUL.\<close>

lemma private_pushed:
  assumes "json_library E" and "storable m t" and "cached E d P G"
    and "pushed private_chat_cache (json_dump E (private_record (itos a) (itos b) m t)) d True d'"
  shows "cached E d' (P @ [\<lparr>p_sender = a, p_receiver = b, p_message = m, p_time = t\<rparr>]) G"
  using assms(3,4) c_str_id [OF json_library.dump_nul [OF assms(1) conjunct1 [OF record_wf [OF assms(2), of a b]]]]
  by (simp add: pushed_def cached_def private_text_def)

lemma group_pushed:
  assumes "json_library E" and "storable m t" and "cached E d P G"
    and "pushed group_chat_cache (json_dump E (group_record (itos a) (itos b) m t)) d True d'"
  shows "cached E d' P (G @ [\<lparr>q_group = a, q_sender = b, q_message = m, q_time = t\<rparr>])"
  using assms(3,4) c_str_id [OF json_library.dump_nul [OF assms(1) conjunct2 [OF record_wf [OF assms(2), of a b]]]]
  by (simp add: pushed_def cached_def group_text_def)

text \<open>The members of a group as the service knows them, and what each of them but the sender gets.\<close>

definition members_known :: "'w svc \<Rightarrow> int \<Rightarrow> int list" where
  "members_known s g = (case m_groupUserListMap s g of None \<Rightarrow> [] | Some us \<Rightarrow> us)"

definition to_others :: "(int \<Rightarrow> nat option) \<Rightarrow> json \<Rightarrow> int \<Rightarrow> int list \<Rightarrow> effect list" where
  "to_others conns js me us = concat (map (\<lambda>u. if u = me then [] else case conns u of None \<Rightarrow> [] | Some c \<Rightarrow> [Send c js]) us)"

lemma group_users_runs:
  "group_users g s = Done (members_known s g) (s\<lparr>m_groupUserListMap := (m_groupUserListMap s)(g \<mapsto> members_known s g)\<rparr>)"
  by (cases s) (auto simp: group_users_def members_known_def fun_upd_idem split: option.split)

lemma to_others_simps [simp]:
  "to_others conns js me [] = []"
  "to_others conns js me (u # us) = (if u = me then [] else case conns u of None \<Rightarrow> [] | Some c \<Rightarrow> [Send c js]) @ to_others conns js me us"
  by (simp_all add: to_others_def)

lemma send_to_user_apply [run]:
  "send_to_user u js s = Done () (s\<lparr>out := out s @ (case m_userConnMap s u of None \<Rightarrow> [] | Some c \<Rightarrow> [Send c js])\<rparr>)"
  by (simp add: send_to_user_def send_def emit_def run split: option.split)

lemma to_others_done:
  assumes "m_connUserMap s conn = Some me"
  shows "for_each (\<lambda>u. bnd (conn_user conn) (\<lambda>me. if u = me then ret () else send_to_user u js)) us s =
    Done () (s\<lparr>out := out s @ to_others (m_userConnMap s) js me us\<rparr>)"
  using assms by (induction us arbitrary: s) (auto simp: run conn_user_def)

context reliable_services
begin

lemma group_stored:
  assumes "json_library E" and "ready s" and "cached E (view (world s)) P G" and "storable m (current_timestamp E (world s))"
  obtains t where "storeGroupMessageInCache E (itos g) (itos me) m s = Done () t" "frame s t"
    "cached E (view (world t)) P (G @ [\<lparr>q_group = g, q_sender = me, q_message = m, q_time = current_timestamp E (world s)\<rparr>])"
    "\<exists>l. view (world t) = (view (world s))\<lparr>redis_lists := l\<rparr>"
proof -
  have "runs (storeGroupMessageInCache E (itos g) (itos me) m) s (\<lambda>_ t. frame s t \<and>
      cached E (view (world t)) P (G @ [\<lparr>q_group = g, q_sender = me, q_message = m, q_time = current_timestamp E (world s)\<rparr>]) \<and>
      (\<exists>l. view (world t) = (view (world s))\<lparr>redis_lists := l\<rparr>)) (\<lambda>_ _. False) (\<lambda>_. False)"
    unfolding storeGroupMessageInCache_def
    by (rule runs_bnd, rule runs_reads, rule runs_bnd, rule does_runs [OF rpush_sure])
      (auto simp: assms(2) intro: group_pushed [OF assms(1,4,3)], auto simp: pushed_def)
  then show ?thesis using that by (auto simp: runs_returns)
qed

end

text \<open>
  C19. A group message goes to the connection of each member the service knows who is online and not the sender, in
  the order of the list, whoever sends it; it is put on the list of the cache with its group, its sender and the time of the
  server; nothing else changes.
\<close>

theorem group_chat_delivered:
  assumes "reliable_services E view ci" and "json_library E" and "ready s" and "cached E (view (world s)) P G"
    and "js_int js ''groupid'' = Some g" and "js_string js ''msg'' = Some m" and "js_string js ''from_name'' = Some name"
    and "m_connUserMap s conn = Some me" and "storable m (current_timestamp E (world s))"
  shows "\<exists>s' l. handleGroupChat E conn js time s = Done () s' \<and>
    out s' = out s @ to_others (m_userConnMap s) (group_chat_message m name time g) me (members_known s g) \<and>
    cached E (view (world s')) P (G @ [\<lparr>q_group = g, q_sender = me, q_message = m, q_time = current_timestamp E (world s)\<rparr>]) \<and>
    view (world s') = (view (world s))\<lparr>redis_lists := l\<rparr> \<and> m_userConnMap s' = m_userConnMap s \<and>
    m_connUserMap s' = m_connUserMap s \<and> m_groupUserListMap s' = (m_groupUserListMap s)(g \<mapsto> members_known s g)"
proof -
  let ?s = "s\<lparr>m_groupUserListMap := (m_groupUserListMap s)(g \<mapsto> members_known s g)\<rparr>"
  have pre: "ready ?s" "cached E (view (world ?s)) P G" "storable m (current_timestamp E (world ?s))"
    using assms(3,4,9) by (simp_all add: ready_def)
  obtain t where t: "storeGroupMessageInCache E (itos g) (itos me) m ?s = Done () t" "frame ?s t"
    "cached E (view (world t)) P (G @ [\<lparr>q_group = g, q_sender = me, q_message = m, q_time = current_timestamp E (world ?s)\<rparr>])"
    "\<exists>l. view (world t) = (view (world ?s))\<lparr>redis_lists := l\<rparr>"
    by (rule reliable_services.group_stored [OF assms(1,2) pre])
  have "m_connUserMap t conn = Some me" using frame_svc [OF t(2)] assms(8) by simp
  from to_others_done [OF this] t frame_svc [OF t(2)] show ?thesis
    using assms(5-8) by (auto simp: handleGroupChat_def int_field_def str_field_def group_users_runs conn_user_def run)
qed

lemma sample_texts [simp]: "utf8 ''it's me''" "utf8 ''c: don't''" "utf8 ''hi''" "utf8 [CHR 0x00]"
    "datetime ''2024-08-12 10:00:00''" "datetime ''2024-08-12 10:00:01''"
  by code_simp+

theorem group_chat_delivered_witness:
  "\<exists>s'. handleGroupChat ref_env 10 (message GROUP_CHAT [(''groupid'', JInt 1), (''msg'', JStr ''it's me''), (''from_name'', JStr ''alice'')]) 0 sample =
      Done () s' \<and> out s' = [Send 20 (group_chat_message ''it's me'' ''alice'' 0 1)] \<and>
    cached ref_env (world s') [] [\<lparr>q_group = 1, q_sender = 1, q_message = ''it's me'', q_time = ''2024-08-12 10:00:00''\<rparr>]"
proof -
  let ?js = "message GROUP_CHAT [(''groupid'', JInt 1), (''msg'', JStr ''it's me''), (''from_name'', JStr ''alice'')]"
  have js: "js_int ?js ''groupid'' = Some 1" "js_string ?js ''msg'' = Some ''it's me''" "js_string ?js ''from_name'' = Some ''alice''"
    by code_simp+
  have "cached ref_env (world sample) [] []" by (simp add: cached_def sample_def sample_db_def)
  moreover have "m_connUserMap sample 10 = Some 1" by (simp add: sample_def)
  moreover have "storable ''it's me'' (current_timestamp ref_env (world sample))" by (simp add: storable_def ref_env_def del: datetime.simps)
  ultimately have "\<exists>s' l. handleGroupChat ref_env 10 ?js 0 sample = Done () s' \<and>
      out s' = out sample @ to_others (m_userConnMap sample) (group_chat_message ''it's me'' ''alice'' 0 1) 1 (members_known sample 1) \<and>
      cached ref_env (world s') [] ([] @ [\<lparr>q_group = 1, q_sender = 1, q_message = ''it's me'', q_time = current_timestamp ref_env (world sample)\<rparr>])"
    using group_chat_delivered [OF ref.reliable_services_axioms ref_json.json_library_axioms sample_ready _ js, of "[]" "[]" 10 1 0] by blast
  then show ?thesis by (simp add: sample_def members_known_def ref_env_def)
qed

text \<open>
  C20. Where the lists of the cache hold the texts of some messages, none with a NUL, one flush appends exactly these
  messages to the history tables, each with its sender, receiver or group, text and time, in the order they were sent, in
  however many batches; both lists are empty afterwards and the other tables are as before.
\<close>

theorem cache_reaches_history:
  assumes "reliable_services E view ci" and "json_library E" and "ready s" and "cached E (view (world s)) P G"
    and "list_all (\<lambda>r. storable (p_message r) (p_time r) \<and> CHR 0x00 \<notin> set (p_message r)) P"
    and "list_all (\<lambda>r. storable (q_message r) (q_time r) \<and> CHR 0x00 \<notin> set (q_message r)) G"
  shows "\<exists>s' l b. flushCacheToDatabase E s = Done () s' \<and> frame s s' \<and> cached E (view (world s')) [] [] \<and>
    view (world s') = (view (world s))\<lparr>redis_lists := l, savepoint := b,
      t_private := t_private (view (world s)) @ P, t_gchat := t_gchat (view (world s)) @ G\<rparr>"
proof -
  have "list_all (\<lambda>r. storable (p_message r) (p_time r)) P" "list_all (\<lambda>r. storable (q_message r) (q_time r)) G"
    "\<not> (\<exists>r \<in> set P. CHR 0x00 \<in> set (p_message r))" "\<not> (\<exists>r \<in> set G. CHR 0x00 \<in> set (q_message r))"
    using assms(5,6) by (auto simp: list_all_iff)
  with flush_done [OF assms(1-4)] show ?thesis by (auto simp: append_rows_def)
qed

definition waiting_sample :: "string \<Rightarrow> db svc" where
  "waiting_sample m = sample\<lparr>world := sample_db\<lparr>redis_lists := (\<lambda>k. [])(private_chat_cache :=
     [private_text ref_env \<lparr>p_sender = 1, p_receiver = 2, p_message = m, p_time = ''2024-08-12 10:00:00''\<rparr>,
      private_text ref_env \<lparr>p_sender = 2, p_receiver = 1, p_message = ''hi'', p_time = ''2024-08-12 10:00:01''\<rparr>])\<rparr>\<rparr>"

lemma waiting_cached: "cached ref_env (world (waiting_sample m))
    [\<lparr>p_sender = 1, p_receiver = 2, p_message = m, p_time = ''2024-08-12 10:00:00''\<rparr>,
     \<lparr>p_sender = 2, p_receiver = 1, p_message = ''hi'', p_time = ''2024-08-12 10:00:01''\<rparr>] []"
  and waiting_ready: "ready (waiting_sample m)"
  by (simp_all add: cached_def waiting_sample_def ready_def sample_def)

theorem cache_reaches_history_witness:
  "\<exists>s'. flushCacheToDatabase ref_env (waiting_sample ''c: don't'') = Done () s' \<and>
    map p_message (t_private (world s')) = [''c: don't'', ''hi'']"
proof -
  let ?P = "[\<lparr>p_sender = 1, p_receiver = 2, p_message = ''c: don't'', p_time = ''2024-08-12 10:00:00''\<rparr>,
     \<lparr>p_sender = 2, p_receiver = 1, p_message = ''hi'', p_time = ''2024-08-12 10:00:01''\<rparr>]"
  have "list_all (\<lambda>r. storable (p_message r) (p_time r) \<and> CHR 0x00 \<notin> set (p_message r)) ?P" by (simp add: storable_def del: datetime.simps)
  then show ?thesis
    using cache_reaches_history [OF ref.reliable_services_axioms ref_json.json_library_axioms waiting_ready waiting_cached, of "''c: don't''"]
    by (fastforce simp: waiting_sample_def sample_db_def)
qed

text \<open>
  C22. One message with a NUL character loses every private message that waits with it: its statement is cut
  off at the NUL, MySQL refuses it, the transaction is rolled back, and the list has been emptied already.
\<close>

theorem nul_message_loses_cache:
  assumes "reliable_services E view ci" and "json_library E" and "ready s" and "cached E (view (world s)) P G"
    and "list_all (\<lambda>r. storable (p_message r) (p_time r)) P" and "list_all (\<lambda>r. storable (q_message r) (q_time r)) G"
    and "\<exists>r \<in> set P. CHR 0x00 \<in> set (p_message r)"
  shows "\<exists>s'. flushCacheToDatabase E s = Done () s' \<and> redis_lists (view (world s')) private_chat_cache = [] \<and>
    t_private (view (world s')) = t_private (view (world s))"
  using flush_done [OF assms(1-6)] assms(7) by (auto simp: append_rows_def cached_def)

theorem nul_message_loses_cache_witness:
  "\<exists>s'. flushCacheToDatabase ref_env (waiting_sample [CHR 0x00]) = Done () s' \<and> t_private (world s') = [] \<and>
    redis_lists (world s') private_chat_cache = []"
proof -
  let ?P = "[\<lparr>p_sender = 1, p_receiver = 2, p_message = [CHR 0x00], p_time = ''2024-08-12 10:00:00''\<rparr>,
     \<lparr>p_sender = 2, p_receiver = 1, p_message = ''hi'', p_time = ''2024-08-12 10:00:01''\<rparr>]"
  have "list_all (\<lambda>r. storable (p_message r) (p_time r)) ?P" by (simp add: storable_def del: datetime.simps)
  then have "\<exists>s'. flushCacheToDatabase ref_env (waiting_sample [CHR 0x00]) = Done () s' \<and>
      redis_lists (world s') private_chat_cache = [] \<and> t_private (world s') = t_private (world (waiting_sample [CHR 0x00]))"
    using nul_message_loses_cache [OF ref.reliable_services_axioms ref_json.json_library_axioms waiting_ready waiting_cached, of "[CHR 0x00]"]
    by simp
  then show ?thesis by (simp add: waiting_sample_def sample_db_def) blast
qed

end
