(* ===== verification/Group_Behaviour.thy ===== *)
theory Group_Behaviour
  imports Friend_Behaviour
begin

text \<open>
  The groups as an abstract table of roles with the lists of members beside it: seven requests, who is permitted to
  make them, what they do and what is answered; the handlers implement them when MySQL works.
\<close>

section \<open>The requests\<close>

datatype group_op =
    Ask int
  | Accept int int
  | Quit int
  | Promote int int
  | Demote int int
  | Kick int int
  | Dissolve int

text \<open>The role of a user, empty if he has none.\<close>

abbreviation rank :: "db \<Rightarrow> int \<Rightarrow> int \<Rightarrow> string" where
  "rank \<equiv> role_string"

fun permitted :: "db \<Rightarrow> int \<Rightarrow> group_op \<Rightarrow> bool" where
  "permitted d me (Ask g) = (role_of d g me = None)"
| "permitted d me (Accept g u) = (rank d g me \<in> {''master'', ''manager''})"
| "permitted d me (Quit g) = (rank d g me \<in> {''manager'', ''normal''})"
| "permitted d me (Promote g u) = (rank d g u = ''normal'')"
| "permitted d me (Demote g u) = (rank d g u = ''manager'')"
| "permitted d me (Kick g u) = (rank d g u \<notin> {[], ''request''} \<and>
     (rank d g me = ''master'' \<or> rank d g me = ''manager'' \<and> rank d g u \<notin> {''manager'', ''master''}))"
| "permitted d me (Dissolve g) = (rank d g me = ''master'')"

definition set_role :: "int \<Rightarrow> int \<Rightarrow> string \<Rightarrow> db \<Rightarrow> db" where
  "set_role g u r d = d\<lparr>t_member := map (\<lambda>(k, v). (k, if k = (g, u) then r else v)) (t_member d)\<rparr>"

definition drop_member :: "int \<Rightarrow> int \<Rightarrow> db \<Rightarrow> db" where
  "drop_member g u d = d\<lparr>t_member := filter (\<lambda>(k, v). k \<noteq> (g, u)) (t_member d)\<rparr>"

definition drop_group :: "int \<Rightarrow> db \<Rightarrow> db" where
  "drop_group g d = d\<lparr>t_group := filter (\<lambda>(k, v). k \<noteq> g) (t_group d), t_member := filter (\<lambda>(k, v). fst k \<noteq> g) (t_member d)\<rparr>"

fun tables_after :: "int \<Rightarrow> group_op \<Rightarrow> db \<Rightarrow> db" where
  "tables_after me (Ask g) d = d\<lparr>t_member := t_member d @ [((g, me), ''request'')]\<rparr>"
| "tables_after me (Accept g u) d = set_role g u ''normal'' d"
| "tables_after me (Quit g) d = drop_member g me d"
| "tables_after me (Promote g u) d = set_role g u ''manager'' d"
| "tables_after me (Demote g u) d = set_role g u ''normal'' d"
| "tables_after me (Kick g u) d = drop_member g u d"
| "tables_after me (Dissolve g) d = drop_group g d"

definition listed :: "(int \<Rightarrow> int list option) \<Rightarrow> int \<Rightarrow> int list" where
  "listed l g = (case l g of None \<Rightarrow> [] | Some us \<Rightarrow> us)"

fun lists_after :: "int \<Rightarrow> group_op \<Rightarrow> (int \<Rightarrow> int list option) \<Rightarrow> int \<Rightarrow> int list option" where
  "lists_after me (Accept g u) l = l(g \<mapsto> listed l g @ [u])"
| "lists_after me (Quit g) l = l(g \<mapsto> removeAll me (listed l g))"
| "lists_after me (Kick g u) l = l(g \<mapsto> removeAll u (listed l g))"
| "lists_after me (Dissolve g) l = l(g := None)"
| "lists_after me _ l = l"

definition performs :: "int \<Rightarrow> group_op \<Rightarrow> db \<times> (int \<Rightarrow> int list option) \<Rightarrow> db \<times> (int \<Rightarrow> int list option)" where
  "performs me op = (\<lambda>(d, l). if permitted d me op then (tables_after me op d, lists_after me op l) else (d, l))"

text \<open>The identifier of the answer.\<close>

fun reply_to :: "db \<Rightarrow> int \<Rightarrow> group_op \<Rightarrow> int" where
  "reply_to d me (Ask g) = (if role_of d g me = None then REQUEST_GROUP_SUCCESS
     else if rank d g me \<in> {''master'', ''manager'', ''normal''} then ALREADY_IN_GROUP else REQUEST_GROUP_FAIL)"
| "reply_to d me (Accept g u) = (if permitted d me (Accept g u) then ADD_GROUP_SUCCESS else ADD_GROUP_FAIL)"
| "reply_to d me (Quit g) = (if permitted d me (Quit g) then QUIT_GROUP_SUCCESS else QUIT_GROUP_FAIL)"
| "reply_to d me (Promote g u) = (if permitted d me (Promote g u) then SET_MANAGER_SUCCESS else SET_MANAGER_FAIL)"
| "reply_to d me (Demote g u) = (if permitted d me (Demote g u) then CANCEL_MANAGER_SUCCESS else CANCEL_MANAGER_FAIL)"
| "reply_to d me (Kick g u) = (if rank d g u \<in> {[], ''request''} then KICK_SOMEONE_NOT_IN_GROUP
     else if permitted d me (Kick g u) then KICK_SOMEONE_SUCCESS else KICK_SOMEONE_FAIL)"
| "reply_to d me (Dissolve g) = (if permitted d me (Dissolve g) then MASTER_DELETE_GROUP_SUCCESS else MASTER_DELETE_GROUP_FAIL)"

text \<open>How a request is written, and which handler it gets.\<close>

fun op_msg :: "group_op \<Rightarrow> int" where
  "op_msg (Ask g) = REQUEST_GROUP"
| "op_msg (Accept g u) = ADD_GROUP"
| "op_msg (Quit g) = QUIT_GROUP"
| "op_msg (Promote g u) = SET_MANAGER"
| "op_msg (Demote g u) = CANCEL_MANAGER"
| "op_msg (Kick g u) = KICK_SOMEONE"
| "op_msg (Dissolve g) = MASTER_DELETE_GROUP"

fun asks :: "json \<Rightarrow> group_op \<Rightarrow> bool" where
  "asks js (Ask g) = (js_int js ''add_group_id'' = Some g)"
| "asks js (Accept g u) = (js_int js ''groupid'' = Some g \<and> js_int js ''userid'' = Some u)"
| "asks js (Quit g) = (js_int js ''groupid'' = Some g)"
| "asks js (Promote g u) = (js_int js ''groupid'' = Some g \<and> js_int js ''userid'' = Some u)"
| "asks js (Demote g u) = (js_int js ''groupid'' = Some g \<and> js_int js ''userid'' = Some u)"
| "asks js (Kick g u) = (js_int js ''groupid'' = Some g \<and> js_int js ''userid'' = Some u)"
| "asks js (Dissolve g) = (js_int js ''groupid'' = Some g)"

section \<open>The handlers implement them\<close>

lemma has_role_rank: "[] \<notin> set rs \<Longrightarrow> has_role d g u rs \<longleftrightarrow> rank d g u \<in> set rs"
  by (auto simp: has_role_def role_string_def split: option.split)

definition performed :: "('w \<Rightarrow> db) \<Rightarrow> nat \<Rightarrow> int \<Rightarrow> group_op \<Rightarrow> 'w svc \<Rightarrow> unit \<Rightarrow> 'w svc \<Rightarrow> bool" where
  "performed view conn me op s x s' \<longleftrightarrow>
     (view (world s'), m_groupUserListMap s') = performs me op (view (world s), m_groupUserListMap s) \<and>
     (\<exists>es. out s' = out s @ Send conn (message (reply_to (view (world s)) me op) []) # es)"

context reliable_services
begin

lemma said_runs:
  assumes "(view (world t), m_groupUserListMap t) = performs me op (view (world s), m_groupUserListMap s)"
    and "out t = out s" and "k = reply_to (view (world s)) me op"
  shows "runs (send conn (message k [])) t (performed view conn me op s) (\<lambda>_ _. False) (\<lambda>_. False)"
  by (rule runs_send) (use assms in \<open>simp add: performed_def\<close>)

lemma said_told_runs:
  assumes "(view (world t), m_groupUserListMap t) = performs me op (view (world s), m_groupUserListMap s)"
    and "out t = out s" and "k = reply_to (view (world s)) me op"
  shows "runs (andthen (send conn (message k [])) (send_to_user u js)) t (performed view conn me op s) (\<lambda>_ _. False) (\<lambda>_. False)"
  by (rule runs_andthen, rule runs_send, rule runs_send_to_user) (use assms in \<open>simp_all add: performed_def\<close>)

text \<open>A query that decides, then either a refusal or a statement and what follows it.\<close>

lemma decides:
  assumes "does view m (finds (\<lambda>d b. b = P d))" and "ready s"
    and "\<And>t. P (view (world s)) \<Longrightarrow> frame s t \<Longrightarrow> view (world t) = view (world s) \<Longrightarrow> ready t \<Longrightarrow>
      runs yes t Q (\<lambda>_ _. False) (\<lambda>_. False)"
    and "\<And>t. \<not> P (view (world s)) \<Longrightarrow> frame s t \<Longrightarrow> view (world t) = view (world s) \<Longrightarrow>
      runs no t Q (\<lambda>_ _. False) (\<lambda>_. False)"
  shows "runs (bnd m (\<lambda>b. if \<not> b then no else yes)) s Q (\<lambda>_ _. False) (\<lambda>_. False)"
  by (rule query_step [OF assms(1,2)]) (use assms(3,4) in auto)

lemmas op_defs = performs_def has_role_rank listed_def frame_svc set_role_def drop_member_def drop_group_def

lemma demote_runs:
  assumes "ready s" and "m_connUserMap s conn = Some me" and g: "js_int js ''groupid'' = Some g" and u: "js_int js ''userid'' = Some u"
  shows "runs (handleCancelManager E conn js t) s (performed view conn me (Demote g u) s) (\<lambda>_ _. False) (\<lambda>_. False)"
  unfolding handleCancelManager_def int_field_def g u lift_option_simps bnd_ret
proof (rule logged_user [OF assms(2)], rule decides [OF ifManager_sure assms(1)], goal_cases)
  case (1 t)
  show ?case
    by (rule update_step [OF modifyGroupRole_sure 1(4)], simp, rule said_runs) (use 1 in \<open>simp_all add: op_defs\<close>)
next
  case (2 t)
  show ?case by (rule said_runs) (use 2 in \<open>simp_all add: op_defs\<close>)
qed

lemma promote_runs:
  assumes "ready s" and "m_connUserMap s conn = Some me" and g: "js_int js ''groupid'' = Some g" and u: "js_int js ''userid'' = Some u"
  shows "runs (handleSetManager E conn js t) s (performed view conn me (Promote g u) s) (\<lambda>_ _. False) (\<lambda>_. False)"
  unfolding handleSetManager_def int_field_def g u lift_option_simps bnd_ret
proof (rule logged_user [OF assms(2)], rule query_step [OF queryGroupRole_sure assms(1)], rule runs_if, goal_cases)
  case (1 x t)
  then show ?case by - (rule said_runs, simp_all add: op_defs)
next
  case (2 x t)
  show ?case
    by (rule update_step [OF modifyGroupRole_sure 2(3)], simp, rule said_told_runs) (use 2 in \<open>simp_all add: op_defs\<close>)
qed

lemma dissolve_runs:
  assumes "ready s" and "m_connUserMap s conn = Some me" and g: "js_int js ''groupid'' = Some g"
  shows "runs (handleMasterDeleteGroup E conn js t) s (performed view conn me (Dissolve g) s) (\<lambda>_ _. False) (\<lambda>_. False)"
  unfolding handleMasterDeleteGroup_def int_field_def g lift_option_simps bnd_ret
proof (rule known_user [OF assms(2)], rule decides [OF ifMaster_sure assms(1)], goal_cases)
  case (1 t)
  show ?case
    by (rule runs_andthen, rule does_runs [OF deleteGroup_sure], rule runs_andthen, rule runs_modify, rule said_runs)
      (use 1 in \<open>auto simp: op_defs sure_def\<close>)
next
  case (2 t)
  show ?case by (rule said_runs) (use 2 in \<open>simp_all add: op_defs\<close>)
qed

lemma quit_runs:
  assumes "ready s" and "m_connUserMap s conn = Some me" and g: "js_int js ''groupid'' = Some g"
    and "m_groupUserListMap s g \<noteq> None"
  shows "runs (handleQuitGroup E conn js t) s (performed view conn me (Quit g) s) (\<lambda>_ _. False) (\<lambda>_. False)"
  unfolding handleQuitGroup_def int_field_def g lift_option_simps bnd_ret
proof (rule known_user [OF assms(2)], rule known_user [OF assms(2)], rule decides [OF ifManagerOrNormal_sure assms(1)], goal_cases)
  case (1 t)
  have step: "runs (andthen (find_erase_member g me) (send conn (message QUIT_GROUP_SUCCESS []))) t'
      (performed view conn me (Quit g) s) (\<lambda>_ _. False) (\<lambda>_. False)"
    if "frame t t'" "view (world t') = drop_member g me (view (world s))" for t'
    unfolding find_erase_member_def erase_member_def
    by (intro runs_andthen runs_bnd runs_reads runs_case_option runs_modify runs_halt said_runs)
      (use 1 that assms(4) in \<open>auto simp: op_defs\<close>)
  show ?case
    by (rule update_step [OF deleteGroupMember_sure 1(4)], simp, rule step) (use 1 in \<open>simp_all add: op_defs\<close>)
next
  case (2 t)
  show ?case by (rule said_runs) (use 2 in \<open>simp_all add: op_defs\<close>)
qed

lemma kick_runs:
  assumes "frame s t" and "view (world t) = view (world s)" and "ready t" and "permitted (view (world s)) me (Kick g u)"
  shows "runs (kick E conn g u) t (performed view conn me (Kick g u) s) (\<lambda>_ _. False) (\<lambda>_. False)"
  unfolding kick_def erase_member_def
  by (rule update_step [OF deleteGroupMember_sure assms(3)], simp, rule runs_andthen, rule runs_modify, rule said_told_runs)
    (use assms in \<open>auto simp: op_defs\<close>)

lemma handleKick_runs:
  assumes "ready s" and "m_connUserMap s conn = Some me" and g: "js_int js ''groupid'' = Some g" and u: "js_int js ''userid'' = Some u"
  shows "runs (handleKickSomeoneInGroup E conn js t) s (performed view conn me (Kick g u) s) (\<lambda>_ _. False) (\<lambda>_. False)"
  unfolding handleKickSomeoneInGroup_def int_field_def g u lift_option_simps bnd_ret
proof (rule logged_user [OF assms(2)], rule known_user [OF assms(2)], rule query_step [OF queryGroupRole_sure assms(1)],
    rule query_step [OF queryGroupRole_sure], assumption, goal_cases)
  case (1 x t1 y t2)
  then have t2: "frame s t2" "view (world t2) = view (world s)" "ready t2" and xy: "x = rank (view (world s)) g me" "y = rank (view (world s)) g u"
    by (auto intro: frame_trans)
  show ?case unfolding xy
    by (intro runs_if kick_runs [OF t2] said_runs) (use t2 in \<open>auto simp: op_defs\<close>)
qed

lemma grant_runs:
  assumes "ready s" and "m_connUserMap s conn = Some me" and g: "js_int js ''groupid'' = Some g" and u: "js_int js ''userid'' = Some u"
  shows "runs (handleAddSomeoneToGroup E conn js t) s (performed view conn me (Accept g u) s) (\<lambda>_ _. False) (\<lambda>_. False)"
  unfolding handleAddSomeoneToGroup_def int_field_def g u lift_option_simps bnd_ret
proof (rule logged_user [OF assms(2)], rule known_user [OF assms(2)], rule decides [OF ifMasterOrManager_sure assms(1)], goal_cases)
  case (1 t)
  show ?case unfolding push_member_def
    by (rule update_step [OF modifyGroupRole_sure 1(4)], simp, rule runs_andthen, rule runs_modify, rule runs_andthen, rule runs_send,
        rule known_user [where a = me], (use 1 assms(2) in \<open>simp add: op_defs\<close>)[1], rule runs_send_to_user)
      (use 1 in \<open>auto simp: op_defs performed_def\<close>)
next
  case (2 t)
  show ?case by (rule said_runs) (use 2 in \<open>simp_all add: op_defs\<close>)
qed

lemma response_runs:
  assumes "ready s"
  shows "runs (response_to_master_or_manager E g u) s (\<lambda>_ t. view (world t) = view (world s) \<and>
    m_groupUserListMap t = m_groupUserListMap s \<and> (\<exists>es. out t = out s @ es)) (\<lambda>_ _. False) (\<lambda>_. False)"
  unfolding response_to_master_or_manager_def
  by (rule query_step [OF queryGroupMember_sure assms], rule runs_for_each, rule runs_if, rule runs_send_to_user)
    (auto simp: frame_svc)

lemma ask_runs:
  assumes "ready s" and "m_connUserMap s conn = Some me" and g: "js_int js ''add_group_id'' = Some g"
  shows "runs (requestAddGroup E conn js t) s (performed view conn me (Ask g) s) (\<lambda>_ _. False) (\<lambda>_. False)"
  unfolding requestAddGroup_def int_field_def g lift_option_simps bnd_ret
proof (rule known_user [OF assms(2)], rule runs_bnd, rule does_runs [OF addGroup_sure], rule runs_if, goal_cases)
  case (1 ok t)
  have ready: "ready (t\<lparr>out := e\<rparr>)" for e using 1(1) assms(1) frame_ready by (auto simp: ready_def)
  show ?case
    by (rule runs_andthen, rule runs_send, rule runs_mono [OF response_runs [OF ready]])
      (use 1 in \<open>auto simp: sure_def performed_def op_defs split: option.splits if_splits\<close>)
next
  case (2 ok t)
  have role: "role_of (view (world s)) g me \<noteq> None" "view (world t) = view (world s)"
    using 2 by (auto simp: sure_def split: option.splits if_splits)
  show ?case
    by (rule query_step [OF ifMember_sure]; (rule runs_if)?; (rule said_runs)?)
      (use 2 role assms(1) in \<open>auto simp: op_defs frame_ready\<close>)
qed (simp add: assms(1))

end

text \<open>
  C18. The seven handlers that change a group implement the table of permissions: a request does what \<open>tables_after\<close> and
  \<open>lists_after\<close> say if it is permitted and nothing otherwise, to the tables and to the lists in memory alike, and
  the first message it sends is the answer that says which.
\<close>

theorem group_handlers_refine:
  assumes "reliable_services E view ci" and "ready s" and "m_connUserMap s conn = Some me" and "asks js op"
    and "\<forall>g. op = Quit g \<longrightarrow> m_groupUserListMap s g \<noteq> None"
  shows "\<exists>s' es. getHandler E (op_msg op) conn js t s = Done () s' \<and>
    (view (world s'), m_groupUserListMap s') = performs me op (view (world s), m_groupUserListMap s) \<and>
    out s' = out s @ Send conn (message (reply_to (view (world s)) me op) []) # es"
proof -
  note r = assms(1) and rs = assms(2,3)
  have "runs (getHandler E (op_msg op) conn js t) s (performed view conn me op s) (\<lambda>_ _. False) (\<lambda>_. False)"
    using assms(4,5)
    by (cases op) (simp_all add: getHandler_def m_handlersMap_def reliable_services.ask_runs [OF r rs] reliable_services.grant_runs [OF r rs]
      reliable_services.quit_runs [OF r rs] reliable_services.promote_runs [OF r rs] reliable_services.demote_runs [OF r rs]
      reliable_services.handleKick_runs [OF r rs] reliable_services.dissolve_runs [OF r rs])
  then show ?thesis by (auto simp: runs_returns performed_def)
qed

theorem group_handlers_refine_witness:
  "\<exists>s' es. getHandler ref_env ADD_GROUP 10 (message ADD_GROUP [(''groupid'', JInt 1), (''userid'', JInt 3)]) 0 sample = Done () s' \<and>
    role_of (world s') 1 3 = Some ''normal'' \<and> m_groupUserListMap s' 1 = Some [1, 2, 3] \<and>
    out s' = Send 10 (message ADD_GROUP_SUCCESS []) # es"
proof -
  let ?js = "message ADD_GROUP [(''groupid'', JInt 1), (''userid'', JInt 3)]"
  have js: "asks ?js (Accept 1 3)" unfolding asks.simps by code_simp
  have "m_connUserMap sample 10 = Some 1" by (simp add: sample_def)
  from group_handlers_refine [OF ref.reliable_services_axioms sample_ready this js, of 0] show ?thesis
    by (auto simp: performs_def sample_def sample_db_def role_string_def set_role_def listed_def)
qed

end
