(* ===== verification/Heartbeat.thy ===== *)
theory Heartbeat
  imports Friend_Behaviour
begin

text \<open>
  The sweep over the connections (\<open>checkIfConnAlive\<close>): what it does to the connections that have been silent since
  the sweep before, and to the others.
\<close>

text \<open>The user whom the sweep finds for a connection: number 0 for one that is not logged in.\<close>

definition user_at :: "'w svc \<Rightarrow> nat \<Rightarrow> int" where
  "user_at s c = (case m_connUserMap s c of None \<Rightarrow> 0 | Some u \<Rightarrow> u)"

definition offline_all :: "int set \<Rightarrow> db \<Rightarrow> db" where
  "offline_all I d = d\<lparr>t_user := map (\<lambda>(k, u). (k, if k \<in> I then u\<lparr>u_state := ''offline''\<rparr> else u)) (t_user d)\<rparr>"

definition closes :: "effect list \<Rightarrow> nat list" where
  "closes es = concat (map (\<lambda>e. case e of ForceClose c \<Rightarrow> [c] | _ \<Rightarrow> []) es)"

lemma closes_simps [simp]: "closes [] = []" "closes (Send c js # es) = closes es" "closes (ForceClose c # es) = c # closes es"
  "closes (es @ fs) = closes es @ closes fs"
  by (simp_all add: closes_def)

lemma offline_all_simps [simp]: "offline_all {} d = d" "offline_all I (offline_all J d) = offline_all (I \<union> J) d"
  "user_of (offline_all I d) k = None \<longleftrightarrow> user_of d k = None"
  by (auto simp: offline_all_def map_idI case_prod_beta' map_of_eq_None_iff image_image)

text \<open>The sessions without those of some connections.\<close>

definition without :: "nat list \<Rightarrow> int set \<Rightarrow> 'w svc \<Rightarrow> 'w svc \<Rightarrow> bool" where
  "without cs I s s' \<longleftrightarrow> m_connUserMap s' = m_connUserMap s |` (- set cs) \<and> m_userConnMap s' = m_userConnMap s |` (- I) \<and>
     m_connStatusMap s' = filter (\<lambda>(c, b). c \<notin> set cs) (m_connStatusMap s) \<and> m_groupUserListMap s' = m_groupUserListMap s"

definition swept :: "('w \<Rightarrow> db) \<Rightarrow> nat list \<Rightarrow> 'w svc \<Rightarrow> 'w svc \<Rightarrow> bool" where
  "swept view cs s s' \<longleftrightarrow> without cs (user_at s ` set cs) s s' \<and>
     view (world s') = offline_all (user_at s ` set cs) (view (world s)) \<and>
     (\<exists>es. out s' = out s @ es \<and> closes es = cs)"

lemma delete_filter: "AList.delete k al = filter (\<lambda>(c, b). c \<noteq> k) al"
  by (auto simp: AList.delete_eq intro!: filter_cong)

context reliable_services
begin

lemma set_offline_does:
  "does view (set_offline E i) (\<lambda>d x d'. user_of d (- 1) = None \<longrightarrow> d' = offline_all {i} d)"
  unfolding set_offline_def
proof (rule does_mono [OF does_bnd [OF query_id_sure does_drop [OF updateState_sure]]], goal_cases)
  case (1 d x d')
  have none: "map (\<lambda>(k', u). (k', if k' = - 1 then u\<lparr>u_state := ''offline''\<rparr> else u)) (t_user d) =
      map (\<lambda>(k, u). (k, if k \<in> {i} then u\<lparr>u_state := ''offline''\<rparr> else u)) (t_user d)"
    if "user_of d (- 1) = None" "user_of d i = None"
    using that by (intro map_cong refl) (force simp: map_of_eq_None_iff)
  from 1 show ?case
    by (auto simp: finds_def sure_def stored_user_def new_user_def offline_all_def user_record_def none split: option.splits)
qed

lemma drop_conn_runs:
  assumes "ready s" and "user_of (view (world s)) (- 1) = None"
  shows "runs (drop_conn E c) s (\<lambda>_ t. swept view [c] s t \<and> ready t) (\<lambda>_ _. False) (\<lambda>_. False)"
proof -
  have ret: "runs (set_offline E i) t (\<lambda>_ t'. swept view [c] s t' \<and> ready t') (\<lambda>_ _. False) (\<lambda>_. False)"
    if "ready t" "view (world t) = view (world s)" "i = user_at s c" "without [c] {i} s t" "\<exists>es. out t = out s @ es \<and> closes es = [c]" for i t
    by (rule does_runs [OF set_offline_does])
      (use that assms(2) in \<open>auto simp: swept_def without_def frame_svc frame_ready\<close>)
  show ?thesis unfolding drop_conn_def emit_def
    by (rule runs_bnd, rule runs_conn_user; rule runs_andthen, rule runs_send_to_user; rule runs_andthen, rule runs_modify,
        rule runs_andthen, rule runs_modify, rule ret)
      (use assms(1) in \<open>auto simp: ready_def user_at_def without_def delete_filter restrict_map_def fun_eq_iff\<close>)
qed

lemma drop_all_runs:
  assumes "ready s" and "user_of (view (world s)) (- 1) = None" and "distinct cs"
  shows "runs (for_each (drop_conn E) cs) s (\<lambda>_ t. swept view cs s t) (\<lambda>_ _. False) (\<lambda>_. False)"
  using assms
proof (induction cs arbitrary: s)
  case Nil
  then show ?case by (auto simp: swept_def without_def restrict_map_def simp del: ret_apply)
next
  case (Cons c cs)
  show ?case
  proof (simp only: for_each.simps, rule runs_andthen, rule runs_mono [OF drop_conn_runs [OF Cons.prems(1,2), of c]])
    fix x t
    assume t: "swept view [c] s t \<and> ready t"
    then have users: "user_at t c' = user_at s c'" if "c' \<in> set cs" for c'
      using that Cons.prems(3) by (cases "c' = c") (auto simp: swept_def without_def user_at_def)
    have "user_of (view (world t)) (- 1) = None" using t Cons.prems(2) by (simp add: swept_def)
    with Cons.IH [of t] t Cons.prems(3)
    have "runs (for_each (drop_conn E) cs) t (\<lambda>_ u. swept view cs t u) (\<lambda>_ _. False) (\<lambda>_. False)" by simp
    then show "runs (for_each (drop_conn E) cs) t (\<lambda>_ u. swept view (c # cs) s u) (\<lambda>_ _. False) (\<lambda>_. False)"
    proof (rule runs_mono)
      fix y u
      assume u: "swept view cs t u"
      have I: "user_at t ` set cs = user_at s ` set cs" using users by auto
      show "swept view (c # cs) s u" using t u unfolding swept_def without_def I
        by (auto simp: restrict_restrict Compl_Un [symmetric] conj_commute intro: arg_cong2 [of _ _ _ _ restrict_map] filter_cong)
    qed simp_all
  qed simp_all
qed

end

text \<open>
  C21. A sweep closes exactly the connections that have sent nothing since the sweep before, in the order of the map, each
  once; their users are offline in the table and out of both session maps; the other connections are marked as silent, to
  be closed by the next sweep unless something arrives first, and keep their sessions; no other table changes.
\<close>

theorem silent_connections_closed:
  assumes "reliable_services E view ci" and "ready s" and "distinct (map fst (m_connStatusMap s))"
    and "user_of (view (world s)) (- 1) = None"
  shows "\<exists>s' es. checkIfConnAlive E s = Done () s' \<and> out s' = out s @ es \<and>
    closes es = map fst (filter (\<lambda>(c, alive). \<not> alive) (m_connStatusMap s)) \<and>
    m_connStatusMap s' = map (\<lambda>(c, alive). (c, False)) (filter (\<lambda>(c, alive). alive) (m_connStatusMap s)) \<and>
    m_connUserMap s' = m_connUserMap s |` (- set (closes es)) \<and>
    m_userConnMap s' = m_userConnMap s |` (- (user_at s ` set (closes es))) \<and>
    m_groupUserListMap s' = m_groupUserListMap s \<and>
    view (world s') = (view (world s))\<lparr>t_user := map (\<lambda>(k, u). (k, if k \<in> user_at s ` set (closes es)
      then u\<lparr>u_state := ''offline''\<rparr> else u)) (t_user (view (world s)))\<rparr>"
proof -
  let ?al = "m_connStatusMap s" and ?cs = "silent_conns (m_connStatusMap s)"
  let ?s = "s\<lparr>m_connStatusMap := map (\<lambda>(c, alive). (c, False)) ?al\<rparr>"
  have "ready ?s" "user_of (view (world ?s)) (- 1) = None" using assms(2,4) by (simp_all add: ready_def)
  moreover have "distinct ?cs" using assms(3) by (simp add: silent_conns_def distinct_map_filter)
  ultimately obtain s' where s': "for_each (drop_conn E) ?cs ?s = Done () s'" "swept view ?cs ?s s'"
    using reliable_services.drop_all_runs [OF assms(1), of ?s ?cs] by (auto simp: runs_returns)
  have users: "user_at ?s ` set ?cs = user_at s ` set ?cs" by (simp add: user_at_def)
  have "filter (\<lambda>(c, b). c \<notin> set ?cs) (map (\<lambda>(c, alive). (c, False)) ?al) =
      map (\<lambda>(c, alive). (c, False)) (filter (\<lambda>(c, alive). c \<notin> set ?cs) ?al)"
    by (simp add: filter_map comp_def case_prod_beta')
  moreover have "filter (\<lambda>(c, alive). c \<notin> set ?cs) ?al = filter (\<lambda>(c, alive). alive) ?al"
    using assms(3) by (intro filter_cong refl) (force simp: silent_conns_def dest: eq_key_imp_eq_value)
  ultimately show ?thesis using s' users
    by (auto simp: checkIfConnAlive_def run swept_def without_def offline_all_def silent_conns_def)
qed

theorem silent_connections_closed_witness:
  "\<exists>s' es. checkIfConnAlive ref_env (sample\<lparr>m_connStatusMap := [(10, True), (20, False)]\<rparr>) = Done () s' \<and>
    out s' = es \<and> closes es = [20] \<and> m_connStatusMap s' = [(10, False)] \<and> m_connUserMap s' 20 = None \<and>
    m_userConnMap s' 2 = None \<and> m_userConnMap s' 1 = Some 10"
proof -
  let ?s = "sample\<lparr>m_connStatusMap := [(10, True), (20, False)]\<rparr>"
  have "ready ?s" "distinct (map fst (m_connStatusMap ?s))" "user_of (world ?s) (- 1) = None"
    by (simp_all add: ready_def sample_def sample_db_def)
  from silent_connections_closed [OF ref.reliable_services_axioms this] show ?thesis
    by (auto simp: sample_def user_at_def)
qed

end
