(* ===== verification/Resource_Behaviour.thy ===== *)
theory Resource_Behaviour
  imports Server_Properties Session_Behaviour
begin

text \<open>
  What the requests do with the pools of connections: each gives back what it took, except one, which can take
  the server down.
\<close>

definition pools_are :: "nat multiset \<Rightarrow> nat multiset \<Rightarrow> bool \<Rightarrow> 'w svc \<Rightarrow> bool" where
  "pools_are M R b s \<longleftrightarrow> mset (m_pool s) = M \<and> mset (redis_pool s) = R \<and> redis_ready s = b"

lemma pools_invariant:
  assumes "services E view ci"
  shows "server_invariant E view ci (pools_are M R b)"
  using assms by (intro server_invariant.intro handler_invariant.intro handler_invariant_axioms.intro server_invariant_axioms.intro)
    (auto simp: pools_are_def dest: frame_pools)

text \<open>The request for a new group.\<close>

definition lost_one :: "'w svc \<Rightarrow> 'w svc \<Rightarrow> bool" where
  "lost_one s s' \<longleftrightarrow> mset (redis_pool s') = mset (redis_pool s) \<and>
     (mset (m_pool s') = mset (m_pool s) \<or> (\<exists>c. mset (m_pool s) = add_mset c (mset (m_pool s'))))"

context services
begin

lemma createGroup_pools: "runs (handleCreateGroup E conn js time) s (\<lambda>_ s'. lost_one s s') (\<lambda>_ s'. lost_one s s') (\<lambda>_. True)"
  unfolding handleCreateGroup_def
proof (rule runs_bnd, rule runs_str_field, goal_cases)
  case 1
  then show ?case by (simp add: lost_one_def)
next
  case (2 name)
  have main: "runs (bnd (GroupModel_createGroup E (new_group\<lparr>g_name := name\<rparr>)) (\<lambda>(created, group). if created
      then bnd (GroupModel_addGroup E u (g_id group) ''master'') (\<lambda>_. andthen (push_member (g_id group) u)
        (send conn (message CREATE_GROUP_SUCCESS []))) else send conn (message CREATE_GROUP_FAIL []))) t
      (\<lambda>_ s'. lost_one s s') (\<lambda>_ s'. lost_one s s') (\<lambda>_. True)"
    if t: "m_pool t = m_pool s" "redis_pool t = redis_pool s" for u t
  proof (rule runs_bnd, rule createGroup_runs, goal_cases)
    case (1 i t1)
    have "runs (bnd (GroupModel_addGroup E u i ''master'') (\<lambda>_. andthen (push_member i u) (send conn (message CREATE_GROUP_SUCCESS [])))) t1
        (\<lambda>_ s'. lost_one s s') (\<lambda>_ s'. lost_one s s') (\<lambda>_. True)"
      by (rule runs_bnd, rule does_runs [OF addGroup_tried], unfold push_member_def, intro wp)
        (use 1(1) t in \<open>auto simp: lost_one_def dest!: frame_pools\<close>)
    then show ?case by simp
  next
    case (2 c q w)
    from queue_pool.take_Some [OF 2(1)] t show ?case by (auto simp: lost_one_def intro!: runs_send)
  qed simp_all
  show ?case by (rule runs_bnd, rule runs_conn_user) (auto intro!: main)
qed

end

text \<open>
  C38. Every request gives the connections it takes back to their pools, whatever MySQL and Redis answer and however
  the handler ends; the one exception is the request for a new group, which may keep one connection of MySQL.
\<close>

theorem connections_given_back:
  assumes "services E view ci" and "leaves (getHandler E msgid conn js time) s = Some s'"
  shows "mset (redis_pool s') = mset (redis_pool s) \<and>
    (mset (m_pool s') = mset (m_pool s) \<or> msgid = CREATE_GROUP \<and> (\<exists>c. mset (m_pool s) = add_mset c (mset (m_pool s'))))"
proof (cases "msgid = CREATE_GROUP")
  case False
  have "pools_are (mset (m_pool s)) (mset (redis_pool s)) (redis_ready s) s'"
    by (rule leaves_keeps [OF server_invariant.request_keeps [OF pools_invariant [OF assms(1)] False] _ assms(2)])
      (simp add: pools_are_def)
  then show ?thesis by (simp add: pools_are_def)
next
  case True
  then have "getHandler E msgid = handleCreateGroup E" by (simp add: getHandler_def m_handlersMap_def)
  with services.createGroup_pools [OF assms(1), of conn js time s] assms(2) show ?thesis
    using True by (auto simp: leaves_def runs_def lost_one_def split: outcome.splits)
qed

theorem connections_given_back_witness:
  "\<exists>s'. leaves (getHandler ref_env DISPLAY_FRIEND_LIST 10 (message DISPLAY_FRIEND_LIST []) 0) sample = Some s' \<and>
    mset (m_pool s') = {#0, 1#} \<and> mset (redis_pool s') = {#0, 1#}"
proof -
  let ?h = "getHandler ref_env DISPLAY_FRIEND_LIST 10 (message DISPLAY_FRIEND_LIST []) 0"
  have "leaves ?h sample \<noteq> None" by code_simp
  then have "leaves ?h sample = Some (after ?h sample)" by (rule after_leaves)
  with connections_given_back [OF ref.services_axioms this] show ?thesis by (auto simp: sample_def)
qed

text \<open>A name that is taken is refused, and the connection is gone.\<close>

definition refusal :: "nat \<Rightarrow> effect" where
  "refusal conn = Send conn (message CREATE_GROUP_FAIL [])"

context services
begin

lemma createGroup_refused:
  assumes "js_string js ''groupname'' = Some name" and "length (sql_create_group (new_group\<lparr>g_name := name\<rparr>)) < 1024" and "plain (c_str name)"
    and "m_connUserMap s conn = Some u" and "m_pool s = c # q" and "\<exists>(k, m) \<in> set (t_group (view (world s))). ci m = ci (c_str name)"
  obtains w where "handleCreateGroup E conn js time s = Done () (s\<lparr>m_pool := q, world := w, out := out s @ [refusal conn]\<rparr>)"
    and "view w = view (world s)"
proof -
  let ?g = "new_group\<lparr>g_name := name\<rparr>"
  let ?st = "InsertGroup (c_str name)"
  obtain ok w where ex: "mysql_exec E ?st (world s) = (ok, w)" by force
  have "\<not> ok"
  proof
    assume ok
    with ex exec_done [of ?st "world s" w] assms(6) show False by auto
  qed
  with ex have ex': "mysql_exec E ?st (world s) = (False, w)" and v: "view w = view (world s)"
    using exec_failed [of ?st "world s" w] by auto
  have "guarded (sql_create_group ?g) [c_str (g_name ?g)] k = k" for k :: "('w svc, bool \<times> group) prog"
    using assms(2,3) by (intro guarded_plain) simp_all
  then have "handleCreateGroup E conn js time s = Done () (s\<lparr>m_pool := q, world := w, out := out s @ [refusal conn]\<rparr>)"
    using assms(1,4,5) ex'
    by (simp add: handleCreateGroup_def str_field_def conn_user_def GroupModel_createGroup_def getConnection_def mysql_update_def
        send_def emit_def refusal_def run)
  then show ?thesis using v by (rule that)
qed

lemma createGroup_exhausts:
  assumes "js_string js ''groupname'' = Some name" and "length (sql_create_group (new_group\<lparr>g_name := name\<rparr>)) < 1024" and "plain (c_str name)"
    and "m_connUserMap s conn = Some u" and "\<exists>(k, m) \<in> set (t_group (view (world s))). ci m = ci (c_str name)"
  shows "\<exists>s'. for_each (handleCreateGroup E conn js) (replicate (length (m_pool s)) time) s = Done () s' \<and> m_pool s' = [] \<and>
    out s' = out s @ replicate (length (m_pool s)) (refusal conn)"
  using assms(4,5)
proof (induction "m_pool s" arbitrary: s)
  case (Cons c q)
  obtain w where w: "handleCreateGroup E conn js time s = Done () (s\<lparr>m_pool := q, world := w, out := out s @ [refusal conn]\<rparr>)"
    "view w = view (world s)"
    by (rule createGroup_refused [OF assms(1-3) Cons.prems(1) Cons.hyps(2) [symmetric] Cons.prems(2)])
  let ?s = "s\<lparr>m_pool := q, world := w, out := out s @ [refusal conn]\<rparr>"
  have "q = m_pool ?s" "m_connUserMap ?s conn = Some u" "\<exists>(k, m) \<in> set (t_group (view (world ?s))). ci m = ci (c_str name)"
    using Cons.prems w(2) by simp_all
  from Cons.hyps(1) [OF this] w(1) Cons.hyps(2) [symmetric] show ?case by (auto simp: run)
next
  case Nil
  then show ?case by (intro exI [of _ s]) (simp add: run)
qed

end



end
