(* ===== verification/Reactor.thy ===== *)
theory Reactor
  imports Prelude "HOL-Library.Word"
begin

text \<open>
  \<open>project/m_netlib/Net/Channel\<close> and \<open>EPoller\<close>: a channel says which events of a descriptor somebody
  wants to hear of, and the poller keeps the interest list of an \<open>epoll\<close> instance in line with the channels.

  Channels live in a heap, a pointer being a number; following one to a channel that is gone gets stuck.
  The kernel is a record \<open>'w sys\<close> of functions over an unknown state, \<open>interest\<close> the interest list in it, and
  \<open>epoll_kernel\<close> states what the manual says of \<open>epoll_ctl\<close> and \<open>epoll_wait\<close>.
\<close>

unbundle bit_operations_syntax

type_synonym poll_events = "32 word"

definition POLLIN :: poll_events where "POLLIN = 0x1"
definition POLLPRI :: poll_events where "POLLPRI = 0x2"
definition POLLOUT :: poll_events where "POLLOUT = 0x4"
definition POLLERR :: poll_events where "POLLERR = 0x8"
definition POLLHUP :: poll_events where "POLLHUP = 0x10"
definition POLLNVAL :: poll_events where "POLLNVAL = 0x20"
definition POLLRDHUP :: poll_events where "POLLRDHUP = 0x2000"

lemmas poll_bits = POLLIN_def POLLPRI_def POLLOUT_def POLLERR_def POLLHUP_def POLLNVAL_def POLLRDHUP_def

definition kNoneEvent :: poll_events where "kNoneEvent = 0"
definition kReadEvent :: poll_events where "kReadEvent = POLLIN OR POLLPRI"
definition kWriteEvent :: poll_events where "kWriteEvent = POLLOUT"

lemmas event_masks = kNoneEvent_def kReadEvent_def kWriteEvent_def

text \<open>The index of a channel with its poller.\<close>

definition kNew :: int where "kNew = -1"
definition kAdded :: int where "kAdded = 1"
definition kDeleted :: int where "kDeleted = 2"

lemmas indices = kNew_def kAdded_def kDeleted_def

record channel =
  m_fd :: nat
  m_events :: poll_events
  m_revents :: poll_events
  m_index :: int
  m_eventHandling :: bool

text \<open>The constructor does not set \<open>m_eventHandling\<close>, so its first value is whatever was there.\<close>

definition new_channel :: "bool \<Rightarrow> nat \<Rightarrow> channel" where
  "new_channel junk fd = \<lparr>m_fd = fd, m_events = 0, m_revents = 0, m_index = -1, m_eventHandling = junk\<rparr>"

definition isNoneEvent :: "channel \<Rightarrow> bool" where
  "isNoneEvent ch \<longleftrightarrow> m_events ch = kNoneEvent"

definition isWriting :: "channel \<Rightarrow> bool" where
  "isWriting ch \<longleftrightarrow> m_events ch AND kWriteEvent \<noteq> 0"

datatype epoll_op = EPOLL_CTL_ADD | EPOLL_CTL_MOD | EPOLL_CTL_DEL

record 'w sys =
  sys_epoll_ctl :: "epoll_op \<Rightarrow> nat \<Rightarrow> poll_events \<Rightarrow> nat \<Rightarrow> 'w \<Rightarrow> bool \<times> 'w"
  sys_epoll_wait :: "nat \<Rightarrow> 'w \<Rightarrow> (nat \<times> poll_events) list option \<times> 'w"
  sys_write :: "nat \<Rightarrow> string \<Rightarrow> 'w \<Rightarrow> nat option \<times> 'w"
  sys_now :: "'w \<Rightarrow> int \<times> 'w"

text \<open>
  \<open>owner\<close> is the thread the loop was created in (\<open>m_threadId\<close>) and \<open>thread\<close> the thread that runs;
  \<open>m_eventList\<close> is the size of the poller's array for the answers of \<open>epoll_wait\<close>.
\<close>

record 'w reactor =
  kernel :: 'w
  owner :: nat
  thread :: nat
  heap :: "nat \<Rightarrow> channel option"
  m_channels :: "nat \<Rightarrow> nat option"
  m_eventList :: nat
  m_activeChannels :: "nat list"

definition check :: "bool \<Rightarrow> ('s, unit) prog" where
  "check b = (if b then ret () else halt AssertFailed)"

definition isInLoopThread :: "('w, 'z) reactor_scheme \<Rightarrow> bool" where
  "isInLoopThread s \<longleftrightarrow> thread s = owner s"

text \<open>\<open>abortNotInLoopThread\<close> ends the process with \<open>exit(1)\<close>.\<close>

definition assertInLoopThread :: "(('w, 'z) reactor_scheme, unit) prog" where
  "assertInLoopThread = (\<lambda>s. if isInLoopThread s then Done () s else Throw ProcessExit s)"

definition the_channel :: "nat \<Rightarrow> (('w, 'z) reactor_scheme, channel) prog" where
  "the_channel c = (\<lambda>s. case heap s c of None \<Rightarrow> Stuck Dangling | Some ch \<Rightarrow> Done ch s)"

definition set_channel :: "nat \<Rightarrow> (channel \<Rightarrow> channel) \<Rightarrow> (('w, 'z) reactor_scheme, unit) prog" where
  "set_channel c f = bnd (the_channel c) (\<lambda>ch. modify (\<lambda>s. s\<lparr>heap := (heap s)(c \<mapsto> f ch)\<rparr>))"

section \<open>EPoller\<close>

text \<open>A refused \<open>epoll_ctl\<close> is only logged; \<open>LogFatal\<close> does not end the process.\<close>

definition EPoller_update :: "'w sys \<Rightarrow> epoll_op \<Rightarrow> nat \<Rightarrow> (('w, 'z) reactor_scheme, unit) prog" where
  "EPoller_update S op c = bnd (the_channel c) (\<lambda>ch.
     modify (\<lambda>s. s\<lparr>kernel := snd (sys_epoll_ctl S op (m_fd ch) (m_events ch) c (kernel s))\<rparr>))"

definition EPoller_updateChannel :: "'w sys \<Rightarrow> nat \<Rightarrow> (('w, 'z) reactor_scheme, unit) prog" where
  "EPoller_updateChannel S c =
     andthen assertInLoopThread
     (bnd (the_channel c) (\<lambda>ch.
      bnd (reads (\<lambda>s. m_channels s (m_fd ch))) (\<lambda>found.
      if m_index ch = kNew \<or> m_index ch = kDeleted then
        andthen (if m_index ch = kNew
           then andthen (check (found = None)) (modify (\<lambda>s. s\<lparr>m_channels := (m_channels s)(m_fd ch \<mapsto> c)\<rparr>))
           else andthen (check (found \<noteq> None)) (check (found = Some c)))
        (andthen (set_channel c (\<lambda>ch. ch\<lparr>m_index := kAdded\<rparr>))
        (EPoller_update S EPOLL_CTL_ADD c))
      else
        andthen (check (found \<noteq> None))
        (andthen (check (found = Some c))
        (andthen (check (m_index ch = kAdded))
        (if isNoneEvent ch
         then andthen (EPoller_update S EPOLL_CTL_DEL c) (set_channel c (\<lambda>ch. ch\<lparr>m_index := kDeleted\<rparr>))
         else EPoller_update S EPOLL_CTL_MOD c))))))"

definition EPoller_removeChannel :: "'w sys \<Rightarrow> nat \<Rightarrow> (('w, 'z) reactor_scheme, unit) prog" where
  "EPoller_removeChannel S c =
     andthen assertInLoopThread
     (bnd (the_channel c) (\<lambda>ch.
      bnd (reads (\<lambda>s. m_channels s (m_fd ch))) (\<lambda>found.
      andthen (check (found \<noteq> None))
      (andthen (check (found = Some c))
      (andthen (check (isNoneEvent ch))
      (andthen (check (m_index ch = kAdded \<or> m_index ch = kDeleted))
      (andthen (modify (\<lambda>s. s\<lparr>m_channels := (m_channels s)(m_fd ch := None)\<rparr>))
      (andthen (if m_index ch = kAdded then EPoller_update S EPOLL_CTL_DEL c else ret ())
      (set_channel c (\<lambda>ch. ch\<lparr>m_index := kNew\<rparr>))))))))))"

text \<open>The pointer in an answer of \<open>epoll_wait\<close> is followed to mark the channel.\<close>

definition fillActiveChannels :: "(nat \<times> poll_events) list \<Rightarrow> (('w, 'z) reactor_scheme, unit) prog" where
  "fillActiveChannels evs = for_each (\<lambda>(c, ev).
     andthen (set_channel c (\<lambda>ch. ch\<lparr>m_revents := ev\<rparr>))
     (modify (\<lambda>s. s\<lparr>m_activeChannels := m_activeChannels s @ [c]\<rparr>))) evs"

definition epoll_wait :: "'w sys \<Rightarrow> (('w, 'z) reactor_scheme, (nat \<times> poll_events) list option) prog" where
  "epoll_wait S = (\<lambda>s. case sys_epoll_wait S (m_eventList s) (kernel s) of (r, w) \<Rightarrow> Done r (s\<lparr>kernel := w\<rparr>))"

definition now :: "'w sys \<Rightarrow> (('w, 'z) reactor_scheme, int) prog" where
  "now S = (\<lambda>s. case sys_now S (kernel s) of (t, w) \<Rightarrow> Done t (s\<lparr>kernel := w\<rparr>))"

definition EPoller_poll :: "'w sys \<Rightarrow> (('w, 'z) reactor_scheme, int) prog" where
  "EPoller_poll S = bnd (epoll_wait S) (\<lambda>r. bnd (now S) (\<lambda>t.
     andthen (case r of None \<Rightarrow> ret ()
       | Some [] \<Rightarrow> ret ()
       | Some evs \<Rightarrow> bnd (reads m_eventList) (\<lambda>n.
           andthen (check (length evs \<le> n))
           (andthen (fillActiveChannels evs)
           (if length evs = n then modify (\<lambda>s. s\<lparr>m_eventList := n * 2\<rparr>) else ret ()))))
     (ret t)))"

definition kInitEventListSize :: nat where
  "kInitEventListSize = 16"

section \<open>Channel\<close>

definition Channel_update :: "'w sys \<Rightarrow> nat \<Rightarrow> (('w, 'z) reactor_scheme, unit) prog" where
  "Channel_update S c = andthen assertInLoopThread (EPoller_updateChannel S c)"

definition enableReading :: "'w sys \<Rightarrow> nat \<Rightarrow> (('w, 'z) reactor_scheme, unit) prog" where
  "enableReading S c = andthen (set_channel c (\<lambda>ch. ch\<lparr>m_events := m_events ch OR kReadEvent\<rparr>)) (Channel_update S c)"

definition enableWriting :: "'w sys \<Rightarrow> nat \<Rightarrow> (('w, 'z) reactor_scheme, unit) prog" where
  "enableWriting S c = andthen (set_channel c (\<lambda>ch. ch\<lparr>m_events := m_events ch OR kWriteEvent\<rparr>)) (Channel_update S c)"

definition disableWriting :: "'w sys \<Rightarrow> nat \<Rightarrow> (('w, 'z) reactor_scheme, unit) prog" where
  "disableWriting S c = andthen (set_channel c (\<lambda>ch. ch\<lparr>m_events := m_events ch AND NOT kWriteEvent\<rparr>)) (Channel_update S c)"

definition disableAll :: "'w sys \<Rightarrow> nat \<Rightarrow> (('w, 'z) reactor_scheme, unit) prog" where
  "disableAll S c = andthen (set_channel c (\<lambda>ch. ch\<lparr>m_events := kNoneEvent\<rparr>)) (Channel_update S c)"

definition removeChannel :: "'w sys \<Rightarrow> nat \<Rightarrow> (('w, 'z) reactor_scheme, unit) prog" where
  "removeChannel S c = andthen assertInLoopThread (EPoller_removeChannel S c)"

text \<open>The destructor.\<close>

definition delete_channel :: "nat \<Rightarrow> (('w, 'z) reactor_scheme, unit) prog" where
  "delete_channel c = bnd (the_channel c) (\<lambda>ch. andthen (check (\<not> m_eventHandling ch))
     (modify (\<lambda>s. s\<lparr>heap := (heap s)(c := None)\<rparr>)))"

datatype callback = CloseCallback | ErrorCallback | ReadCallback | WriteCallback

text \<open>
  \<open>handleEvent\<close>: each test reads \<open>m_revents\<close> anew, after what the callbacks before it did.  \<open>call c k\<close> runs
  the callback of kind \<open>k\<close> that was set for the channel, if there is one.
\<close>

definition wants :: "callback \<Rightarrow> poll_events \<Rightarrow> bool" where
  "wants k r = (case k of
     CloseCallback \<Rightarrow> r AND POLLHUP \<noteq> 0 \<and> r AND POLLIN = 0
   | ErrorCallback \<Rightarrow> r AND (POLLERR OR POLLNVAL) \<noteq> 0
   | ReadCallback \<Rightarrow> r AND (POLLIN OR POLLPRI OR POLLRDHUP) \<noteq> 0
   | WriteCallback \<Rightarrow> r AND POLLOUT \<noteq> 0)"

definition handleEvent :: "(nat \<Rightarrow> callback \<Rightarrow> (('w, 'z) reactor_scheme, unit) prog) \<Rightarrow> nat \<Rightarrow>
    (('w, 'z) reactor_scheme, unit) prog" where
  "handleEvent call c =
     andthen (set_channel c (\<lambda>ch. ch\<lparr>m_eventHandling := True\<rparr>))
     (andthen (for_each (\<lambda>k. bnd (the_channel c) (\<lambda>ch. if wants k (m_revents ch) then call c k else ret ()))
        [CloseCallback, ErrorCallback, ReadCallback, WriteCallback])
     (set_channel c (\<lambda>ch. ch\<lparr>m_eventHandling := False\<rparr>)))"

end
