(* ===== verification/Reactor_Invariant.thy ===== *)
theory Reactor_Invariant
  imports Reactor
begin

text \<open>
  The interest list of the kernel follows the channels.  \<open>epoll_kernel\<close> is the contract of the kernel,
  \<open>reactor_ok\<close> the invariant of poller and channels; each operation of \<open>Channel\<close> and \<open>EPoller\<close>
  returns, no assertion failing, and keeps it.
\<close>

section \<open>The kernel\<close>

fun epoll_effect :: "epoll_op \<Rightarrow> nat \<Rightarrow> poll_events \<Rightarrow> nat \<Rightarrow> (nat \<Rightarrow> (poll_events \<times> nat) option) \<Rightarrow>
    (nat \<Rightarrow> (poll_events \<times> nat) option) option" where
  "epoll_effect EPOLL_CTL_ADD fd ev p m = (if m fd = None then Some (m(fd \<mapsto> (ev, p))) else None)"
| "epoll_effect EPOLL_CTL_MOD fd ev p m = (if m fd = None then None else Some (m(fd \<mapsto> (ev, p))))"
| "epoll_effect EPOLL_CTL_DEL fd ev p m = (if m fd = None then None else Some (m(fd := None)))"

text \<open>An answer of \<open>epoll_wait\<close> is about a descriptor of the list: events asked for, errors and hang-ups.\<close>

definition reported :: "(nat \<Rightarrow> (poll_events \<times> nat) option) \<Rightarrow> nat \<times> poll_events \<Rightarrow> bool" where
  "reported m a \<longleftrightarrow> (\<exists>fd e. m fd = Some (e, fst a) \<and> snd a AND NOT (e OR POLLERR OR POLLHUP) = 0)"

locale epoll_kernel =
  fixes S :: "'w sys" and interest :: "'w \<Rightarrow> nat \<Rightarrow> (poll_events \<times> nat) option"
  assumes ctl: "interest (snd (sys_epoll_ctl S op fd ev p w)) =
      (case epoll_effect op fd ev p (interest w) of None \<Rightarrow> interest w | Some m \<Rightarrow> m)"
    and wait_interest: "interest (snd (sys_epoll_wait S n w)) = interest w"
    and wait_answers: "sys_epoll_wait S n w = (Some evs, w') \<Longrightarrow> length evs \<le> n \<and> list_all (reported (interest w)) evs"
    and write_bound: "sys_write S fd data w = (Some n, w') \<Longrightarrow> n \<le> length data"
    and write_interest: "interest (snd (sys_write S fd data w)) = interest w"
    and now_interest: "interest (snd (sys_now S w)) = interest w"

section \<open>The invariant\<close>

definition watched :: "('w, 'z) reactor_scheme \<Rightarrow> nat \<Rightarrow> (poll_events \<times> nat) option" where
  "watched s fd = (case m_channels s fd of None \<Rightarrow> None | Some c \<Rightarrow>
     (case heap s c of None \<Rightarrow> None | Some ch \<Rightarrow> if m_index ch = kAdded then Some (m_events ch, c) else None))"

definition registered :: "channel \<Rightarrow> bool" where
  "registered ch \<longleftrightarrow> m_index ch = kAdded \<or> m_index ch = kDeleted"

definition reactor_ok :: "('w \<Rightarrow> nat \<Rightarrow> (poll_events \<times> nat) option) \<Rightarrow> ('w, 'z) reactor_scheme \<Rightarrow> bool" where
  "reactor_ok interest s \<longleftrightarrow>
     (\<forall>fd c. m_channels s fd = Some c \<longrightarrow> (\<exists>ch. heap s c = Some ch \<and> m_fd ch = fd \<and> registered ch)) \<and>
     (\<forall>c ch. heap s c = Some ch \<longrightarrow> m_index ch = kNew \<or> registered ch \<and> m_channels s (m_fd ch) = Some c) \<and>
     interest (kernel s) = watched s"

lemma reactor_okD:
  assumes "reactor_ok interest s"
  shows "m_channels s fd = Some c \<Longrightarrow> \<exists>ch. heap s c = Some ch \<and> m_fd ch = fd \<and> registered ch"
    and "heap s c = Some ch \<Longrightarrow> m_index ch = kNew \<or> registered ch \<and> m_channels s (m_fd ch) = Some c"
    and "interest (kernel s) = watched s"
  using assms by (auto simp: reactor_ok_def)

text \<open>Channels that are not registered, and the state beyond the reactor, do not matter.\<close>

lemma watched_cong: "heap t = heap s \<Longrightarrow> m_channels t = m_channels s \<Longrightarrow> watched t = watched s"
  by (rule ext) (simp add: watched_def cong: option.case_cong)

lemma reactor_ok_cong:
  "reactor_ok interest s \<Longrightarrow> heap t = heap s \<Longrightarrow> m_channels t = m_channels s \<Longrightarrow>
    interest (kernel t) = interest (kernel s) \<Longrightarrow> reactor_ok interest t"
  by (simp add: reactor_ok_def watched_cong [of t s])

section \<open>The operations\<close>

lemma check_apply [run]: "check b s = (if b then Done () s else Stuck AssertFailed)"
  by (simp add: check_def)

lemma the_channel_apply [run]: "heap s c = Some ch \<Longrightarrow> the_channel c s = Done ch s"
  by (simp add: the_channel_def)

lemma set_channel_apply [run]: "heap s c = Some ch \<Longrightarrow>
    set_channel c f s = Done () (s\<lparr>heap := (heap s)(c \<mapsto> f ch)\<rparr>)"
  by (simp add: set_channel_def run)

lemma assertInLoopThread_apply [run]: "isInLoopThread s \<Longrightarrow> assertInLoopThread s = Done () s"
  by (simp add: assertInLoopThread_def)

lemma isInLoopThread_cong [simp]:
  "isInLoopThread (s\<lparr>heap := h\<rparr>) = isInLoopThread s" "isInLoopThread (s\<lparr>m_channels := m\<rparr>) = isInLoopThread s"
  "isInLoopThread (s\<lparr>kernel := w\<rparr>) = isInLoopThread s"
  by (simp_all add: isInLoopThread_def)

lemma EPoller_update_apply [run]: "heap s c = Some ch \<Longrightarrow> EPoller_update S op c s =
    Done () (s\<lparr>kernel := snd (sys_epoll_ctl S op (m_fd ch) (m_events ch) c (kernel s))\<rparr>)"
  by (simp add: EPoller_update_def run)

lemma reactor_swap [run]:
  "s\<lparr>m_channels := m, heap := h\<rparr> = s\<lparr>heap := h, m_channels := m\<rparr>"
  "s\<lparr>kernel := w, heap := h\<rparr> = s\<lparr>heap := h, kernel := w\<rparr>"
  "s\<lparr>kernel := w, m_channels := m\<rparr> = s\<lparr>m_channels := m, kernel := w\<rparr>"
  by (cases s, simp)+

text \<open>The four operations that change the wanted events, in one.\<close>

definition change_events :: "'w sys \<Rightarrow> (poll_events \<Rightarrow> poll_events) \<Rightarrow> nat \<Rightarrow> (('w, 'z) reactor_scheme, unit) prog" where
  "change_events S f c = andthen (set_channel c (\<lambda>ch. ch\<lparr>m_events := f (m_events ch)\<rparr>)) (Channel_update S c)"

lemma channel_ops:
  "enableReading S c = change_events S (\<lambda>e. e OR kReadEvent) c"
  "enableWriting S c = change_events S (\<lambda>e. e OR kWriteEvent) c"
  "disableWriting S c = change_events S (\<lambda>e. e AND NOT kWriteEvent) c"
  "disableAll S c = change_events S (\<lambda>e. kNoneEvent) c"
  by (simp_all add: enableReading_def enableWriting_def disableWriting_def disableAll_def change_events_def)

text \<open>The channel afterwards: a deleted channel is added again even when it wants nothing.\<close>

definition changed :: "(poll_events \<Rightarrow> poll_events) \<Rightarrow> channel \<Rightarrow> channel" where
  "changed f ch = ch\<lparr>m_events := f (m_events ch),
     m_index := (if m_index ch = kAdded \<and> f (m_events ch) = kNoneEvent then kDeleted else kAdded)\<rparr>"

lemma changed_simps [simp]:
  "m_fd (changed f ch) = m_fd ch" "m_events (changed f ch) = f (m_events ch)" "m_revents (changed f ch) = m_revents ch"
  "m_eventHandling (changed f ch) = m_eventHandling ch" "registered (changed f ch)"
  by (simp_all add: changed_def registered_def)

definition with_channel :: "nat \<Rightarrow> channel \<Rightarrow> 'w \<Rightarrow> ('w, 'z) reactor_scheme \<Rightarrow> ('w, 'z) reactor_scheme" where
  "with_channel c ch w s = s\<lparr>heap := (heap s)(c \<mapsto> ch), m_channels := (m_channels s)(m_fd ch \<mapsto> c), kernel := w\<rparr>"

context epoll_kernel
begin

lemma ctl_watched: "interest w = m \<Longrightarrow> interest (snd (sys_epoll_ctl S op fd ev p w)) =
    (case epoll_effect op fd ev p m of None \<Rightarrow> m | Some m' \<Rightarrow> m')"
  by (auto simp: ctl split: option.split)

lemma change_events_run:
  assumes ok: "reactor_ok interest s" and "isInLoopThread s" and c: "heap s c = Some ch"
    and new: "m_index ch = kNew \<Longrightarrow> m_channels s (m_fd ch) = None"
  shows "\<exists>w. change_events S f c s = Done () (with_channel c (changed f ch) w s) \<and>
    interest w = (watched s)(m_fd ch := if m_index (changed f ch) = kAdded then Some (f (m_events ch), c) else None)"
proof -
  let ?w = "\<lambda>op. snd (sys_epoll_ctl S op (m_fd ch) (f (m_events ch)) c (kernel s))"
  note found = reactor_okD(2) [OF ok c]
  from ok have i: "interest (kernel s) = watched s" by (rule reactor_okD)
  consider (New) "m_index ch = kNew" "m_channels s (m_fd ch) = None"
    | (Deleted) "m_index ch = kDeleted" "m_channels s (m_fd ch) = Some c"
    | (Added) "m_index ch = kAdded" "m_channels s (m_fd ch) = Some c"
    using found new by (auto simp: registered_def)
  then show ?thesis
  proof cases
    case New
    then have "watched s (m_fd ch) = None" by (simp add: watched_def)
    with New c assms(2) show ?thesis
      by (intro exI [of _ "?w EPOLL_CTL_ADD"]) (simp add: change_events_def Channel_update_def EPoller_updateChannel_def run with_channel_def changed_def
          ctl_watched [OF i] indices)
  next
    case Deleted
    then have "watched s (m_fd ch) = None" using c by (simp add: watched_def indices)
    with Deleted c assms(2) show ?thesis
      by (intro exI [of _ "?w EPOLL_CTL_ADD"]) (simp add: change_events_def Channel_update_def EPoller_updateChannel_def run with_channel_def changed_def
          ctl_watched [OF i] indices fun_upd_idem)
  next
    case Added
    then have "watched s (m_fd ch) = Some (m_events ch, c)" using c by (simp add: watched_def)
    moreover have same: "ch\<lparr>m_events := x, m_index := 1\<rparr> = ch\<lparr>m_events := x\<rparr>" for x
      using Added by (cases ch) (simp add: indices)
    ultimately show ?thesis using Added c assms(2)
      by (intro exI [of _ "?w (if f (m_events ch) = 0 then EPOLL_CTL_DEL else EPOLL_CTL_MOD)"]) (simp add: change_events_def Channel_update_def EPoller_updateChannel_def run with_channel_def changed_def
          ctl_watched [OF i] indices isNoneEvent_def kNoneEvent_def fun_upd_idem same)
  qed
qed

lemma with_channel_ok:
  assumes ok: "reactor_ok interest s" and c: "heap s c = Some ch"
    and new: "m_index ch = kNew \<Longrightarrow> m_channels s (m_fd ch) = None"
    and i: "interest w = (watched s)(m_fd ch := if m_index (changed f ch) = kAdded then Some (f (m_events ch), c) else None)"
  shows "reactor_ok interest (with_channel c (changed f ch) w s)"
proof -
  have other: "m_channels s fd \<noteq> Some c" if "fd \<noteq> m_fd ch" for fd
    using that reactor_okD(1) [OF ok] c by fastforce
  show ?thesis unfolding reactor_ok_def
  proof (intro conjI allI impI)
    fix fd d assume "m_channels (with_channel c (changed f ch) w s) fd = Some d"
    then show "\<exists>ch'. heap (with_channel c (changed f ch) w s) d = Some ch' \<and> m_fd ch' = fd \<and> registered ch'"
      using other reactor_okD(1) [OF ok] by (auto simp: with_channel_def split: if_splits)
  next
    fix d ch' assume d: "heap (with_channel c (changed f ch) w s) d = Some ch'"
    show "m_index ch' = kNew \<or> registered ch' \<and> m_channels (with_channel c (changed f ch) w s) (m_fd ch') = Some d"
    proof (cases "d = c")
      case True
      with d show ?thesis by (auto simp: with_channel_def)
    next
      case False
      with d have "heap s d = Some ch'" by (simp add: with_channel_def)
      from reactor_okD(2) [OF ok this] reactor_okD(2) [OF ok c] new False show ?thesis
        by (auto simp: with_channel_def registered_def)
    qed
  next
    show "interest (kernel (with_channel c (changed f ch) w s)) = watched (with_channel c (changed f ch) w s)"
    proof
      fix fd
      from other [of fd] show "interest (kernel (with_channel c (changed f ch) w s)) fd = watched (with_channel c (changed f ch) w s) fd"
        by (auto simp: with_channel_def i watched_def split: option.splits)
    qed
  qed
qed

lemma change_events_ok:
  assumes "reactor_ok interest s" and "isInLoopThread s" and "heap s c = Some ch"
    and "m_index ch = kNew \<Longrightarrow> m_channels s (m_fd ch) = None"
  obtains w where "change_events S f c s = Done () (with_channel c (changed f ch) w s)"
    and "reactor_ok interest (with_channel c (changed f ch) w s)"
  using change_events_run [OF assms] with_channel_ok [OF assms(1,3,4)] by blast

text \<open>Taking a channel out of the poller.\<close>

lemma removeChannel_run:
  assumes ok: "reactor_ok interest s" and "isInLoopThread s" and c: "heap s c = Some ch"
    and "registered ch" and "isNoneEvent ch"
  shows "\<exists>w. removeChannel S c s = Done () (s\<lparr>heap := (heap s)(c \<mapsto> ch\<lparr>m_index := kNew\<rparr>),
      m_channels := (m_channels s)(m_fd ch := None), kernel := w\<rparr>) \<and> interest w = (watched s)(m_fd ch := None)"
proof -
  from reactor_okD(2) [OF ok c] assms(4) have found: "m_channels s (m_fd ch) = Some c" by (auto simp: registered_def indices)
  from ok have i: "interest (kernel s) = watched s" by (rule reactor_okD)
  let ?w = "snd (sys_epoll_ctl S EPOLL_CTL_DEL (m_fd ch) (m_events ch) c (kernel s))"
  show ?thesis
  proof (cases "m_index ch = kAdded")
    case True
    with c found have "watched s (m_fd ch) = Some (m_events ch, c)" by (simp add: watched_def)
    with True c found assms(2,5) show ?thesis
      by (intro exI [of _ ?w]) (simp add: removeChannel_def EPoller_removeChannel_def run ctl_watched [OF i])
  next
    case False
    with assms(4) have "m_index ch = kDeleted" by (simp add: registered_def)
    moreover from False c found have "(watched s)(m_fd ch := None) = watched s"
      by (intro fun_upd_idem) (simp add: watched_def)
    ultimately show ?thesis using False c found assms(2,5) i
      by (intro exI [of _ "kernel s"]) (simp add: removeChannel_def EPoller_removeChannel_def run indices)
  qed
qed

lemma removed_ok:
  assumes ok: "reactor_ok interest s" and c: "heap s c = Some ch" and "registered ch"
    and i: "interest w = (watched s)(m_fd ch := None)"
  shows "reactor_ok interest (s\<lparr>heap := (heap s)(c \<mapsto> ch\<lparr>m_index := kNew\<rparr>),
    m_channels := (m_channels s)(m_fd ch := None), kernel := w\<rparr>)" (is "reactor_ok interest ?t")
proof -
  from reactor_okD(2) [OF ok c] assms(3) have found: "m_channels s (m_fd ch) = Some c" by (auto simp: registered_def indices)
  have other: "m_channels s fd \<noteq> Some c" if "fd \<noteq> m_fd ch" for fd
    using that reactor_okD(1) [OF ok] c by fastforce
  show ?thesis unfolding reactor_ok_def
  proof (intro conjI allI impI)
    fix fd d assume "m_channels ?t fd = Some d"
    then have d: "m_channels s fd = Some d" "fd \<noteq> m_fd ch" by (auto split: if_splits)
    with other have "d \<noteq> c" by blast
    with reactor_okD(1) [OF ok d(1)] show "\<exists>ch'. heap ?t d = Some ch' \<and> m_fd ch' = fd \<and> registered ch'" by simp
  next
    fix d ch' assume d: "heap ?t d = Some ch'"
    show "m_index ch' = kNew \<or> registered ch' \<and> m_channels ?t (m_fd ch') = Some d"
    proof (cases "d = c")
      case False
      with d reactor_okD(2) [OF ok, of d ch'] found show ?thesis by auto
    qed (use d in auto)
  next
    show "interest (kernel ?t) = watched ?t"
    proof
      fix fd from other [of fd] show "interest (kernel ?t) fd = watched ?t fd"
        by (auto simp: i watched_def split: option.splits)
    qed
  qed
qed

end

text \<open>Changes of a channel the poller does not see.\<close>

lemma same_channel_ok:
  assumes "reactor_ok interest s" and "heap s c = Some ch"
    and "m_fd ch' = m_fd ch" "m_events ch' = m_events ch" "m_index ch' = m_index ch"
  shows "reactor_ok interest (s\<lparr>heap := (heap s)(c \<mapsto> ch')\<rparr>)" and "watched (s\<lparr>heap := (heap s)(c \<mapsto> ch')\<rparr>) = watched s"
proof -
  show w: "watched (s\<lparr>heap := (heap s)(c \<mapsto> ch')\<rparr>) = watched s"
    using assms(2-) by (auto simp: watched_def fun_eq_iff split: option.splits)
  have r: "registered ch' = registered ch" using assms(5) by (simp add: registered_def)
  have c: "m_fd ch = x \<and> registered ch" if "m_channels s x = Some c" for x
    using reactor_okD(1) [OF assms(1) that] assms(2) by auto
  from assms(1) show "reactor_ok interest (s\<lparr>heap := (heap s)(c \<mapsto> ch')\<rparr>)"
    unfolding reactor_ok_def w by (auto simp: assms r dest: c)
qed

text \<open>A new channel, and the end of one that was never registered or has been removed.\<close>

lemma new_channel_ok:
  assumes "reactor_ok interest s" and "heap s c = None"
  shows "reactor_ok interest (s\<lparr>heap := (heap s)(c \<mapsto> new_channel junk fd)\<rparr>)"
proof -
  have other: "m_channels s x \<noteq> Some c" for x using reactor_okD(1) [OF assms(1)] assms(2) by fastforce
  then have "watched (s\<lparr>heap := (heap s)(c \<mapsto> new_channel junk fd)\<rparr>) = watched s"
    by (auto simp: watched_def fun_eq_iff split: option.splits)
  with assms other show ?thesis by (auto simp: reactor_ok_def new_channel_def kNew_def)
qed

lemma deleted_channel_ok:
  assumes "reactor_ok interest s" and "heap s c = Some ch" and "m_index ch = kNew"
  shows "reactor_ok interest (s\<lparr>heap := (heap s)(c := None)\<rparr>)"
proof -
  have other: "m_channels s x \<noteq> Some c" for x
    using reactor_okD(1) [OF assms(1)] assms(2,3) by (fastforce simp: registered_def indices)
  then have "watched (s\<lparr>heap := (heap s)(c := None)\<rparr>) = watched s"
    by (auto simp: watched_def fun_eq_iff split: option.splits)
  with assms other show ?thesis by (auto simp: reactor_ok_def)
qed

section \<open>Polling\<close>

text \<open>
  The channels \<open>poll\<close> hands to the loop are live and registered, and are told of events they asked for,
  errors and hang-ups only.
\<close>

definition told_ok :: "channel \<Rightarrow> bool" where
  "told_ok ch \<longleftrightarrow> registered ch \<and> m_revents ch AND NOT (m_events ch OR POLLERR OR POLLHUP) = 0"

definition active_ok :: "('w, 'z) reactor_scheme \<Rightarrow> bool" where
  "active_ok s \<longleftrightarrow> list_all (\<lambda>c. \<exists>ch. heap s c = Some ch \<and> told_ok ch) (m_activeChannels s)"

definition same_reactor :: "('w, 'z) reactor_scheme \<Rightarrow> ('w, 'z) reactor_scheme \<Rightarrow> bool" where
  "same_reactor s t \<longleftrightarrow> m_channels t = m_channels s \<and> watched t = watched s \<and>
     (\<forall>c. map_option (\<lambda>ch. ch\<lparr>m_revents := 0\<rparr>) (heap t c) = map_option (\<lambda>ch. ch\<lparr>m_revents := 0\<rparr>) (heap s c))"

lemma fillActiveChannels_runs:
  assumes "reactor_ok interest s" and "active_ok s" and "list_all (reported (watched s)) evs"
  shows "runs (fillActiveChannels evs) s (\<lambda>_ t. reactor_ok interest t \<and> active_ok t \<and> same_reactor s t \<and>
    m_activeChannels t = m_activeChannels s @ map fst evs) (\<lambda>_ _. False) (\<lambda>_. False)"
  using assms
proof (induction evs arbitrary: s)
  case Nil
  then show ?case by (simp add: fillActiveChannels_def same_reactor_def del: ret_apply)
next
  case (Cons a evs)
  obtain c ev where a: "a = (c, ev)" by force
  with Cons.prems(3) obtain fd e where w: "watched s fd = Some (e, c)" and ev: "ev AND NOT (e OR POLLERR OR POLLHUP) = 0"
    by (auto simp: reported_def)
  from w obtain ch where ch: "m_channels s fd = Some c" "heap s c = Some ch" "m_index ch = kAdded" "m_events ch = e"
    by (auto simp: watched_def split: option.splits if_splits)
  let ?t = "s\<lparr>heap := (heap s)(c \<mapsto> ch\<lparr>m_revents := ev\<rparr>)\<rparr>"
  let ?u = "?t\<lparr>m_activeChannels := m_activeChannels s @ [c]\<rparr>"
  have t: "reactor_ok interest ?t" "watched ?t = watched s"
    using same_channel_ok [OF Cons.prems(1) ch(2), of "ch\<lparr>m_revents := ev\<rparr>"] by simp_all
  have told: "told_ok (ch\<lparr>m_revents := ev\<rparr>)" using ch ev by (simp add: told_ok_def registered_def)
  have u: "reactor_ok interest ?u" "watched ?u = watched s"
    using reactor_ok_cong [OF t(1), of ?u] watched_cong [of ?u ?t] t(2) by simp_all
  have "active_ok ?u" using Cons.prems(2) told by (auto simp: active_ok_def list_all_iff)
  from Cons.IH [OF u(1) this] Cons.prems(3) u(2) have
    "runs (fillActiveChannels evs) ?u (\<lambda>_ t. reactor_ok interest t \<and> active_ok t \<and> same_reactor ?u t \<and>
      m_activeChannels t = m_activeChannels ?u @ map fst evs) (\<lambda>_ _. False) (\<lambda>_. False)" by simp
  then have "runs (fillActiveChannels evs) ?u (\<lambda>_ t. reactor_ok interest t \<and> active_ok t \<and> same_reactor s t \<and>
      m_activeChannels t = m_activeChannels s @ map fst (a # evs)) (\<lambda>_ _. False) (\<lambda>_. False)"
    by (rule runs_mono) (use ch u a in \<open>auto simp: same_reactor_def\<close>)
  then show ?case using ch a
    by (simp add: fillActiveChannels_def runs_def run)
qed

context epoll_kernel
begin

lemma poll_runs:
  assumes ok: "reactor_ok interest s" and "m_activeChannels s = []"
  shows "runs (EPoller_poll S) s (\<lambda>_ t. reactor_ok interest t \<and> active_ok t \<and> same_reactor s t) (\<lambda>_ _. False) (\<lambda>_. False)"
proof -
  obtain r w where r: "sys_epoll_wait S (m_eventList s) (kernel s) = (r, w)" by force
  obtain t w' where t: "sys_now S w = (t, w')" by force
  let ?s = "s\<lparr>kernel := w'\<rparr>"
  from wait_interest [of "m_eventList s" "kernel s"] now_interest [of w] r t have "interest w' = interest (kernel s)" by simp
  then have s': "reactor_ok interest ?s" and same: "watched ?s = watched s"
    by (auto intro: reactor_ok_cong [OF ok] watched_cong)
  have idle: "active_ok ?s" using assms(2) by (simp add: active_ok_def)
  show ?thesis
  proof (cases "r = None \<or> r = Some []")
    case True
    with r t s' idle same show ?thesis
      by (auto simp: EPoller_poll_def epoll_wait_def now_def runs_def run same_reactor_def)
  next
    case False
    then obtain a evs where evs: "r = Some (a # evs)" by (cases r) (auto simp: neq_Nil_conv)
    from wait_answers [of "m_eventList s" "kernel s" "a # evs" w] r evs reactor_okD(3) [OF ok] same
    have le: "length (a # evs) \<le> m_eventList s" and "list_all (reported (watched ?s)) (a # evs)" by simp_all
    from fillActiveChannels_runs [OF s' idle this(2)] obtain u where
      u: "fillActiveChannels (a # evs) ?s = Done () u" "reactor_ok interest u" "active_ok u" "same_reactor ?s u"
      by (auto simp: runs_returns)
    let ?u = "u\<lparr>m_eventList := m_eventList s * 2\<rparr>"
    have "reactor_ok interest ?u" "active_ok ?u" "same_reactor s ?u" "same_reactor s u"
      using reactor_ok_cong [OF u(2), of ?u] watched_cong [of ?u u] u(3,4) same by (simp_all add: active_ok_def same_reactor_def)
    with r t evs u le show ?thesis
      by (simp add: EPoller_poll_def epoll_wait_def now_def runs_def run check_def)
  qed
qed

end

lemma masked: "r AND NOT e = 0 \<Longrightarrow> r AND m \<noteq> 0 \<Longrightarrow> (e :: 'a::len word) AND m \<noteq> 0"
proof
  assume "r AND NOT e = 0" and "r AND m \<noteq> 0" and "e AND m = 0"
  have "bit (r AND m) i = False" for i
  proof (cases "bit r i \<and> bit m i")
    case True
    with \<open>e AND m = 0\<close> have "\<not> bit e i" by (auto simp: bit_eq_iff bit_simps dest: bit_imp_le_length)
    with True \<open>r AND NOT e = 0\<close> show ?thesis by (auto simp: bit_eq_iff bit_simps dest: bit_imp_le_length)
  qed (auto simp: bit_simps)
  then have "r AND m = 0" by (simp add: bit_eq_iff)
  with \<open>r AND m \<noteq> 0\<close> show False by simp
qed

lemma told_wants:
  assumes "told_ok ch"
  shows "wants WriteCallback (m_revents ch) \<Longrightarrow> isWriting ch"
    and "wants ReadCallback (m_revents ch) \<Longrightarrow> m_events ch AND (POLLIN OR POLLPRI OR POLLRDHUP) \<noteq> 0"
proof -
  let ?e = "m_events ch OR POLLERR OR POLLHUP"
  from assms have r: "m_revents ch AND NOT ?e = 0" by (simp add: told_ok_def)
  have split: "?e AND m = m_events ch AND m" if "(POLLERR OR POLLHUP) AND m = 0" for m
    using that by (simp add: bit.conj_disj_distrib2 or.assoc)
  show "isWriting ch" if "wants WriteCallback (m_revents ch)"
    using masked [OF r, of POLLOUT] that split [of POLLOUT] by (simp add: wants_def isWriting_def kWriteEvent_def poll_bits)
  show "m_events ch AND (POLLIN OR POLLPRI OR POLLRDHUP) \<noteq> 0" if "wants ReadCallback (m_revents ch)"
    using masked [OF r, of "POLLIN OR POLLPRI OR POLLRDHUP"] that split [of "POLLIN OR POLLPRI OR POLLRDHUP"]
    by (simp add: wants_def poll_bits)
qed

end
