(* ===== verification/Timer_Queue.thy ===== *)
theory Timer_Queue
  imports Reactor_Invariant Timestamps "HOL-Library.Product_Lexorder"
begin

text \<open>
  \<open>project/m_netlib/Net/Timer\<close>, \<open>TimerId.h\<close> and \<open>TimerQueue\<close>.  Timers live in a heap of their own, an
  association list of addresses; \<open>std::set\<close> is an ascending list.  Intervals are whole microseconds, as all
  the \<open>double\<close>s of the program are.  A callback is a value of type \<open>'c\<close>, and \<open>fire\<close> says what running it does.
  The timer descriptor is the instant it becomes readable at, if it is armed.
\<close>

record 'c timer =
  m_cb :: 'c
  m_expiration :: timestamp
  m_interval :: int
  m_repeat :: bool
  m_sequence :: int

type_synonym timer_id = "nat \<times> int"

record ('w, 'c) timed = "'w reactor" +
  timer_heap :: "(nat \<times> 'c timer) list"
  s_numCreated :: int
  m_timers :: "(timestamp \<times> nat) list"
  m_activeTimers :: "(nat \<times> int) list"
  m_cancelingTimers :: "(nat \<times> int) list"
  m_callingExpiredTimers :: bool
  m_timerfd :: "timestamp option"

definition new_timer :: "'c \<Rightarrow> timestamp \<Rightarrow> int \<Rightarrow> int \<Rightarrow> 'c timer" where
  "new_timer cb time interval n = \<lparr>m_cb = cb, m_expiration = time, m_interval = interval,
     m_repeat = (interval > 0), m_sequence = n\<rparr>"

definition Timer_restart :: "timestamp \<Rightarrow> 'c timer \<Rightarrow> 'c timer" where
  "Timer_restart t tm = (if m_repeat tm then tm\<lparr>m_expiration := addTime t (m_interval tm)\<rparr>
     else tm\<lparr>m_expiration := invalid_time\<rparr>)"

definition the_timer :: "nat \<Rightarrow> (('w, 'c, 'z) timed_scheme, 'c timer) prog" where
  "the_timer p = (\<lambda>s. case map_of (timer_heap s) p of None \<Rightarrow> Stuck Dangling | Some tm \<Rightarrow> Done tm s)"

definition delete_timer :: "nat \<Rightarrow> (('w, 'c, 'z) timed_scheme, unit) prog" where
  "delete_timer p = bnd (the_timer p) (\<lambda>_. modify (\<lambda>s. s\<lparr>timer_heap := AList.delete p (timer_heap s)\<rparr>))"

section \<open>The descriptor\<close>

text \<open>Seconds and nanoseconds of a \<open>timespec\<close>, at least 100 microseconds.\<close>

definition howMuchTimeFromNow :: "timestamp \<Rightarrow> timestamp \<Rightarrow> int \<times> int" where
  "howMuchTimeFromNow time t = (let microseconds = max 100 (time - t) in
     (microseconds sdiv kMicroSecondsPerSecond, (microseconds smod kMicroSecondsPerSecond) * 1000))"

definition resetTimerfd :: "'w sys \<Rightarrow> timestamp \<Rightarrow> (('w, 'c, 'z) timed_scheme, unit) prog" where
  "resetTimerfd S expiration = bnd (now S) (\<lambda>t. case howMuchTimeFromNow expiration t of (sec, nsec) \<Rightarrow>
     modify (\<lambda>s. s\<lparr>m_timerfd := Some (t + sec * kMicroSecondsPerSecond + nsec div 1000)\<rparr>))"

text \<open>Reading the descriptor disarms it; the count that is read is only logged.\<close>

definition readTimerfd :: "(('w, 'c, 'z) timed_scheme, unit) prog" where
  "readTimerfd = modify (\<lambda>s. s\<lparr>m_timerfd := None\<rparr>)"

section \<open>The queue\<close>

definition check_sizes :: "(('w, 'c, 'z) timed_scheme, unit) prog" where
  "check_sizes = bnd (reads (\<lambda>s. length (m_timers s) = length (m_activeTimers s))) check"

definition TimerQueue_insert :: "nat \<Rightarrow> (('w, 'c, 'z) timed_scheme, bool) prog" where
  "TimerQueue_insert p =
     andthen assertInLoopThread
     (andthen check_sizes
     (bnd (the_timer p) (\<lambda>tm.
      bnd (reads m_timers) (\<lambda>ts.
      let earliestChanged = (case ts of [] \<Rightarrow> True | e # _ \<Rightarrow> m_expiration tm < fst e) in
      andthen (check ((m_expiration tm, p) \<notin> set ts))
      (andthen (modify (\<lambda>s. s\<lparr>m_timers := insort (m_expiration tm, p) (m_timers s)\<rparr>))
      (bnd (reads m_activeTimers) (\<lambda>as.
      andthen (check ((p, m_sequence tm) \<notin> set as))
      (andthen (modify (\<lambda>s. s\<lparr>m_activeTimers := insort (p, m_sequence tm) (m_activeTimers s)\<rparr>))
      (andthen check_sizes
      (ret earliestChanged))))))))))"

definition addTimerInLoop :: "'w sys \<Rightarrow> nat \<Rightarrow> (('w, 'c, 'z) timed_scheme, unit) prog" where
  "addTimerInLoop S p =
     andthen assertInLoopThread
     (bnd (TimerQueue_insert p) (\<lambda>earliestChanged.
      if earliestChanged then bnd (the_timer p) (\<lambda>tm. resetTimerfd S (m_expiration tm)) else ret ()))"

text \<open>\<open>erase\<close> by key, and the \<open>assert\<close> on the number of entries it took.\<close>

definition erase_timer :: "nat \<Rightarrow> (('w, 'c, 'z) timed_scheme, unit) prog" where
  "erase_timer p = bnd (the_timer p) (\<lambda>tm. bnd (reads m_timers) (\<lambda>ts.
     andthen (modify (\<lambda>s. s\<lparr>m_timers := filter (\<lambda>e. e \<noteq> (m_expiration tm, p)) (m_timers s)\<rparr>))
     (check ((m_expiration tm, p) \<in> set ts))))"

definition cancelInLoop :: "timer_id \<Rightarrow> (('w, 'c, 'z) timed_scheme, unit) prog" where
  "cancelInLoop tid =
     andthen assertInLoopThread
     (andthen check_sizes
     (bnd (reads (\<lambda>s. (tid \<in> set (m_activeTimers s), m_callingExpiredTimers s, tid \<in> set (m_cancelingTimers s)))) (\<lambda>(active, calling, canceling).
      if active then
        andthen (erase_timer (fst tid))
        (andthen (delete_timer (fst tid))
        (modify (\<lambda>s. s\<lparr>m_activeTimers := filter (\<lambda>a. a \<noteq> tid) (m_activeTimers s)\<rparr>)))
      else if calling \<and> canceling then
        andthen (erase_timer (fst tid))
        (andthen (delete_timer (fst tid))
        (modify (\<lambda>s. s\<lparr>m_cancelingTimers := filter (\<lambda>a. a \<noteq> tid) (m_cancelingTimers s)\<rparr>)))
      else ret ())))"

text \<open>The address no timer has.\<close>

definition UINTPTR_MAX :: nat where
  "UINTPTR_MAX = 2 ^ 64 - 1"

definition erase_active :: "timestamp \<times> nat \<Rightarrow> (('w, 'c, 'z) timed_scheme, unit) prog" where
  "erase_active entry = bnd (the_timer (snd entry)) (\<lambda>tm. bnd (reads m_activeTimers) (\<lambda>as.
     andthen (modify (\<lambda>s. s\<lparr>m_activeTimers := filter (\<lambda>a. a \<noteq> (snd entry, m_sequence tm)) (m_activeTimers s)\<rparr>))
     (check ((snd entry, m_sequence tm) \<in> set as))))"

definition getExpired :: "timestamp \<Rightarrow> (('w, 'c, 'z) timed_scheme, (timestamp \<times> nat) list) prog" where
  "getExpired t =
     andthen check_sizes
     (bnd (reads m_timers) (\<lambda>ts.
      let expired = takeWhile (\<lambda>e. e < (t, UINTPTR_MAX)) ts; rest = dropWhile (\<lambda>e. e < (t, UINTPTR_MAX)) ts in
      andthen (check (rest = [] \<or> t < fst (hd rest)))
      (andthen (modify (\<lambda>s. s\<lparr>m_timers := rest\<rparr>))
      (andthen (for_each erase_active expired)
      (andthen check_sizes
      (ret expired))))))"

definition restart_or_delete :: "timestamp \<Rightarrow> timestamp \<times> nat \<Rightarrow> (('w, 'c, 'z) timed_scheme, unit) prog" where
  "restart_or_delete t entry = bnd (the_timer (snd entry)) (\<lambda>tm. bnd (reads m_cancelingTimers) (\<lambda>cs.
     if m_repeat tm \<and> (snd entry, m_sequence tm) \<notin> set cs then
       andthen (modify (\<lambda>s. s\<lparr>timer_heap := AList.update (snd entry) (Timer_restart t tm) (timer_heap s)\<rparr>))
       (bnd (TimerQueue_insert (snd entry)) (\<lambda>_. ret ()))
     else delete_timer (snd entry)))"

definition run_timer :: "('c \<Rightarrow> (('w, 'c, 'z) timed_scheme, unit) prog) \<Rightarrow> timestamp \<times> nat \<Rightarrow> (('w, 'c, 'z) timed_scheme, unit) prog" where
  "run_timer fire entry = bnd (the_timer (snd entry)) (\<lambda>tm. fire (m_cb tm))"

definition TimerQueue_reset :: "'w sys \<Rightarrow> (timestamp \<times> nat) list \<Rightarrow> timestamp \<Rightarrow> (('w, 'c, 'z) timed_scheme, unit) prog" where
  "TimerQueue_reset S expired t =
     andthen (for_each (restart_or_delete t) expired)
     (bnd (reads m_timers) (\<lambda>ts.
      bnd (case ts of [] \<Rightarrow> ret invalid_time | (e, p) # _ \<Rightarrow> bnd (the_timer p) (\<lambda>tm. ret (m_expiration tm))) (\<lambda>nextExpire.
      if valid_time nextExpire then resetTimerfd S nextExpire else ret ())))"

definition TimerQueue_handleRead :: "'w sys \<Rightarrow> ('c \<Rightarrow> (('w, 'c, 'z) timed_scheme, unit) prog) \<Rightarrow>
    (('w, 'c, 'z) timed_scheme, unit) prog" where
  "TimerQueue_handleRead S fire =
     bnd (now S) (\<lambda>t.
     andthen readTimerfd
     (bnd (getExpired t) (\<lambda>expired.
      andthen (modify (\<lambda>s. s\<lparr>m_callingExpiredTimers := True, m_cancelingTimers := []\<rparr>))
      (andthen (for_each (run_timer fire) expired)
      (andthen (modify (\<lambda>s. s\<lparr>m_callingExpiredTimers := False\<rparr>))
      (TimerQueue_reset S expired t))))))"

end
