(* ===== verification/Event_Loop.thy ===== *)
theory Event_Loop
  imports Timer_Queue
begin

text \<open>
  \<open>project/m_netlib/Net/EventLoop\<close>: one thread that polls, runs the callbacks of the channels that are ready,
  and then the functors other callbacks and other threads have queued.  The functors are a datatype: those
  of the timer queue, and the rest as values of type \<open>'f\<close>, whose effect \<open>user\<close> says.  The wake-up descriptor is
  its counter: a write adds one, a read takes it to 0, and it is readable while it is not 0.
\<close>

datatype 'f job = AddTimerInLoop nat | CancelInLoop timer_id | User 'f

record ('w, 'c, 'f) loop = "('w, 'c) timed" +
  m_looping :: bool
  m_quit :: bool
  m_callingPendingFunctors :: bool
  m_pendingFunctors :: "'f job list"
  m_wakeups :: nat

definition kPollTimeMs :: int where
  "kPollTimeMs = 10000"

definition wakeup :: "(('w, 'c, 'f, 'z) loop_scheme, unit) prog" where
  "wakeup = modify (\<lambda>s. s\<lparr>m_wakeups := m_wakeups s + 1\<rparr>)"

definition EventLoop_handleRead :: "(('w, 'c, 'f, 'z) loop_scheme, unit) prog" where
  "EventLoop_handleRead = modify (\<lambda>s. s\<lparr>m_wakeups := 0\<rparr>)"

definition quit_loop :: "(('w, 'c, 'f, 'z) loop_scheme, unit) prog" where
  "quit_loop = andthen (modify (\<lambda>s. s\<lparr>m_quit := True\<rparr>))
     (bnd (reads isInLoopThread) (\<lambda>here. if here then ret () else wakeup))"

text \<open>\<open>queueInLoop\<close>: the push under the lock, and then the test whether the loop has to be woken.\<close>

definition push_functor :: "'f job \<Rightarrow> (('w, 'c, 'f, 'z) loop_scheme, unit) prog" where
  "push_functor f = modify (\<lambda>s. s\<lparr>m_pendingFunctors := m_pendingFunctors s @ [f]\<rparr>)"

definition wake_if_needed :: "(('w, 'c, 'f, 'z) loop_scheme, unit) prog" where
  "wake_if_needed = bnd (reads (\<lambda>s. \<not> isInLoopThread s \<or> m_callingPendingFunctors s)) (\<lambda>b. if b then wakeup else ret ())"

definition queueInLoop :: "'f job \<Rightarrow> (('w, 'c, 'f, 'z) loop_scheme, unit) prog" where
  "queueInLoop f = andthen (push_functor f) wake_if_needed"

text \<open>What a functor does, and the functors it may be given to directly.\<close>

definition exec_functor :: "'w sys \<Rightarrow> ('f \<Rightarrow> (('w, 'c, 'f, 'z) loop_scheme, unit) prog) \<Rightarrow> 'f job \<Rightarrow>
    (('w, 'c, 'f, 'z) loop_scheme, unit) prog" where
  "exec_functor S user f = (case f of AddTimerInLoop p \<Rightarrow> addTimerInLoop S p | CancelInLoop tid \<Rightarrow> cancelInLoop tid | User g \<Rightarrow> user g)"

definition runInLoop :: "'w sys \<Rightarrow> ('f \<Rightarrow> (('w, 'c, 'f, 'z) loop_scheme, unit) prog) \<Rightarrow> 'f job \<Rightarrow>
    (('w, 'c, 'f, 'z) loop_scheme, unit) prog" where
  "runInLoop S user f = bnd (reads isInLoopThread) (\<lambda>here. if here then exec_functor S user f else queueInLoop f)"

definition swap_functors :: "(('w, 'c, 'f, 'z) loop_scheme, 'f job list) prog" where
  "swap_functors = bnd (reads m_pendingFunctors) (\<lambda>fs. andthen (modify (\<lambda>s. s\<lparr>m_pendingFunctors := []\<rparr>)) (ret fs))"

definition doPendingFunctors :: "'w sys \<Rightarrow> ('f \<Rightarrow> (('w, 'c, 'f, 'z) loop_scheme, unit) prog) \<Rightarrow>
    (('w, 'c, 'f, 'z) loop_scheme, unit) prog" where
  "doPendingFunctors S user =
     andthen (modify (\<lambda>s. s\<lparr>m_callingPendingFunctors := True\<rparr>))
     (bnd swap_functors (\<lambda>functors.
      andthen (for_each (exec_functor S user) functors)
      (modify (\<lambda>s. s\<lparr>m_callingPendingFunctors := False\<rparr>))))"

section \<open>Timers through the loop\<close>

text \<open>
  \<open>addTimer\<close>; \<open>p\<close> is the address \<open>new Timer\<close> returned.  The identifier is built from the address alone, so its
  number is the default 0 and not the number of the timer.
\<close>

definition addTimer :: "'w sys \<Rightarrow> ('f \<Rightarrow> (('w, 'c, 'f, 'z) loop_scheme, unit) prog) \<Rightarrow> nat \<Rightarrow> 'c \<Rightarrow> timestamp \<Rightarrow> int \<Rightarrow>
    (('w, 'c, 'f, 'z) loop_scheme, timer_id) prog" where
  "addTimer S user p cb time interval =
     andthen (modify (\<lambda>s. s\<lparr>s_numCreated := s_numCreated s + 1,
       timer_heap := AList.update p (new_timer cb time interval (s_numCreated s + 1)) (timer_heap s)\<rparr>))
     (andthen (runInLoop S user (AddTimerInLoop p))
     (ret (p, 0)))"

definition cancel :: "'w sys \<Rightarrow> ('f \<Rightarrow> (('w, 'c, 'f, 'z) loop_scheme, unit) prog) \<Rightarrow> timer_id \<Rightarrow>
    (('w, 'c, 'f, 'z) loop_scheme, unit) prog" where
  "cancel S user tid = runInLoop S user (CancelInLoop tid)"

definition runAt :: "'w sys \<Rightarrow> ('f \<Rightarrow> (('w, 'c, 'f, 'z) loop_scheme, unit) prog) \<Rightarrow> nat \<Rightarrow> timestamp \<Rightarrow> 'c \<Rightarrow>
    (('w, 'c, 'f, 'z) loop_scheme, timer_id) prog" where
  "runAt S user p time cb = addTimer S user p cb time 0"

definition runAfter :: "'w sys \<Rightarrow> ('f \<Rightarrow> (('w, 'c, 'f, 'z) loop_scheme, unit) prog) \<Rightarrow> nat \<Rightarrow> int \<Rightarrow> 'c \<Rightarrow>
    (('w, 'c, 'f, 'z) loop_scheme, timer_id) prog" where
  "runAfter S user p delay cb = bnd (now S) (\<lambda>t. runAt S user p (addTime t delay) cb)"

definition runEvery :: "'w sys \<Rightarrow> ('f \<Rightarrow> (('w, 'c, 'f, 'z) loop_scheme, unit) prog) \<Rightarrow> nat \<Rightarrow> int \<Rightarrow> 'c \<Rightarrow>
    (('w, 'c, 'f, 'z) loop_scheme, timer_id) prog" where
  "runEvery S user p interval cb = bnd (now S) (\<lambda>t. addTimer S user p cb (addTime t interval) interval)"

section \<open>The loop\<close>

text \<open>\<open>call\<close> runs the callbacks of the channels.\<close>

definition one_round :: "'w sys \<Rightarrow> ('f \<Rightarrow> (('w, 'c, 'f, 'z) loop_scheme, unit) prog) \<Rightarrow>
    (nat \<Rightarrow> callback \<Rightarrow> (('w, 'c, 'f, 'z) loop_scheme, unit) prog) \<Rightarrow> (('w, 'c, 'f, 'z) loop_scheme, unit) prog" where
  "one_round S user call =
     andthen (modify (\<lambda>s. s\<lparr>m_activeChannels := []\<rparr>))
     (bnd (EPoller_poll S) (\<lambda>pollReturnTime.
      bnd (reads m_activeChannels) (\<lambda>cs.
      andthen (for_each (handleEvent call) cs)
      (doPendingFunctors S user))))"

text \<open>The loop may run forever; then it has no value.\<close>

partial_function (option) rounds :: "(('w, 'c, 'f, 'z) loop_scheme, unit) prog \<Rightarrow> ('w, 'c, 'f, 'z) loop_scheme \<Rightarrow>
    (('w, 'c, 'f, 'z) loop_scheme, unit) outcome option" where
  "rounds body s = (if m_quit s then Some (Done () s)
     else case body s of Done x s' \<Rightarrow> rounds body s' | Throw e s' \<Rightarrow> Some (Throw e s') | Stuck b \<Rightarrow> Some (Stuck b))"

definition loop_forever :: "'w sys \<Rightarrow> ('f \<Rightarrow> (('w, 'c, 'f, 'z) loop_scheme, unit) prog) \<Rightarrow>
    (nat \<Rightarrow> callback \<Rightarrow> (('w, 'c, 'f, 'z) loop_scheme, unit) prog) \<Rightarrow> (('w, 'c, 'f, 'z) loop_scheme, unit) prog" where
  "loop_forever S user call =
     andthen (bnd (reads m_looping) (\<lambda>b. check (\<not> b)))
     (andthen assertInLoopThread
     (andthen (modify (\<lambda>s. s\<lparr>m_looping := True, m_quit := False\<rparr>))
     (andthen (\<lambda>s. case rounds (one_round S user call) s of None \<Rightarrow> Stuck Diverges | Some r \<Rightarrow> r)
     (modify (\<lambda>s. s\<lparr>m_looping := False\<rparr>)))))"

end
