(* ===== verification/Tcp_Connection.thy ===== *)
theory Tcp_Connection
  imports Event_Loop Buffer
begin

text \<open>
  \<open>project/m_netlib/Net/TcpConnection\<close>: the life of one connection on its loop.  Connections are numbers; the
  callbacks their owner sets are a record of programs.  The kernel's side is \<open>wire\<close>, the bytes \<open>write\<close> took for
  each descriptor, and \<open>fins\<close>, the descriptors whose sending side was shut down.
\<close>

datatype conn_state = kConnecting | kConnected | kDisconnecting | kDisconnected

record tcp_conn =
  c_state :: conn_state
  c_channel :: nat
  m_inputBuffer :: buffer
  m_outputBuffer :: buffer

text \<open>The functors of connections and of what owns them.\<close>

datatype conn_job =
    ConnectEstablished nat
  | ConnectDestroyed nat
  | SendInLoop nat string
  | ShutdownInLoop nat
  | ForceCloseInLoop nat
  | WriteComplete nat
  | RemoveConnectionInLoop nat
  | StartInLoop
  | ResetChannel

record ('w, 'c) net = "('w, 'c, conn_job) loop" +
  conn_heap :: "nat \<Rightarrow> tcp_conn option"
  wire :: "nat \<Rightarrow> string"
  fins :: "nat list"

type_synonym ('w, 'c, 'z, 'a) netprog = "(('w, 'c, 'z) net_scheme, 'a) prog"

record ('w, 'c, 'z) handlers =
  m_connectionCallback :: "nat \<Rightarrow> ('w, 'c, 'z, unit) netprog"
  m_messageCallback :: "nat \<Rightarrow> timestamp \<Rightarrow> ('w, 'c, 'z, unit) netprog"
  m_writeCompleteCallback :: "(nat \<Rightarrow> ('w, 'c, 'z, unit) netprog) option"
  m_closeCallback :: "nat \<Rightarrow> ('w, 'c, 'z, unit) netprog"

definition the_conn :: "nat \<Rightarrow> ('w, 'c, 'z, tcp_conn) netprog" where
  "the_conn c = (\<lambda>s. case conn_heap s c of None \<Rightarrow> Stuck Dangling | Some k \<Rightarrow> Done k s)"

definition set_conn :: "nat \<Rightarrow> (tcp_conn \<Rightarrow> tcp_conn) \<Rightarrow> ('w, 'c, 'z, unit) netprog" where
  "set_conn c f = bnd (the_conn c) (\<lambda>k. modify (\<lambda>s. s\<lparr>conn_heap := (conn_heap s)(c \<mapsto> f k)\<rparr>))"

definition setState :: "nat \<Rightarrow> conn_state \<Rightarrow> ('w, 'c, 'z, unit) netprog" where
  "setState c st = set_conn c (\<lambda>k. k\<lparr>c_state := st\<rparr>)"

definition conn_channel :: "nat \<Rightarrow> ('w, 'c, 'z, channel) netprog" where
  "conn_channel c = bnd (the_conn c) (\<lambda>k. the_channel (c_channel k))"

text \<open>The constructor: the channel \<open>ch\<close> is new and belongs to the connection.\<close>

definition new_connection :: "nat \<Rightarrow> nat \<Rightarrow> bool \<Rightarrow> nat \<Rightarrow> ('w, 'c, 'z, unit) netprog" where
  "new_connection c ch junk fd = modify (\<lambda>s. s\<lparr>heap := (heap s)(ch \<mapsto> new_channel junk fd),
     conn_heap := (conn_heap s)(c \<mapsto> \<lparr>c_state = kConnecting, c_channel = ch, m_inputBuffer = new_buffer, m_outputBuffer = new_buffer\<rparr>)\<rparr>)"

definition connectEstablished :: "'w sys \<Rightarrow> ('w, 'c, 'z) handlers \<Rightarrow> nat \<Rightarrow> ('w, 'c, 'z, unit) netprog" where
  "connectEstablished S H c =
     andthen assertInLoopThread
     (bnd (the_conn c) (\<lambda>k.
      andthen (check (c_state k = kConnecting))
      (andthen (setState c kConnected)
      (andthen (enableReading S (c_channel k))
      (m_connectionCallback H c)))))"

definition connectDestroyed :: "'w sys \<Rightarrow> ('w, 'c, 'z) handlers \<Rightarrow> nat \<Rightarrow> ('w, 'c, 'z, unit) netprog" where
  "connectDestroyed S H c =
     andthen assertInLoopThread
     (bnd (the_conn c) (\<lambda>k.
      andthen (check (c_state k = kConnected \<or> c_state k = kDisconnecting))
      (andthen (setState c kDisconnected)
      (andthen (disableAll S (c_channel k))
      (andthen (m_connectionCallback H c)
      (removeChannel S (c_channel k)))))))"

section \<open>Sending\<close>

definition write_fd :: "'w sys \<Rightarrow> nat \<Rightarrow> string \<Rightarrow> ('w, 'c, 'z, nat option) netprog" where
  "write_fd S fd data = (\<lambda>s. case sys_write S fd data (kernel s) of
     (None, w) \<Rightarrow> Done None (s\<lparr>kernel := w\<rparr>)
   | (Some n, w) \<Rightarrow> Done (Some n) (s\<lparr>kernel := w, wire := (wire s)(fd := wire s fd @ take n data)\<rparr>))"

definition write_complete :: "('w, 'c, 'z) handlers \<Rightarrow> nat \<Rightarrow> ('w, 'c, 'z, unit) netprog" where
  "write_complete H c = (case m_writeCompleteCallback H of None \<Rightarrow> ret () | Some f \<Rightarrow> queueInLoop (User (WriteComplete c)))"

definition set_output :: "nat \<Rightarrow> (buffer \<Rightarrow> buffer option) \<Rightarrow> ('w, 'c, 'z, unit) netprog" where
  "set_output c f = bnd (the_conn c) (\<lambda>k. case f (m_outputBuffer k) of None \<Rightarrow> halt AssertFailed
     | Some b \<Rightarrow> set_conn c (\<lambda>k. k\<lparr>m_outputBuffer := b\<rparr>))"

text \<open>A write that fails is logged at most, and the whole message stays to be sent.\<close>

definition sendInLoop :: "'w sys \<Rightarrow> ('w, 'c, 'z) handlers \<Rightarrow> nat \<Rightarrow> string \<Rightarrow> ('w, 'c, 'z, unit) netprog" where
  "sendInLoop S H c msg =
     andthen assertInLoopThread
     (bnd (the_conn c) (\<lambda>k.
      bnd (conn_channel c) (\<lambda>ch.
      bnd (if \<not> isWriting ch \<and> readableBytes (m_outputBuffer k) = 0
           then bnd (write_fd S (m_fd ch) msg) (\<lambda>r. case r of None \<Rightarrow> ret 0
             | Some n \<Rightarrow> andthen (if n < length msg then ret () else write_complete H c) (ret n))
           else ret 0) (\<lambda>nwrote.
      if nwrote < length msg then
        andthen (set_output c (append_bytes (drop nwrote msg)))
        (if \<not> isWriting ch then enableWriting S (c_channel k) else ret ())
      else ret ()))))"

definition shutdownInLoop :: "nat \<Rightarrow> ('w, 'c, 'z, unit) netprog" where
  "shutdownInLoop c =
     andthen assertInLoopThread
     (bnd (conn_channel c) (\<lambda>ch. if \<not> isWriting ch then modify (\<lambda>s. s\<lparr>fins := fins s @ [m_fd ch]\<rparr>) else ret ()))"

definition handleWrite :: "'w sys \<Rightarrow> ('w, 'c, 'z) handlers \<Rightarrow> nat \<Rightarrow> ('w, 'c, 'z, unit) netprog" where
  "handleWrite S H c =
     andthen assertInLoopThread
     (bnd (the_conn c) (\<lambda>k.
      bnd (conn_channel c) (\<lambda>ch.
      if isWriting ch then
        bnd (write_fd S (m_fd ch) (contents (m_outputBuffer k))) (\<lambda>r. case r of
          None \<Rightarrow> ret ()
        | Some n \<Rightarrow> if n = 0 then ret () else
            andthen (set_output c (retrieve n))
            (bnd (the_conn c) (\<lambda>k'.
             if readableBytes (m_outputBuffer k') = 0 then
               andthen (disableWriting S (c_channel k))
               (andthen (write_complete H c)
               (if c_state k' = kDisconnecting then shutdownInLoop c else ret ()))
             else ret ())))
      else ret ())))"

text \<open>\<open>send\<close> reads the state in the thread of the caller.\<close>

definition send_message :: "'w sys \<Rightarrow> ('w, 'c, 'z) handlers \<Rightarrow> nat \<Rightarrow> string \<Rightarrow> ('w, 'c, 'z, unit) netprog" where
  "send_message S H c msg = bnd (the_conn c) (\<lambda>k. if c_state k = kConnected then
     bnd (reads isInLoopThread) (\<lambda>here. if here then sendInLoop S H c msg else queueInLoop (User (SendInLoop c msg)))
     else ret ())"

section \<open>Closing\<close>

definition shutdown_connection :: "nat \<Rightarrow> ('w, 'c, 'z, unit) netprog" where
  "shutdown_connection c = bnd (the_conn c) (\<lambda>k. if c_state k = kConnected then
     andthen (setState c kDisconnecting)
     (bnd (reads isInLoopThread) (\<lambda>here. if here then shutdownInLoop c else queueInLoop (User (ShutdownInLoop c))))
     else ret ())"

text \<open>The state stays what it is: nothing here sets \<open>kDisconnected\<close>.\<close>

definition handleClose :: "'w sys \<Rightarrow> ('w, 'c, 'z) handlers \<Rightarrow> nat \<Rightarrow> ('w, 'c, 'z, unit) netprog" where
  "handleClose S H c =
     andthen assertInLoopThread
     (bnd (the_conn c) (\<lambda>k.
      andthen (check (c_state k = kConnected \<or> c_state k = kDisconnecting))
      (andthen (disableAll S (c_channel k))
      (m_closeCallback H c))))"

definition forceClose :: "nat \<Rightarrow> ('w, 'c, 'z, unit) netprog" where
  "forceClose c = bnd (the_conn c) (\<lambda>k. if c_state k = kConnected \<or> c_state k = kDisconnecting then
     andthen (setState c kDisconnecting) (queueInLoop (User (ForceCloseInLoop c)))
     else ret ())"

definition forceCloseInLoop :: "'w sys \<Rightarrow> ('w, 'c, 'z) handlers \<Rightarrow> nat \<Rightarrow> ('w, 'c, 'z, unit) netprog" where
  "forceCloseInLoop S H c =
     andthen assertInLoopThread
     (bnd (the_conn c) (\<lambda>k. if c_state k = kConnected \<or> c_state k = kDisconnecting then handleClose S H c else ret ()))"

text \<open>
  \<open>handleRead\<close>, by what one \<open>readv\<close> returned: an error is only logged, no bytes are the end of the stream, and
  other bytes go to the input buffer, which the message callback reads.
\<close>

definition conn_handleRead :: "'w sys \<Rightarrow> ('w, 'c, 'z) handlers \<Rightarrow> nat \<Rightarrow> string option \<Rightarrow> timestamp \<Rightarrow> ('w, 'c, 'z, unit) netprog" where
  "conn_handleRead S H c r receiveTime = (case r of
     None \<Rightarrow> ret ()
   | Some data \<Rightarrow> if data = [] then handleClose S H c
       else bnd (the_conn c) (\<lambda>k. case readFd data (m_inputBuffer k) of None \<Rightarrow> halt AssertFailed
         | Some b \<Rightarrow> andthen (set_conn c (\<lambda>k. k\<lparr>m_inputBuffer := b\<rparr>)) (m_messageCallback H c receiveTime)))"

end
