(* ===== verification/Tcp_Stream.thy ===== *)
theory Tcp_Stream
  imports Tcp_Connection
begin

text \<open>
  What a connection sends: the bytes the kernel took and the bytes in the output buffer are together the
  messages sent, in order, however little each \<open>write\<close> takes; and the sending side is shut down only when
  everything is out.
\<close>

definition conn_ok :: "nat \<Rightarrow> nat \<Rightarrow> ('w, 'c, 'z) net_scheme \<Rightarrow> bool" where
  "conn_ok c fd s \<longleftrightarrow> (\<exists>k ch. conn_heap s c = Some k \<and> heap s (c_channel k) = Some ch \<and> registered ch \<and> m_fd ch = fd \<and>
     buffer_ok (m_outputBuffer k) \<and> (isWriting ch \<longleftrightarrow> contents (m_outputBuffer k) \<noteq> []))"

definition out_bytes :: "nat \<Rightarrow> ('w, 'c, 'z) net_scheme \<Rightarrow> string" where
  "out_bytes c s = contents (m_outputBuffer (the (conn_heap s c)))"

definition state_of :: "nat \<Rightarrow> ('w, 'c, 'z) net_scheme \<Rightarrow> conn_state" where
  "state_of c s = c_state (the (conn_heap s c))"

definition stream :: "nat \<Rightarrow> nat \<Rightarrow> ('w, 'c, 'z) net_scheme \<Rightarrow> string" where
  "stream c fd s = wire s fd @ out_bytes c s"

text \<open>The state in which a connection is used by its loop.\<close>

definition usable :: "('w \<Rightarrow> nat \<Rightarrow> (poll_events \<times> nat) option) \<Rightarrow> nat \<Rightarrow> nat \<Rightarrow> ('w, 'c, 'z) net_scheme \<Rightarrow> bool" where
  "usable interest c fd s \<longleftrightarrow> reactor_ok interest s \<and> isInLoopThread s \<and> conn_ok c fd s"

lemma the_conn_apply [run]: "conn_heap s c = Some k \<Longrightarrow> the_conn c s = Done k s"
  by (simp add: the_conn_def)

lemma set_conn_apply [run]: "conn_heap s c = Some k \<Longrightarrow> set_conn c f s = Done () (s\<lparr>conn_heap := (conn_heap s)(c \<mapsto> f k)\<rparr>)"
  by (simp add: set_conn_def run)

lemma conn_channel_apply [run]:
  "conn_heap s c = Some k \<Longrightarrow> heap s (c_channel k) = Some ch \<Longrightarrow> conn_channel c s = Done ch s"
  by (simp add: conn_channel_def run)

lemma isInLoopThread_net [simp]:
  "isInLoopThread (s\<lparr>conn_heap := h\<rparr>) = isInLoopThread s" "isInLoopThread (s\<lparr>wire := v\<rparr>) = isInLoopThread s"
  "isInLoopThread (s\<lparr>fins := x\<rparr>) = isInLoopThread s" "isInLoopThread (s\<lparr>m_pendingFunctors := fs\<rparr>) = isInLoopThread s"
  "isInLoopThread (s\<lparr>m_wakeups := n\<rparr>) = isInLoopThread s"
  by (simp_all add: isInLoopThread_def)

lemma isInLoopThread_with_channel [simp]: "isInLoopThread (with_channel c ch w s) = isInLoopThread s"
  by (simp add: with_channel_def)

lemma reactor_ok_net [simp]:
  "reactor_ok i (s\<lparr>conn_heap := h\<rparr>) = reactor_ok i s" "reactor_ok i (s\<lparr>wire := v\<rparr>) = reactor_ok i s"
  "reactor_ok i (s\<lparr>fins := x\<rparr>) = reactor_ok i s" "reactor_ok i (s\<lparr>m_pendingFunctors := fs\<rparr>) = reactor_ok i s"
  "reactor_ok i (s\<lparr>m_wakeups := n\<rparr>) = reactor_ok i s"
  by (simp_all add: reactor_ok_def watched_def [abs_def] cong: option.case_cong)

lemma writing_bits:
  "isWriting (changed (\<lambda>e. e OR kWriteEvent) ch)" "\<not> isWriting (changed (\<lambda>e. e AND NOT kWriteEvent) ch)"
proof -
  have b: "bit (4 :: poll_events) 2" by simp
  have "(e OR 4) AND 4 \<noteq> 0" for e :: poll_events
  proof
    assume "(e OR 4) AND 4 = 0"
    then have "bit ((e OR 4) AND 4) 2 = bit (0 :: poll_events) 2" by (rule arg_cong)
    then show False using b unfolding bit_and_iff bit_or_iff bit_0_eq by blast
  qed
  moreover have "(e AND NOT 4) AND 4 = 0" for e :: poll_events
    by (simp only: and.assoc bit.conj_cancel_left bit.conj_zero_right)
  ultimately show "isWriting (changed (\<lambda>e. e OR kWriteEvent) ch)" "\<not> isWriting (changed (\<lambda>e. e AND NOT kWriteEvent) ch)"
    unfolding isWriting_def changed_simps kWriteEvent_def POLLOUT_def by blast+
qed

text \<open>Queueing a functor and writing leave the connection alone.\<close>

lemma write_complete_run: "\<exists>fs n. write_complete H c s = Done () (s\<lparr>m_pendingFunctors := fs, m_wakeups := n\<rparr>)"
proof (cases "m_writeCompleteCallback H")
  case None
  then have "write_complete H c s = Done () (s\<lparr>m_pendingFunctors := m_pendingFunctors s, m_wakeups := m_wakeups s\<rparr>)"
    by (simp add: write_complete_def)
  then show ?thesis by (intro exI)
next
  case (Some f)
  let ?fs = "m_pendingFunctors s @ [User (WriteComplete c)]"
  have "write_complete H c s = Done () (s\<lparr>m_pendingFunctors := ?fs,
      m_wakeups := m_wakeups s + (if \<not> isInLoopThread s \<or> m_callingPendingFunctors s then 1 else 0)\<rparr>)"
    using Some by (simp add: write_complete_def queueInLoop_def push_functor_def wake_if_needed_def wakeup_def run)
  then show ?thesis by (intro exI)
qed

context epoll_kernel
begin

lemma write_fd_run:
  assumes "reactor_ok interest s"
  obtains n w where "write_fd S fd data s = Done n (s\<lparr>kernel := w, wire := (wire s)(fd := wire s fd @ take (case n of None \<Rightarrow> 0 | Some i \<Rightarrow> i) data)\<rparr>)"
    and "reactor_ok interest (s\<lparr>kernel := w\<rparr>)" and "(case n of None \<Rightarrow> 0 | Some i \<Rightarrow> i) \<le> length data"
proof -
  obtain n w where w: "sys_write S fd data (kernel s) = (n, w)" by force
  have "reactor_ok interest (s\<lparr>kernel := w\<rparr>)"
    using write_interest [of fd data "kernel s"] w by (intro reactor_ok_cong [OF assms]) simp_all
  moreover have "s\<lparr>kernel := w, wire := (wire s)(fd := wire s fd)\<rparr> = s\<lparr>kernel := w\<rparr>" by (cases s) simp
  ultimately show ?thesis using w write_bound [of fd data "kernel s"]
    by (intro that [of n w]) (auto simp: write_fd_def split: option.splits)
qed

text \<open>What a step of a usable connection may do: \<open>extra\<close> is what it adds to the stream.\<close>

definition appends :: "nat \<Rightarrow> nat \<Rightarrow> string \<Rightarrow> ('w, 'c, 'z) net_scheme \<Rightarrow> ('w, 'c, 'z) net_scheme \<Rightarrow> bool" where
  "appends c fd extra s s' \<longleftrightarrow> usable interest c fd s' \<and> stream c fd s' = stream c fd s @ extra \<and>
     state_of c s' = state_of c s \<and> fins s' = fins s"

lemma usable_obtain:
  assumes "usable interest c fd s"
  obtains k ch where "conn_heap s c = Some k" "heap s (c_channel k) = Some ch" "registered ch" "m_fd ch = fd"
    "buffer_ok (m_outputBuffer k)" "isWriting ch \<longleftrightarrow> contents (m_outputBuffer k) \<noteq> []" "reactor_ok interest s" "isInLoopThread s"
  using assms by (auto simp: usable_def conn_ok_def)

lemma queue_rest:
  assumes "usable interest c fd s" and "conn_heap s c = Some k" and "heap s (c_channel k) = Some ch" and "rest \<noteq> []"
  shows "\<exists>s'. andthen (set_output c (append_bytes rest)) (if \<not> isWriting ch then enableWriting S (c_channel k) else ret ()) s = Done () s' \<and>
    usable interest c fd s' \<and> out_bytes c s' = out_bytes c s @ rest \<and> wire s' = wire s \<and> state_of c s' = state_of c s \<and> fins s' = fins s"
proof -
  from assms(1-3) have ch: "registered ch" "m_fd ch = fd" "buffer_ok (m_outputBuffer k)" "reactor_ok interest s" "isInLoopThread s"
    by (auto simp: usable_def conn_ok_def)
  from append_Some [OF ch(3), of rest] obtain b where
    b: "append_bytes rest (m_outputBuffer k) = Some b" "buffer_ok b" "contents b = contents (m_outputBuffer k) @ rest" .
  let ?k = "k\<lparr>m_outputBuffer := b\<rparr>"
  let ?s = "s\<lparr>conn_heap := (conn_heap s)(c \<mapsto> ?k)\<rparr>"
  have out: "set_output c (append_bytes rest) s = Done () ?s" using assms(2) b(1) by (simp add: set_output_def run)
  show ?thesis
  proof (cases "isWriting ch")
    case True
    have "usable interest c fd ?s" using ch b assms(3,4) True by (simp add: usable_def conn_ok_def)
    with True out b assms(2) show ?thesis by (intro exI [of _ ?s]) (simp add: run out_bytes_def state_of_def)
  next
    case False
    have "reactor_ok interest ?s" "isInLoopThread ?s" "heap ?s (c_channel k) = Some ch" "m_index ch \<noteq> kNew"
      using ch assms(3) by (auto simp: registered_def indices)
    from change_events_ok [OF this(1-3), of "\<lambda>e. e OR kWriteEvent"] this(4) obtain w where
      w: "enableWriting S (c_channel k) ?s = Done () (with_channel (c_channel k) (changed (\<lambda>e. e OR kWriteEvent) ch) w ?s)"
        "reactor_ok interest (with_channel (c_channel k) (changed (\<lambda>e. e OR kWriteEvent) ch) w ?s)"
      unfolding channel_ops by metis
    let ?t = "with_channel (c_channel k) (changed (\<lambda>e. e OR kWriteEvent) ch) w ?s"
    have "conn_ok c fd ?t" using ch b assms(4) writing_bits(1) [of ch] by (simp add: conn_ok_def with_channel_def)
    with w ch(5) have "usable interest c fd ?t" by (simp add: usable_def)
    with False out w(1) b assms(2) show ?thesis
      by (intro exI [of _ ?t]) (simp add: run out_bytes_def state_of_def with_channel_def)
  qed
qed

lemma usable_queue: "usable interest c fd (s\<lparr>m_pendingFunctors := fs, m_wakeups := n\<rparr>) = usable interest c fd s"
  by (simp add: usable_def conn_ok_def)

lemma usable_write:
  assumes "usable interest c fd s" and "reactor_ok interest (s\<lparr>kernel := w\<rparr>)"
  shows "usable interest c fd (s\<lparr>kernel := w, wire := v\<rparr>)"
  using assms by (simp add: usable_def conn_ok_def)

lemma sendInLoop_runs:
  assumes u: "usable interest c fd s"
  shows "\<exists>s'. sendInLoop S H c msg s = Done () s' \<and> appends c fd msg s s'"
proof -
  from u obtain k ch where k: "conn_heap s c = Some k" "heap s (c_channel k) = Some ch" "registered ch" "m_fd ch = fd"
    "buffer_ok (m_outputBuffer k)" "isWriting ch \<longleftrightarrow> contents (m_outputBuffer k) \<noteq> []" "reactor_ok interest s" "isInLoopThread s"
    by (rule usable_obtain)
  have empty: "readableBytes (m_outputBuffer k) = 0 \<longleftrightarrow> \<not> isWriting ch" unfolding contents_length [OF k(5), symmetric] k(6) by simp
  show ?thesis
  proof (cases "isWriting ch")
    case True
    show ?thesis
    proof (cases "msg = []")
      case True
      with k u empty \<open>isWriting ch\<close> show ?thesis by (intro exI [of _ s]) (simp add: sendInLoop_def run appends_def)
    next
      case False
      from queue_rest [OF u k(1,2) False] obtain s' where s': "andthen (set_output c (append_bytes msg)) (ret ()) s = Done () s'"
        "usable interest c fd s'" "out_bytes c s' = out_bytes c s @ msg" "wire s' = wire s" "state_of c s' = state_of c s" "fins s' = fins s"
        using True by auto
      with False True k show ?thesis by (intro exI [of _ s']) (simp add: sendInLoop_def run appends_def stream_def)
    qed
  next
    case False
    obtain n w where w: "write_fd S fd msg s = Done n (s\<lparr>kernel := w, wire := (wire s)(fd := wire s fd @ take (case n of None \<Rightarrow> 0 | Some i \<Rightarrow> i) msg)\<rparr>)"
      "reactor_ok interest (s\<lparr>kernel := w\<rparr>)" "(case n of None \<Rightarrow> 0 | Some i \<Rightarrow> i) \<le> length msg"
      by (rule write_fd_run [OF k(7), of fd msg])
    let ?n = "case n of None \<Rightarrow> 0 | Some i \<Rightarrow> i"
    let ?s = "s\<lparr>kernel := w, wire := (wire s)(fd := wire s fd @ take ?n msg)\<rparr>"
    have u1: "usable interest c fd ?s" by (rule usable_write [OF u w(2)])
    have none: "out_bytes c s = []" using False k by (simp add: out_bytes_def)
    have head: "(case n of None \<Rightarrow> ret 0 | Some n \<Rightarrow> andthen (if n < length msg then ret () else write_complete H c) (ret n)) ?s =
        (if ?n < length msg then Done ?n ?s else if n = None then Done 0 ?s else (case write_complete H c ?s of Done x t \<Rightarrow> Done ?n t | Throw e t \<Rightarrow> Throw e t | Stuck b \<Rightarrow> Stuck b))"
      by (cases n) (simp_all add: run split: outcome.split)
    show ?thesis
    proof (cases "?n < length msg")
      case less: True
      have k1: "conn_heap ?s c = Some k" "heap ?s (c_channel k) = Some ch" using k by simp_all
      have "drop ?n msg \<noteq> []" using less by simp
      from queue_rest [OF u1 k1 this] obtain s' where
        s': "andthen (set_output c (append_bytes (drop ?n msg))) (enableWriting S (c_channel k)) ?s = Done () s'"
        "usable interest c fd s'" "out_bytes c s' = out_bytes c ?s @ drop ?n msg" "wire s' = wire ?s" "state_of c s' = state_of c ?s" "fins s' = fins ?s"
        using False by auto
      have "sendInLoop S H c msg s = Done () s'"
        using k False empty w(1) head less s'(1) by (simp add: sendInLoop_def run)
      with s' none show ?thesis by (intro exI [of _ s']) (simp add: appends_def stream_def out_bytes_def state_of_def)
    next
      case all: False
      with w(3) have n: "?n = length msg" "n = None \<Longrightarrow> msg = []" by (auto split: option.splits)
      obtain fs m where wc: "write_complete H c ?s = Done () (?s\<lparr>m_pendingFunctors := fs, m_wakeups := m\<rparr>)"
        using write_complete_run [of H c ?s] by blast
      show ?thesis
      proof (cases n)
        case None
        with n have "sendInLoop S H c msg s = Done () ?s" using k False empty w(1) head by (simp add: sendInLoop_def run)
        with u1 none n(1) None show ?thesis by (intro exI [of _ ?s]) (simp add: appends_def stream_def out_bytes_def state_of_def)
      next
        case (Some i)
        let ?t = "?s\<lparr>m_pendingFunctors := fs, m_wakeups := m\<rparr>"
        have "sendInLoop S H c msg s = Done () ?t" using k False empty w(1) head n(1) wc Some by (simp add: sendInLoop_def run)
        moreover have "usable interest c fd ?t" using u1 by (simp add: usable_queue)
        ultimately show ?thesis using none n(1)
          by (intro exI [of _ ?t]) (simp add: appends_def stream_def out_bytes_def state_of_def)
      qed
    qed
  qed
qed

text \<open>
  The invariant of a connection that is up: the sending side is shut down exactly when somebody asked for it
  and everything is out.
\<close>

definition up :: "nat \<Rightarrow> nat \<Rightarrow> ('w, 'c, 'z) net_scheme \<Rightarrow> bool" where
  "up c fd s \<longleftrightarrow> usable interest c fd s \<and> (state_of c s = kConnected \<or> state_of c s = kDisconnecting) \<and>
     fins s = (if state_of c s = kDisconnecting \<and> out_bytes c s = [] then [fd] else [])"

lemma drained:
  assumes u: "usable interest c fd s" and k: "conn_heap s c = Some k" "heap s (c_channel k) = Some ch" "registered ch" "m_fd ch = fd"
    and "isWriting ch" and b: "buffer_ok b" "contents b = []"
  shows "\<exists>w t. disableWriting S (c_channel k) (s\<lparr>conn_heap := (conn_heap s)(c \<mapsto> k\<lparr>m_outputBuffer := b\<rparr>)\<rparr>) = Done () t \<and>
    usable interest c fd t \<and> out_bytes c t = [] \<and> wire t = wire s \<and> state_of c t = state_of c s \<and> fins t = fins s \<and>
    t = with_channel (c_channel k) (changed (\<lambda>e. e AND NOT kWriteEvent) ch) w (s\<lparr>conn_heap := (conn_heap s)(c \<mapsto> k\<lparr>m_outputBuffer := b\<rparr>)\<rparr>)"
proof -
  let ?s = "s\<lparr>conn_heap := (conn_heap s)(c \<mapsto> k\<lparr>m_outputBuffer := b\<rparr>)\<rparr>"
  have "reactor_ok interest ?s" "isInLoopThread ?s" "heap ?s (c_channel k) = Some ch" "m_index ch \<noteq> kNew"
    using u k by (auto simp: usable_def registered_def indices)
  from change_events_ok [OF this(1-3), of "\<lambda>e. e AND NOT kWriteEvent"] this(2,4) obtain w where
    w: "disableWriting S (c_channel k) ?s = Done () (with_channel (c_channel k) (changed (\<lambda>e. e AND NOT kWriteEvent) ch) w ?s)"
      "reactor_ok interest (with_channel (c_channel k) (changed (\<lambda>e. e AND NOT kWriteEvent) ch) w ?s)"
    unfolding channel_ops by metis
  let ?t = "with_channel (c_channel k) (changed (\<lambda>e. e AND NOT kWriteEvent) ch) w ?s"
  have "conn_ok c fd ?t" using k b writing_bits(2) [of ch] by (simp add: conn_ok_def with_channel_def)
  with w \<open>isInLoopThread ?s\<close> have "usable interest c fd ?t" by (simp add: usable_def)
  with w(1) b k(1) show ?thesis
    by (intro exI [of _ w] exI [of _ ?t]) (simp add: out_bytes_def state_of_def with_channel_def)
qed

lemma shutdownInLoop_run:
  assumes "usable interest c fd s"
  shows "shutdownInLoop c s = Done () (s\<lparr>fins := fins s @ (if out_bytes c s = [] then [fd] else [])\<rparr>)"
proof -
  from assms obtain k ch where k: "conn_heap s c = Some k" "heap s (c_channel k) = Some ch" "m_fd ch = fd"
    "isWriting ch \<longleftrightarrow> contents (m_outputBuffer k) \<noteq> []" "isInLoopThread s"
    by (rule usable_obtain)
  then show ?thesis by (simp add: shutdownInLoop_def run out_bytes_def)
qed

lemma usable_fins: "usable interest c fd (s\<lparr>fins := x\<rparr>) = usable interest c fd s"
  by (simp add: usable_def conn_ok_def)

lemma stream_simps [simp]:
  "stream c fd (s\<lparr>fins := x\<rparr>) = stream c fd s" "state_of c (s\<lparr>fins := x\<rparr>) = state_of c s" "out_bytes c (s\<lparr>fins := x\<rparr>) = out_bytes c s"
  "stream c fd (s\<lparr>m_pendingFunctors := fs, m_wakeups := n\<rparr>) = stream c fd s"
  "state_of c (s\<lparr>m_pendingFunctors := fs, m_wakeups := n\<rparr>) = state_of c s"
  "out_bytes c (s\<lparr>m_pendingFunctors := fs, m_wakeups := n\<rparr>) = out_bytes c s"
  by (simp_all add: stream_def state_of_def out_bytes_def)

text \<open>The end of a write that took the last byte.\<close>

lemma finish_run:
  assumes "usable interest c fd s" and "out_bytes c s = []" and "state_of c s = kConnected \<or> state_of c s = kDisconnecting" and "fins s = []"
  shows "\<exists>s'. andthen (write_complete H c) (if state_of c s = kDisconnecting then shutdownInLoop c else ret ()) s = Done () s' \<and>
    up c fd s' \<and> stream c fd s' = stream c fd s \<and> state_of c s' = state_of c s"
proof -
  obtain fs m where wc: "write_complete H c s = Done () (s\<lparr>m_pendingFunctors := fs, m_wakeups := m\<rparr>)"
    using write_complete_run [of H c s] by blast
  let ?t = "s\<lparr>m_pendingFunctors := fs, m_wakeups := m\<rparr>"
  have t: "usable interest c fd ?t" using assms(1) by (simp add: usable_queue)
  show ?thesis
  proof (cases "state_of c s = kDisconnecting")
    case True
    with wc shutdownInLoop_run [OF t] assms(2) t show ?thesis
      by (intro exI [of _ "?t\<lparr>fins := fins ?t @ [fd]\<rparr>"]) (simp add: run up_def usable_fins assms(4))
  next
    case False
    with wc t assms show ?thesis by (intro exI [of _ ?t]) (simp add: run up_def)
  qed
qed

lemma handleWrite_up:
  assumes "up c fd s"
  shows "\<exists>s'. handleWrite S H c s = Done () s' \<and> up c fd s' \<and> stream c fd s' = stream c fd s \<and> state_of c s' = state_of c s"
proof -
  from assms have u: "usable interest c fd s" and st: "state_of c s = kConnected \<or> state_of c s = kDisconnecting"
    and fin: "fins s = (if state_of c s = kDisconnecting \<and> out_bytes c s = [] then [fd] else [])" by (simp_all add: up_def)
  from u obtain k ch where k: "conn_heap s c = Some k" "heap s (c_channel k) = Some ch" "registered ch" "m_fd ch = fd"
    "buffer_ok (m_outputBuffer k)" "isWriting ch \<longleftrightarrow> contents (m_outputBuffer k) \<noteq> []" "reactor_ok interest s" "isInLoopThread s"
    by (rule usable_obtain)
  have state: "state_of c s = c_state k" and out: "out_bytes c s = contents (m_outputBuffer k)" using k(1) by (simp_all add: state_of_def out_bytes_def)
  show ?thesis
  proof (cases "isWriting ch")
    case False
    with k assms show ?thesis by (intro exI [of _ s]) (simp add: handleWrite_def run)
  next
    case True
    with k(6) fin out have nofin: "fins s = []" by simp
    obtain n w where w: "write_fd S fd (contents (m_outputBuffer k)) s = Done n (s\<lparr>kernel := w, wire := (wire s)(fd := wire s fd @ take (case n of None \<Rightarrow> 0 | Some i \<Rightarrow> i) (contents (m_outputBuffer k)))\<rparr>)"
      "reactor_ok interest (s\<lparr>kernel := w\<rparr>)" "(case n of None \<Rightarrow> 0 | Some i \<Rightarrow> i) \<le> length (contents (m_outputBuffer k))"
      by (rule write_fd_run [OF k(7), of fd "contents (m_outputBuffer k)"])
    show ?thesis
    proof (cases "n = None \<or> n = Some 0")
      case idle: True
      let ?s = "s\<lparr>kernel := w, wire := (wire s)(fd := wire s fd)\<rparr>"
      have "handleWrite S H c s = Done () ?s" using k True w(1) idle by (auto simp: handleWrite_def run)
      moreover have "up c fd ?s" using usable_write [OF u w(2), of "wire s"] st fin by (simp add: up_def out_bytes_def state_of_def)
      ultimately show ?thesis by (intro exI [of _ ?s]) (simp add: stream_def out_bytes_def state_of_def)
    next
      case False
      then obtain i where i: "n = Some i" "0 < i" by auto
      let ?s = "s\<lparr>kernel := w, wire := (wire s)(fd := wire s fd @ take i (contents (m_outputBuffer k)))\<rparr>"
      have u1: "usable interest c fd ?s" by (rule usable_write [OF u w(2)])
      from w(3) i have "i \<le> length (contents (m_outputBuffer k))" by simp
      from retrieve_Some [OF k(5) this] obtain b where
        b: "retrieve i (m_outputBuffer k) = Some b" "buffer_ok b" "contents b = drop i (contents (m_outputBuffer k))" .
      let ?k = "k\<lparr>m_outputBuffer := b\<rparr>" let ?t = "?s\<lparr>conn_heap := (conn_heap s)(c \<mapsto> k\<lparr>m_outputBuffer := b\<rparr>)\<rparr>"
      have empty: "readableBytes b = 0 \<longleftrightarrow> contents b = []" unfolding contents_length [OF b(2), symmetric] by simp
      have k1: "conn_heap ?s c = Some k" "heap ?s (c_channel k) = Some ch" using k by simp_all
      show ?thesis
      proof (cases "contents b = []")
        case last: True
        from drained [OF u1 k1 k(3,4) True b(2) last] obtain v t where
          t: "disableWriting S (c_channel k) ?t = Done () t" "usable interest c fd t" "out_bytes c t = []" "wire t = wire ?s"
            "state_of c t = state_of c ?s" "fins t = fins ?s" by auto
        have st': "state_of c t = c_state k" using t(5) state by (simp add: state_of_def)
        from finish_run [OF t(2,3), of H] t(6) st st' nofin state obtain u where
          fin': "andthen (write_complete H c) (if c_state k = kDisconnecting then shutdownInLoop c else ret ()) t = Done () u"
            "up c fd u" "stream c fd u = stream c fd t" "state_of c u = state_of c t" by auto
        have "handleWrite S H c s = Done () u"
          using k True w(1) i b(1) t(1) fin'(1) empty last by (simp add: handleWrite_def set_output_def run)
        moreover have "stream c fd t = stream c fd s"
          using b(3) last t(3,4) k(1) by (simp add: stream_def out_bytes_def)
        ultimately show ?thesis using fin' st' state by (intro exI [of _ u]) simp
      next
        case more: False
        have "handleWrite S H c s = Done () ?t"
          using k True w(1) i b(1) empty more by (simp add: handleWrite_def set_output_def run)
        moreover have "usable interest c fd ?t" using u1 k True b more by (simp add: usable_def conn_ok_def)
        moreover have "out_bytes c ?t \<noteq> []" "stream c fd ?t = stream c fd s" "state_of c ?t = state_of c s"
          using b(3) more k(1) by (simp_all add: out_bytes_def stream_def state_of_def)
        ultimately show ?thesis using st nofin by (intro exI [of _ ?t]) (simp add: up_def)
      qed
    qed
  qed
qed

end

section \<open>Any run of a connection\<close>

text \<open>What happens to a connection on its loop: its owner sends or shuts down, or the socket can be written.\<close>

datatype conn_event = Sends string | Writable | ShutsDown

fun run_event :: "'w sys \<Rightarrow> ('w, 'c, 'z) handlers \<Rightarrow> nat \<Rightarrow> conn_event \<Rightarrow> ('w, 'c, 'z, unit) netprog" where
  "run_event S H c (Sends msg) = send_message S H c msg"
| "run_event S H c Writable = handleWrite S H c"
| "run_event S H c ShutsDown = shutdown_connection c"

text \<open>The messages sent before the connection was shut down.\<close>

fun accepted :: "conn_state \<Rightarrow> conn_event list \<Rightarrow> string" where
  "accepted st [] = []"
| "accepted st (Sends msg # es) = (if st = kConnected then msg else []) @ accepted st es"
| "accepted st (Writable # es) = accepted st es"
| "accepted st (ShutsDown # es) = accepted kDisconnecting es"

context epoll_kernel
begin

lemma send_up:
  assumes "up c fd s"
  shows "\<exists>s'. send_message S H c msg s = Done () s' \<and> up c fd s' \<and> state_of c s' = state_of c s \<and>
    stream c fd s' = stream c fd s @ (if state_of c s = kConnected then msg else [])"
proof -
  from assms have u: "usable interest c fd s" by (simp add: up_def)
  from u obtain k where k: "conn_heap s c = Some k" "isInLoopThread s" by (auto simp: usable_def conn_ok_def)
  then have state: "state_of c s = c_state k" by (simp add: state_of_def)
  show ?thesis
  proof (cases "c_state k = kConnected")
    case True
    from sendInLoop_runs [OF u, of H msg] obtain s' where s': "sendInLoop S H c msg s = Done () s'" "appends c fd msg s s'" by blast
    with True k assms state show ?thesis
      by (intro exI [of _ s']) (simp add: send_message_def run appends_def up_def)
  next
    case False
    with k assms state show ?thesis by (intro exI [of _ s]) (simp add: send_message_def run)
  qed
qed

lemma shutdown_up:
  assumes "up c fd s"
  shows "\<exists>s'. shutdown_connection c s = Done () s' \<and> up c fd s' \<and> state_of c s' = kDisconnecting \<and> stream c fd s' = stream c fd s"
proof -
  from assms have u: "usable interest c fd s" by (simp add: up_def)
  from u obtain k where k: "conn_heap s c = Some k" "isInLoopThread s" by (auto simp: usable_def conn_ok_def)
  then have state: "state_of c s = c_state k" by (simp add: state_of_def)
  show ?thesis
  proof (cases "c_state k = kConnected")
    case True
    let ?s = "s\<lparr>conn_heap := (conn_heap s)(c \<mapsto> k\<lparr>c_state := kDisconnecting\<rparr>)\<rparr>"
    have u1: "usable interest c fd ?s" using u k(1) by (auto simp: usable_def conn_ok_def)
    have same: "out_bytes c ?s = out_bytes c s" "stream c fd ?s = stream c fd s" "state_of c ?s = kDisconnecting"
      using k(1) by (simp_all add: out_bytes_def stream_def state_of_def)
    let ?t = "?s\<lparr>fins := fins ?s @ (if out_bytes c ?s = [] then [fd] else [])\<rparr>"
    have "shutdown_connection c s = Done () ?t"
      using True k shutdownInLoop_run [OF u1] by (simp add: shutdown_connection_def setState_def run)
    moreover have "fins s = []" using assms True state by (simp add: up_def)
    ultimately show ?thesis using u1 same by (intro exI [of _ ?t]) (simp add: up_def usable_fins)
  next
    case False
    with k assms state show ?thesis by (intro exI [of _ s]) (auto simp: shutdown_connection_def run up_def)
  qed
qed

lemma events_up:
  assumes "up c fd s"
  shows "\<exists>s'. for_each (run_event S H c) es s = Done () s' \<and> up c fd s' \<and>
    state_of c s' = (if ShutsDown \<in> set es then kDisconnecting else state_of c s) \<and>
    stream c fd s' = stream c fd s @ accepted (state_of c s) es"
  using assms
proof (induction es arbitrary: s)
  case Nil
  then show ?case by (intro exI [of _ s]) simp
next
  case (Cons e es)
  have "\<exists>s1. run_event S H c e s = Done () s1 \<and> up c fd s1 \<and>
      state_of c s1 = (if e = ShutsDown then kDisconnecting else state_of c s) \<and>
      stream c fd s1 = stream c fd s @ accepted (state_of c s) [e]"
    using send_up [OF Cons.prems, of H] shutdown_up [OF Cons.prems] handleWrite_up [OF Cons.prems, of H] by (cases e) auto
  then obtain s1 where s1: "run_event S H c e s = Done () s1" "up c fd s1"
    "state_of c s1 = (if e = ShutsDown then kDisconnecting else state_of c s)"
    "stream c fd s1 = stream c fd s @ accepted (state_of c s) [e]" by blast
  from Cons.IH [OF s1(2)] obtain s' where s': "for_each (run_event S H c) es s1 = Done () s'" "up c fd s'"
    "state_of c s' = (if ShutsDown \<in> set es then kDisconnecting else state_of c s1)"
    "stream c fd s' = stream c fd s1 @ accepted (state_of c s1) es" by blast
  with s1 show ?case by (intro exI [of _ s']) (cases e; simp add: run)
qed

end

end
