(* ===== verification/Loop_Threads.thy ===== *)
theory Loop_Threads
  imports Prelude
begin

text \<open>
  \<open>project/m_netlib/Net/EventLoopThreadPool\<close>, \<open>EventLoopThread\<close> and \<open>project/threadpool/threadpool\<close>: how loops
  are handed out to connections, how a thread with a loop starts, and the pool of worker threads.
\<close>

section \<open>EventLoopThreadPool\<close>

text \<open>A loop is a number; \<open>in_base\<close> says whether the calling thread is that of the base loop.\<close>

record loop_pool =
  m_baseLoop :: nat
  in_base :: bool
  m_started :: bool
  m_numThreads :: nat
  m_next :: nat
  m_loops :: "nat list"

definition new_loop_pool :: "nat \<Rightarrow> loop_pool" where
  "new_loop_pool base = \<lparr>m_baseLoop = base, in_base = True, m_started = False, m_numThreads = 0, m_next = 0, m_loops = []\<rparr>"

definition setThreadNum :: "nat \<Rightarrow> ('a loop_pool_scheme, unit) prog" where
  "setThreadNum n = modify (\<lambda>s. s\<lparr>m_numThreads := n\<rparr>)"

definition assertInBase :: "('a loop_pool_scheme, unit) prog" where
  "assertInBase = (\<lambda>s. if in_base s then Done () s else Throw ProcessExit s)"

text \<open>\<open>new_loop i\<close> is the loop that \<open>startLoop\<close> of the \<open>i\<close>-th thread returns; \<open>None\<close> when it waits forever, as it can (see below).\<close>

definition start_pool :: "(nat \<Rightarrow> nat option) \<Rightarrow> ('a loop_pool_scheme, unit) prog" where
  "start_pool new_loop =
     andthen assertInBase
     (andthen (modify (\<lambda>s. s\<lparr>m_started := True\<rparr>))
     (bnd (reads m_numThreads) (\<lambda>n.
      for_each (\<lambda>i. case new_loop i of None \<Rightarrow> halt Diverges
        | Some l \<Rightarrow> modify (\<lambda>s. s\<lparr>m_loops := m_loops s @ [l]\<rparr>)) [0..<n])))"

definition getNextLoop :: "('a loop_pool_scheme, nat) prog" where
  "getNextLoop =
     andthen assertInBase
     (bnd (reads m_loops) (\<lambda>loops.
      if loops = [] then reads m_baseLoop
      else bnd (reads m_next) (\<lambda>i.
        andthen (modify (\<lambda>s. s\<lparr>m_next := (i + 1) mod length loops\<rparr>))
        (ret (loops ! i)))))"

text \<open>The first \<open>k\<close> loops that are handed out.\<close>

fun next_loops :: "nat \<Rightarrow> ('a loop_pool_scheme, nat list) prog" where
  "next_loops 0 = ret []"
| "next_loops (Suc k) = bnd getNextLoop (\<lambda>l. bnd (next_loops k) (\<lambda>ls. ret (l # ls)))"

lemma next_loops_round_robin:
  assumes "in_base s" and "m_loops s \<noteq> []" and "m_next s < length (m_loops s)"
  shows "next_loops k s = Done (map (\<lambda>i. m_loops s ! ((m_next s + i) mod length (m_loops s))) [0..<k])
    (s\<lparr>m_next := (m_next s + k) mod length (m_loops s)\<rparr>)"
  using assms
proof (induction k arbitrary: s)
  case (Suc k)
  let ?n = "length (m_loops s)"
  let ?s = "s\<lparr>m_next := (m_next s + 1) mod ?n\<rparr>"
  have shift: "(Suc (m_next s) mod ?n + i) mod ?n = Suc (m_next s + i) mod ?n" for i
    by (metis add_Suc mod_add_left_eq)
  have "getNextLoop s = Done (m_loops s ! m_next s) ?s"
    using Suc.prems by (simp add: getNextLoop_def assertInBase_def run)
  moreover have "next_loops k ?s = Done (map (\<lambda>i. m_loops s ! ((m_next s + Suc i) mod ?n)) [0..<k])
      (s\<lparr>m_next := (m_next s + Suc k) mod ?n\<rparr>)"
    using Suc.IH [of ?s] Suc.prems by (simp add: shift)
  moreover have "map (\<lambda>i. m_loops s ! ((m_next s + i) mod ?n)) [0..<Suc k] =
      m_loops s ! m_next s # map (\<lambda>i. m_loops s ! ((m_next s + Suc i) mod ?n)) [0..<k]"
    using Suc.prems(3) by (simp add: upt_conv_Cons map_Suc_upt [symmetric] del: upt_Suc)
  ultimately show ?case by (simp add: run)
qed simp

section \<open>EventLoopThread\<close>

text \<open>
  The constructor initialises the members in the order of their declaration: the thread first, and
  \<open>m_eventLoop\<close> last, with a null pointer.  The thread's own steps are interleaved with it; \<open>startLoop\<close> is called
  when the constructor is done.
\<close>

datatype creator = Constructing | Constructed | Returned nat

datatype created = Starting | Published nat

record starting =
  creator :: creator
  created :: created
  m_eventLoop :: "nat option"

inductive start_step :: "starting \<Rightarrow> starting \<Rightarrow> bool" where
  member_set: "creator s = Constructing \<Longrightarrow> start_step s (s\<lparr>m_eventLoop := None, creator := Constructed\<rparr>)"
| thread_publishes: "created s = Starting \<Longrightarrow> start_step s (s\<lparr>m_eventLoop := Some l, created := Published l\<rparr>)"
| startLoop_returns: "creator s = Constructed \<Longrightarrow> m_eventLoop s = Some l \<Longrightarrow> start_step s (s\<lparr>creator := Returned l\<rparr>)"

inductive start_reachable :: "starting \<Rightarrow> starting \<Rightarrow> bool" for s0 where
  start: "start_reachable s0 s0"
| step: "start_reachable s0 s \<Longrightarrow> start_step s t \<Longrightarrow> start_reachable s0 t"

text \<open>The state after the thread has been created and before anything else; \<open>m\<close> is what the memory held.\<close>

definition thread_created :: "nat option \<Rightarrow> starting" where
  "thread_created m = \<lparr>creator = Constructing, created = Starting, m_eventLoop = m\<rparr>"

inductive_cases start_stepE: "start_step s t"

lemma start_step_simps: "start_step s t \<longleftrightarrow>
    creator s = Constructing \<and> t = s\<lparr>m_eventLoop := None, creator := Constructed\<rparr> \<or>
    created s = Starting \<and> (\<exists>l. t = s\<lparr>m_eventLoop := Some l, created := Published l\<rparr>) \<or>
    creator s = Constructed \<and> (\<exists>l. m_eventLoop s = Some l \<and> t = s\<lparr>creator := Returned l\<rparr>)"
  by (auto elim!: start_stepE intro: start_step.intros)

section \<open>The worker pool\<close>

text \<open>
  Tasks go in at the end of the queue; a worker takes the first one and runs it outside the lock.  A worker
  that finds the pool stopped and the queue empty returns.
\<close>

datatype 't worker = Idle | Busy 't | Gone

record 't worker_pool =
  workers :: "'t worker list"
  tasks :: "'t list"
  stop :: bool
  ran :: "'t list"

definition new_worker_pool :: "nat \<Rightarrow> 't worker_pool" where
  "new_worker_pool n = \<lparr>workers = replicate n Idle, tasks = [], stop = False, ran = []\<rparr>"

text \<open>\<open>std::runtime_error\<close> when the pool is stopped.\<close>

definition enqueue :: "'t \<Rightarrow> 't worker_pool \<Rightarrow> 't worker_pool option" where
  "enqueue t p = (if stop p then None else Some (p\<lparr>tasks := tasks p @ [t]\<rparr>))"

definition destroy_begin :: "'t worker_pool \<Rightarrow> 't worker_pool" where
  "destroy_begin p = p\<lparr>stop := True\<rparr>"

inductive worker_step :: "'t worker_pool \<Rightarrow> 't worker_pool \<Rightarrow> bool" where
  takes: "i < length (workers p) \<Longrightarrow> workers p ! i = Idle \<Longrightarrow> tasks p = t # ts \<Longrightarrow>
    worker_step p (p\<lparr>workers := (workers p)[i := Busy t], tasks := ts\<rparr>)"
| finishes: "i < length (workers p) \<Longrightarrow> workers p ! i = Busy t \<Longrightarrow>
    worker_step p (p\<lparr>workers := (workers p)[i := Idle], ran := ran p @ [t]\<rparr>)"
| leaves: "i < length (workers p) \<Longrightarrow> workers p ! i = Idle \<Longrightarrow> stop p \<Longrightarrow> tasks p = [] \<Longrightarrow>
    worker_step p (p\<lparr>workers := (workers p)[i := Gone]\<rparr>)"

inductive pool_run :: "'t worker_pool \<Rightarrow> 't list \<Rightarrow> 't worker_pool \<Rightarrow> bool" for p0 where
  nothing: "pool_run p0 [] p0"
| enqueued: "pool_run p0 ts p \<Longrightarrow> enqueue t p = Some q \<Longrightarrow> pool_run p0 (ts @ [t]) q"
| stopped: "pool_run p0 ts p \<Longrightarrow> pool_run p0 ts (destroy_begin p)"
| worked: "pool_run p0 ts p \<Longrightarrow> worker_step p q \<Longrightarrow> pool_run p0 ts q"

text \<open>The destructor's \<open>join\<close> of every worker returns in this state only.\<close>

definition all_joined :: "'t worker_pool \<Rightarrow> bool" where
  "all_joined p \<longleftrightarrow> list_all (\<lambda>w. w = Gone) (workers p)"

fun busy_with :: "'t worker \<Rightarrow> 't list" where
  "busy_with (Busy t) = [t]"
| "busy_with _ = []"

definition in_hand :: "'t worker_pool \<Rightarrow> 't multiset" where
  "in_hand p = mset (concat (map busy_with (workers p)))"

lemma in_hand_update: "i < length ws \<Longrightarrow> mset (concat (map busy_with (ws[i := w]))) + mset (busy_with (ws ! i)) =
    mset (concat (map busy_with ws)) + mset (busy_with w)"
  by (induction ws arbitrary: i) (auto split: nat.split simp: nth_Cons)

lemma worker_step_tasks:
  assumes "worker_step p q"
  shows "mset (ran q) + in_hand q + mset (tasks q) = mset (ran p) + in_hand p + mset (tasks p)"
    and "length (workers q) = length (workers p)" and "stop q = stop p"
  using assms by (cases; use in_hand_update [of _ "workers p"] in \<open>fastforce simp: in_hand_def\<close>)+

definition pool_ok :: "'t list \<Rightarrow> 't worker_pool \<Rightarrow> bool" where
  "pool_ok ts p \<longleftrightarrow> mset (ran p) + in_hand p + mset (tasks p) = mset ts \<and>
     (Gone \<in> set (workers p) \<longrightarrow> stop p \<and> tasks p = [])"

lemma gone_update: "Gone \<in> set (ws[i := w]) \<Longrightarrow> w = Gone \<or> Gone \<in> set ws"
  using set_update_subset_insert [of ws i w] by auto

lemma worker_step_gone:
  assumes "worker_step p q" and "Gone \<in> set (workers p) \<longrightarrow> stop p \<and> tasks p = []"
  shows "Gone \<in> set (workers q) \<longrightarrow> stop q \<and> tasks q = []"
  using assms by (cases) (auto dest: gone_update)

lemma pool_run_ok:
  assumes "pool_run (new_worker_pool n) ts p"
  shows "pool_ok ts p \<and> length (workers p) = n"
  using assms
proof (induction rule: pool_run.induct)
  case nothing
  then show ?case by (simp add: pool_ok_def new_worker_pool_def in_hand_def)
next
  case (enqueued ts p t q)
  then show ?case by (auto simp: pool_ok_def enqueue_def in_hand_def split: if_splits)
next
  case (stopped ts p)
  then show ?case by (simp add: pool_ok_def destroy_begin_def in_hand_def)
next
  case (worked ts p q)
  with worker_step_tasks [OF worked.hyps(2)] worker_step_gone [OF worked.hyps(2)] show ?case by (simp add: pool_ok_def)
qed

lemma joined_in_hand: "all_joined p \<Longrightarrow> in_hand p = {#}"
  by (auto simp: all_joined_def in_hand_def list_all_iff)

end
