(* ===== verification/Tcp_Server.thy ===== *)
theory Tcp_Server
  imports Tcp_Stream Loop_Threads
begin

text \<open>
  \<open>project/m_netlib/Net/TcpServer\<close> (\<open>Acceptor\<close> is in theory \<open>Start_Up\<close>).  The server's own state belongs to the base loop; each
  connection lives on a loop of the pool.  \<open>jobs\<close> are the functors handed to loops, with the loop they are for.
  A connection is a number, \<open>m_connections\<close> the map from names to connections.
\<close>

section \<open>TcpServer\<close>

record tcp_server = loop_pool +
  m_name :: string
  m_nextConnId :: int
  m_connections :: "(string \<times> nat) list"
  conn_name :: "nat \<Rightarrow> string"
  conn_loop :: "nat \<Rightarrow> nat"
  jobs :: "(nat \<times> conn_job) list"

definition hand_over :: "nat \<Rightarrow> conn_job \<Rightarrow> ('z tcp_server_scheme, unit) prog" where
  "hand_over l j = modify (\<lambda>s. s\<lparr>jobs := jobs s @ [(l, j)]\<rparr>)"

definition connection_name :: "string \<Rightarrow> int \<Rightarrow> string" where
  "connection_name name i = name @ ''#'' @ itos i"

text \<open>
  \<open>newConnection\<close>; \<open>c\<close> is the new connection.  \<open>runInLoop\<close> of the chosen loop: when it is the base loop, whose
  thread this is, the job is run next, otherwise it is queued there.
\<close>

definition newConnection :: "nat \<Rightarrow> ('z tcp_server_scheme, unit) prog" where
  "newConnection c =
     andthen assertInBase
     (bnd (reads (\<lambda>s. connection_name (m_name s) (m_nextConnId s))) (\<lambda>connName.
      andthen (modify (\<lambda>s. s\<lparr>m_nextConnId := m_nextConnId s + 1\<rparr>))
      (bnd getNextLoop (\<lambda>ioLoop.
       andthen (modify (\<lambda>s. s\<lparr>conn_name := (conn_name s)(c := connName), conn_loop := (conn_loop s)(c := ioLoop),
         m_connections := AList.update connName c (m_connections s)\<rparr>))
       (hand_over ioLoop (ConnectEstablished c))))))"

text \<open>The close callback of a connection, called on its own loop.\<close>

definition removeConnection :: "nat \<Rightarrow> ('z tcp_server_scheme, unit) prog" where
  "removeConnection c = bnd (reads m_baseLoop) (\<lambda>base. hand_over base (RemoveConnectionInLoop c))"

definition removeConnectionInLoop :: "nat \<Rightarrow> ('z tcp_server_scheme, unit) prog" where
  "removeConnectionInLoop c =
     andthen assertInBase
     (bnd (reads (\<lambda>s. (conn_name s c, conn_loop s c))) (\<lambda>(name, ioLoop).
      bnd (reads (\<lambda>s. map_of (m_connections s) name)) (\<lambda>found.
      andthen (modify (\<lambda>s. s\<lparr>m_connections := AList.delete name (m_connections s)\<rparr>))
      (andthen (check (found \<noteq> None))
      (hand_over ioLoop (ConnectDestroyed c))))))"

definition TcpServer_setThreadNum :: "nat \<Rightarrow> ('z tcp_server_scheme, unit) prog" where
  "TcpServer_setThreadNum n = setThreadNum n"

section \<open>The connection map\<close>

definition names_ok :: "'z tcp_server_scheme \<Rightarrow> bool" where
  "names_ok s \<longleftrightarrow> distinct (map fst (m_connections s)) \<and> distinct (map snd (m_connections s)) \<and> 0 < m_nextConnId s \<and>
     list_all (\<lambda>(n, c). conn_name s c = n \<and> (\<exists>i. 0 < i \<and> i < m_nextConnId s \<and> n = connection_name (m_name s) i)) (m_connections s)"

lemma connection_name_inject [simp]: "connection_name name i = connection_name name j \<longleftrightarrow> i = j"
  by (simp add: connection_name_def)

lemma fresh_name: "names_ok s \<Longrightarrow> connection_name (m_name s) (m_nextConnId s) \<notin> fst ` set (m_connections s)"
  by (fastforce simp: names_ok_def list_all_iff)

lemma update_new: "k \<notin> fst ` set al \<Longrightarrow> AList.update k v al = al @ [(k, v)]"
  by (induction al) auto

lemma getNextLoop_run:
  assumes "in_base s"
  obtains l n where "getNextLoop s = Done l (s\<lparr>m_next := n\<rparr>)" "l = m_baseLoop s \<or> l \<in> set (m_loops s) \<or> \<not> m_next s < length (m_loops s)"
proof (cases "m_loops s = []")
  case True
  with assms have "getNextLoop s = Done (m_baseLoop s) (s\<lparr>m_next := m_next s\<rparr>)" by (simp add: getNextLoop_def assertInBase_def run)
  then show ?thesis by (rule that) simp
next
  case False
  with assms have "getNextLoop s = Done (m_loops s ! m_next s) (s\<lparr>m_next := (m_next s + 1) mod length (m_loops s)\<rparr>)"
    by (simp add: getNextLoop_def assertInBase_def run)
  then show ?thesis by (rule that) (use nth_mem in blast)
qed

text \<open>A new connection gets a name no other has, and takes nobody's place in the map.\<close>

lemma newConnection_ok:
  assumes "names_ok s" and "in_base s" and "c \<notin> snd ` set (m_connections s)"
  shows "\<exists>s' l. newConnection c s = Done () s' \<and> names_ok s' \<and> in_base s' \<and>
    m_connections s' = m_connections s @ [(conn_name s' c, c)] \<and> conn_loop s' c = l \<and> jobs s' = jobs s @ [(l, ConnectEstablished c)]"
proof -
  let ?name = "connection_name (m_name s) (m_nextConnId s)"
  have "in_base (s\<lparr>m_nextConnId := m_nextConnId s + 1\<rparr>)" using assms(2) by simp
  then obtain l n where go: "getNextLoop (s\<lparr>m_nextConnId := m_nextConnId s + 1\<rparr>) = Done l (s\<lparr>m_nextConnId := m_nextConnId s + 1, m_next := n\<rparr>)"
    by (rule getNextLoop_run)
  have u: "AList.update ?name c (m_connections s) = m_connections s @ [(?name, c)]" by (rule update_new [OF fresh_name [OF assms(1)]])
  let ?s = "s\<lparr>m_nextConnId := m_nextConnId s + 1, m_next := n, conn_name := (conn_name s)(c := ?name), conn_loop := (conn_loop s)(c := l),
    m_connections := m_connections s @ [(?name, c)], jobs := jobs s @ [(l, ConnectEstablished c)]\<rparr>"
  have "newConnection c s = Done () ?s"
    using assms(2) go u by (simp add: newConnection_def assertInBase_def hand_over_def run)
  moreover have "names_ok ?s"
  proof -
    have "conn_name ?s d = m \<and> (\<exists>i. 0 < i \<and> i < m_nextConnId ?s \<and> m = connection_name (m_name s) i)"
      if "(m, d) \<in> set (m_connections s)" for m d
    proof -
      from assms(1) that obtain i where "conn_name s d = m" "0 < i" "i < m_nextConnId s" "m = connection_name (m_name s) i"
        by (auto simp: names_ok_def list_all_iff)
      moreover from that assms(3) have "d \<noteq> c" by force
      ultimately show ?thesis by (intro conjI exI [of _ i]) simp_all
    qed
    then have "list_all (\<lambda>(m, d). conn_name ?s d = m \<and> (\<exists>i. 0 < i \<and> i < m_nextConnId ?s \<and> m = connection_name (m_name ?s) i)) (m_connections s)"
      unfolding list_all_iff by (intro ballI, clarify) simp
    moreover have "0 < m_nextConnId s" using assms(1) by (simp add: names_ok_def)
    ultimately show ?thesis using assms(1,3) fresh_name [OF assms(1)]
      unfolding names_ok_def by (simp add: exI [of _ "m_nextConnId s"])
  qed
  ultimately show ?thesis using assms(2) by (intro exI [of _ ?s] exI [of _ l]) simp
qed

text \<open>Taking a connection out: the first time the assertion holds, a second time it does not.\<close>

lemma removeConnectionInLoop_run:
  assumes "in_base s"
  shows "removeConnectionInLoop c s = (if map_of (m_connections s) (conn_name s c) = None then Stuck AssertFailed
    else Done () (s\<lparr>m_connections := AList.delete (conn_name s c) (m_connections s),
      jobs := jobs s @ [(conn_loop s c, ConnectDestroyed c)]\<rparr>))"
  using assms by (simp add: removeConnectionInLoop_def assertInBase_def hand_over_def run)

lemma remove_ok:
  assumes "names_ok s" and "(n, c) \<in> set (m_connections s)" and "in_base s"
  shows "\<exists>s'. removeConnectionInLoop c s = Done () s' \<and> names_ok s' \<and> in_base s' \<and>
    set (m_connections s') = set (m_connections s) - {(n, c)} \<and> jobs s' = jobs s @ [(conn_loop s c, ConnectDestroyed c)] \<and>
    removeConnectionInLoop c s' = Stuck AssertFailed"
proof -
  from assms have n: "conn_name s c = n" and m: "map_of (m_connections s) n = Some c"
    by (auto simp: names_ok_def list_all_iff map_of_eq_Some_iff)
  let ?s = "s\<lparr>m_connections := AList.delete n (m_connections s), jobs := jobs s @ [(conn_loop s c, ConnectDestroyed c)]\<rparr>"
  have "removeConnectionInLoop c s = Done () ?s" using m n assms(3) by (simp add: removeConnectionInLoop_run)
  moreover have set: "set (AList.delete n (m_connections s)) = set (m_connections s) - {(n, c)}"
    using assms(1,2) by (auto simp: AList.delete_eq names_ok_def eq_key_imp_eq_value)
  moreover have "names_ok ?s" using assms(1) set
    by (auto simp: names_ok_def list_all_iff AList.delete_eq intro: distinct_map_filter)
  ultimately show ?thesis using assms(3) n by (intro exI [of _ ?s]) (simp add: removeConnectionInLoop_run)
qed

end
