(* ===== verification/Connection_Life.thy ===== *)
theory Connection_Life
  imports Tcp_Server
begin

text \<open>
  A connection of the server from its close on, across the two loops: its own, and the base loop that keeps
  the connection map.  The callbacks are those of \<open>project/server/server.cc\<close>; \<open>notices\<close> are the calls of the
  connection callback with what \<open>connected()\<close> said.
\<close>

record ('w, 'c) serving = "('w, 'c) net" +
  server :: tcp_server
  notices :: "(nat \<times> bool) list"

definition on_server :: "(tcp_server, 'a) prog \<Rightarrow> (('w, 'c) serving, 'a) prog" where
  "on_server m = (\<lambda>s. case m (server s) of Done x v \<Rightarrow> Done x (s\<lparr>server := v\<rparr>)
     | Throw e v \<Rightarrow> Throw e (s\<lparr>server := v\<rparr>) | Stuck b \<Rightarrow> Stuck b)"

text \<open>\<open>Server::onConnection\<close>, without what it asks of the service.\<close>

definition server_connection :: "nat \<Rightarrow> (('w, 'c) serving, unit) prog" where
  "server_connection c = bnd (the_conn c) (\<lambda>k.
     andthen (modify (\<lambda>s. s\<lparr>notices := notices s @ [(c, c_state k = kConnected)]\<rparr>))
     (if c_state k = kConnected then ret () else forceClose c))"

definition server_handlers :: "(nat \<Rightarrow> timestamp \<Rightarrow> (('w, 'c) serving, unit) prog) \<Rightarrow>
    ('w, 'c, \<lparr>server :: tcp_server, notices :: (nat \<times> bool) list\<rparr>) handlers" where
  "server_handlers message = \<lparr>m_connectionCallback = server_connection, m_messageCallback = message,
     m_writeCompleteCallback = None, m_closeCallback = (\<lambda>c. on_server (removeConnection c))\<rparr>"

text \<open>A connection that is up, and in the map of its server.\<close>

definition open_service :: "('w \<Rightarrow> nat \<Rightarrow> (poll_events \<times> nat) option) \<Rightarrow> nat \<Rightarrow> nat \<Rightarrow> ('w, 'c) serving \<Rightarrow> bool" where
  "open_service interest c fd s \<longleftrightarrow> usable interest c fd s \<and> (state_of c s = kConnected \<or> state_of c s = kDisconnecting) \<and>
     names_ok (server s) \<and> in_base (server s) \<and> (conn_name (server s) c, c) \<in> set (m_connections (server s))"

text \<open>What is queued, for its own loop or for the base loop, to close the connection \<open>c\<close>.\<close>

definition closing :: "nat \<Rightarrow> conn_job \<Rightarrow> bool" where
  "closing c f \<longleftrightarrow> f = ForceCloseInLoop c \<or> f = RemoveConnectionInLoop c \<or> f = ConnectDestroyed c"

definition close_queued :: "nat \<Rightarrow> ('w, 'c) serving \<Rightarrow> bool" where
  "close_queued c s \<longleftrightarrow> list_ex (\<lambda>j. case j of User f \<Rightarrow> closing c f | _ \<Rightarrow> False) (m_pendingFunctors s) \<or>
     list_ex (\<lambda>(l, f). closing c f) (jobs (server s))"

lemma on_server_apply [run]: "m (server s) = Done x v \<Longrightarrow> on_server m s = Done x (s\<lparr>server := v\<rparr>)"
  "m (server s) = Stuck b \<Longrightarrow> on_server m s = Stuck b"
  by (simp_all add: on_server_def)

lemma usable_served [simp]:
  "usable i c fd (s\<lparr>server := v\<rparr>) = usable i c fd s" "usable i c fd (s\<lparr>notices := n\<rparr>) = usable i c fd s"
  by (simp_all add: usable_def conn_ok_def reactor_ok_def watched_def [abs_def] isInLoopThread_def cong: option.case_cong)

text \<open>A channel that is registered and wants nothing.\<close>

definition silenced :: "('w \<Rightarrow> nat \<Rightarrow> (poll_events \<times> nat) option) \<Rightarrow> nat \<Rightarrow> nat \<Rightarrow> ('w, 'c, 'z) net_scheme \<Rightarrow> bool" where
  "silenced interest c fd s \<longleftrightarrow> reactor_ok interest s \<and> isInLoopThread s \<and>
     (\<exists>k ch. conn_heap s c = Some k \<and> heap s (c_channel k) = Some ch \<and> registered ch \<and> m_fd ch = fd \<and> isNoneEvent ch)"

text \<open>A channel that may still be registered, in whatever state.\<close>

definition reachable_channel :: "('w \<Rightarrow> nat \<Rightarrow> (poll_events \<times> nat) option) \<Rightarrow> nat \<Rightarrow> nat \<Rightarrow> ('w, 'c, 'z) net_scheme \<Rightarrow> bool" where
  "reachable_channel interest c fd s \<longleftrightarrow> reactor_ok interest s \<and> isInLoopThread s \<and>
     (\<exists>k ch. conn_heap s c = Some k \<and> heap s (c_channel k) = Some ch \<and> registered ch \<and> m_fd ch = fd)"

lemma usable_reachable: "usable interest c fd s \<Longrightarrow> reachable_channel interest c fd s"
  and silenced_reachable: "silenced interest c fd s \<Longrightarrow> reachable_channel interest c fd s"
  by (auto simp: usable_def conn_ok_def silenced_def reachable_channel_def)

context epoll_kernel
begin

lemma disableAll_run:
  assumes "reachable_channel interest c fd s" and "conn_heap s c = Some k"
  obtains ch w where "disableAll S (c_channel k) s = Done () (with_channel (c_channel k) ch w s)"
    and "silenced interest c fd (with_channel (c_channel k) ch w s)"
proof -
  from assms obtain ch where ch: "heap s (c_channel k) = Some ch" "registered ch" "m_fd ch = fd"
    "reactor_ok interest s" "isInLoopThread s" "m_index ch \<noteq> kNew"
    by (auto simp: reachable_channel_def registered_def indices)
  from change_events_ok [OF ch(4,5,1), of "\<lambda>e. kNoneEvent"] ch(6) obtain w where
    w: "disableAll S (c_channel k) s = Done () (with_channel (c_channel k) (changed (\<lambda>e. kNoneEvent) ch) w s)"
      "reactor_ok interest (with_channel (c_channel k) (changed (\<lambda>e. kNoneEvent) ch) w s)"
    unfolding channel_ops by metis
  from ch w(2) assms(2) have "silenced interest c fd (with_channel (c_channel k) (changed (\<lambda>e. kNoneEvent) ch) w s)"
    by (auto simp: silenced_def isNoneEvent_def with_channel_def isInLoopThread_def)
  with w(1) show ?thesis by (rule that)
qed

text \<open>\<open>handleClose\<close> takes the channel out of use and tells the base loop, and does not change the state.\<close>

lemma handleClose_run:
  assumes "reachable_channel interest c fd s" and "state_of c s = kConnected \<or> state_of c s = kDisconnecting"
  obtains s' where "handleClose S (server_handlers M) c s = Done () s'" and "silenced interest c fd s'"
    and "state_of c s' = state_of c s" and "notices s' = notices s"
    and "server s' = (server s)\<lparr>jobs := jobs (server s) @ [(m_baseLoop (server s), RemoveConnectionInLoop c)]\<rparr>"
    and "m_pendingFunctors s' = m_pendingFunctors s"
proof -
  from assms(1) obtain k where k: "conn_heap s c = Some k" "isInLoopThread s" by (auto simp: reachable_channel_def)
  obtain ch w where d: "disableAll S (c_channel k) s = Done () (with_channel (c_channel k) ch w s)"
    "silenced interest c fd (with_channel (c_channel k) ch w s)" by (rule disableAll_run [OF assms(1) k(1)])
  let ?t = "with_channel (c_channel k) ch w s"
  let ?s = "?t\<lparr>server := (server s)\<lparr>jobs := jobs (server s) @ [(m_baseLoop (server s), RemoveConnectionInLoop c)]\<rparr>\<rparr>"
  have "server ?t = server s" by (simp add: with_channel_def)
  then have "handleClose S (server_handlers M) c s = Done () ?s"
    using k d(1) assms(2) by (simp add: handleClose_def server_handlers_def removeConnection_def hand_over_def state_of_def run)
  moreover have "silenced interest c fd ?s" using d(2)
    by (simp add: silenced_def reactor_ok_def watched_def [abs_def] isInLoopThread_def cong: option.case_cong)
  moreover have "state_of c ?s = state_of c s" "notices ?s = notices s" by (simp_all add: state_of_def with_channel_def)
  ultimately show ?thesis by (rule that) (simp_all add: with_channel_def)
qed

text \<open>The functor \<open>forceClose\<close> leaves behind, when another thread called it: queued, and the state is \<open>kDisconnecting\<close>.\<close>

lemma forceClose_run:
  assumes "usable interest c fd s" and "state_of c s = kConnected \<or> state_of c s = kDisconnecting"
  obtains s' where "forceClose c s = Done () s'" and "usable interest c fd s'" and "state_of c s' = kDisconnecting"
    and "server s' = server s" and "notices s' = notices s" and "m_pendingFunctors s' = m_pendingFunctors s @ [User (ForceCloseInLoop c)]"
proof -
  from assms(1) obtain k where k: "conn_heap s c = Some k" "isInLoopThread s" by (auto simp: usable_def conn_ok_def)
  let ?n = "m_wakeups s + (if m_callingPendingFunctors s then 1 else 0)"
  let ?s = "s\<lparr>conn_heap := (conn_heap s)(c \<mapsto> k\<lparr>c_state := kDisconnecting\<rparr>), m_pendingFunctors := m_pendingFunctors s @ [User (ForceCloseInLoop c)],
    m_wakeups := ?n\<rparr>"
  have "forceClose c s = Done () ?s"
    using k assms(2) by (auto simp: forceClose_def setState_def queueInLoop_def push_functor_def wake_if_needed_def wakeup_def state_of_def run)
  moreover have "usable interest c fd ?s" using assms(1) k(1) by (auto simp: usable_def conn_ok_def)
  ultimately show ?thesis by (rule that) (simp_all add: state_of_def)
qed

text \<open>The end of a connection: \<open>connectDestroyed\<close> once the base loop has let go of it.\<close>

lemma connectDestroyed_run:
  assumes "silenced interest c fd s" and "state_of c s = kConnected \<or> state_of c s = kDisconnecting"
  obtains s' where "connectDestroyed S (server_handlers M) c s = Done () s'" and "state_of c s' = kDisconnected"
    and "reactor_ok interest s'" and "interest (kernel s') fd = None" and "notices s' = notices s @ [(c, False)]" and "server s' = server s"
    and "m_pendingFunctors s' = m_pendingFunctors s"
proof -
  from assms(1) obtain k where k: "conn_heap s c = Some k" "isInLoopThread s" by (auto simp: silenced_def)
  let ?k = "k\<lparr>c_state := kDisconnected\<rparr>"
  let ?s = "s\<lparr>conn_heap := (conn_heap s)(c \<mapsto> ?k)\<rparr>"
  have r: "reachable_channel interest c fd ?s" and k1: "conn_heap ?s c = Some ?k"
    using assms(1) k by (auto simp: silenced_def reachable_channel_def)
  obtain ch w where d: "disableAll S (c_channel ?k) ?s = Done () (with_channel (c_channel ?k) ch w ?s)"
    "silenced interest c fd (with_channel (c_channel ?k) ch w ?s)" by (rule disableAll_run [OF r k1])
  let ?t = "(with_channel (c_channel ?k) ch w ?s)\<lparr>notices := notices s @ [(c, False)]\<rparr>"
  have t: "silenced interest c fd ?t" using d(2)
    by (simp add: silenced_def reactor_ok_def watched_def [abs_def] isInLoopThread_def cong: option.case_cong)
  have k2: "conn_heap ?t c = Some ?k" by (simp add: with_channel_def)
  with t obtain ch' where ch': "heap ?t (c_channel k) = Some ch'" "registered ch'" "m_fd ch' = fd" "isNoneEvent ch'"
    "reactor_ok interest ?t" "isInLoopThread ?t" by (auto simp: silenced_def)
  from removeChannel_run [OF ch'(5,6,1,2,4)] obtain v where
    v: "removeChannel S (c_channel k) ?t = Done () (?t\<lparr>heap := (heap ?t)(c_channel k \<mapsto> ch'\<lparr>m_index := kNew\<rparr>),
      m_channels := (m_channels ?t)(m_fd ch' := None), kernel := v\<rparr>)" "interest v = (watched ?t)(m_fd ch' := None)" by blast
  let ?u = "?t\<lparr>heap := (heap ?t)(c_channel k \<mapsto> ch'\<lparr>m_index := kNew\<rparr>), m_channels := (m_channels ?t)(m_fd ch' := None), kernel := v\<rparr>"
  have "server_connection c (with_channel (c_channel ?k) ch w ?s) = Done () ?t"
    by (simp add: server_connection_def forceClose_def run with_channel_def)
  then have "connectDestroyed S (server_handlers M) c s = Done () ?u"
    using k d(1) v(1) assms(2) by (auto simp: connectDestroyed_def setState_def server_handlers_def state_of_def run)
  moreover have "reactor_ok interest ?u" by (rule removed_ok [OF ch'(5,1,2) v(2)])
  moreover have "interest (kernel ?u) fd = None" using v(2) ch'(3) by simp
  moreover have "state_of c ?u = kDisconnected" "notices ?u = notices s @ [(c, False)]" "server ?u = server s"
    "m_pendingFunctors ?u = m_pendingFunctors s"
    by (simp_all add: state_of_def with_channel_def)
  ultimately show ?thesis by (intro that)
qed

text \<open>
  The peer closes: handled on the connection's loop, then on the base loop, then on the connection's loop
  again.  Every assertion holds, and the connection is gone from the map, the poller and its own state.
\<close>

lemma close_path:
  assumes "open_service interest c fd s"
  obtains s1 s2 s3 where "conn_handleRead S (server_handlers M) c (Some []) t s = Done () s1"
    and "on_server (removeConnectionInLoop c) s1 = Done () s2"
    and "jobs (server s2) = jobs (server s) @ [(m_baseLoop (server s), RemoveConnectionInLoop c), (conn_loop (server s) c, ConnectDestroyed c)]"
    and "connectDestroyed S (server_handlers M) c s2 = Done () s3"
    and "state_of c s3 = kDisconnected" and "interest (kernel s3) fd = None" and "notices s3 = notices s @ [(c, False)]"
    and "set (m_connections (server s3)) = set (m_connections (server s)) - {(conn_name (server s) c, c)}"
    and "reactor_ok interest s3" and "names_ok (server s3)" and "m_pendingFunctors s3 = m_pendingFunctors s"
    and "jobs (server s3) = jobs (server s2)"
proof -
  from assms have u: "usable interest c fd s" and st: "state_of c s = kConnected \<or> state_of c s = kDisconnecting"
    by (simp_all add: open_service_def)
  obtain s1 where s1: "handleClose S (server_handlers M) c s = Done () s1" "silenced interest c fd s1" "state_of c s1 = state_of c s"
    "notices s1 = notices s" "server s1 = (server s)\<lparr>jobs := jobs (server s) @ [(m_baseLoop (server s), RemoveConnectionInLoop c)]\<rparr>"
    "m_pendingFunctors s1 = m_pendingFunctors s"
    by (rule handleClose_run [OF usable_reachable [OF u] st])
  have "names_ok (server s1)" "in_base (server s1)" "(conn_name (server s) c, c) \<in> set (m_connections (server s1))"
    using assms s1(5) by (simp_all add: open_service_def names_ok_def)
  from remove_ok [OF this(1,3,2)] obtain v where v: "removeConnectionInLoop c (server s1) = Done () v" "names_ok v"
    "set (m_connections v) = set (m_connections (server s1)) - {(conn_name (server s) c, c)}"
    "jobs v = jobs (server s1) @ [(conn_loop (server s1) c, ConnectDestroyed c)]" by blast
  let ?s2 = "s1\<lparr>server := v\<rparr>"
  have "silenced interest c fd ?s2" "state_of c ?s2 = kConnected \<or> state_of c ?s2 = kDisconnecting"
    using s1(2,3) st by (simp_all add: silenced_def reactor_ok_def watched_def [abs_def] isInLoopThread_def state_of_def cong: option.case_cong)
  then obtain s3 where s3: "connectDestroyed S (server_handlers M) c ?s2 = Done () s3" "state_of c s3 = kDisconnected"
    "reactor_ok interest s3" "interest (kernel s3) fd = None" "notices s3 = notices ?s2 @ [(c, False)]" "server s3 = server ?s2"
    "m_pendingFunctors s3 = m_pendingFunctors ?s2"
    by (rule connectDestroyed_run)
  have "conn_handleRead S (server_handlers M) c (Some []) t s = Done () s1" using s1(1) by (simp add: conn_handleRead_def)
  then show ?thesis
    by (rule that [of s1 ?s2 s3]) (use s1 s3 v in \<open>simp_all add: run\<close>)
qed

text \<open>
  A close by the peer while a forced close is queued: the state does not say that the close has begun, so the
  connection is closed twice, and the second time the base loop does not find it.
\<close>

lemma closed_twice:
  assumes "open_service interest c fd s"
  obtains s1 s2 s3 s4 where "forceClose c s = Done () s1"
    and "conn_handleRead S (server_handlers M) c (Some []) t s1 = Done () s2"
    and "m_pendingFunctors s1 = m_pendingFunctors s @ [User (ForceCloseInLoop c)]"
    and "forceCloseInLoop S (server_handlers M) c s2 = Done () s3"
    and "jobs (server s3) = jobs (server s) @ replicate 2 (m_baseLoop (server s), RemoveConnectionInLoop c)"
    and "on_server (removeConnectionInLoop c) s3 = Done () s4"
    and "on_server (removeConnectionInLoop c) s4 = Stuck AssertFailed"
proof -
  from assms have u: "usable interest c fd s" and st: "state_of c s = kConnected \<or> state_of c s = kDisconnecting"
    by (simp_all add: open_service_def)
  obtain s1 where s1: "forceClose c s = Done () s1" "usable interest c fd s1" "state_of c s1 = kDisconnecting"
    "server s1 = server s" "notices s1 = notices s" "m_pendingFunctors s1 = m_pendingFunctors s @ [User (ForceCloseInLoop c)]"
    by (rule forceClose_run [OF u st])
  have st1: "state_of c s1 = kConnected \<or> state_of c s1 = kDisconnecting" using s1(3) by simp
  obtain s2 where s2: "handleClose S (server_handlers M) c s1 = Done () s2" "silenced interest c fd s2" "state_of c s2 = state_of c s1"
    "notices s2 = notices s1" "server s2 = (server s1)\<lparr>jobs := jobs (server s1) @ [(m_baseLoop (server s1), RemoveConnectionInLoop c)]\<rparr>"
    by (rule handleClose_run [OF usable_reachable [OF s1(2)] st1])
  have st2: "state_of c s2 = kConnected \<or> state_of c s2 = kDisconnecting" using s2(3) st1 by simp
  obtain s3 where s3: "handleClose S (server_handlers M) c s2 = Done () s3" "silenced interest c fd s3" "state_of c s3 = state_of c s2"
    "notices s3 = notices s2" "server s3 = (server s2)\<lparr>jobs := jobs (server s2) @ [(m_baseLoop (server s2), RemoveConnectionInLoop c)]\<rparr>"
    by (rule handleClose_run [OF silenced_reachable [OF s2(2)] st2])
  have "names_ok (server s3)" "in_base (server s3)" "(conn_name (server s) c, c) \<in> set (m_connections (server s3))"
    using assms s1(4) s2(5) s3(5) by (simp_all add: open_service_def names_ok_def)
  from remove_ok [OF this(1,3,2)] obtain v where v: "removeConnectionInLoop c (server s3) = Done () v"
    "removeConnectionInLoop c v = Stuck AssertFailed" by blast
  have "forceCloseInLoop S (server_handlers M) c s2 = Done () s3"
    using s2(2) st2 s3(1) by (auto simp: forceCloseInLoop_def silenced_def state_of_def run)
  moreover have "conn_handleRead S (server_handlers M) c (Some []) t s1 = Done () s2" using s2(1) by (simp add: conn_handleRead_def)
  ultimately show ?thesis using s1 s2(5) s3(5) v
    by (intro that [of s1 s2 s3 "s3\<lparr>server := v\<rparr>"]) (simp_all add: run numeral_2_eq_2)
qed

end

end
