(* ===== verification/Timer_Invariant.thy ===== *)
theory Timer_Invariant
  imports Timer_Queue
begin

text \<open>
  The two sets of the timer queue hold the same timers, every one alive: \<open>timers_ok\<close>.  Under it no assertion
  of the queue fails, what has expired is what is due, and after its callbacks ran, the periodic timers are
  back in the queue and the others are gone.
\<close>

definition key :: "(nat \<times> 'c timer) list \<Rightarrow> timestamp \<times> nat \<Rightarrow> nat \<times> int" where
  "key h e = (snd e, m_sequence (the (map_of h (snd e))))"

definition timer_live :: "(nat \<times> 'c timer) list \<Rightarrow> timestamp \<times> nat \<Rightarrow> bool" where
  "timer_live h e \<longleftrightarrow> (\<exists>tm. map_of h (snd e) = Some tm \<and> m_expiration tm = fst e) \<and> 0 < fst e \<and> snd e < UINTPTR_MAX"

definition timers_ok :: "(nat \<times> 'c timer) list \<Rightarrow> (timestamp \<times> nat) list \<Rightarrow> (nat \<times> int) list \<Rightarrow> bool" where
  "timers_ok h ts as \<longleftrightarrow> sorted_wrt (<) ts \<and> distinct (map snd ts) \<and> distinct as \<and> set as = key h ` set ts \<and>
     list_all (timer_live h) ts \<and> (\<forall>p tm. map_of h p = Some tm \<longrightarrow> 0 < m_sequence tm)"

lemma timers_okD:
  assumes "timers_ok h ts as"
  shows "sorted_wrt (<) ts" "distinct (map snd ts)" "distinct as" "set as = key h ` set ts"
    "e \<in> set ts \<Longrightarrow> timer_live h e" "map_of h p = Some tm \<Longrightarrow> 0 < m_sequence tm"
  using assms by (auto simp: timers_ok_def list_all_iff)

lemma key_inj: "timers_ok h ts as \<Longrightarrow> x \<in> set ts \<Longrightarrow> y \<in> set ts \<Longrightarrow> key h x = key h y \<Longrightarrow> x = y"
  using timers_okD(5) [of h ts as x] timers_okD(5) [of h ts as y] by (auto simp: key_def timer_live_def prod_eq_iff)

lemma timers_sizes:
  assumes "timers_ok h ts as"
  shows "length ts = length as"
proof -
  note ok = timers_okD [OF assms]
  have "inj_on (key h) (set ts)"
    by (rule inj_onI) (rule key_inj [OF assms])
  then have "card (set as) = card (set ts)" using ok(4) by (simp add: card_image)
  moreover have "distinct ts" using ok(2) by (rule distinct_map [THEN iffD1, THEN conjunct1])
  ultimately show ?thesis using ok(3) by (simp add: distinct_card)
qed

lemma insort_strict: "sorted_wrt (<) ts \<Longrightarrow> x \<notin> set ts \<Longrightarrow> sorted_wrt (<) (insort (x :: 'a::linorder) ts)"
  by (simp add: strict_sorted_iff distinct_insort sorted_insort)

lemma timers_insert:
  assumes ok: "timers_ok h ts as" and p: "map_of h p = Some tm" "p \<notin> snd ` set ts" and e: "0 < m_expiration tm" "p < UINTPTR_MAX"
  shows "timers_ok h (insort (m_expiration tm, p) ts) (insort (p, m_sequence tm) as)"
    and "(m_expiration tm, p) \<notin> set ts" and "(p, m_sequence tm) \<notin> set as"
proof -
  note D = timers_okD [OF ok]
  show ts: "(m_expiration tm, p) \<notin> set ts" and as: "(p, m_sequence tm) \<notin> set as"
    using p(2) D(4) by (force simp: key_def)+
  have "distinct (map snd (insort (m_expiration tm, p) ts)) = distinct (map snd ((m_expiration tm, p) # ts))"
    by (simp only: distinct_map set_insort_key distinct_insort) (auto simp: inj_on_def)
  with D ts as p e show "timers_ok h (insort (m_expiration tm, p) ts) (insort (p, m_sequence tm) as)"
    by (auto simp: timers_ok_def insort_strict distinct_insort set_insort_key key_def timer_live_def list_all_iff)
qed

text \<open>What is due, and what stays.\<close>

definition due :: "timestamp \<Rightarrow> (timestamp \<times> nat) list \<Rightarrow> (timestamp \<times> nat) list" where
  "due t ts = filter (\<lambda>e. fst e \<le> t) ts"

definition later :: "timestamp \<Rightarrow> (timestamp \<times> nat) list \<Rightarrow> (timestamp \<times> nat) list" where
  "later t ts = filter (\<lambda>e. \<not> fst e \<le> t) ts"

lemma lower_bound_due:
  assumes "sorted_wrt (<) ts" and "list_all (\<lambda>e. snd e < UINTPTR_MAX) ts"
  shows "takeWhile (\<lambda>e. e < (t, UINTPTR_MAX)) ts = due t ts" and "dropWhile (\<lambda>e. e < (t, UINTPTR_MAX)) ts = later t ts"
proof -
  have less: "x < (t, UINTPTR_MAX) \<longleftrightarrow> fst x \<le> t" if "snd x < UINTPTR_MAX" for x
    using that by (cases x) auto
  have "takeWhile (\<lambda>e. e < (t, UINTPTR_MAX)) ts = due t ts \<and> dropWhile (\<lambda>e. e < (t, UINTPTR_MAX)) ts = later t ts"
    using assms
  proof (induction ts)
    case (Cons a ts)
    show ?case
    proof (cases "fst a \<le> t")
      case False
      have "\<not> fst b \<le> t" if "b \<in> set ts" for b
      proof -
        from Cons.prems(1) that have "a < b" by simp
        then have "fst a \<le> fst b" by (cases a; cases b) auto
        with False show ?thesis by simp
      qed
      with False Cons less show ?thesis by (auto simp: due_def later_def filter_empty_conv filter_id_conv)
    qed (use Cons less in \<open>auto simp: due_def later_def\<close>)
  qed (simp add: due_def later_def)
  then show "takeWhile (\<lambda>e. e < (t, UINTPTR_MAX)) ts = due t ts" "dropWhile (\<lambda>e. e < (t, UINTPTR_MAX)) ts = later t ts" by simp_all
qed

lemma timers_later:
  assumes "timers_ok h ts as"
  shows "timers_ok h (later t ts) (filter (\<lambda>a. a \<notin> key h ` set (due t ts)) as)"
proof -
  note D = timers_okD [OF assms]
  have "key h x \<noteq> key h y" if "x \<in> set (later t ts)" "y \<in> set (due t ts)" for x y
    using that key_inj [OF assms, of x y] by (auto simp: later_def due_def)
  then have "set as - key h ` set (due t ts) = key h ` set (later t ts)"
    using D(4) by (fastforce simp: later_def due_def)
  with D show ?thesis
    by (auto simp: timers_ok_def list_all_iff later_def sorted_wrt_filter distinct_map inj_on_def)
qed

lemma timers_heap:
  assumes "timers_ok h ts as" and "\<And>q. q \<in> snd ` set ts \<Longrightarrow> map_of h' q = map_of h q"
    and "\<And>p tm. map_of h' p = Some tm \<Longrightarrow> 0 < m_sequence tm"
  shows "timers_ok h' ts as"
  using assms by (auto simp: timers_ok_def list_all_iff timer_live_def key_def)

section \<open>The operations\<close>

definition tq_ok :: "('w, 'c, 'z) timed_scheme \<Rightarrow> bool" where
  "tq_ok s \<longleftrightarrow> timers_ok (timer_heap s) (m_timers s) (m_activeTimers s) \<and> m_cancelingTimers s = []"

definition armed :: "('w, 'c, 'z) timed_scheme \<Rightarrow> bool" where
  "armed s \<longleftrightarrow> (m_timers s \<noteq> [] \<longrightarrow> m_timerfd s \<noteq> None)"

lemma the_timer_apply [run]: "map_of (timer_heap s) p = Some tm \<Longrightarrow> the_timer p s = Done tm s"
  by (simp add: the_timer_def)

lemma isInLoopThread_timed [simp]:
  "isInLoopThread (s\<lparr>timer_heap := h\<rparr>) = isInLoopThread s" "isInLoopThread (s\<lparr>m_timers := ts\<rparr>) = isInLoopThread s"
  "isInLoopThread (s\<lparr>m_activeTimers := as\<rparr>) = isInLoopThread s" "isInLoopThread (s\<lparr>m_cancelingTimers := as\<rparr>) = isInLoopThread s"
  "isInLoopThread (s\<lparr>m_timerfd := f\<rparr>) = isInLoopThread s" "isInLoopThread (s\<lparr>m_callingExpiredTimers := b\<rparr>) = isInLoopThread s"
  by (simp_all add: isInLoopThread_def)

lemma check_sizes_run [run]: "length (m_timers s) = length (m_activeTimers s) \<Longrightarrow> check_sizes s = Done () s"
  by (simp add: check_sizes_def run)

definition earliest :: "timestamp \<Rightarrow> (timestamp \<times> nat) list \<Rightarrow> bool" where
  "earliest e ts = (case ts of [] \<Rightarrow> True | x # _ \<Rightarrow> e < fst x)"

lemma insert_run:
  assumes "timers_ok (timer_heap s) (m_timers s) (m_activeTimers s)" and "isInLoopThread s"
    and "map_of (timer_heap s) p = Some tm" and "p \<notin> snd ` set (m_timers s)" and "0 < m_expiration tm" "p < UINTPTR_MAX"
  shows "TimerQueue_insert p s = Done (earliest (m_expiration tm) (m_timers s))
    (s\<lparr>m_timers := insort (m_expiration tm, p) (m_timers s), m_activeTimers := insort (p, m_sequence tm) (m_activeTimers s)\<rparr>)"
  using assms(2,3) timers_sizes [OF assms(1)] timers_insert(2,3) [OF assms(1,3-)]
  by (simp add: TimerQueue_insert_def run earliest_def)

text \<open>The instant the descriptor is armed for: that of the timer, but not less than 100 microseconds ahead.\<close>

lemma resetTimerfd_run:
  assumes "sys_now S (kernel s) = (t, w)"
  shows "resetTimerfd S e s = Done () (s\<lparr>kernel := w, m_timerfd := Some (max e (t + 100))\<rparr>)"
proof -
  let ?m = "max 100 (e - t)"
  have "0 \<le> ?m" by simp
  then have "?m sdiv 1000000 = ?m div 1000000" "?m smod 1000000 = ?m mod 1000000"
    by (simp_all add: signed_divide_int_def signed_modulo_int_def sgn_if)
  moreover have "?m mod 1000000 * 1000 div 1000 = ?m mod 1000000" by simp
  moreover have "?m div 1000000 * 1000000 + ?m mod 1000000 = ?m" by simp
  ultimately show ?thesis using assms
    by (simp add: resetTimerfd_def now_def run howMuchTimeFromNow_def Let_def kMicroSecondsPerSecond_def)
qed

text \<open>Adding a timer: it is in the queue, and the descriptor is armed.\<close>

lemma addTimerInLoop_run:
  assumes "tq_ok s" and "isInLoopThread s"
    and "map_of (timer_heap s) p = Some tm" and "p \<notin> snd ` set (m_timers s)" and "0 < m_expiration tm" "p < UINTPTR_MAX"
  obtains w f where "addTimerInLoop S p s = Done () (s\<lparr>m_timers := insort (m_expiration tm, p) (m_timers s),
      m_activeTimers := insort (p, m_sequence tm) (m_activeTimers s), kernel := w, m_timerfd := f\<rparr>)"
    and "w = kernel s \<or> w = snd (sys_now S (kernel s))"
    and "armed s \<Longrightarrow> f \<noteq> None" and "earliest (m_expiration tm) (m_timers s) \<Longrightarrow> \<exists>t. f = Some (max (m_expiration tm) (t + 100))"
    and "\<not> earliest (m_expiration tm) (m_timers s) \<Longrightarrow> f = m_timerfd s"
proof -
  let ?s = "s\<lparr>m_timers := insort (m_expiration tm, p) (m_timers s), m_activeTimers := insort (p, m_sequence tm) (m_activeTimers s)\<rparr>"
  have ok: "timers_ok (timer_heap s) (m_timers s) (m_activeTimers s)" using assms(1) by (simp add: tq_ok_def)
  note ins = insert_run [OF ok assms(2-)]
  obtain t w where t: "sys_now S (kernel s) = (t, w)" by force
  show ?thesis
  proof (cases "earliest (m_expiration tm) (m_timers s)")
    case True
    have "addTimerInLoop S p s = Done () (?s\<lparr>kernel := w, m_timerfd := Some (max (m_expiration tm) (t + 100))\<rparr>)"
      using True assms(2,3) t by (simp add: addTimerInLoop_def run ins resetTimerfd_run)
    with t True show ?thesis by (intro that) auto
  next
    case False
    then have "m_timers s \<noteq> []" by (auto simp: earliest_def)
    moreover have "addTimerInLoop S p s = Done () (?s\<lparr>kernel := kernel s, m_timerfd := m_timerfd s\<rparr>)"
      using False assms(2,3) by (simp add: addTimerInLoop_def run ins)
    ultimately show ?thesis using False by (intro that [where w = "kernel s" and f = "m_timerfd s"]) (auto simp: armed_def)
  qed
qed

lemma tq_ok_insert:
  assumes "tq_ok s" and "map_of (timer_heap s) p = Some tm" and "p \<notin> snd ` set (m_timers s)" and "0 < m_expiration tm" "p < UINTPTR_MAX"
  shows "tq_ok (s\<lparr>m_timers := insort (m_expiration tm, p) (m_timers s),
    m_activeTimers := insort (p, m_sequence tm) (m_activeTimers s), kernel := w, m_timerfd := f\<rparr>)"
  using assms timers_insert(1) [of "timer_heap s" "m_timers s" "m_activeTimers s"] by (simp add: tq_ok_def)

text \<open>\<open>addTimer\<close> hands out the number 0 with the address, and no timer has it: cancelling does nothing.\<close>

lemma cancel_does_nothing:
  assumes "tq_ok s" and "isInLoopThread s"
  shows "cancelInLoop (p, 0) s = Done () s"
proof -
  have ok: "timers_ok (timer_heap s) (m_timers s) (m_activeTimers s)" using assms(1) by (simp add: tq_ok_def)
  have "(p, 0) \<notin> key (timer_heap s) ` set (m_timers s)"
    using timers_okD(5,6) [OF ok] by (fastforce simp: key_def timer_live_def)
  with timers_okD(4) [OF ok] have "(p, 0) \<notin> set (m_activeTimers s)" by simp
  with assms timers_sizes [OF ok] show ?thesis by (simp add: cancelInLoop_def run tq_ok_def)
qed

end
