(* ===== verification/Timer_Expiry.thy ===== *)
theory Timer_Expiry
  imports Timer_Invariant
begin

text \<open>
  What one expiry of the timer descriptor does (\<open>TimerQueue::handleRead\<close>): the contract \<open>timer_callbacks\<close>
  of the callbacks, and what it gives for the queue.
\<close>

lemma bnd_andthen_Done [run]: "m s = Done x t \<Longrightarrow> bnd m f s = f x t" "m s = Done x t \<Longrightarrow> andthen m k s = k t"
  by (simp_all add: run)

section \<open>Taking what is due\<close>

lemma erase_active_run:
  assumes "distinct (map snd es)" and "list_all (timer_live (timer_heap s)) es"
    and "key (timer_heap s) ` set es \<subseteq> set (m_activeTimers s)"
  shows "for_each erase_active es s =
    Done () (s\<lparr>m_activeTimers := filter (\<lambda>a. a \<notin> key (timer_heap s) ` set es) (m_activeTimers s)\<rparr>)"
  using assms
proof (induction es arbitrary: s)
  case (Cons x es)
  obtain e p where x: "x = (e, p)" by force
  with Cons.prems obtain tm where tm: "map_of (timer_heap s) p = Some tm" by (auto simp: timer_live_def)
  let ?s = "s\<lparr>m_activeTimers := filter (\<lambda>a. a \<noteq> (p, m_sequence tm)) (m_activeTimers s)\<rparr>"
  have k: "key (timer_heap s) x = (p, m_sequence tm)" using tm x by (simp add: key_def)
  have other: "key (timer_heap s) y \<noteq> key (timer_heap s) x" if "y \<in> set es" for y
  proof -
    from that have "snd y \<in> snd ` set es" by (rule imageI)
    moreover from Cons.prems(1) have "snd x \<notin> snd ` set es" by simp
    ultimately have "snd y \<noteq> snd x" by metis
    then show ?thesis by (simp add: key_def)
  qed
  with Cons.prems(3) have sub: "key (timer_heap ?s) ` set es \<subseteq> set (m_activeTimers ?s)"
    using other [unfolded k] by (simp add: image_subset_iff)
  have "(\<lambda>a. a \<notin> key (timer_heap s) ` set (x # es)) = (\<lambda>a. a \<noteq> (p, m_sequence tm) \<and> a \<notin> key (timer_heap s) ` set es)"
    using k by auto
  then have f: "filter (\<lambda>a. a \<notin> key (timer_heap s) ` set es) (m_activeTimers ?s) =
      filter (\<lambda>a. a \<notin> key (timer_heap s) ` set (x # es)) (m_activeTimers s)"
    by (simp add: conj_commute)
  from Cons.prems sub have "list_all (timer_live (timer_heap ?s)) es" "distinct (map snd es)" by simp_all
  from Cons.IH [OF this(2,1) sub] f have "for_each erase_active es ?s =
    Done () (s\<lparr>m_activeTimers := filter (\<lambda>a. a \<notin> key (timer_heap s) ` set (x # es)) (m_activeTimers s)\<rparr>)" by simp
  moreover have "(p, m_sequence tm) \<in> set (m_activeTimers s)" using Cons.prems(3) k by auto
  moreover from this have "erase_active x s = Done () ?s" using x tm by (simp add: erase_active_def run)
  ultimately show ?case by (simp only: for_each.simps bnd_andthen_Done)
qed simp

lemma getExpired_run:
  assumes "tq_ok s"
  obtains as where "getExpired t s = Done (due t (m_timers s)) (s\<lparr>m_timers := later t (m_timers s), m_activeTimers := as\<rparr>)"
    and "tq_ok (s\<lparr>m_timers := later t (m_timers s), m_activeTimers := as\<rparr>)"
proof -
  let ?ts = "m_timers s" and ?h = "timer_heap s"
  from assms have ok: "timers_ok ?h ?ts (m_activeTimers s)" and cs: "m_cancelingTimers s = []" by (simp_all add: tq_ok_def)
  note D = timers_okD [OF ok]
  have small: "list_all (\<lambda>e. snd e < UINTPTR_MAX) ?ts" using D(5) by (auto simp: list_all_iff timer_live_def)
  note cut = lower_bound_due [OF D(1) small, of t]
  let ?s = "s\<lparr>m_timers := later t ?ts\<rparr>"
  let ?as = "filter (\<lambda>a. a \<notin> key ?h ` set (due t ?ts)) (m_activeTimers s)"
  have later: "timers_ok ?h (later t ?ts) ?as" by (rule timers_later [OF ok])
  have "distinct (map snd (due t ?ts))" using D(2) by (simp add: due_def distinct_map inj_on_def)
  moreover have "list_all (timer_live (timer_heap ?s)) (due t ?ts)" using D(5) by (auto simp: due_def list_all_iff)
  moreover have "key (timer_heap ?s) ` set (due t ?ts) \<subseteq> set (m_activeTimers ?s)" using D(4) by (auto simp: due_def)
  ultimately have loop: "for_each erase_active (due t ?ts) ?s = Done () (?s\<lparr>m_activeTimers := ?as\<rparr>)"
    using erase_active_run [of "due t ?ts" ?s] by simp
  have "later t ?ts = [] \<or> t < fst (hd (later t ?ts))"
  proof (rule disjCI)
    assume "\<not> t < fst (hd (later t ?ts))"
    then have "hd (later t ?ts) \<notin> set (later t ?ts)" by (simp add: later_def)
    then show "later t ?ts = []" by (metis hd_in_set)
  qed
  with loop cut timers_sizes [OF ok] timers_sizes [OF later]
  have "getExpired t s = Done (due t ?ts) (s\<lparr>m_timers := later t ?ts, m_activeTimers := ?as\<rparr>)"
    by (simp add: getExpired_def run Let_def del: dropWhile_eq_Nil_conv)
  moreover from later cs have "tq_ok (s\<lparr>m_timers := later t ?ts, m_activeTimers := ?as\<rparr>)" by (simp add: tq_ok_def)
  ultimately show ?thesis by (rule that)
qed

section \<open>Putting the periodic timers back\<close>

definition requeued :: "timestamp \<Rightarrow> (nat \<times> 'c timer) list \<Rightarrow> timestamp \<times> nat \<Rightarrow> (timestamp \<times> nat) set" where
  "requeued t h e = (case map_of h (snd e) of None \<Rightarrow> {}
     | Some tm \<Rightarrow> if m_repeat tm then {(t + m_interval tm, snd e)} else {})"

definition heap_after :: "timestamp \<Rightarrow> (timestamp \<times> nat) list \<Rightarrow> (nat \<times> 'c timer) list \<Rightarrow> nat \<Rightarrow> 'c timer option" where
  "heap_after t es h p = (if p \<notin> snd ` set es then map_of h p else
     (case map_of h p of None \<Rightarrow> None | Some tm \<Rightarrow> if m_repeat tm then Some (Timer_restart t tm) else None))"

text \<open>A timer that runs again has a positive interval, so it is due strictly later.\<close>

definition intervals_ok :: "(nat \<times> 'c timer) list \<Rightarrow> bool" where
  "intervals_ok h \<longleftrightarrow> (\<forall>p tm. map_of h p = Some tm \<longrightarrow> m_repeat tm = (m_interval tm > 0))"

definition same_but_timers :: "('w, 'c, 'z) timed_scheme \<Rightarrow> ('w, 'c, 'z) timed_scheme \<Rightarrow> bool" where
  "same_but_timers s s' \<longleftrightarrow> (\<exists>h ts as. s' = s\<lparr>timer_heap := h, m_timers := ts, m_activeTimers := as\<rparr>)"

lemma timed_swap:
  "s\<lparr>m_timers := ts, timer_heap := h\<rparr> = s\<lparr>timer_heap := h, m_timers := ts\<rparr>"
  "s\<lparr>m_activeTimers := as, timer_heap := h\<rparr> = s\<lparr>timer_heap := h, m_activeTimers := as\<rparr>"
  "s\<lparr>m_activeTimers := as, m_timers := ts\<rparr> = s\<lparr>m_timers := ts, m_activeTimers := as\<rparr>"
  by (cases s, simp)+

lemma same_but_timers_refl: "same_but_timers s s"
  unfolding same_but_timers_def
  by (intro exI [of _ "timer_heap s"] exI [of _ "m_timers s"] exI [of _ "m_activeTimers s"]) simp

lemma same_but_timers_trans: "same_but_timers s s' \<Longrightarrow> same_but_timers s' s'' \<Longrightarrow> same_but_timers s s''"
  unfolding same_but_timers_def by (clarsimp simp: timed_swap) blast

lemma restart_step:
  assumes "tq_ok s" and "isInLoopThread s" and e: "map_of (timer_heap s) (snd e) = Some tm" "snd e \<notin> snd ` set (m_timers s)"
    and "snd e < UINTPTR_MAX" and "intervals_ok (timer_heap s)" and "0 < t"
  shows "\<exists>s'. restart_or_delete t e s = Done () s' \<and> same_but_timers s s' \<and> tq_ok s' \<and> intervals_ok (timer_heap s') \<and>
    set (m_timers s') = set (m_timers s) \<union> requeued t (timer_heap s) e \<and>
    map_of (timer_heap s') = (map_of (timer_heap s))(snd e := if m_repeat tm then Some (Timer_restart t tm) else None)"
proof -
  let ?h = "timer_heap s" and ?p = "snd e"
  from assms(1) have ok: "timers_ok ?h (m_timers s) (m_activeTimers s)" and cs: "m_cancelingTimers s = []" by (simp_all add: tq_ok_def)
  note seq = timers_okD(6) [OF ok]
  have heap: "timers_ok h' (m_timers s) (m_activeTimers s)"
    if "map_of h' = (map_of ?h)(?p := v)" "\<And>tm'. v = Some tm' \<Longrightarrow> 0 < m_sequence tm'" for h' v
  proof (rule timers_heap [OF ok])
    show "map_of h' q = map_of ?h q" if "q \<in> snd ` set (m_timers s)" for q
      using that e(2) \<open>map_of h' = (map_of ?h)(?p := v)\<close> by (metis fun_upd_other)
    show "0 < m_sequence tm'" if "map_of h' q = Some tm'" for q tm'
      using that seq \<open>map_of h' = (map_of ?h)(?p := v)\<close> \<open>\<And>tm'. v = Some tm' \<Longrightarrow> 0 < m_sequence tm'\<close>
      by (simp split: if_splits)
  qed
  show ?thesis
  proof (cases "m_repeat tm")
    case False
    let ?s = "s\<lparr>timer_heap := AList.delete ?p ?h\<rparr>"
    have "restart_or_delete t e s = Done () ?s"
      using e cs False by (simp add: restart_or_delete_def delete_timer_def run)
    moreover have "same_but_timers s ?s" unfolding same_but_timers_def
      by (intro exI [of _ "AList.delete ?p ?h"] exI [of _ "m_timers s"] exI [of _ "m_activeTimers s"]) simp
    moreover have "tq_ok ?s" using heap [of "AList.delete ?p ?h" None] cs by (simp add: tq_ok_def)
    ultimately show ?thesis using False e(1) assms(6) by (auto simp: requeued_def intervals_ok_def)
  next
    case True
    let ?tm = "Timer_restart t tm"
    have tm: "m_expiration ?tm = t + m_interval tm" "m_sequence ?tm = m_sequence tm" "0 < m_expiration ?tm"
      "m_repeat ?tm" "m_interval ?tm = m_interval tm"
      using True assms(6,7) e(1) by (auto simp: Timer_restart_def addTime_def intervals_ok_def)
    let ?s = "s\<lparr>timer_heap := AList.update ?p ?tm ?h\<rparr>"
    have s: "timers_ok (timer_heap ?s) (m_timers ?s) (m_activeTimers ?s)"
      using heap [of "AList.update ?p ?tm ?h" "Some ?tm"] tm(2) seq [OF e(1)] by simp
    have p: "map_of (timer_heap ?s) ?p = Some ?tm" by simp
    let ?u = "?s\<lparr>m_timers := insort (m_expiration ?tm, ?p) (m_timers s), m_activeTimers := insort (?p, m_sequence ?tm) (m_activeTimers s)\<rparr>"
    have "TimerQueue_insert ?p ?s = Done (earliest (m_expiration ?tm) (m_timers s)) ?u"
      using insert_run [OF s _ p _ tm(3) assms(5)] assms(2) e(2) by simp
    then have "restart_or_delete t e s = Done () ?u"
      using e cs True by (simp add: restart_or_delete_def run)
    moreover have "same_but_timers s ?u" unfolding same_but_timers_def by blast
    moreover have "tq_ok ?u" using timers_insert(1) [OF s p _ tm(3) assms(5)] e(2) cs by (simp add: tq_ok_def)
    moreover have "intervals_ok (timer_heap ?u)" using assms(6) tm e(1) True by (auto simp: intervals_ok_def)
    ultimately show ?thesis using True e(1) tm(1) by (intro exI [of _ ?u]) (simp add: requeued_def set_insort_key)
  qed
qed

lemma restart_all:
  assumes "tq_ok s" and "isInLoopThread s" and "distinct (map snd es)" and "snd ` set es \<inter> snd ` set (m_timers s) = {}"
    and "list_all (\<lambda>e. map_of (timer_heap s) (snd e) \<noteq> None \<and> snd e < UINTPTR_MAX) es"
    and "intervals_ok (timer_heap s)" and "0 < t"
  shows "\<exists>s'. for_each (restart_or_delete t) es s = Done () s' \<and> same_but_timers s s' \<and> tq_ok s' \<and> intervals_ok (timer_heap s') \<and>
    set (m_timers s') = set (m_timers s) \<union> (\<Union>e \<in> set es. requeued t (timer_heap s) e) \<and>
    map_of (timer_heap s') = heap_after t es (timer_heap s)"
  using assms
proof (induction es arbitrary: s)
  case Nil
  then show ?case by (intro exI [of _ s]) (simp add: same_but_timers_refl heap_after_def fun_eq_iff)
next
  case (Cons e es)
  from Cons.prems(5) obtain tm where e: "map_of (timer_heap s) (snd e) = Some tm" "snd e < UINTPTR_MAX" by auto
  from Cons.prems(4) have "snd e \<notin> snd ` set (m_timers s)" by auto
  from restart_step [OF Cons.prems(1,2) e(1) this e(2) Cons.prems(6,7)] obtain s1 where
    s1: "restart_or_delete t e s = Done () s1" "same_but_timers s s1" "tq_ok s1" "intervals_ok (timer_heap s1)"
      "set (m_timers s1) = set (m_timers s) \<union> requeued t (timer_heap s) e"
      "map_of (timer_heap s1) = (map_of (timer_heap s))(snd e := if m_repeat tm then Some (Timer_restart t tm) else None)"
    by (elim exE conjE)
  have fresh: "snd e \<notin> snd ` set es" using Cons.prems(3) by simp
  have old: "map_of (timer_heap s1) (snd x) = map_of (timer_heap s) (snd x)" if "x \<in> set es" for x
    using imageI [OF that, of snd] fresh s1(6) by (metis fun_upd_other)
  have "isInLoopThread s1" using s1(2) Cons.prems(2) by (auto simp: same_but_timers_def)
  moreover have "distinct (map snd es)" using Cons.prems(3) by simp
  moreover have "snd ` set es \<inter> snd ` set (m_timers s1) = {}"
  proof -
    have "snd ` requeued t (timer_heap s) e \<subseteq> {snd e}" by (auto simp: requeued_def split: option.splits)
    moreover have "snd ` set es \<inter> snd ` set (m_timers s) = {}" using Cons.prems(4) by auto
    moreover have "A \<inter> (M \<union> B) = {}" if "A \<inter> M = {}" "B \<subseteq> {x}" "x \<notin> A" for A M B and x :: nat
      using that by blast
    ultimately show ?thesis unfolding s1(5) image_Un using fresh by simp
  qed
  moreover have "list_all (\<lambda>e. map_of (timer_heap s1) (snd e) \<noteq> None \<and> snd e < UINTPTR_MAX) es"
    using Cons.prems(5) old by (simp add: list_all_iff)
  ultimately have pre: "isInLoopThread s1" "distinct (map snd es)" "snd ` set es \<inter> snd ` set (m_timers s1) = {}"
    "list_all (\<lambda>e. map_of (timer_heap s1) (snd e) \<noteq> None \<and> snd e < UINTPTR_MAX) es" .
  from Cons.IH [OF s1(3) pre s1(4) Cons.prems(7)] obtain s' where
    s': "for_each (restart_or_delete t) es s1 = Done () s'" "same_but_timers s1 s'" "tq_ok s'" "intervals_ok (timer_heap s')"
      "set (m_timers s') = set (m_timers s1) \<union> (\<Union>e \<in> set es. requeued t (timer_heap s1) e)"
      "map_of (timer_heap s') = heap_after t es (timer_heap s1)"
    by (elim exE conjE)
  have "requeued t (timer_heap s1) x = requeued t (timer_heap s) x" if "x \<in> set es" for x
    by (simp add: requeued_def old [OF that])
  with s'(5) have "set (m_timers s') = set (m_timers s) \<union> (\<Union>e \<in> set (e # es). requeued t (timer_heap s) e)"
    by (simp add: s1(5) Un_assoc)
  moreover have "for_each (restart_or_delete t) (e # es) s = Done () s'" using s1(1) s'(1) by (simp add: bnd_andthen_Done)
  moreover have "heap_after t es (timer_heap s1) = heap_after t (e # es) (timer_heap s)"
    using e(1) fresh by (auto simp: heap_after_def s1(6) fun_eq_iff)
  ultimately show ?case using s'(3,4,6) same_but_timers_trans [OF s1(2) s'(2)]
    by (intro exI [of _ s'] conjI) simp_all
qed

lemma reset_run:
  assumes "tq_ok s" and "isInLoopThread s" and "distinct (map snd es)" and "snd ` set es \<inter> snd ` set (m_timers s) = {}"
    and "list_all (\<lambda>e. map_of (timer_heap s) (snd e) \<noteq> None \<and> snd e < UINTPTR_MAX) es"
    and "intervals_ok (timer_heap s)" and "0 < t"
  obtains s3 w f where "TimerQueue_reset S es t s = Done () (s3\<lparr>kernel := w, m_timerfd := f\<rparr>)"
    and "same_but_timers s s3" "tq_ok s3" "intervals_ok (timer_heap s3)" and "m_timers s3 \<noteq> [] \<longrightarrow> f \<noteq> None"
    and "set (m_timers s3) = set (m_timers s) \<union> (\<Union>e \<in> set es. requeued t (timer_heap s) e)"
    and "map_of (timer_heap s3) = heap_after t es (timer_heap s)" and "w = kernel s \<or> w = snd (sys_now S (kernel s))"
proof -
  from restart_all [OF assms] obtain s3 where s3: "for_each (restart_or_delete t) es s = Done () s3" "same_but_timers s s3"
    "tq_ok s3" "intervals_ok (timer_heap s3)"
    "set (m_timers s3) = set (m_timers s) \<union> (\<Union>e \<in> set es. requeued t (timer_heap s) e)"
    "map_of (timer_heap s3) = heap_after t es (timer_heap s)"
    by (elim exE conjE)
  from s3(2) have k: "kernel s3 = kernel s" by (auto simp: same_but_timers_def)
  obtain w f where "TimerQueue_reset S es t s = Done () (s3\<lparr>kernel := w, m_timerfd := f\<rparr>)" "m_timers s3 \<noteq> [] \<longrightarrow> f \<noteq> None"
    "w = kernel s \<or> w = snd (sys_now S (kernel s))"
  proof (cases "m_timers s3")
    case Nil
    then have "TimerQueue_reset S es t s = Done () (s3\<lparr>kernel := kernel s3, m_timerfd := m_timerfd s3\<rparr>)"
      using s3(1) by (simp add: TimerQueue_reset_def run valid_time_def invalid_time_def)
    with Nil k show ?thesis by (intro that [where w = "kernel s3" and f = "m_timerfd s3"]) simp_all
  next
    case (Cons e ts)
    with s3(3) have "timer_live (timer_heap s3) e" by (simp add: tq_ok_def timers_ok_def)
    then obtain tm where tm: "map_of (timer_heap s3) (snd e) = Some tm" "m_expiration tm = fst e" "0 < fst e" by (auto simp: timer_live_def)
    obtain t' w' where now: "sys_now S (kernel s3) = (t', w')" by force
    from Cons tm s3(1) now have
      "TimerQueue_reset S es t s = Done () (s3\<lparr>kernel := w', m_timerfd := Some (max (fst e) (t' + 100))\<rparr>)"
      by (cases e) (simp add: TimerQueue_reset_def run resetTimerfd_run valid_time_def)
    then show ?thesis by (rule that) (use now k in simp_all)
  qed
  with s3 show ?thesis by (intro that)
qed

section \<open>One expiry\<close>

text \<open>
  What a timer callback may do to the queue: add timers of its own, and cancel, which does nothing.
  \<open>trace\<close> observes the callbacks that ran; the queue itself does not change it.
\<close>

definition grows :: "('w, 'c, 'z) timed_scheme \<Rightarrow> ('w, 'c, 'z) timed_scheme \<Rightarrow> bool" where
  "grows s s' \<longleftrightarrow> map_of (timer_heap s) \<subseteq>\<^sub>m map_of (timer_heap s') \<and> set (m_timers s) \<subseteq> set (m_timers s') \<and>
     list_all (\<lambda>e. e \<in> set (m_timers s) \<or> map_of (timer_heap s) (snd e) = None) (m_timers s')"

lemma grows_refl: "grows s s"
  by (auto simp: grows_def list_all_iff)

lemma grows_trans:
  assumes "grows s s'" and "grows s' s''"
  shows "grows s s''"
proof -
  from assms have sub: "map_of (timer_heap s) \<subseteq>\<^sub>m map_of (timer_heap s')" by (simp add: grows_def)
  have "map_of (timer_heap s) p = None" if "map_of (timer_heap s') p = None" for p
    using sub that by (fastforce simp: map_le_def dom_def)
  moreover have "e \<in> set (m_timers s)" if "e \<in> set (m_timers s'')" "map_of (timer_heap s) (snd e) \<noteq> None" for e
    using assms that calculation [of "snd e"] unfolding grows_def list_all_iff by metis
  ultimately show ?thesis using assms map_le_trans [OF sub] by (auto simp: grows_def list_all_iff)
qed

definition callback_of :: "('w, 'c, 'z) timed_scheme \<Rightarrow> timestamp \<times> nat \<Rightarrow> 'c" where
  "callback_of s e = m_cb (the (map_of (timer_heap s) (snd e)))"

locale timer_callbacks =
  fixes fire :: "'c \<Rightarrow> (('w, 'c, 'z) timed_scheme, unit) prog" and trace :: "('w, 'c, 'z) timed_scheme \<Rightarrow> 'c list"
  assumes fire_runs: "tq_ok s \<Longrightarrow> isInLoopThread s \<Longrightarrow> intervals_ok (timer_heap s) \<Longrightarrow> runs (fire c) s
      (\<lambda>_ s'. tq_ok s' \<and> isInLoopThread s' \<and> intervals_ok (timer_heap s') \<and> grows s s' \<and> trace s' = trace s @ [c])
      (\<lambda>_ _. False) (\<lambda>_. False)"
    and trace_same: "trace (s\<lparr>kernel := w\<rparr>) = trace s" "trace (s\<lparr>timer_heap := h\<rparr>) = trace s" "trace (s\<lparr>m_timers := ts\<rparr>) = trace s"
      "trace (s\<lparr>m_activeTimers := as\<rparr>) = trace s" "trace (s\<lparr>m_cancelingTimers := cs\<rparr>) = trace s"
      "trace (s\<lparr>m_callingExpiredTimers := b\<rparr>) = trace s" "trace (s\<lparr>m_timerfd := f\<rparr>) = trace s"
begin

lemma trace_same_but: "same_but_timers s s' \<Longrightarrow> trace s' = trace s"
  by (auto simp: same_but_timers_def trace_same)

lemma run_timers:
  assumes "tq_ok s" and "isInLoopThread s" and "intervals_ok (timer_heap s)"
    and "list_all (\<lambda>e. map_of (timer_heap s) (snd e) \<noteq> None) es"
  shows "\<exists>s'. for_each (run_timer fire) es s = Done () s' \<and> tq_ok s' \<and> isInLoopThread s' \<and> intervals_ok (timer_heap s') \<and>
    grows s s' \<and> trace s' = trace s @ map (callback_of s) es"
  using assms
proof (induction es arbitrary: s)
  case Nil
  then show ?case by (intro exI [of _ s]) (simp add: grows_refl)
next
  case (Cons e es)
  from Cons.prems(4) obtain tm where tm: "map_of (timer_heap s) (snd e) = Some tm" by auto
  from fire_runs [OF Cons.prems(1-3), of "m_cb tm"] obtain s1 where s1: "fire (m_cb tm) s = Done () s1" "tq_ok s1"
    "isInLoopThread s1" "intervals_ok (timer_heap s1)" "grows s s1" "trace s1 = trace s @ [m_cb tm]"
    by (auto simp: runs_returns)
  have old: "map_of (timer_heap s1) (snd x) = map_of (timer_heap s) (snd x)" if "map_of (timer_heap s) (snd x) \<noteq> None" for x :: "timestamp \<times> nat"
    using s1(5) that by (fastforce simp: grows_def map_le_def dom_def)
  with Cons.prems(4) have "list_all (\<lambda>e. map_of (timer_heap s1) (snd e) \<noteq> None) es" by (simp add: list_all_iff)
  from Cons.IH [OF s1(2-4) this] obtain s' where s': "for_each (run_timer fire) es s1 = Done () s'" "tq_ok s'"
    "isInLoopThread s'" "intervals_ok (timer_heap s')" "grows s1 s'" "trace s' = trace s1 @ map (callback_of s1) es"
    by (elim exE conjE)
  have "map (callback_of s1) es = map (callback_of s) es"
    using Cons.prems(4) old by (auto simp: callback_of_def list_all_iff)
  moreover have "for_each (run_timer fire) (e # es) s = Done () s'"
    using s1(1) s'(1) tm by (simp add: run_timer_def bnd_andthen_Done run)
  moreover have "callback_of s e = m_cb tm" by (simp add: callback_of_def tm)
  ultimately show ?case using s'(2-4,6) s1(6) grows_trans [OF s1(5) s'(5)] by (intro exI [of _ s']) simp
qed

lemma expiry:
  assumes "tq_ok s" and "isInLoopThread s" and "intervals_ok (timer_heap s)" and "sys_now S (kernel s) = (t, w)" and "0 < t"
  shows "\<exists>s'. TimerQueue_handleRead S fire s = Done () s' \<and> tq_ok s' \<and> isInLoopThread s' \<and> intervals_ok (timer_heap s') \<and> armed s' \<and>
    trace s' = trace s @ map (callback_of s) (due t (m_timers s)) \<and>
    set (later t (m_timers s)) \<subseteq> set (m_timers s') \<and>
    list_all (\<lambda>e. requeued t (timer_heap s) e \<subseteq> set (m_timers s') \<and>
      map_of (timer_heap s') (snd e) = heap_after t [e] (timer_heap s) (snd e)) (due t (m_timers s))"
proof -
  let ?ts = "m_timers s" and ?h = "timer_heap s"
  let ?s0 = "s\<lparr>kernel := w, m_timerfd := None\<rparr>"
  have ok0: "tq_ok ?s0" using assms(1) by (simp add: tq_ok_def)
  from assms(1) have ok: "timers_ok ?h ?ts (m_activeTimers s)" by (simp add: tq_ok_def)
  note D = timers_okD [OF ok]
  obtain as where get: "getExpired t ?s0 = Done (due t ?ts) (?s0\<lparr>m_timers := later t ?ts, m_activeTimers := as\<rparr>)"
    and ok1: "tq_ok (?s0\<lparr>m_timers := later t ?ts, m_activeTimers := as\<rparr>)"
    using getExpired_run [OF ok0, of t] by auto
  let ?s1 = "?s0\<lparr>m_timers := later t ?ts, m_activeTimers := as, m_callingExpiredTimers := True, m_cancelingTimers := []\<rparr>"
  have s1: "tq_ok ?s1" "isInLoopThread ?s1" "intervals_ok (timer_heap ?s1)" "trace ?s1 = trace s"
    using ok1 assms(2,3) by (simp_all add: tq_ok_def trace_same)
  have live: "timer_live ?h e" if "e \<in> set (due t ?ts)" for e using that D(5) by (simp add: due_def)
  then have "list_all (\<lambda>e. map_of (timer_heap ?s1) (snd e) \<noteq> None) (due t ?ts)"
    by (auto simp: list_all_iff timer_live_def)
  from run_timers [OF s1(1-3) this] obtain s2 where s2: "for_each (run_timer fire) (due t ?ts) ?s1 = Done () s2" "tq_ok s2"
    "isInLoopThread s2" "intervals_ok (timer_heap s2)" "grows ?s1 s2" "trace s2 = trace ?s1 @ map (callback_of ?s1) (due t ?ts)"
    by (elim exE conjE)
  let ?s2 = "s2\<lparr>m_callingExpiredTimers := False\<rparr>"
  have old: "map_of (timer_heap s2) (snd e) = map_of ?h (snd e)" if "e \<in> set (due t ?ts)" for e
    using live [OF that] s2(5) by (fastforce simp: grows_def map_le_def timer_live_def dom_def)
  have p2: "tq_ok ?s2" "isInLoopThread ?s2" "intervals_ok (timer_heap ?s2)" using s2(2-4) by (simp_all add: tq_ok_def)
  have dist: "distinct (map snd (due t ?ts))" using D(2) by (simp add: due_def distinct_map inj_on_def)
  have apart: "snd ` set (due t ?ts) \<inter> snd ` set (m_timers ?s2) = {}"
  proof -
    have "snd e \<noteq> snd e'" if "e \<in> set (due t ?ts)" "e' \<in> set (m_timers s2)" for e e'
    proof
      assume eq: "snd e = snd e'"
      from live [OF that(1)] have "map_of ?h (snd e) \<noteq> None" by (auto simp: timer_live_def)
      with s2(5) that(2) eq have "e' \<in> set (later t ?ts)" by (fastforce simp: grows_def list_all_iff)
      moreover from this that(1) have "e' \<in> set ?ts" "e \<in> set ?ts" by (simp_all add: later_def due_def)
      with eq D(2) have "e = e'" by (simp add: distinct_map inj_on_def)
      ultimately show False using that(1) by (simp add: later_def due_def)
    qed
    then show ?thesis by auto
  qed
  have "list_all (\<lambda>e. map_of (timer_heap ?s2) (snd e) \<noteq> None \<and> snd e < UINTPTR_MAX) (due t ?ts)"
    using live by (auto simp: list_all_iff old timer_live_def)
  note reset = reset_run [where S = S, OF p2(1,2) dist apart this p2(3) assms(5)]
  obtain s3 w' f where
    s4: "TimerQueue_reset S (due t ?ts) t ?s2 = Done () (s3\<lparr>kernel := w', m_timerfd := f\<rparr>)"
    and s3: "same_but_timers ?s2 s3" "tq_ok s3" "intervals_ok (timer_heap s3)" and f: "m_timers s3 \<noteq> [] \<longrightarrow> f \<noteq> None"
    and sets: "set (m_timers s3) = set (m_timers ?s2) \<union> (\<Union>e \<in> set (due t ?ts). requeued t (timer_heap ?s2) e)"
      "map_of (timer_heap s3) = heap_after t (due t ?ts) (timer_heap ?s2)"
    by (rule reset) blast
  have in3: "isInLoopThread s3" using s3(1) p2(2) by (auto simp: same_but_timers_def)
  let ?s' = "s3\<lparr>kernel := w', m_timerfd := f\<rparr>"
  have "TimerQueue_handleRead S fire s = Done () ?s'"
    using assms(4) get s2(1) s4 by (simp add: TimerQueue_handleRead_def readTimerfd_def now_def run)
  moreover have "tq_ok ?s'" "armed ?s'" "isInLoopThread ?s'" "intervals_ok (timer_heap ?s')"
    using s3(2,3) f in3 by (simp_all add: tq_ok_def armed_def)
  moreover have "callback_of ?s1 = callback_of s" by (simp add: callback_of_def fun_eq_iff)
  then have "trace ?s' = trace s @ map (callback_of s) (due t ?ts)"
    using s2(6) s1(4) trace_same_but [OF s3(1)] by (simp add: trace_same)
  moreover have "set (later t ?ts) \<subseteq> set (m_timers ?s')" using s2(5) sets(1) by (auto simp: grows_def)
  moreover have "requeued t ?h e \<subseteq> set (m_timers ?s')" if "e \<in> set (due t ?ts)" for e
    using sets(1) that by (auto simp: requeued_def old)
  moreover have "map_of (timer_heap ?s') (snd e) = heap_after t [e] ?h (snd e)" if "e \<in> set (due t ?ts)" for e
    using imageI [OF that, of snd] by (simp add: sets(2) heap_after_def old [OF that])
  ultimately show ?thesis by (intro exI [of _ ?s'] conjI) (simp_all add: list_all_iff)
qed

end

end
