(* ===== verification/Loop_Wakeup.thy ===== *)
theory Loop_Wakeup
  imports Event_Loop
begin

text \<open>
  The hand-over of functors between threads (\<open>queueInLoop\<close>, \<open>doPendingFunctors\<close>, \<open>wakeup\<close>, \<open>handleRead\<close> of
  \<open>EventLoop\<close>) under every interleaving.  The loop thread is at one of the points of \<open>loop()\<close>; any other
  thread may be between the push under the lock and the write to the wake-up descriptor.
\<close>

datatype 'f point = Polling | Handling bool | Calling "'f job list"

text \<open>\<open>Handling True\<close>: the poll reported the wake-up descriptor, and its handler has still to run.\<close>

record ('w, 'c, 'f, 'z) threads =
  point :: "'f point"
  pushing :: "nat set"
  loop_state :: "('w, 'c, 'f, 'z) loop_scheme"
  queued :: "'f job list"
  executed :: "'f job list"

text \<open>The operations of the loop, each from the point of view of the thread that runs it.\<close>

definition as_thread :: "nat \<Rightarrow> (('w, 'c, 'f, 'z) loop_scheme, unit) prog \<Rightarrow> ('w, 'c, 'f, 'z) loop_scheme \<Rightarrow>
    ('w, 'c, 'f, 'z) loop_scheme \<Rightarrow> bool" where
  "as_thread t m s s' \<longleftrightarrow> (\<exists>s1. m (s\<lparr>thread := t\<rparr>) = Done () s1 \<and> s' = s1\<lparr>thread := owner s\<rparr>)"

inductive loop_step :: "('w, 'c, 'f, 'z) threads \<Rightarrow> ('w, 'c, 'f, 'z) threads \<Rightarrow> bool" where
  other_pushes: "t \<noteq> owner (loop_state x) \<Longrightarrow> t \<notin> pushing x \<Longrightarrow> as_thread t (push_functor f) (loop_state x) s \<Longrightarrow>
    loop_step x (x\<lparr>loop_state := s, pushing := insert t (pushing x), queued := queued x @ [f]\<rparr>)"
| other_wakes: "t \<in> pushing x \<Longrightarrow> as_thread t wake_if_needed (loop_state x) s \<Longrightarrow>
    loop_step x (x\<lparr>loop_state := s, pushing := pushing x - {t}\<rparr>)"
| own_queues: "point x \<noteq> Polling \<Longrightarrow> as_thread (owner (loop_state x)) (queueInLoop f) (loop_state x) s \<Longrightarrow>
    loop_step x (x\<lparr>loop_state := s, queued := queued x @ [f]\<rparr>)"
| poll_returns: "point x = Polling \<Longrightarrow> loop_step x (x\<lparr>point := Handling (0 < m_wakeups (loop_state x))\<rparr>)"
| wakeup_read: "point x = Handling True \<Longrightarrow> as_thread (owner (loop_state x)) EventLoop_handleRead (loop_state x) s \<Longrightarrow>
    loop_step x (x\<lparr>point := Handling False, loop_state := s\<rparr>)"
| functors_taken: "point x = Handling False \<Longrightarrow>
    swap_functors ((loop_state x)\<lparr>m_callingPendingFunctors := True\<rparr>) = Done fs s \<Longrightarrow>
    loop_step x (x\<lparr>point := Calling fs, loop_state := s\<rparr>)"
| functor_called: "point x = Calling (f # fs) \<Longrightarrow>
    loop_step x (x\<lparr>point := Calling fs, executed := executed x @ [f]\<rparr>)"
| functors_done: "point x = Calling [] \<Longrightarrow>
    loop_step x (x\<lparr>point := Polling, loop_state := (loop_state x)\<lparr>m_callingPendingFunctors := False\<rparr>\<rparr>)"

inductive loop_reachable :: "('w, 'c, 'f, 'z) threads \<Rightarrow> ('w, 'c, 'f, 'z) threads \<Rightarrow> bool" for x0 where
  start: "loop_reachable x0 x0"
| step: "loop_reachable x0 x \<Longrightarrow> loop_step x y \<Longrightarrow> loop_reachable x0 y"

fun batch :: "'f point \<Rightarrow> 'f job list" where
  "batch (Calling fs) = fs"
| "batch _ = []"

definition at_start :: "('w, 'c, 'f, 'z) threads \<Rightarrow> bool" where
  "at_start x \<longleftrightarrow> point x = Polling \<and> pushing x = {} \<and> queued x = [] \<and> executed x = [] \<and>
     thread (loop_state x) = owner (loop_state x) \<and> m_pendingFunctors (loop_state x) = [] \<and> \<not> m_callingPendingFunctors (loop_state x)"

definition handover :: "('w, 'c, 'f, 'z) threads \<Rightarrow> bool" where
  "handover x \<longleftrightarrow> executed x @ batch (point x) @ m_pendingFunctors (loop_state x) = queued x \<and>
     owner (loop_state x) \<notin> pushing x \<and> m_callingPendingFunctors (loop_state x) = (\<exists>fs. point x = Calling fs) \<and>
     ((\<forall>b. point x \<noteq> Handling b) \<longrightarrow> m_pendingFunctors (loop_state x) = [] \<or> 0 < m_wakeups (loop_state x) \<or> pushing x \<noteq> {})"

lemma loop_ops:
  "as_thread t (push_functor f) s s' \<longleftrightarrow> s' = s\<lparr>thread := owner s, m_pendingFunctors := m_pendingFunctors s @ [f]\<rparr>"
  "t \<noteq> owner s \<Longrightarrow> as_thread t wake_if_needed s s' \<longleftrightarrow> s' = s\<lparr>thread := owner s, m_wakeups := m_wakeups s + 1\<rparr>"
  "as_thread (owner s) (queueInLoop f) s s' \<longleftrightarrow> s' = s\<lparr>thread := owner s, m_pendingFunctors := m_pendingFunctors s @ [f],
     m_wakeups := m_wakeups s + (if m_callingPendingFunctors s then 1 else 0)\<rparr>"
  "as_thread t EventLoop_handleRead s s' \<longleftrightarrow> s' = s\<lparr>thread := owner s, m_wakeups := 0\<rparr>"
  by (cases s; auto simp: as_thread_def push_functor_def wake_if_needed_def wakeup_def queueInLoop_def
      EventLoop_handleRead_def isInLoopThread_def run)+

lemma handover_step: "loop_step x y \<Longrightarrow> handover x \<Longrightarrow> handover y"
proof (induction rule: loop_step.induct)
  case (other_wakes t x s)
  then have "t \<noteq> owner (loop_state x)" by (auto simp: handover_def)
  with other_wakes show ?case by (auto simp: handover_def loop_ops)
next
  case (own_queues x f s)
  then show ?case by (cases "point x") (auto simp: handover_def loop_ops)
qed (auto simp: handover_def loop_ops swap_functors_def run)

lemma handover_reachable:
  assumes "loop_reachable x0 x" and "at_start x0"
  shows "handover x"
  using assms
proof (induction rule: loop_reachable.induct)
  case start
  then show ?case by (simp add: at_start_def handover_def)
next
  case (step x y)
  from step.hyps(2) step.IH [OF step.prems] show ?case by (rule handover_step)
qed

end
