(* ===== verification/Net_Reference.thy ===== *)
theory Net_Reference
  imports Connection_Life Timer_Expiry Loop_Wakeup
begin

text \<open>
  A kernel the models can run on, with the timers of the main program: the interface of the kernel and that of
  timer callbacks hold for them.
\<close>

text \<open>\<open>k_ready\<close> are the descriptors that will become ready, \<open>k_room\<close> how much each \<open>write\<close> takes, 0 being an error.\<close>

record kern =
  k_interest :: "nat \<Rightarrow> (poll_events \<times> nat) option"
  k_ready :: "(nat \<times> poll_events) list list"
  k_time :: int
  k_room :: "nat list"

definition ready_answer :: "(nat \<Rightarrow> (poll_events \<times> nat) option) \<Rightarrow> nat \<times> poll_events \<Rightarrow> (nat \<times> poll_events) list" where
  "ready_answer m a = (case m (fst a) of None \<Rightarrow> [] | Some (e, p) \<Rightarrow> [(p, snd a AND (e OR POLLERR OR POLLHUP))])"

definition ref_sys :: "kern sys" where
  "ref_sys = \<lparr>
     sys_epoll_ctl = (\<lambda>op fd ev p w. case epoll_effect op fd ev p (k_interest w) of None \<Rightarrow> (False, w)
       | Some m \<Rightarrow> (True, w\<lparr>k_interest := m\<rparr>)),
     sys_epoll_wait = (\<lambda>n w. case k_ready w of [] \<Rightarrow> (Some [], w)
       | r # rs \<Rightarrow> (Some (take n (concat (map (ready_answer (k_interest w)) r))), w\<lparr>k_ready := rs\<rparr>)),
     sys_write = (\<lambda>fd data w. case k_room w of [] \<Rightarrow> (Some (length data), w)
       | n # ns \<Rightarrow> (if n = 0 then None else Some (min n (length data)), w\<lparr>k_room := ns\<rparr>)),
     sys_now = (\<lambda>w. (max 1 (k_time w), w\<lparr>k_time := k_time w + 1\<rparr>))\<rparr>"

lemma ready_answer_reported:
  assumes "a \<in> set (ready_answer m x)"
  shows "reported m a"
proof (cases "m (fst x)")
  case None
  with assms show ?thesis by (simp add: ready_answer_def)
next
  case (Some ep)
  then have "m (fst x) = Some (fst ep, fst a)" "snd a = snd x AND (fst ep OR POLLERR OR POLLHUP)"
    using assms by (simp_all add: ready_answer_def split_beta)
  moreover have "(r AND f) AND NOT f = 0" for r f :: poll_events
    by (simp only: and.assoc bit.conj_cancel_right bit.conj_zero_right)
  ultimately show ?thesis unfolding reported_def by metis
qed

interpretation ref: epoll_kernel ref_sys k_interest
proof (unfold_locales, goal_cases)
  case (3 n w evs w')
  then show ?case
    by (auto simp: ref_sys_def list_all_iff split: list.splits dest!: in_set_takeD intro: ready_answer_reported)
qed (auto simp: ref_sys_def split: option.splits list.splits if_splits)

section \<open>The timers of the main program\<close>

text \<open>
  \<open>project/chatroom.cc\<close> adds two timers: every second the caches are flushed, by a task of a pool, and every
  300 seconds the connections are checked.  Neither callback looks at the timer queue.
\<close>

datatype main_timer = FlushCaches | CheckAlive

record 'w main_loop = "('w, main_timer) timed" +
  ticks :: "main_timer list"

definition main_callback :: "main_timer \<Rightarrow> ('w main_loop, unit) prog" where
  "main_callback cb = modify (\<lambda>s. s\<lparr>ticks := ticks s @ [cb]\<rparr>)"

interpretation main_timers: timer_callbacks main_callback ticks
proof (unfold_locales, goal_cases)
  case (1 s c)
  then show ?case by (simp add: main_callback_def tq_ok_def isInLoopThread_def grows_def list_all_iff)
qed simp_all

definition main_interval :: "main_timer \<Rightarrow> int" where
  "main_interval cb = (case cb of FlushCaches \<Rightarrow> 1000000 | CheckAlive \<Rightarrow> 300000000)"

end
