(* ===== verification/Loop_Timers.thy ===== *)
theory Loop_Timers
  imports Event_Loop Timer_Expiry
begin

text \<open>Timers added and cancelled through a loop, on its own thread.\<close>

definition with_timer :: "nat \<Rightarrow> 'c \<Rightarrow> timestamp \<Rightarrow> int \<Rightarrow> 'w \<Rightarrow> timestamp option \<Rightarrow> ('w, 'c, 'z) timed_scheme \<Rightarrow> ('w, 'c, 'z) timed_scheme" where
  "with_timer p cb time interval w f s = s\<lparr>s_numCreated := s_numCreated s + 1,
     timer_heap := AList.update p (new_timer cb time interval (s_numCreated s + 1)) (timer_heap s),
     m_timers := insort (time, p) (m_timers s), m_activeTimers := insort (p, s_numCreated s + 1) (m_activeTimers s),
     kernel := w, m_timerfd := f\<rparr>"

lemma addTimer_run:
  assumes "tq_ok s" and "isInLoopThread s" and "map_of (timer_heap s) p = None" and "0 < time" and "p < UINTPTR_MAX" and "0 \<le> s_numCreated s"
  obtains w f where "addTimer S user p cb time interval s = Done (p, 0) (with_timer p cb time interval w f s)"
    and "tq_ok (with_timer p cb time interval w f s)" and "w = kernel s \<or> w = snd (sys_now S (kernel s))" and "armed s \<Longrightarrow> f \<noteq> None"
proof -
  let ?tm = "new_timer cb time interval (s_numCreated s + 1)"
  let ?s = "s\<lparr>s_numCreated := s_numCreated s + 1, timer_heap := AList.update p ?tm (timer_heap s)\<rparr>"
  have tm: "m_expiration ?tm = time" "m_sequence ?tm = s_numCreated s + 1" by (simp_all add: new_timer_def)
  from assms(1) have ok: "timers_ok (timer_heap s) (m_timers s) (m_activeTimers s)" by (simp add: tq_ok_def)
  have p: "p \<notin> snd ` set (m_timers s)" using timers_okD(5) [OF ok] assms(3) by (fastforce simp: timer_live_def)
  have "timers_ok (timer_heap ?s) (m_timers s) (m_activeTimers s)"
  proof (rule timers_heap [OF ok])
    show "map_of (timer_heap ?s) q = map_of (timer_heap s) q" if "q \<in> snd ` set (m_timers s)" for q
      using p that by auto
    show "0 < m_sequence tm" if "map_of (timer_heap ?s) q = Some tm" for q tm
      using that timers_okD(6) [OF ok] assms(6) by (auto simp: new_timer_def split: if_splits)
  qed
  then have s: "tq_ok ?s" "isInLoopThread ?s" "map_of (timer_heap ?s) p = Some ?tm" "p \<notin> snd ` set (m_timers ?s)" "0 < m_expiration ?tm"
    using assms(1,2,4) p by (simp_all add: tq_ok_def isInLoopThread_def new_timer_def)
  obtain w f where add: "addTimerInLoop S p ?s = Done () (?s\<lparr>m_timers := insort (m_expiration ?tm, p) (m_timers ?s),
      m_activeTimers := insort (p, m_sequence ?tm) (m_activeTimers ?s), kernel := w, m_timerfd := f\<rparr>)"
    and w: "w = kernel ?s \<or> w = snd (sys_now S (kernel ?s))" "armed ?s \<Longrightarrow> f \<noteq> None"
    by (rule addTimerInLoop_run [OF s assms(5), of S]) blast
  have "tq_ok (?s\<lparr>m_timers := insort (m_expiration ?tm, p) (m_timers ?s), m_activeTimers := insort (p, m_sequence ?tm) (m_activeTimers ?s),
      kernel := w, m_timerfd := f\<rparr>)"
    by (rule tq_ok_insert [OF s(1,3-5) assms(5)])
  note ok' = this
  have "addTimer S user p cb time interval s = Done (p, 0) (with_timer p cb time interval w f s)"
    using add s(2) by (simp add: with_timer_def tm addTimer_def runInLoop_def exec_functor_def run)
  moreover from ok' have "tq_ok (with_timer p cb time interval w f s)" by (simp add: with_timer_def tm)
  moreover have "w = kernel s \<or> w = snd (sys_now S (kernel s))" "armed s \<Longrightarrow> f \<noteq> None"
    using w by (simp_all add: armed_def)
  ultimately show ?thesis by (rule that)
qed

lemma cancel_run: "tq_ok s \<Longrightarrow> isInLoopThread s \<Longrightarrow> cancel S user (p, 0) s = Done () s"
  by (simp add: cancel_def runInLoop_def exec_functor_def run cancel_does_nothing)

end
