(* ===== verification/Loop_Properties.thy ===== *)
theory Loop_Properties
  imports Net_Reference Loop_Timers
begin

text \<open>
  The properties of timers, of the loop and of threads, with closed instances.
\<close>

section \<open>Timers\<close>

text \<open>
  C27. One expiry of the timer queue: the callbacks that run are those of the timers that are due, each once and in
  the order of their times; the periodic ones are back in the queue an interval later, the others are deleted, all
  timers that were not due are still there, and the descriptor is armed again.
\<close>

theorem due_timers_run:
  assumes "timer_callbacks fire trace" and "tq_ok s" and "isInLoopThread s" and "intervals_ok (timer_heap s)"
    and "sys_now S (kernel s) = (t, w)" and "0 < t"
  shows "\<exists>s'. TimerQueue_handleRead S fire s = Done () s' \<and> tq_ok s' \<and> armed s' \<and>
    trace s' = trace s @ map (callback_of s) (due t (m_timers s)) \<and>
    set (later t (m_timers s)) \<subseteq> set (m_timers s') \<and>
    list_all (\<lambda>e. requeued t (timer_heap s) e \<subseteq> set (m_timers s') \<and>
      map_of (timer_heap s') (snd e) = heap_after t [e] (timer_heap s) (snd e)) (due t (m_timers s))"
  using timer_callbacks.expiry [OF assms] by blast

text \<open>Three timers: one periodic, one that runs once, one that is not due yet.\<close>

definition sample_timers :: "kern main_loop" where
  "sample_timers = \<lparr>kernel = \<lparr>k_interest = (\<lambda>_. None), k_ready = [], k_time = 1000, k_room = []\<rparr>, owner = 7, thread = 7,
     heap = (\<lambda>_. None), m_channels = (\<lambda>_. None), m_eventList = 16, m_activeChannels = [],
     timer_heap = [(64, new_timer FlushCaches 900 1000000 1), (32, new_timer CheckAlive 1000 0 2), (96, new_timer CheckAlive 2000 0 3)],
     s_numCreated = 3, m_timers = [(900, 64), (1000, 32), (2000, 96)], m_activeTimers = [(32, 2), (64, 1), (96, 3)],
     m_cancelingTimers = [], m_callingExpiredTimers = False, m_timerfd = Some 900, ticks = []\<rparr>"

lemma sample_timers_ok: "tq_ok sample_timers" "isInLoopThread sample_timers" "intervals_ok (timer_heap sample_timers)"
  by (auto simp: tq_ok_def timers_ok_def sample_timers_def key_def timer_live_def new_timer_def UINTPTR_MAX_def
      isInLoopThread_def intervals_ok_def split: if_splits)

theorem due_timers_run_witness:
  "\<exists>s'. TimerQueue_handleRead ref_sys main_callback sample_timers = Done () s' \<and> ticks s' = [FlushCaches, CheckAlive] \<and>
    (1001000, 64) \<in> set (m_timers s') \<and> map_of (timer_heap s') 32 = None \<and> armed s'"
proof -
  have t: "sys_now ref_sys (kernel sample_timers) = (1000, (kernel sample_timers)\<lparr>k_time := 1001\<rparr>)" "0 < (1000::int)"
    by (simp_all add: ref_sys_def sample_timers_def)
  have due: "due 1000 (m_timers sample_timers) = [(900, 64), (1000, 32)]" by (simp add: due_def sample_timers_def)
  from due_timers_run [OF main_timers.timer_callbacks_axioms sample_timers_ok t] show ?thesis
    unfolding due by (auto simp: sample_timers_def callback_of_def requeued_def heap_after_def new_timer_def)
qed

text \<open>
  A timer cannot be cancelled: the identifier \<open>addTimer\<close> returns leaves the state as it is when it is cancelled,
  and the timer stays in the queue.
\<close>

theorem cancel_has_no_effect:
  assumes "tq_ok s" and "isInLoopThread s" and "map_of (timer_heap s) p = None" and "0 < time" and "p < UINTPTR_MAX" and "0 \<le> s_numCreated s"
  shows "\<exists>s' tid. addTimer S user p cb time interval s = Done tid s' \<and> (time, p) \<in> set (m_timers s') \<and> tq_ok s' \<and>
    cancel S user tid s' = Done () s'"
proof -
  obtain w f where add: "addTimer S user p cb time interval s = Done (p, 0) (with_timer p cb time interval w f s)"
    and ok: "tq_ok (with_timer p cb time interval w f s)"
    by (rule addTimer_run [OF assms(1-6), of S user cb interval]) (rule that)
  have "isInLoopThread (with_timer p cb time interval w f s)" using assms(2) by (simp add: with_timer_def isInLoopThread_def)
  with ok have "cancel S user (p, 0) (with_timer p cb time interval w f s) = Done () (with_timer p cb time interval w f s)"
    by (rule cancel_run)
  moreover have "(time, p) \<in> set (m_timers (with_timer p cb time interval w f s))" by (simp add: with_timer_def set_insort_key)
  ultimately show ?thesis using add ok by blast
qed

definition sample_loop :: "(kern, main_timer, unit) loop" where
  "sample_loop = \<lparr>kernel = \<lparr>k_interest = (\<lambda>_. None), k_ready = [], k_time = 1000, k_room = []\<rparr>, owner = 7, thread = 7,
     heap = (\<lambda>_. None), m_channels = (\<lambda>_. None), m_eventList = 16, m_activeChannels = [],
     timer_heap = [], s_numCreated = 0, m_timers = [], m_activeTimers = [], m_cancelingTimers = [], m_callingExpiredTimers = False,
     m_timerfd = None, m_looping = False, m_quit = False, m_callingPendingFunctors = False, m_pendingFunctors = [], m_wakeups = 0\<rparr>"

theorem cancel_has_no_effect_witness:
  "\<exists>s' tid. addTimer ref_sys (\<lambda>_. ret ()) 64 FlushCaches 5000 0 sample_loop = Done tid s' \<and> (5000, 64) \<in> set (m_timers s') \<and>
    cancel ref_sys (\<lambda>_. ret ()) tid s' = Done () s'"
proof -
  have "tq_ok sample_loop" "isInLoopThread sample_loop" "map_of (timer_heap sample_loop) 64 = None" "0 < (5000::int)"
    "64 < UINTPTR_MAX" "0 \<le> s_numCreated sample_loop"
    by (simp_all add: sample_loop_def tq_ok_def timers_ok_def isInLoopThread_def UINTPTR_MAX_def)
  from cancel_has_no_effect [OF this] show ?thesis by blast
qed

section \<open>Functors and threads\<close>

text \<open>
  C28. No functor is lost, however the threads are interleaved: those executed, those taken and those pending are the
  queued ones in order, and whenever the loop is about to poll while one is pending and no thread is in the middle of
  queueing, the wake-up descriptor is readable, so that the poll returns at once.
\<close>

theorem no_functor_lost:
  assumes "at_start x0" and "loop_reachable x0 x"
  shows "executed x @ batch (point x) @ m_pendingFunctors (loop_state x) = queued x \<and>
    (point x = Polling \<and> pushing x = {} \<and> m_pendingFunctors (loop_state x) \<noteq> [] \<longrightarrow> 0 < m_wakeups (loop_state x))"
  using handover_reachable [OF assms(2,1)] by (auto simp: handover_def)

definition idle_threads :: "(kern, main_timer, unit, unit) threads" where
  "idle_threads = \<lparr>point = Polling, pushing = {}, loop_state = sample_loop, queued = [], executed = []\<rparr>"

theorem no_functor_lost_witness:
  "\<exists>x. loop_reachable idle_threads x \<and> point x = Polling \<and> m_pendingFunctors (loop_state x) = [User ()] \<and> 0 < m_wakeups (loop_state x)"
proof -
  let ?l = "sample_loop\<lparr>m_pendingFunctors := [User ()]\<rparr>"
  let ?a = "idle_threads\<lparr>loop_state := ?l, pushing := {8}, queued := [User ()]\<rparr>"
  let ?b = "?a\<lparr>loop_state := ?l\<lparr>m_wakeups := 1\<rparr>, pushing := {}\<rparr>"
  have start: "at_start idle_threads" by (simp add: at_start_def idle_threads_def sample_loop_def)
  have "as_thread 8 (push_functor (User ())) sample_loop ?l" unfolding loop_ops by (simp add: sample_loop_def)
  then have "loop_step idle_threads ?a"
    using other_pushes [of 8 idle_threads "User ()" ?l] by (simp add: idle_threads_def sample_loop_def)
  moreover have "as_thread 8 wake_if_needed ?l (?l\<lparr>m_wakeups := 1\<rparr>)"
    by (subst loop_ops) (simp_all add: sample_loop_def)
  then have "loop_step ?a ?b" using other_wakes [of 8 ?a "?l\<lparr>m_wakeups := 1\<rparr>"] by simp
  ultimately have r: "loop_reachable idle_threads ?b" by (blast intro: loop_reachable.intros)
  from no_functor_lost [OF start r] r show ?thesis
    by (intro exI [of _ ?b]) (simp add: idle_threads_def)
qed

text \<open>
  The loops of the pool are handed out in turn: the \<open>k\<close>-th connection from now gets the \<open>k\<close>-th loop from the
  current one, round and round.
\<close>

theorem loops_in_turn:
  assumes "in_base s" and "m_loops s \<noteq> []" and "m_next s < length (m_loops s)"
  shows "next_loops k s = Done (map (\<lambda>i. m_loops s ! ((m_next s + i) mod length (m_loops s))) [0..<k])
    (s\<lparr>m_next := (m_next s + k) mod length (m_loops s)\<rparr>)"
  using assms by (rule next_loops_round_robin)

theorem loops_in_turn_witness:
  "next_loops 4 \<lparr>m_baseLoop = 0, in_base = True, m_started = True, m_numThreads = 3, m_next = 2, m_loops = [11, 12, 13]\<rparr> =
    Done [13, 11, 12, 13] \<lparr>m_baseLoop = 0, in_base = True, m_started = True, m_numThreads = 3, m_next = 0, m_loops = [11, 12, 13]\<rparr>"
  by (subst loops_in_turn) (simp_all add: upt_conv_Cons)

text \<open>
  Starting a thread with a loop can hang: the constructor may set the pointer to the loop to null after the new
  thread has set it, and then \<open>startLoop\<close> waits forever.
\<close>

theorem start_can_hang:
  "\<exists>s. start_reachable (thread_created m) s \<and> creator s = Constructed \<and> created s = Published l \<and> (\<forall>t. \<not> start_step s t)"
proof -
  let ?a = "(thread_created m)\<lparr>m_eventLoop := Some l, created := Published l\<rparr>"
  let ?b = "?a\<lparr>m_eventLoop := None, creator := Constructed\<rparr>"
  have "start_step (thread_created m) ?a" by (rule thread_publishes) (simp add: thread_created_def)
  moreover have "start_step ?a ?b" by (rule member_set) (simp add: thread_created_def)
  ultimately have "start_reachable (thread_created m) ?b" by (blast intro: start_reachable.intros)
  moreover have "\<not> start_step ?b t" for t by (simp add: start_step_simps)
  ultimately show ?thesis by (intro exI [of _ ?b]) simp
qed

text \<open>
  C29. The worker pool loses no task and runs none twice: at any time the tasks enqueued are those that ran, those a
  worker has in hand and those waiting; and when the destructor has joined all workers, every task has run.
\<close>

theorem tasks_run_once:
  assumes "pool_run (new_worker_pool n) ts p"
  shows "mset (ran p) + in_hand p + mset (tasks p) = mset ts \<and>
    (all_joined p \<and> 0 < n \<longrightarrow> mset (ran p) = mset ts)"
proof -
  from pool_run_ok [OF assms] have ok: "mset (ran p) + in_hand p + mset (tasks p) = mset ts"
    "Gone \<in> set (workers p) \<longrightarrow> stop p \<and> tasks p = []" "length (workers p) = n" by (simp_all add: pool_ok_def)
  have "tasks p = []" if "all_joined p" "0 < n"
    using that ok(2,3) by (cases "workers p") (auto simp: all_joined_def)
  with ok(1) joined_in_hand [of p] show ?thesis by auto
qed

theorem tasks_run_once_witness:
  "\<exists>p. pool_run (new_worker_pool 1) [''a''] p \<and> ran p = [''a''] \<and> all_joined p"
proof -
  let ?p0 = "new_worker_pool 1 :: string worker_pool"
  let ?p1 = "?p0\<lparr>tasks := [''a'']\<rparr>" let ?p2 = "?p1\<lparr>workers := [Busy ''a''], tasks := []\<rparr>"
  let ?p3 = "?p2\<lparr>workers := [Idle], ran := [''a'']\<rparr>" let ?p4 = "destroy_begin ?p3" let ?p5 = "?p4\<lparr>workers := [Gone]\<rparr>"
  have "pool_run ?p0 [''a''] ?p1" using pool_run.enqueued [OF pool_run.nothing, of "''a''" ?p0 ?p1] by (simp add: enqueue_def new_worker_pool_def)
  moreover have "worker_step ?p1 ?p2" using takes [of 0 ?p1 "''a''" "[]"] by (simp add: new_worker_pool_def)
  moreover have "worker_step ?p2 ?p3" using finishes [of 0 ?p2 "''a''"] by (simp add: new_worker_pool_def)
  moreover have "worker_step ?p4 ?p5" using worker_step.leaves [of 0 ?p4] by (simp add: new_worker_pool_def destroy_begin_def)
  ultimately have r: "pool_run ?p0 [''a''] ?p5" by (blast intro: pool_run.intros)
  moreover have "all_joined ?p5" by (simp add: all_joined_def)
  moreover from tasks_run_once [OF r] \<open>all_joined ?p5\<close> have "mset (ran ?p5) = mset [''a'']" by simp
  then have "ran ?p5 = [''a'']" by simp
  ultimately show ?thesis by blast
qed

end
