(* ===== verification/Net_Properties.thy ===== *)
theory Net_Properties
  imports Net_Reference
begin

text \<open>
  The properties of the network library, each with a closed instance on the reference kernel.
\<close>

section \<open>Channels and the poller\<close>

text \<open>
  C24. The kernel watches what the channels want: each operation of a channel returns, no assertion of the poller
  fails, and the interest list changes at its descriptor only, to the events the channel now wants, or to none.
\<close>

theorem channel_operations_followed:
  assumes "epoll_kernel S interest" and "reactor_ok interest s" and "isInLoopThread s" and "heap s c = Some ch"
    and "m_index ch = kNew \<longrightarrow> m_channels s (m_fd ch) = None"
    and "(operation, f) \<in> {(enableReading S, \<lambda>e. e OR kReadEvent), (enableWriting S, \<lambda>e. e OR kWriteEvent),
      (disableWriting S, \<lambda>e. e AND NOT kWriteEvent), (disableAll S, \<lambda>e. kNoneEvent)}"
  shows "\<exists>s' ch'. operation c s = Done () s' \<and> reactor_ok interest s' \<and> heap s' c = Some ch' \<and> m_events ch' = f (m_events ch) \<and>
    registered ch' \<and> m_index ch' = (if m_index ch = kAdded \<and> m_events ch' = kNoneEvent then kDeleted else kAdded) \<and>
    interest (kernel s') = (interest (kernel s))(m_fd ch := if m_index ch' = kAdded then Some (m_events ch', c) else None)"
proof -
  have operation: "operation c = change_events S f c" using assms(6) by (auto simp: channel_ops)
  from epoll_kernel.change_events_run [OF assms(1-4)] assms(5) obtain w where
    w: "change_events S f c s = Done () (with_channel c (changed f ch) w s)"
      "interest w = (watched s)(m_fd ch := if m_index (changed f ch) = kAdded then Some (f (m_events ch), c) else None)" by blast
  have "reactor_ok interest (with_channel c (changed f ch) w s)"
    by (rule epoll_kernel.with_channel_ok [OF assms(1,2,4) _ w(2)]) (use assms(5) in blast)
  moreover have "m_index (changed f ch) = (if m_index ch = kAdded \<and> f (m_events ch) = kNoneEvent then kDeleted else kAdded)"
    by (simp add: changed_def)
  ultimately show ?thesis using operation w reactor_okD(3) [OF assms(2)]
    by (intro exI [of _ "with_channel c (changed f ch) w s"] exI [of _ "changed f ch"]) (simp add: with_channel_def)
qed

text \<open>A loop with one new channel, for descriptor 10.\<close>

definition sample_kern :: kern where
  "sample_kern = \<lparr>k_interest = (\<lambda>_. None), k_ready = [[(10, POLLIN OR POLLOUT OR POLLHUP)]], k_time = 1000, k_room = [2, 0]\<rparr>"

definition sample_reactor :: "kern reactor" where
  "sample_reactor = \<lparr>kernel = sample_kern, owner = 7, thread = 7, heap = [5 \<mapsto> new_channel False 10], m_channels = (\<lambda>_. None),
     m_eventList = kInitEventListSize, m_activeChannels = []\<rparr>"

lemma sample_reactor_ok: "reactor_ok k_interest sample_reactor" "isInLoopThread sample_reactor"
  by (auto simp: reactor_ok_def sample_reactor_def sample_kern_def new_channel_def watched_def indices isInLoopThread_def fun_eq_iff)

theorem channel_operations_followed_witness:
  "\<exists>s'. enableReading ref_sys 5 sample_reactor = Done () s' \<and> k_interest (kernel s') 10 = Some (3, 5)"
proof -
  have c: "heap sample_reactor 5 = Some (new_channel False 10)" "m_index (new_channel False 10) = kNew \<longrightarrow> m_channels sample_reactor (m_fd (new_channel False 10)) = None"
    by (simp_all add: sample_reactor_def)
  have o: "(enableReading ref_sys, \<lambda>e. e OR kReadEvent) \<in> {(enableReading ref_sys, \<lambda>e. e OR kReadEvent), (enableWriting ref_sys, \<lambda>e. e OR kWriteEvent),
      (disableWriting ref_sys, \<lambda>e. e AND NOT kWriteEvent), (disableAll ref_sys, \<lambda>e. kNoneEvent)}" by simp
  from channel_operations_followed [OF ref.epoll_kernel_axioms sample_reactor_ok c o] show ?thesis
    by (auto simp: new_channel_def indices kReadEvent_def poll_bits)
qed

text \<open>
  What the poller reports: every channel handed to the loop is alive and registered, its write callback is
  called only if it waits to write, and its read callback only if it asked for something to read.
\<close>

theorem poll_tells_what_was_asked:
  assumes "epoll_kernel S interest" and "reactor_ok interest s" and "m_activeChannels s = []"
  shows "\<exists>t s'. EPoller_poll S s = Done t s' \<and> reactor_ok interest s' \<and> watched s' = watched s \<and>
    list_all (\<lambda>c. case heap s' c of None \<Rightarrow> False | Some ch \<Rightarrow> m_channels s' (m_fd ch) = Some c \<and>
      (isWriting ch \<or> \<not> wants WriteCallback (m_revents ch)) \<and>
      (m_events ch AND (POLLIN OR POLLPRI OR POLLRDHUP) \<noteq> 0 \<or> \<not> wants ReadCallback (m_revents ch))) (m_activeChannels s')"
proof -
  from epoll_kernel.poll_runs [OF assms] obtain t s' where s': "EPoller_poll S s = Done t s'" "reactor_ok interest s'" "active_ok s'" "same_reactor s s'"
    by (auto simp: runs_returns)
  have "case heap s' c of None \<Rightarrow> False | Some ch \<Rightarrow> m_channels s' (m_fd ch) = Some c \<and>
      (isWriting ch \<or> \<not> wants WriteCallback (m_revents ch)) \<and>
      (m_events ch AND (POLLIN OR POLLPRI OR POLLRDHUP) \<noteq> 0 \<or> \<not> wants ReadCallback (m_revents ch))"
    if "c \<in> set (m_activeChannels s')" for c
  proof -
    from s'(3) that obtain ch where ch: "heap s' c = Some ch" "told_ok ch" by (auto simp: active_ok_def list_all_iff)
    then have "m_index ch \<noteq> kNew" by (auto simp: told_ok_def registered_def indices)
    with reactor_okD(2) [OF s'(2) ch(1)] ch told_wants [OF ch(2)] show ?thesis by auto
  qed
  with s' show ?thesis by (intro exI [of _ t] exI [of _ s']) (simp add: list_all_iff same_reactor_def)
qed

definition sample_polled :: "kern reactor" where
  "sample_polled = (case enableReading ref_sys 5 sample_reactor of Done _ s \<Rightarrow> s)"

lemma sample_polled_ok: "reactor_ok k_interest sample_polled" "m_activeChannels sample_polled = []"
proof -
  have "heap sample_reactor 5 = Some (new_channel False 10)" "m_channels sample_reactor 10 = None" by (simp_all add: sample_reactor_def)
  with ref.change_events_ok [OF sample_reactor_ok, of 5 _ "\<lambda>e. e OR kReadEvent"] obtain w where
    w: "enableReading ref_sys 5 sample_reactor = Done () (with_channel 5 (changed (\<lambda>e. e OR kReadEvent) (new_channel False 10)) w sample_reactor)"
      "reactor_ok k_interest (with_channel 5 (changed (\<lambda>e. e OR kReadEvent) (new_channel False 10)) w sample_reactor)"
    unfolding channel_ops by (metis channel.select_convs(1) new_channel_def)
  then show "reactor_ok k_interest sample_polled" by (simp add: sample_polled_def)
  from w(1) show "m_activeChannels sample_polled = []" by (simp add: sample_polled_def with_channel_def sample_reactor_def)
qed

theorem poll_tells_what_was_asked_witness:
  "\<exists>t s'. EPoller_poll ref_sys sample_polled = Done t s' \<and> watched s' = watched sample_polled"
  using poll_tells_what_was_asked [OF ref.epoll_kernel_axioms sample_polled_ok] by blast

end
