(* ===== verification/Connection_Properties.thy ===== *)
theory Connection_Properties
  imports Net_Properties
begin

text \<open>
  The properties of TCP connections and of the server that keeps them, with closed instances.
\<close>

text \<open>
  C30. What a connection sends, for any sends, writable events and shutdowns that are called on the thread of its loop, and any amounts the
  kernel takes: the bytes on the wire followed by those in the output buffer are the messages sent before the shutdown, in order; and the
  sending side is shut down exactly when that was asked for and nothing is left in the buffer.  (A message sent from another thread
  is only queued: \<open>queued_message_overtaken\<close>.)
\<close>

theorem connection_stream:
  assumes "epoll_kernel S interest" and "usable interest c fd s" and "state_of c s = kConnected"
    and "wire s fd = []" and "out_bytes c s = []" and "fins s = []"
  shows "\<exists>s'. for_each (run_event S H c) es s = Done () s' \<and> wire s' fd @ out_bytes c s' = accepted kConnected es \<and>
    fins s' = (if ShutsDown \<in> set es \<and> out_bytes c s' = [] then [fd] else []) \<and>
    state_of c s' = (if ShutsDown \<in> set es then kDisconnecting else kConnected)"
proof -
  have "epoll_kernel.up interest c fd s" using assms by (simp add: epoll_kernel.up_def)
  from epoll_kernel.events_up [OF assms(1) this, of H es] obtain s' where
    "for_each (run_event S H c) es s = Done () s'" "epoll_kernel.up interest c fd s'"
    "state_of c s' = (if ShutsDown \<in> set es then kDisconnecting else kConnected)"
    "stream c fd s' = accepted kConnected es" using assms(3-5) by (auto simp: stream_def)
  then show ?thesis using assms(1) by (intro exI [of _ s']) (auto simp: epoll_kernel.up_def stream_def)
qed

text \<open>A connection, number 1, on descriptor 10, known to a server with one loop besides the base loop.\<close>

definition sample_tcp_server :: tcp_server where
  "sample_tcp_server = \<lparr>m_baseLoop = 0, in_base = True, m_started = True, m_numThreads = 1, m_next = 0, m_loops = [7],
     m_name = ''0.0.0.0:8888'', m_nextConnId = 2, m_connections = [(''0.0.0.0:8888#1'', 1)], conn_name = (\<lambda>_. ''0.0.0.0:8888#1''),
     conn_loop = (\<lambda>_. 7), jobs = []\<rparr>"

definition sample_channel :: channel where
  "sample_channel = \<lparr>m_fd = 10, m_events = 3, m_revents = 0, m_index = 1, m_eventHandling = False\<rparr>"

definition sample_conn :: "(kern, unit) serving" where
  "sample_conn = \<lparr>kernel = sample_kern\<lparr>k_interest := [10 \<mapsto> (3, 5)]\<rparr>, owner = 7, thread = 7, heap = [5 \<mapsto> sample_channel], m_channels = [10 \<mapsto> 5],
     m_eventList = 16, m_activeChannels = [], timer_heap = [], s_numCreated = 0, m_timers = [], m_activeTimers = [], m_cancelingTimers = [],
     m_callingExpiredTimers = False, m_timerfd = None, m_looping = True, m_quit = False, m_callingPendingFunctors = False,
     m_pendingFunctors = [], m_wakeups = 0,
     conn_heap = [1 \<mapsto> \<lparr>c_state = kConnected, c_channel = 5, m_inputBuffer = new_buffer, m_outputBuffer = new_buffer\<rparr>],
     wire = (\<lambda>_. []), fins = [], server = sample_tcp_server, notices = [(1, True)]\<rparr>"

lemma sample_conn_usable: "usable k_interest 1 10 sample_conn" "state_of 1 sample_conn = kConnected" "wire sample_conn 10 = []"
  "out_bytes 1 sample_conn = []" "fins sample_conn = []"
  by (auto simp: usable_def reactor_ok_def sample_conn_def sample_channel_def sample_kern_def watched_def registered_def indices
      isInLoopThread_def fun_eq_iff conn_ok_def new_buffer_ok isWriting_def kWriteEvent_def poll_bits state_of_def out_bytes_def)

theorem connection_stream_witness:
  "\<exists>s'. for_each (run_event ref_sys (server_handlers (\<lambda>_ _. ret ())) 1) [Sends ''hello'', Sends '' you'', ShutsDown, Writable, Sends ''x'', Writable] sample_conn = Done () s' \<and>
    wire s' 10 @ out_bytes 1 s' = ''hello you'' \<and> state_of 1 s' = kDisconnecting"
  using connection_stream [OF ref.epoll_kernel_axioms sample_conn_usable,
      of "server_handlers (\<lambda>_ _. ret ())" "[Sends ''hello'', Sends '' you'', ShutsDown, Writable, Sends ''x'', Writable]"] by auto



text \<open>
  C32. When the peer closes and nothing is queued yet to close the connection, the connection's loop, the base loop and the connection's loop
  again do their parts, no assertion failing: afterwards the connection is out of the map, its descriptor is watched no more, its state
  is \<open>kDisconnected\<close>, its owner has been told once that it is down, and the two jobs that have just been run are all that was ever queued
  to close it.  (With a forced close in the queue the server ends: \<open>forced_close_race_fails\<close>.)
\<close>

theorem peer_close_completes:
  assumes "epoll_kernel S interest" and "open_service interest c fd s" and "\<not> close_queued c s"
  shows "\<exists>s1 s2 s3. conn_handleRead S (server_handlers M) c (Some []) t s = Done () s1 \<and>
    on_server (removeConnectionInLoop c) s1 = Done () s2 \<and>
    connectDestroyed S (server_handlers M) c s2 = Done () s3 \<and>
    jobs (server s3) = jobs (server s) @ [(m_baseLoop (server s), RemoveConnectionInLoop c), (conn_loop (server s) c, ConnectDestroyed c)] \<and>
    filter (\<lambda>(l, f). closing c f) (jobs (server s3)) = [(m_baseLoop (server s), RemoveConnectionInLoop c), (conn_loop (server s) c, ConnectDestroyed c)] \<and>
    User (ForceCloseInLoop c) \<notin> set (m_pendingFunctors s3) \<and>
    state_of c s3 = kDisconnected \<and> interest (kernel s3) fd = None \<and> notices s3 = notices s @ [(c, False)] \<and>
    set (m_connections (server s3)) = set (m_connections (server s)) - {(conn_name (server s) c, c)}"
proof -
  have none: "filter (\<lambda>(l, f). closing c f) (jobs (server s)) = []" "User (ForceCloseInLoop c) \<notin> set (m_pendingFunctors s)"
    using assms(3) by (auto simp: close_queued_def list_ex_iff filter_empty_conv closing_def)
  have own: "closing c (RemoveConnectionInLoop c)" "closing c (ConnectDestroyed c)" by (simp_all add: closing_def)
  show ?thesis by (rule epoll_kernel.close_path [OF assms(1,2), of M t]) (use none own in auto)
qed

lemma sample_open_service: "open_service k_interest 1 10 sample_conn"
proof -
  have "''0.0.0.0:8888#1'' = connection_name ''0.0.0.0:8888'' 1" by code_simp
  then have "names_ok sample_tcp_server" by (auto simp: names_ok_def sample_tcp_server_def intro: exI [of _ 1])
  with sample_conn_usable(1,2) show ?thesis by (simp add: open_service_def sample_conn_def sample_tcp_server_def)
qed

theorem peer_close_completes_witness:
  "\<exists>s1 s2 s3. conn_handleRead ref_sys (server_handlers (\<lambda>_ _. ret ())) 1 (Some []) 0 sample_conn = Done () s1 \<and>
    on_server (removeConnectionInLoop 1) s1 = Done () s2 \<and> connectDestroyed ref_sys (server_handlers (\<lambda>_ _. ret ())) 1 s2 = Done () s3 \<and>
    jobs (server s3) = [(0, RemoveConnectionInLoop 1), (7, ConnectDestroyed 1)] \<and> state_of 1 s3 = kDisconnected"
proof -
  have "\<not> close_queued 1 sample_conn" by (simp add: close_queued_def sample_conn_def sample_tcp_server_def)
  from peer_close_completes [OF ref.epoll_kernel_axioms sample_open_service this, of "\<lambda>_ _. ret ()" 0] show ?thesis
    by (auto simp: sample_conn_def sample_tcp_server_def)
qed

text \<open>
  C34. A peer that closes while a forced close is queued ends the server: \<open>handleClose\<close> does not record that the close
  has begun, so it runs twice, and the assertion of the second removal from the map fails.
\<close>

theorem forced_close_race_fails:
  assumes "epoll_kernel S interest" and "open_service interest c fd s"
  shows "\<exists>s1 s2 s3 s4. forceClose c s = Done () s1 \<and> m_pendingFunctors s1 = m_pendingFunctors s @ [User (ForceCloseInLoop c)] \<and>
    conn_handleRead S (server_handlers M) c (Some []) t s1 = Done () s2 \<and>
    forceCloseInLoop S (server_handlers M) c s2 = Done () s3 \<and>
    jobs (server s3) = jobs (server s) @ replicate 2 (m_baseLoop (server s), RemoveConnectionInLoop c) \<and>
    on_server (removeConnectionInLoop c) s3 = Done () s4 \<and>
    on_server (removeConnectionInLoop c) s4 = Stuck AssertFailed"
  by (rule epoll_kernel.closed_twice [OF assms, of M t]) blast

theorem forced_close_race_fails_witness:
  "\<exists>s1. forceClose 1 sample_conn = Done () s1 \<and> m_pendingFunctors s1 = [User (ForceCloseInLoop 1)]"
  using forced_close_race_fails [OF ref.epoll_kernel_axioms sample_open_service, of "\<lambda>_ _. ret ()" 0]
  by (auto simp: sample_conn_def)

text \<open>
  Nothing between a callback and the thread of its loop catches an exception: when bytes have come for a connection and its message
  callback throws on them, \<open>handleRead\<close>, \<open>handleEvent\<close>, the round and \<open>loop\<close> are left with that exception, which ends the process.
\<close>

theorem exception_leaves_loop:
  assumes "\<not> m_looping s" and "isInLoopThread s"
    and "EPoller_poll S (s\<lparr>m_looping := True, m_quit := False, m_activeChannels := []\<rparr>) = Done t u"
    and "m_activeChannels u = a # as" and "heap u a = Some ch" and "m_revents ch = POLLIN"
    and "call a ReadCallback = conn_handleRead S H c (Some data) t" and "data \<noteq> []"
    and "conn_heap u c = Some k" and "buffer_ok (m_inputBuffer k)"
    and "\<And>v. contents (m_inputBuffer (the (conn_heap v c))) = contents (m_inputBuffer k) @ data \<Longrightarrow> \<exists>w. m_messageCallback H c t v = Throw e w"
  shows "\<exists>w. loop_forever S user call s = Throw e w"
proof -
  let ?u = "u\<lparr>heap := (heap u)(a \<mapsto> ch\<lparr>m_eventHandling := True\<rparr>)\<rparr>"
  from read_buffer.put_ok [OF assms(10), of data] obtain b
    where b: "readFd data (m_inputBuffer k) = Some b" "contents b = contents (m_inputBuffer k) @ data" by blast
  let ?v = "?u\<lparr>conn_heap := (conn_heap u)(c \<mapsto> k\<lparr>m_inputBuffer := b\<rparr>)\<rparr>"
  obtain w where "m_messageCallback H c t ?v = Throw e w" using assms(11) [of ?v] b(2) by auto
  then have "call a ReadCallback ?u = Throw e w"
    using assms(7-9) b(1) by (simp add: conn_handleRead_def run)
  moreover have "POLLIN AND POLLHUP = 0" "POLLIN AND (POLLERR OR POLLNVAL) = 0" "POLLIN AND (POLLIN OR POLLPRI OR POLLRDHUP) \<noteq> 0"
    by (simp_all add: poll_bits)
  ultimately have "handleEvent call a u = Throw e w"
    using assms(5,6) by (simp add: handleEvent_def set_channel_def the_channel_def wants_def run)
  then have "one_round S user call (s\<lparr>m_looping := True, m_quit := False\<rparr>) = Throw e w"
    using assms(3,4) by (simp add: one_round_def run)
  then have "rounds (one_round S user call) (s\<lparr>m_looping := True, m_quit := False\<rparr>) = Some (Throw e w)"
    by (subst rounds.simps) simp
  then show ?thesis using assms(1,2) by (intro exI [of _ w]) (simp add: loop_forever_def assertInLoopThread_def check_def run)
qed

definition sample_readable :: "(kern, unit) serving" where
  "sample_readable = sample_conn\<lparr>m_looping := False, kernel := (kernel sample_conn)\<lparr>k_ready := [[(10, POLLIN)]]\<rparr>\<rparr>"

theorem exception_leaves_loop_witness:
  "\<exists>w. loop_forever ref_sys (\<lambda>_. ret ()) (\<lambda>_ _. conn_handleRead ref_sys (server_handlers (\<lambda>_ _. raise TypeError)) 1 (Some ''hello'') 1000)
    sample_readable = Throw TypeError w"
proof -
  have s: "\<not> m_looping sample_readable" "isInLoopThread sample_readable" by (simp_all add: sample_readable_def sample_conn_def isInLoopThread_def)
  let ?s = "sample_readable\<lparr>m_looping := True, m_quit := False, m_activeChannels := []\<rparr>"
  let ?k = "\<lparr>c_state = kConnected, c_channel = 5, m_inputBuffer = new_buffer, m_outputBuffer = new_buffer\<rparr>"
  have bits: "POLLIN AND (3 OR POLLERR OR POLLHUP) = POLLIN" by (simp add: poll_bits)
  obtain t u where poll: "EPoller_poll ref_sys ?s = Done t u" "m_activeChannels u = [5]" "heap u 5 = Some (sample_channel\<lparr>m_revents := POLLIN\<rparr>)"
    "conn_heap u 1 = Some ?k" "t = 1000"
    by (simp add: EPoller_poll_def epoll_wait_def fillActiveChannels_def now_def ref_sys_def sample_readable_def sample_conn_def sample_kern_def
        ready_answer_def run bits)
  show ?thesis
    by (rule exception_leaves_loop [OF s poll(1,2,3) _ _ _ poll(4)])
      (auto simp: poll(5) server_handlers_def new_buffer_ok raise_def)
qed

text \<open>
  Every new connection gets a name no other has ever had, is entered under it, takes nobody's place in the map, and
  is handed to the loop it was given.
\<close>

theorem new_connection_entered:
  assumes "names_ok s" and "in_base s" and "c \<notin> snd ` set (m_connections s)"
  shows "\<exists>s'. newConnection c s = Done () s' \<and> names_ok s' \<and> m_connections s' = m_connections s @ [(conn_name s' c, c)] \<and>
    jobs s' = jobs s @ [(conn_loop s' c, ConnectEstablished c)]"
  using newConnection_ok [OF assms] by blast

theorem new_connection_entered_witness:
  "\<exists>s'. newConnection 2 sample_tcp_server = Done () s' \<and> names_ok s' \<and> length (m_connections s') = 2"
proof -
  have "names_ok sample_tcp_server" using sample_open_service by (simp add: open_service_def sample_conn_def)
  moreover have "in_base sample_tcp_server" "2 \<notin> snd ` set (m_connections sample_tcp_server)" by (simp_all add: sample_tcp_server_def)
  ultimately show ?thesis using new_connection_entered [of sample_tcp_server 2] by (auto simp: sample_tcp_server_def)
qed

end
