(* ===== verification/Tcp_Client.thy ===== *)
theory Tcp_Client
  imports Tcp_Connection
begin

text \<open>
  \<open>project/m_netlib/Net/Connector\<close> and \<open>TcpClient\<close>, with the address functions of \<open>project/m_netlib/Socket\<close>
  they use: a client dials the server, again and again with growing delays, and owns the connection it gets.
\<close>

section \<open>Addresses\<close>

text \<open>
  The two fields of \<open>sockaddr_in\<close> that vary, in network order, as a machine that stores the low byte first reads them: the first
  number of a dotted address is the low byte of \<open>sin_addr\<close>, and \<open>htons\<close> swaps the two bytes of a port.
\<close>

record sockaddr =
  sin_addr :: "32 word"
  sin_port :: "16 word"

definition htons :: "16 word \<Rightarrow> 16 word" where
  "htons p = push_bit 8 p OR drop_bit 8 p"

definition ntohs :: "16 word \<Rightarrow> 16 word" where
  "ntohs p = push_bit 8 p OR drop_bit 8 p"

text \<open>The constructor from a port alone; \<open>INADDR_ANY\<close> is 0.\<close>

definition InetAddress_any :: "16 word \<Rightarrow> sockaddr" where
  "InetAddress_any port = \<lparr>sin_addr = 0, sin_port = htons port\<rparr>"

definition octet :: "nat \<Rightarrow> 32 word \<Rightarrow> string" where
  "octet i a = itos (uint (drop_bit (8 * i) a AND 255))"

definition inet_ntop :: "32 word \<Rightarrow> string" where
  "inet_ntop a = octet 0 a @ ''.'' @ octet 1 a @ ''.'' @ octet 2 a @ ''.'' @ octet 3 a"

text \<open>\<open>snprintf\<close> into 32 bytes keeps 31 characters.\<close>

definition toHostPort :: "sockaddr \<Rightarrow> string" where
  "toHostPort a = take 31 (inet_ntop (sin_addr a) @ '':'' @ itos (uint (ntohs (sin_port a))))"

section \<open>State\<close>

text \<open>
  The calls on sockets.  \<open>sys_socket\<close> fails with no descriptor, \<open>sys_connect\<close> is told the address and answers 0 or the \<open>errno\<close> of the
  failure, \<open>sys_sockerr\<close> the pending error of a socket, \<open>sys_names\<close> its own address and that of its peer.
\<close>

record 'w socket_sys =
  sys_socket :: "'w \<Rightarrow> nat option \<times> 'w"
  sys_connect :: "nat \<Rightarrow> sockaddr \<Rightarrow> 'w \<Rightarrow> int \<times> 'w"
  sys_sockerr :: "nat \<Rightarrow> 'w \<Rightarrow> int \<times> 'w"
  sys_names :: "nat \<Rightarrow> 'w \<Rightarrow> (sockaddr \<times> sockaddr) \<times> 'w"

datatype dial_state = Dial_Disconnected | Dial_Connecting | Dial_Connected

definition kMaxRetryDelayMs :: int where "kMaxRetryDelayMs = 30 * 1000"
definition kInitRetryDelayMs :: int where "kInitRetryDelayMs = 500"

text \<open>\<open>closed\<close> and \<open>dialled_to\<close> record the descriptors that were closed and the addresses given to \<open>connect\<close>.\<close>

record 'w connector = "('w, unit) net" +
  d_serverAddr :: sockaddr
  d_connect :: bool
  d_state :: dial_state
  d_channel :: "nat option"
  m_retryDelayMs :: int
  m_timerId :: timer_id
  closed :: "nat list"
  dialled_to :: "sockaddr list"

text \<open>The addresses \<open>new\<close> returns, and what is in the uninitialised member of a new channel.\<close>

record places =
  at_channel :: nat
  at_junk :: bool
  at_timer :: nat
  at_conn :: nat

type_synonym ('w, 'z, 'a) dialprog = "(('w, 'z) connector_scheme, 'a) prog"

definition on_socket :: "('w \<Rightarrow> 'a \<times> 'w) \<Rightarrow> ('w, 'z, 'a) dialprog" where
  "on_socket f = (\<lambda>s. case f (kernel s) of (x, w) \<Rightarrow> Done x (s\<lparr>kernel := w\<rparr>))"

definition close_socket :: "nat \<Rightarrow> ('w, 'z, unit) dialprog" where
  "close_socket fd = modify (\<lambda>s. s\<lparr>closed := closed s @ [fd]\<rparr>)"

definition dial_socket :: "'w socket_sys \<Rightarrow> nat \<Rightarrow> sockaddr \<Rightarrow> ('w, 'z, int) dialprog" where
  "dial_socket D fd addr = andthen (modify (\<lambda>s. s\<lparr>dialled_to := dialled_to s @ [addr]\<rparr>)) (on_socket (sys_connect D fd addr))"

definition isSelfConnect :: "'w socket_sys \<Rightarrow> nat \<Rightarrow> ('w, 'z, bool) dialprog" where
  "isSelfConnect D fd = bnd (on_socket (sys_names D fd)) (\<lambda>(l, p). ret (sin_port l = sin_port p \<and> sin_addr l = sin_addr p))"

section \<open>Connector\<close>

definition set_dial :: "dial_state \<Rightarrow> ('w, 'z, unit) dialprog" where
  "set_dial st = modify (\<lambda>s. s\<lparr>d_state := st\<rparr>)"

text \<open>
  The timers of this loop are those of the connector, whose callback is \<open>startInLoop\<close>.  A timer is added on the
  loop's own thread here, so the functor of \<open>addTimer\<close> is run and not queued; \<open>user\<close> would run the others.
\<close>

definition retry :: "'w sys \<Rightarrow> (conn_job \<Rightarrow> ('w, 'z, unit) dialprog) \<Rightarrow> places \<Rightarrow> nat \<Rightarrow> ('w, 'z, unit) dialprog" where
  "retry S user pl sockfd =
     andthen (close_socket sockfd)
     (andthen (set_dial Dial_Disconnected)
     (bnd (reads d_connect) (\<lambda>b. if b then
        bnd (reads m_retryDelayMs) (\<lambda>ms.
        bnd (runAfter S user (at_timer pl) (ms * 1000) ()) (\<lambda>tid.
        modify (\<lambda>s. s\<lparr>m_timerId := tid, m_retryDelayMs := min (ms * 2) kMaxRetryDelayMs\<rparr>)))
      else ret ())))"

definition connecting :: "'w sys \<Rightarrow> places \<Rightarrow> nat \<Rightarrow> ('w, 'z, unit) dialprog" where
  "connecting S pl sockfd =
     andthen (set_dial Dial_Connecting)
     (bnd (reads d_channel) (\<lambda>ch.
      andthen (check (ch = None))
      (andthen (modify (\<lambda>s. s\<lparr>heap := (heap s)(at_channel pl \<mapsto> new_channel (at_junk pl) sockfd), d_channel := Some (at_channel pl)\<rparr>))
      (enableWriting S (at_channel pl)))))"

text \<open>The numbers of the errors, as Linux has them.\<close>

definition going_on :: "int list" where
  "going_on = [0, 115, 4, 106]"

definition try_again :: "int list" where
  "try_again = [11, 98, 99, 111, 101]"

text \<open>Without a socket \<open>connect\<close> fails with \<open>EBADF\<close>; like every other error that is logged and no more.\<close>

definition Connector_connect :: "'w sys \<Rightarrow> 'w socket_sys \<Rightarrow> (conn_job \<Rightarrow> ('w, 'z, unit) dialprog) \<Rightarrow> places \<Rightarrow> ('w, 'z, unit) dialprog" where
  "Connector_connect S D user pl = bnd (on_socket (sys_socket D)) (\<lambda>r. case r of None \<Rightarrow> ret ()
     | Some sockfd \<Rightarrow> bnd (reads d_serverAddr) (\<lambda>addr. bnd (dial_socket D sockfd addr) (\<lambda>savedErrno.
         if savedErrno \<in> set going_on then connecting S pl sockfd
         else if savedErrno \<in> set try_again then retry S user pl sockfd
         else close_socket sockfd)))"

definition startInLoop :: "'w sys \<Rightarrow> 'w socket_sys \<Rightarrow> (conn_job \<Rightarrow> ('w, 'z, unit) dialprog) \<Rightarrow> places \<Rightarrow> ('w, 'z, unit) dialprog" where
  "startInLoop S D user pl =
     andthen assertInLoopThread
     (bnd (reads d_state) (\<lambda>st.
      andthen (check (st = Dial_Disconnected))
      (bnd (reads d_connect) (\<lambda>b. if b then Connector_connect S D user pl else ret ()))))"

definition resetChannel :: "('w, 'z, unit) dialprog" where
  "resetChannel = bnd (reads d_channel) (\<lambda>ch. case ch of None \<Rightarrow> ret ()
     | Some c \<Rightarrow> andthen (modify (\<lambda>s. s\<lparr>d_channel := None\<rparr>)) (delete_channel c))"

text \<open>The functors of this loop: those of the connector, and \<open>K\<close> for those of the connection.\<close>

definition dial_job :: "'w sys \<Rightarrow> 'w socket_sys \<Rightarrow> (conn_job \<Rightarrow> ('w, 'z, unit) dialprog) \<Rightarrow> places \<Rightarrow> conn_job \<Rightarrow> ('w, 'z, unit) dialprog" where
  "dial_job S D K pl f = (case f of StartInLoop \<Rightarrow> startInLoop S D K pl | ResetChannel \<Rightarrow> resetChannel | _ \<Rightarrow> K f)"

definition Connector_start :: "'w sys \<Rightarrow> 'w socket_sys \<Rightarrow> (conn_job \<Rightarrow> ('w, 'z, unit) dialprog) \<Rightarrow> places \<Rightarrow> ('w, 'z, unit) dialprog" where
  "Connector_start S D K pl = andthen (modify (\<lambda>s. s\<lparr>d_connect := True\<rparr>)) (runInLoop S (dial_job S D K pl) (User StartInLoop))"

definition Connector_restart :: "'w sys \<Rightarrow> 'w socket_sys \<Rightarrow> (conn_job \<Rightarrow> ('w, 'z, unit) dialprog) \<Rightarrow> places \<Rightarrow> ('w, 'z, unit) dialprog" where
  "Connector_restart S D K pl =
     andthen assertInLoopThread
     (andthen (set_dial Dial_Disconnected)
     (andthen (modify (\<lambda>s. s\<lparr>m_retryDelayMs := kInitRetryDelayMs, d_connect := True\<rparr>))
     (startInLoop S D K pl)))"

definition Connector_stop :: "'w sys \<Rightarrow> (conn_job \<Rightarrow> ('w, 'z, unit) dialprog) \<Rightarrow> ('w, 'z, unit) dialprog" where
  "Connector_stop S user = andthen (modify (\<lambda>s. s\<lparr>d_connect := False\<rparr>)) (bnd (reads m_timerId) (cancel S user))"

text \<open>The channel goes at the end of the round only, by a functor: it is one of its callbacks that runs.\<close>

definition removeAndResetChannel :: "'w sys \<Rightarrow> ('w, 'z, nat) dialprog" where
  "removeAndResetChannel S = bnd (reads d_channel) (\<lambda>ch. case ch of None \<Rightarrow> halt Dangling
     | Some c \<Rightarrow> andthen (disableAll S c) (andthen (removeChannel S c)
        (bnd (the_channel c) (\<lambda>ch. andthen (queueInLoop (User ResetChannel)) (ret (m_fd ch))))))"

text \<open>\<open>new\<close> is the callback for a new connection.\<close>

definition dial_handleWrite :: "'w sys \<Rightarrow> 'w socket_sys \<Rightarrow> (conn_job \<Rightarrow> ('w, 'z, unit) dialprog) \<Rightarrow> (nat \<Rightarrow> ('w, 'z, unit) dialprog) \<Rightarrow>
    places \<Rightarrow> ('w, 'z, unit) dialprog" where
  "dial_handleWrite S D user new pl = bnd (reads d_state) (\<lambda>st. if st = Dial_Connecting then
     bnd (removeAndResetChannel S) (\<lambda>sockfd.
     bnd (on_socket (sys_sockerr D sockfd)) (\<lambda>err.
     if err \<noteq> 0 then retry S user pl sockfd
     else bnd (isSelfConnect D sockfd) (\<lambda>self.
       if self then retry S user pl sockfd
       else andthen (set_dial Dial_Connected)
         (bnd (reads d_connect) (\<lambda>b. if b then new sockfd else close_socket sockfd)))))
   else check (st = Dial_Disconnected))"

definition dial_handleError :: "'w sys \<Rightarrow> 'w socket_sys \<Rightarrow> (conn_job \<Rightarrow> ('w, 'z, unit) dialprog) \<Rightarrow> places \<Rightarrow> ('w, 'z, unit) dialprog" where
  "dial_handleError S D user pl = bnd (reads d_state) (\<lambda>st.
     andthen (check (st = Dial_Connecting))
     (bnd (removeAndResetChannel S) (\<lambda>sockfd.
      bnd (on_socket (sys_sockerr D sockfd)) (\<lambda>_.
      retry S user pl sockfd))))"

definition dial_callback :: "'w sys \<Rightarrow> 'w socket_sys \<Rightarrow> (conn_job \<Rightarrow> ('w, 'z, unit) dialprog) \<Rightarrow> (nat \<Rightarrow> ('w, 'z, unit) dialprog) \<Rightarrow>
    places \<Rightarrow> nat \<Rightarrow> callback \<Rightarrow> ('w, 'z, unit) dialprog" where
  "dial_callback S D user new pl c k = (case k of WriteCallback \<Rightarrow> dial_handleWrite S D user new pl
     | ErrorCallback \<Rightarrow> dial_handleError S D user pl | _ \<Rightarrow> ret ())"

section \<open>TcpClient\<close>

record 'w tcp_client = "'w connector" +
  cl_name :: string
  cl_retry :: bool
  cl_connect :: bool
  cl_nextConnId :: nat
  cl_connection :: "nat option"
  cl_connName :: string

text \<open>The constructor initialises no \<open>m_name\<close>, which is empty.\<close>

definition client_name :: "string \<Rightarrow> sockaddr \<Rightarrow> nat \<Rightarrow> string" where
  "client_name name peer i = name @ take 31 ('':'' @ toHostPort peer @ ''#'' @ itos (int i))"

type_synonym ('w, 'z) client_handlers = "('w, unit, \<lparr>d_serverAddr :: sockaddr, d_connect :: bool, d_state :: dial_state, d_channel :: nat option,
      m_retryDelayMs :: int, m_timerId :: timer_id, closed :: nat list, dialled_to :: sockaddr list, cl_name :: string, cl_retry :: bool, cl_connect :: bool,
      cl_nextConnId :: nat, cl_connection :: nat option, cl_connName :: string, \<dots> :: 'z\<rparr>) handlers"

definition TcpClient_newConnection :: "'w sys \<Rightarrow> 'w socket_sys \<Rightarrow> ('w, 'z) client_handlers \<Rightarrow>
    places \<Rightarrow> nat \<Rightarrow> (('w, 'z) tcp_client_scheme, unit) prog" where
  "TcpClient_newConnection S D H pl sockfd =
     andthen assertInLoopThread
     (bnd (on_socket (sys_names D sockfd)) (\<lambda>(l, p).
      andthen (modify (\<lambda>s. s\<lparr>cl_connName := client_name (cl_name s) p (cl_nextConnId s), cl_nextConnId := cl_nextConnId s + 1\<rparr>))
      (andthen (new_connection (at_conn pl) (at_channel pl) (at_junk pl) sockfd)
      (andthen (modify (\<lambda>s. s\<lparr>cl_connection := Some (at_conn pl)\<rparr>))
      (connectEstablished S H (at_conn pl))))))"

definition TcpClient_connect :: "'w sys \<Rightarrow> 'w socket_sys \<Rightarrow> (conn_job \<Rightarrow> (('w, 'z) tcp_client_scheme, unit) prog) \<Rightarrow> places \<Rightarrow>
    (('w, 'z) tcp_client_scheme, unit) prog" where
  "TcpClient_connect S D K pl = andthen (modify (\<lambda>s. s\<lparr>cl_connect := True\<rparr>)) (Connector_start S D K pl)"

definition TcpClient_disconnect :: "(('w, 'z) tcp_client_scheme, unit) prog" where
  "TcpClient_disconnect = andthen (modify (\<lambda>s. s\<lparr>cl_connect := False\<rparr>))
     (bnd (reads cl_connection) (\<lambda>k. case k of None \<Rightarrow> ret () | Some c \<Rightarrow> shutdown_connection c))"

definition TcpClient_stop :: "'w sys \<Rightarrow> (conn_job \<Rightarrow> (('w, 'z) tcp_client_scheme, unit) prog) \<Rightarrow> (('w, 'z) tcp_client_scheme, unit) prog" where
  "TcpClient_stop S K = andthen (modify (\<lambda>s. s\<lparr>cl_connect := False\<rparr>)) (Connector_stop S K)"

definition TcpClient_removeConnection :: "'w sys \<Rightarrow> 'w socket_sys \<Rightarrow> (conn_job \<Rightarrow> (('w, 'z) tcp_client_scheme, unit) prog) \<Rightarrow> places \<Rightarrow> nat \<Rightarrow>
    (('w, 'z) tcp_client_scheme, unit) prog" where
  "TcpClient_removeConnection S D K pl c =
     andthen assertInLoopThread
     (bnd (reads cl_connection) (\<lambda>k.
      andthen (check (k = Some c))
      (andthen (modify (\<lambda>s. s\<lparr>cl_connection := None\<rparr>))
      (andthen (queueInLoop (User (ConnectDestroyed c)))
      (bnd (reads (\<lambda>s. cl_retry s \<and> cl_connect s)) (\<lambda>b. if b then Connector_restart S D K pl else ret ()))))))"

end
