(* ===== verification/Dialing.thy ===== *)
theory Dialing
  imports Tcp_Client Tcp_Stream Loop_Timers
begin

text \<open>
  How a client that has called \<open>connect\<close> once goes on: it tries, it waits for its next try, it is connected, or
  it has given up; no assertion of the connector, the poller or the timer queue fails.
\<close>

section \<open>Delays\<close>

definition delay_after :: "nat \<Rightarrow> int" where
  "delay_after n = min (500 * 2 ^ n) 30000"

lemma delay_after_0: "delay_after 0 = kInitRetryDelayMs"
  by (simp add: delay_after_def kInitRetryDelayMs_def)

lemma delay_after_Suc: "delay_after (Suc n) = min (delay_after n * 2) kMaxRetryDelayMs"
  by (simp add: delay_after_def kMaxRetryDelayMs_def min_def)

section \<open>States\<close>

definition dial_ok :: "sockaddr \<Rightarrow> ('w \<Rightarrow> nat \<Rightarrow> (poll_events \<times> nat) option) \<Rightarrow> ('w, 'z) connector_scheme \<Rightarrow> bool" where
  "dial_ok A interest s \<longleftrightarrow> reactor_ok interest s \<and> isInLoopThread s \<and> tq_ok s \<and> intervals_ok (timer_heap s) \<and> 0 \<le> s_numCreated s \<and>
     d_serverAddr s = A \<and> set (dialled_to s) \<subseteq> {A}"

definition fresh_places :: "places \<Rightarrow> ('w, unit, 'z) net_scheme \<Rightarrow> bool" where
  "fresh_places pl s \<longleftrightarrow> heap s (at_channel pl) = None \<and> map_of (timer_heap s) (at_timer pl) = None \<and> at_timer pl < UINTPTR_MAX"

definition resting :: "sockaddr \<Rightarrow> ('w \<Rightarrow> nat \<Rightarrow> (poll_events \<times> nat) option) \<Rightarrow> nat set \<Rightarrow> ('w, 'z) connector_scheme \<Rightarrow> bool" where
  "resting A interest own s \<longleftrightarrow> dial_ok A interest s \<and> dom (m_channels s) \<subseteq> own \<and> d_channel s = None \<and> d_connect s"

text \<open>The instant \<open>e\<close> is the delay of the \<open>n\<close>th failed try after a reading of the clock.\<close>

definition due_after_delay :: "'w sys \<Rightarrow> nat \<Rightarrow> timestamp \<Rightarrow> bool" where
  "due_after_delay S n e \<longleftrightarrow> 0 < n \<and> (\<exists>w. e = addTime (fst (sys_now S w)) (delay_after (n - 1) * 1000))"

definition waiting :: "sockaddr \<Rightarrow> 'w sys \<Rightarrow> ('w \<Rightarrow> nat \<Rightarrow> (poll_events \<times> nat) option) \<Rightarrow> nat set \<Rightarrow> ('w, 'z) connector_scheme \<Rightarrow> bool" where
  "waiting A S interest own s \<longleftrightarrow> resting A interest own s \<and> d_state s = Dial_Disconnected \<and> m_timerfd s \<noteq> None \<and>
     (\<exists>e p tm. m_timers s = [(e, p)] \<and> m_timerId s = (p, 0) \<and> map_of (timer_heap s) p = Some tm \<and> \<not> m_repeat tm \<and> due_after_delay S (length (closed s)) e) \<and>
     m_retryDelayMs s = delay_after (length (closed s))"

definition trying :: "sockaddr \<Rightarrow> ('w \<Rightarrow> nat \<Rightarrow> (poll_events \<times> nat) option) \<Rightarrow> nat set \<Rightarrow> ('w, 'z) connector_scheme \<Rightarrow> bool" where
  "trying A interest own s \<longleftrightarrow> dial_ok A interest s \<and> d_connect s \<and> d_state s = Dial_Connecting \<and> m_timers s = [] \<and>
     (\<exists>c ch. d_channel s = Some c \<and> heap s c = Some ch \<and> m_index ch = kAdded \<and> isWriting ch \<and> m_fd ch \<notin> own \<and>
       dom (m_channels s) \<subseteq> insert (m_fd ch) own) \<and>
     m_retryDelayMs s = delay_after (length (closed s))"

text \<open>The last try got no socket, or \<open>connect\<close> answered with an error after which it is not called again.\<close>

definition hopeless :: "sockaddr \<Rightarrow> 'w socket_sys \<Rightarrow> ('w, 'z) connector_scheme \<Rightarrow> bool" where
  "hopeless A D s \<longleftrightarrow> (\<exists>w. fst (sys_socket D w) = None) \<or>
     closed s \<noteq> [] \<and> (\<exists>w. fst (sys_connect D (last (closed s)) A w) \<notin> set going_on \<union> set try_again)"

definition given_up :: "sockaddr \<Rightarrow> 'w socket_sys \<Rightarrow> ('w \<Rightarrow> nat \<Rightarrow> (poll_events \<times> nat) option) \<Rightarrow> nat set \<Rightarrow> ('w, 'z) connector_scheme \<Rightarrow> bool" where
  "given_up A D interest own s \<longleftrightarrow> resting A interest own s \<and> d_state s = Dial_Disconnected \<and> m_timers s = [] \<and> hopeless A D s"

definition starting_up :: "sockaddr \<Rightarrow> ('w \<Rightarrow> nat \<Rightarrow> (poll_events \<times> nat) option) \<Rightarrow> nat set \<Rightarrow> ('w, 'z) connector_scheme \<Rightarrow> bool" where
  "starting_up A interest own s \<longleftrightarrow> resting A interest own s \<and> d_state s = Dial_Disconnected \<and> m_timers s = [] \<and> m_retryDelayMs s = delay_after (length (closed s))"

lemma calm_cong:
  assumes "dial_ok A interest s" and "heap t = heap s" "m_channels t = m_channels s" "interest (kernel t) = interest (kernel s)"
    "thread t = thread s" "owner t = owner s" "timer_heap t = timer_heap s" "m_timers t = m_timers s" "m_activeTimers t = m_activeTimers s"
    "m_cancelingTimers t = m_cancelingTimers s" "s_numCreated t = s_numCreated s"
    "d_serverAddr t = d_serverAddr s" "dialled_to t = dialled_to s \<or> dialled_to t = dialled_to s @ [A]"
  shows "dial_ok A interest t"
  using assms reactor_ok_cong [of interest s t] by (auto simp: dial_ok_def tq_ok_def isInLoopThread_def)

lemma isInLoopThread_dial [simp]:
  "isInLoopThread (s\<lparr>d_connect := b\<rparr>) = isInLoopThread s" "isInLoopThread (s\<lparr>d_state := st\<rparr>) = isInLoopThread s"
  "isInLoopThread (s\<lparr>d_channel := x\<rparr>) = isInLoopThread s" "isInLoopThread (s\<lparr>m_retryDelayMs := i\<rparr>) = isInLoopThread s"
  "isInLoopThread (s\<lparr>m_timerId := tid\<rparr>) = isInLoopThread s" "isInLoopThread (s\<lparr>closed := fds\<rparr>) = isInLoopThread s"
  "isInLoopThread (s\<lparr>m_callingPendingFunctors := c\<rparr>) = isInLoopThread s"
  by (simp_all add: isInLoopThread_def)

lemma on_socket_apply [run]: "on_socket f s = Done (fst (f (kernel s))) (s\<lparr>kernel := snd (f (kernel s))\<rparr>)"
  by (simp add: on_socket_def split_beta)

lemma dial_simps [run]: "close_socket fd s = Done () (s\<lparr>closed := closed s @ [fd]\<rparr>)" "set_dial st s = Done () (s\<lparr>d_state := st\<rparr>)"
  by (simp_all add: close_socket_def set_dial_def)

lemma dial_update_simps [simp]:
  "dial_ok A interest (s\<lparr>m_callingPendingFunctors := b\<rparr>) = dial_ok A interest s" "dial_ok A interest (s\<lparr>m_pendingFunctors := fs\<rparr>) = dial_ok A interest s"
  "dial_ok A interest (s\<lparr>m_wakeups := n\<rparr>) = dial_ok A interest s" "dial_ok A interest (s\<lparr>d_state := st\<rparr>) = dial_ok A interest s"
  "dial_ok A interest (s\<lparr>d_channel := x\<rparr>) = dial_ok A interest s" "dial_ok A interest (s\<lparr>m_callingExpiredTimers := b\<rparr>) = dial_ok A interest s"
  "dial_ok A interest (s\<lparr>m_timerfd := f\<rparr>) = dial_ok A interest s"
  by (simp_all add: dial_ok_def reactor_ok_def watched_def [abs_def] tq_ok_def isInLoopThread_def cong: option.case_cong)

lemma phase_update_simps [simp]:
  "waiting A S interest own (s\<lparr>m_callingPendingFunctors := b\<rparr>) = waiting A S interest own s"
  "trying A interest own (s\<lparr>m_callingPendingFunctors := b\<rparr>) = trying A interest own s"
  "given_up A D interest own (s\<lparr>m_callingPendingFunctors := b\<rparr>) = given_up A D interest own s"
  "waiting A S interest own (s\<lparr>m_pendingFunctors := fs\<rparr>) = waiting A S interest own s"
  "trying A interest own (s\<lparr>m_pendingFunctors := fs\<rparr>) = trying A interest own s"
  "given_up A D interest own (s\<lparr>m_pendingFunctors := fs\<rparr>) = given_up A D interest own s"
  "waiting A S interest own (s\<lparr>m_callingExpiredTimers := b\<rparr>) = waiting A S interest own s"
  "trying A interest own (s\<lparr>m_callingExpiredTimers := b\<rparr>) = trying A interest own s"
  "given_up A D interest own (s\<lparr>m_callingExpiredTimers := b\<rparr>) = given_up A D interest own s"
  by (simp_all add: waiting_def trying_def given_up_def resting_def hopeless_def)

locale dialer = epoll_kernel S interest for S :: "'w sys" and interest :: "'w \<Rightarrow> nat \<Rightarrow> (poll_events \<times> nat) option" +
  fixes D :: "'w socket_sys" and own :: "nat set" and A :: sockaddr
  assumes socket_interest: "interest (snd (sys_socket D w)) = interest w"
    and connect_interest: "interest (snd (sys_connect D fd addr w)) = interest w"
    and sockerr_interest: "interest (snd (sys_sockerr D fd w)) = interest w"
    and names_interest: "interest (snd (sys_names D fd w)) = interest w"
    and socket_new: "fst (sys_socket D w) = Some fd \<Longrightarrow> fd \<notin> own"
    and clock: "0 < fst (sys_now S w)"
begin

section \<open>One try\<close>

definition retried :: "places \<Rightarrow> nat \<Rightarrow> timestamp \<Rightarrow> 'w \<Rightarrow> timestamp option \<Rightarrow> ('w, 'z) connector_scheme \<Rightarrow> ('w, 'z) connector_scheme" where
  "retried pl fd t w f s = (with_timer (at_timer pl) () t 0 w f (s\<lparr>closed := closed s @ [fd], d_state := Dial_Disconnected\<rparr>))
     \<lparr>m_timerId := (at_timer pl, 0), m_retryDelayMs := min (m_retryDelayMs s * 2) kMaxRetryDelayMs\<rparr>"

definition retry_at :: "('w, 'z) connector_scheme \<Rightarrow> timestamp" where
  "retry_at s = addTime (fst (sys_now S (kernel s))) (m_retryDelayMs s * 1000)"

lemma retry_run:
  assumes "dial_ok A interest s" and "m_timers s = []" and "d_connect s" and "fresh_places pl s"
    and "0 \<le> m_retryDelayMs s"
  obtains w f where "retry S user pl fd s = Done () (retried pl fd (retry_at s) w f s)" and "dial_ok A interest (retried pl fd (retry_at s) w f s)" and "f \<noteq> None"
proof -
  obtain t0 w0 where now: "sys_now S (kernel s) = (t0, w0)" by force
  let ?s = "s\<lparr>closed := closed s @ [fd], d_state := Dial_Disconnected, kernel := w0\<rparr>"
  let ?t = "addTime t0 (m_retryDelayMs s * 1000)"
  have at: "?t = retry_at s" using now by (simp add: retry_at_def)
  have i: "interest w0 = interest (kernel s)" using now_interest [of "kernel s"] now by simp
  have c: "dial_ok A interest ?s" by (rule calm_cong [OF assms(1)]) (simp_all add: i)
  have pos: "0 < ?t" using clock [of "kernel s"] now assms(5) by (simp add: addTime_def)
  have pre: "tq_ok ?s" "isInLoopThread ?s" "map_of (timer_heap ?s) (at_timer pl) = None" "at_timer pl < UINTPTR_MAX" "0 \<le> s_numCreated ?s"
    using c assms(4) by (simp_all add: dial_ok_def fresh_places_def)
  obtain w f where add: "addTimer S user (at_timer pl) () ?t 0 ?s = Done (at_timer pl, 0) (with_timer (at_timer pl) () ?t 0 w f ?s)"
    and ok: "tq_ok (with_timer (at_timer pl) () ?t 0 w f ?s)" and w: "w = kernel ?s \<or> w = snd (sys_now S (kernel ?s))" and f: "armed ?s \<Longrightarrow> f \<noteq> None"
    by (rule addTimer_run [OF pre(1-3) pos pre(4,5), of S user "()" 0]) (rule that)
  have same: "with_timer (at_timer pl) () ?t 0 w f ?s = with_timer (at_timer pl) () ?t 0 w f (s\<lparr>closed := closed s @ [fd], d_state := Dial_Disconnected\<rparr>)"
    by (simp add: with_timer_def)
  have res: "retry S user pl fd s = Done () (retried pl fd ?t w f s)"
    using add now assms(3) by (simp add: retry_def run runAfter_def runAt_def now_def same retried_def with_timer_def)
  have "interest w = interest (kernel s)" using w i now_interest [of w0] by (elim disjE) simp_all
  then have k: "interest (kernel (retried pl fd ?t w f s)) = interest (kernel s)" by (simp add: retried_def with_timer_def)
  have "reactor_ok interest s" using assms(1) by (simp add: dial_ok_def)
  then have "reactor_ok interest (retried pl fd ?t w f s)"
    by (rule reactor_ok_cong [OF _ _ _ k]) (simp_all add: retried_def with_timer_def)
  moreover have "isInLoopThread (retried pl fd ?t w f s)" using pre(2) by (simp add: retried_def with_timer_def isInLoopThread_def)
  moreover have "tq_ok (retried pl fd ?t w f s)" using ok by (simp add: retried_def with_timer_def tq_ok_def)
  moreover have "intervals_ok (timer_heap (retried pl fd ?t w f s))"
    using assms(1) by (simp add: dial_ok_def retried_def with_timer_def intervals_ok_def new_timer_def)
  moreover have "0 \<le> s_numCreated (retried pl fd ?t w f s)" using pre(5) by (simp add: retried_def with_timer_def)
  moreover have "d_serverAddr (retried pl fd ?t w f s) = A" "set (dialled_to (retried pl fd ?t w f s)) \<subseteq> {A}"
    using assms(1) by (simp_all add: dial_ok_def retried_def with_timer_def)
  ultimately have "dial_ok A interest (retried pl fd ?t w f s)" by (simp add: dial_ok_def)
  moreover have "f \<noteq> None" by (rule f) (simp add: armed_def assms(2))
  ultimately show ?thesis using res by (intro that) (simp_all only: at)
qed

lemma retry_due: "m_retryDelayMs s = delay_after (length (closed s)) \<Longrightarrow> due_after_delay S (Suc (length (closed s))) (retry_at s)"
  by (auto simp: due_after_delay_def retry_at_def)

lemma retried_waiting:
  assumes "dial_ok A interest (retried pl fd (retry_at s) w f s)" and "m_timers s = []" and "d_connect s" and "f \<noteq> None"
    and "m_retryDelayMs s = delay_after (length (closed s))" and "dom (m_channels s) \<subseteq> own" and "d_channel s = None"
  shows "waiting A S interest own (retried pl fd (retry_at s) w f s)"
  using assms retry_due [OF assms(5)] by (auto simp: waiting_def resting_def retried_def with_timer_def delay_after_Suc new_timer_def)


lemma retry_sets_timer:
  assumes "dial_ok A interest s \<and> m_timers s = [] \<and> d_connect s \<and> fresh_places pl s \<and> m_retryDelayMs s = delay_after n"
  shows "\<exists>s'. retry S user pl fd s = Done () s' \<and> m_timers s' = [(fst (sys_now S (kernel s)) + delay_after n * 1000, at_timer pl)] \<and>
    m_retryDelayMs s' = delay_after (n + 1)"
proof -
  from assms have pre: "dial_ok A interest s" "m_timers s = []" "d_connect s" "fresh_places pl s" "0 \<le> m_retryDelayMs s"
    by (simp_all add: delay_after_def)
  obtain w f where "retry S user pl fd s = Done () (retried pl fd (retry_at s) w f s)"
    by (rule retry_run [OF pre]) (rule that)
  with assms show ?thesis
    by (intro exI [of _ "retried pl fd (retry_at s) w f s"]) (simp add: retried_def with_timer_def retry_at_def addTime_def delay_after_Suc)
qed


text \<open>What a try leaves alone.\<close>

definition untouched :: "('w, 'z) connector_scheme \<Rightarrow> ('w, 'z) connector_scheme \<Rightarrow> bool" where
  "untouched s s' \<longleftrightarrow> m_pendingFunctors s' = m_pendingFunctors s \<and> m_callingPendingFunctors s' = m_callingPendingFunctors s \<and>
     connector.more s' = connector.more s \<and> (\<forall>p. map_of (timer_heap s) p \<noteq> None \<longrightarrow> map_of (timer_heap s') p = map_of (timer_heap s) p) \<and>
     (\<forall>e \<in> set (m_timers s'). e \<in> set (m_timers s) \<or> map_of (timer_heap s) (snd e) = None)"

lemma connecting_calm:
  assumes dial_ok: "dial_ok A interest s" and "d_channel s = None" and "dom (m_channels s) \<subseteq> own" and "fresh_places pl s" and "fd \<notin> own"
  obtains s' ch where "connecting S pl fd s = Done () s'" and "d_state s' = Dial_Connecting" and "m_timers s' = m_timers s" and "dial_ok A interest s'"
    and "untouched s s'" and "d_connect s' = d_connect s" and "d_channel s' = Some (at_channel pl)" and "heap s' (at_channel pl) = Some ch"
    and "m_index ch = kAdded" and "isWriting ch" and "m_fd ch = fd" and "dom (m_channels s') \<subseteq> insert fd own"
    and "m_retryDelayMs s' = m_retryDelayMs s" and "closed s' = closed s" and "dialled_to s' = dialled_to s"
proof -
  let ?c = "at_channel pl" and ?ch = "new_channel (at_junk pl) fd"
  let ?s = "s\<lparr>d_state := Dial_Connecting, heap := (heap s)(?c \<mapsto> ?ch), d_channel := Some ?c\<rparr>"
  have none: "heap s ?c = None" and free: "m_channels s fd = None"
    using assms(3-5) by (auto simp: fresh_places_def)
  have "reactor_ok interest (s\<lparr>heap := (heap s)(?c \<mapsto> ?ch)\<rparr>)"
    using dial_ok none by (intro new_channel_ok) (simp_all add: dial_ok_def)
  then have ok: "reactor_ok interest ?s" by (rule reactor_ok_cong) simp_all
  have here: "isInLoopThread ?s" using dial_ok by (simp add: dial_ok_def)
  have ch: "heap ?s ?c = Some ?ch" and new: "m_index ?ch = kNew \<Longrightarrow> m_channels ?s (m_fd ?ch) = None"
    using free by (simp_all add: new_channel_def)
  let ?ch' = "changed (\<lambda>e. e OR kWriteEvent) ?ch"
  obtain w where w: "enableWriting S ?c ?s = Done () (with_channel ?c ?ch' w ?s)" "reactor_ok interest (with_channel ?c ?ch' w ?s)"
    using change_events_ok [OF ok here ch new, of "\<lambda>e. e OR kWriteEvent"] unfolding channel_ops by metis
  let ?t = "with_channel ?c ?ch' w ?s"
  have "connecting S pl fd s = Done () ?t"
    using assms(2) w(1) by (simp add: connecting_def run)
  moreover have "dial_ok A interest ?t" using dial_ok w(2) here by (simp add: dial_ok_def tq_ok_def with_channel_def isInLoopThread_def)
  moreover have "m_index ?ch' = kAdded" by (simp add: changed_def new_channel_def indices)
  ultimately show ?thesis using assms(3) writing_bits(1) [of ?ch]
    by (intro that [of ?t ?ch']) (auto simp: with_channel_def new_channel_def untouched_def)
qed

lemma connecting_run:
  assumes "resting A interest own s" and "m_timers s = []" and "fresh_places pl s" and "fd \<notin> own"
    and "m_retryDelayMs s = delay_after (length (closed s))"
  obtains s' where "connecting S pl fd s = Done () s'" and "trying A interest own s'" and "untouched s s'" and "dialled_to s' = dialled_to s"
proof -
  have p: "dial_ok A interest s" "d_channel s = None" "dom (m_channels s) \<subseteq> own" "d_connect s" using assms(1) by (simp_all add: resting_def)
  obtain s' ch where s': "connecting S pl fd s = Done () s'" "d_state s' = Dial_Connecting" "m_timers s' = m_timers s" "dial_ok A interest s'"
    "untouched s s'" "d_connect s' = d_connect s" "d_channel s' = Some (at_channel pl)" "heap s' (at_channel pl) = Some ch"
    "m_index ch = kAdded" "isWriting ch" "m_fd ch = fd" "dom (m_channels s') \<subseteq> insert fd own"
    "m_retryDelayMs s' = m_retryDelayMs s" "closed s' = closed s" "dialled_to s' = dialled_to s"
    by (rule connecting_calm [OF p(1-3) assms(3,4)])
  then have "trying A interest own s'" using p(4) assms(2,4,5) by (simp add: trying_def)
  with s'(1,5,15) show ?thesis by (intro that)
qed

lemma startInLoop_run:
  assumes "resting A interest own s" and "d_state s = Dial_Disconnected" and "m_timers s = []" and "fresh_places pl s"
    and "m_retryDelayMs s = delay_after (length (closed s))"
  obtains s' where "startInLoop S D user pl s = Done () s'" and "untouched s s'"
    and "fst (sys_socket D (kernel s)) \<noteq> None \<longrightarrow> dialled_to s' = dialled_to s @ [A]"
    and "waiting A S interest own s' \<or> trying A interest own s' \<or> given_up A D interest own s'"
proof -
  have dial_ok: "dial_ok A interest s" and con: "d_connect s" using assms(1) by (simp_all add: resting_def)
  then have here: "isInLoopThread s" by (simp add: dial_ok_def)
  let ?s1 = "s\<lparr>kernel := snd (sys_socket D (kernel s))\<rparr>"
  have start: "startInLoop S D user pl s = Connector_connect S D user pl s"
    using here con assms(2) by (simp add: startInLoop_def run)
  show ?thesis
  proof (cases "fst (sys_socket D (kernel s))")
    case None
    have "dial_ok A interest ?s1" by (rule calm_cong [OF dial_ok]) (simp_all add: socket_interest)
    then have "given_up A D interest own ?s1" using assms(1-3) None by (auto simp: given_up_def resting_def hopeless_def)
    then show ?thesis using None start by (intro that [of ?s1]) (simp_all add: Connector_connect_def run untouched_def)
  next
    case (Some fd)
    let ?e = "sys_connect D fd A (kernel ?s1)"
    let ?s2 = "s\<lparr>dialled_to := dialled_to s @ [A], kernel := snd ?e\<rparr>"
    have c2: "dial_ok A interest ?s2" by (rule calm_cong [OF dial_ok]) (simp_all add: socket_interest connect_interest)
    then have r2: "resting A interest own ?s2" "fresh_places pl ?s2" using assms(1,4) by (simp_all add: resting_def fresh_places_def)
    have fd: "fd \<notin> own" using socket_new Some by blast
    have u: "untouched s t" if "untouched ?s2 t" for t using that by (simp add: untouched_def)
    have con': "Connector_connect S D user pl s = (if fst ?e \<in> set going_on then connecting S pl fd
         else if fst ?e \<in> set try_again then retry S user pl fd else close_socket fd) ?s2"
      using Some dial_ok by (simp add: Connector_connect_def dial_socket_def dial_ok_def run)
    consider (go) "fst ?e \<in> set going_on" | (again) "fst ?e \<notin> set going_on" "fst ?e \<in> set try_again"
      | (stop) "fst ?e \<notin> set going_on" "fst ?e \<notin> set try_again" by blast
    then show ?thesis
    proof cases
      case go
      have p: "m_timers ?s2 = []" "m_retryDelayMs ?s2 = delay_after (length (closed ?s2))" using assms(3,5) by simp_all
      obtain s' where "connecting S pl fd ?s2 = Done () s'" "trying A interest own s'" "untouched ?s2 s'" "dialled_to s' = dialled_to ?s2"
        by (rule connecting_run [OF r2(1) p(1) r2(2) fd p(2)])
      with go start con' u show ?thesis by (intro that [of s']) simp_all
    next
      case again
      have p: "m_timers ?s2 = []" "d_connect ?s2" "0 \<le> m_retryDelayMs ?s2" using assms(3,5) con by (simp_all add: delay_after_def)
      obtain w f where r: "retry S user pl fd ?s2 = Done () (retried pl fd (retry_at ?s2) w f ?s2)" "dial_ok A interest (retried pl fd (retry_at ?s2) w f ?s2)" "f \<noteq> None"
        by (rule retry_run [OF c2 p(1,2) r2(2) p(3)])
      have "waiting A S interest own (retried pl fd (retry_at ?s2) w f ?s2)"
        using r2(1) by (intro retried_waiting [OF r(2) p(1,2) r(3)]) (simp_all add: assms(5) resting_def)
      moreover have "untouched s (retried pl fd (retry_at ?s2) w f ?s2)"
        using assms(3,4) by (auto simp: untouched_def retried_def with_timer_def fresh_places_def)
      moreover have "dialled_to (retried pl fd (retry_at ?s2) w f ?s2) = dialled_to s @ [A]" by (simp add: retried_def with_timer_def)
      ultimately show ?thesis using r(1) again start con' by (intro that [of "retried pl fd (retry_at ?s2) w f ?s2"]) simp_all
    next
      case stop
      let ?t = "?s2\<lparr>closed := closed s @ [fd]\<rparr>"
      have "dial_ok A interest ?t" by (rule calm_cong [OF c2]) simp_all
      then have "given_up A D interest own ?t" using assms(1-3) stop by (auto simp: given_up_def resting_def hopeless_def)
      moreover have "untouched s ?t" by (simp add: untouched_def)
      ultimately show ?thesis using stop start con' by (intro that [of ?t]) (simp_all add: run)
    qed
  qed
qed


section \<open>The answer to a try\<close>

text \<open>The channel of the try is out of the poller, and goes with the functors of this round.\<close>

definition shedding :: "nat \<Rightarrow> ('w, 'z) connector_scheme \<Rightarrow> bool" where
  "shedding c s \<longleftrightarrow> dial_ok A interest s \<and> d_connect s \<and> d_channel s = Some c \<and> (\<exists>ch. heap s c = Some ch \<and> m_index ch = kNew) \<and>
     m_pendingFunctors s = [User ResetChannel]"

definition backed_off :: "nat \<Rightarrow> ('w, 'z) connector_scheme \<Rightarrow> bool" where
  "backed_off c s \<longleftrightarrow> shedding c s \<and> dom (m_channels s) \<subseteq> own \<and> d_state s = Dial_Disconnected \<and> m_timerfd s \<noteq> None \<and>
     (\<exists>e p tm. m_timers s = [(e, p)] \<and> m_timerId s = (p, 0) \<and> map_of (timer_heap s) p = Some tm \<and> \<not> m_repeat tm \<and> due_after_delay S (length (closed s)) e) \<and>
     m_retryDelayMs s = delay_after (length (closed s))"

lemma removeAndReset_run:
  assumes "trying A interest own s" and "d_channel s = Some c" and "m_pendingFunctors s = []"
  obtains s' fd where "removeAndResetChannel S s = Done fd s'" and "shedding c s'" and "dom (m_channels s') \<subseteq> own" and "fd \<notin> own"
    and "m_timers s' = []" and "m_retryDelayMs s' = delay_after (length (closed s'))"
    and "timer_heap s' = timer_heap s" and "\<And>d. d \<noteq> c \<Longrightarrow> heap s' d = heap s d" and "d_state s' = d_state s"
    and "connector.more s' = connector.more s"
proof -
  from assms obtain ch where ch: "heap s c = Some ch" "m_index ch = kAdded" "m_fd ch \<notin> own" "dom (m_channels s) \<subseteq> insert (m_fd ch) own"
    by (auto simp: trying_def)
  from assms(1) have dial_ok: "dial_ok A interest s" by (simp add: trying_def)
  then have ok: "reactor_ok interest s" and here: "isInLoopThread s" by (simp_all add: dial_ok_def)
  have old: "m_index ch = kNew \<Longrightarrow> m_channels s (m_fd ch) = None" using ch(2) by (simp add: indices)
  let ?ch = "changed (\<lambda>e. kNoneEvent) ch"
  obtain w where w: "disableAll S c s = Done () (with_channel c ?ch w s)" "reactor_ok interest (with_channel c ?ch w s)"
    using change_events_ok [OF ok here ch(1) old, of "\<lambda>e. kNoneEvent"] unfolding channel_ops by metis
  let ?t = "with_channel c ?ch w s"
  have t: "isInLoopThread ?t" "heap ?t c = Some ?ch" "registered ?ch" "isNoneEvent ?ch"
    using here by (simp_all add: with_channel_def isNoneEvent_def isInLoopThread_def)
  obtain v where v: "removeChannel S c ?t = Done () (?t\<lparr>heap := (heap ?t)(c \<mapsto> ?ch\<lparr>m_index := kNew\<rparr>),
      m_channels := (m_channels ?t)(m_fd ?ch := None), kernel := v\<rparr>)" "interest v = (watched ?t)(m_fd ?ch := None)"
    using removeChannel_run [OF w(2) t] by blast
  let ?u = "?t\<lparr>heap := (heap ?t)(c \<mapsto> ?ch\<lparr>m_index := kNew\<rparr>), m_channels := (m_channels ?t)(m_fd ?ch := None), kernel := v\<rparr>"
  have "reactor_ok interest ?u" by (rule removed_ok [OF w(2) t(2,3) v(2)])
  then have u: "dial_ok A interest ?u" using dial_ok by (simp add: dial_ok_def tq_ok_def with_channel_def isInLoopThread_def)
  let ?x = "?u\<lparr>m_pendingFunctors := [User ResetChannel], m_wakeups := m_wakeups s + (if m_callingPendingFunctors s then 1 else 0)\<rparr>"
  have "isInLoopThread ?u" using u by (simp add: dial_ok_def)
  then have "removeAndResetChannel S s = Done (m_fd ch) ?x"
    using assms(2,3) w(1) v(1) by (simp add: removeAndResetChannel_def run queueInLoop_def push_functor_def wake_if_needed_def wakeup_def with_channel_def)
  moreover have "shedding c ?x" using u assms by (simp add: shedding_def trying_def with_channel_def)
  ultimately show ?thesis using ch assms(1)
    by (intro that [of "m_fd ch" ?x]) (auto simp: with_channel_def trying_def)
qed

lemma retry_backs_off:
  assumes "shedding c s" and "dom (m_channels s) \<subseteq> own" and "m_timers s = []" and "fresh_places pl s"
    and "m_retryDelayMs s = delay_after (length (closed s))"
  obtains s' where "retry S user pl fd s = Done () s'" and "backed_off c s'" and "heap s' = heap s"
    and "connector.more s' = connector.more s"
proof -
  have pre: "dial_ok A interest s" "d_connect s" "0 \<le> m_retryDelayMs s" using assms by (simp_all add: shedding_def delay_after_def)
  obtain w f where r: "retry S user pl fd s = Done () (retried pl fd (retry_at s) w f s)" "dial_ok A interest (retried pl fd (retry_at s) w f s)" "f \<noteq> None"
    by (rule retry_run [OF pre(1) assms(3) pre(2) assms(4) pre(3)])
  have "backed_off c (retried pl fd (retry_at s) w f s)" using r(2,3) assms retry_due [OF assms(5)]
    by (auto simp: backed_off_def shedding_def retried_def with_timer_def delay_after_Suc new_timer_def)
  with r(1) show ?thesis by (rule that) (simp_all add: retried_def with_timer_def)
qed

lemma fresh_after:
  assumes "fresh_places pl s" and "heap s c \<noteq> None" and "\<And>d. d \<noteq> c \<Longrightarrow> heap s' d = heap s d" and "timer_heap s' = timer_heap s"
  shows "fresh_places pl s'"
  using assms unfolding fresh_places_def by metis

lemma error_runs:
  assumes "trying A interest own s" and "d_channel s = Some c" and "m_pendingFunctors s = []" and "fresh_places pl s"
  obtains s' where "dial_handleError S D user pl s = Done () s'" and "backed_off c s'" and "connector.more s' = connector.more s"
proof -
  obtain s1 fd where s1: "removeAndResetChannel S s = Done fd s1" "shedding c s1" "dom (m_channels s1) \<subseteq> own" "m_timers s1 = []"
    "m_retryDelayMs s1 = delay_after (length (closed s1))" "timer_heap s1 = timer_heap s" "\<And>d. d \<noteq> c \<Longrightarrow> heap s1 d = heap s d"
    "connector.more s1 = connector.more s"
    by (rule removeAndReset_run [OF assms(1-3)]) blast
  let ?s2 = "s1\<lparr>kernel := snd (sys_sockerr D fd (kernel s1))\<rparr>"
  have "dial_ok A interest s1" using s1(2) by (simp add: shedding_def)
  then have "dial_ok A interest ?s2" by (rule calm_cong) (simp_all add: sockerr_interest)
  then have s2: "shedding c ?s2" using s1(2) by (simp add: shedding_def)
  have "fresh_places pl s1" using assms(1,2) by (intro fresh_after [OF assms(4) _ s1(7,6)]) (auto simp: trying_def)
  then have p: "dom (m_channels ?s2) \<subseteq> own" "m_timers ?s2 = []" "fresh_places pl ?s2" "m_retryDelayMs ?s2 = delay_after (length (closed ?s2))"
    using s1(3-5) by (simp_all add: fresh_places_def)
  obtain s' where "retry S user pl fd ?s2 = Done () s'" "backed_off c s'" "connector.more s' = connector.more ?s2"
    by (rule retry_backs_off [OF s2 p])
  with s1(1,8) assms(1) show ?thesis by (intro that [of s']) (simp_all add: dial_handleError_def run trying_def)
qed

end

end
