(* ===== verification/Client_Link.thy ===== *)
theory Client_Link
  imports Dialing
begin

text \<open>
  A client as a whole, from \<open>connect\<close> to its connection: the events of its loop, and the phases they lead through.
\<close>

text \<open>The connection callback of the owner, who keeps the connection and does nothing to the network.\<close>

definition quiet :: "('w, 'z) client_handlers \<Rightarrow> bool" where
  "quiet H \<longleftrightarrow> (\<forall>c s. \<exists>z. m_connectionCallback H c s = Done () (s\<lparr>tcp_client.more := z\<rparr>))"

definition connected_up :: "sockaddr \<Rightarrow> ('w \<Rightarrow> nat \<Rightarrow> (poll_events \<times> nat) option) \<Rightarrow> ('w, 'z) tcp_client_scheme \<Rightarrow> bool" where
  "connected_up A interest s \<longleftrightarrow> dial_ok A interest s \<and> d_connect s \<and> d_state s = Dial_Connected \<and> m_timers s = [] \<and>
     (\<exists>k conn ch. cl_connection s = Some k \<and> conn_heap s k = Some conn \<and> c_state conn = kConnected \<and>
       heap s (c_channel conn) = Some ch \<and> m_index ch = kAdded \<and> m_events ch = kReadEvent)"

lemma calm_more [simp]: "dial_ok A interest (s\<lparr>tcp_client.more := z\<rparr>) = dial_ok A interest s"
  by (simp add: dial_ok_def reactor_ok_def watched_def [abs_def] tq_ok_def isInLoopThread_def cong: option.case_cong)

section \<open>Events\<close>

text \<open>
  What a round of the loop may bring the connector: nothing of its own, its timer descriptor, or events on its
  channel.  After that the functors run.  \<open>K\<close> are the functors of others.
\<close>

datatype dial_event = Wakes | Expires | Ready poll_events

definition client_event :: "'w sys \<Rightarrow> 'w socket_sys \<Rightarrow> (conn_job \<Rightarrow> (('w, 'z) tcp_client_scheme, unit) prog) \<Rightarrow> ('w, 'z) client_handlers \<Rightarrow>
    places \<Rightarrow> dial_event \<Rightarrow> (('w, 'z) tcp_client_scheme, unit) prog" where
  "client_event S D K H pl e = (case e of Wakes \<Rightarrow> ret ()
     | Expires \<Rightarrow> TimerQueue_handleRead S (\<lambda>_. startInLoop S D K pl)
     | Ready r \<Rightarrow> bnd (reads (\<lambda>s. if d_state s = Dial_Connecting then d_channel s else None)) (\<lambda>ch. case ch of None \<Rightarrow> ret ()
         | Some c \<Rightarrow> andthen (set_channel c (\<lambda>ch. ch\<lparr>m_revents := r\<rparr>))
             (handleEvent (dial_callback S D K (TcpClient_newConnection S D H pl) pl) c)))"

definition client_round :: "'w sys \<Rightarrow> 'w socket_sys \<Rightarrow> (conn_job \<Rightarrow> (('w, 'z) tcp_client_scheme, unit) prog) \<Rightarrow> ('w, 'z) client_handlers \<Rightarrow>
    places \<Rightarrow> dial_event \<Rightarrow> (('w, 'z) tcp_client_scheme, unit) prog" where
  "client_round S D K H pl e = andthen (client_event S D K H pl e) (doPendingFunctors S (dial_job S D K pl))"

context dialer
begin

definition joined :: "nat \<Rightarrow> ('w, 'z) tcp_client_scheme \<Rightarrow> bool" where
  "joined c s \<longleftrightarrow> shedding c s \<and> connected_up A interest s"

lemma newConnection_run:
  assumes "shedding c s" and "dom (m_channels s) \<subseteq> own" and "fd \<notin> own" and "m_timers s = []" and "fresh_places pl s"
    and "d_state s = Dial_Connected" and "quiet H"
  obtains s' where "TcpClient_newConnection S D H pl fd s = Done () s'" and "joined c s'" and "heap s' c = heap s c"
proof -
  let ?c = "at_channel pl" and ?k = "at_conn pl" and ?ch = "new_channel (at_junk pl) fd"
  let ?conn = "\<lparr>c_state = kConnecting, c_channel = ?c, m_inputBuffer = new_buffer, m_outputBuffer = new_buffer\<rparr>"
  let ?n = "sys_names D fd (kernel s)"
  let ?s = "s\<lparr>kernel := snd ?n, cl_connName := client_name (cl_name s) (snd (fst ?n)) (cl_nextConnId s), cl_nextConnId := cl_nextConnId s + 1,
    heap := (heap s)(?c \<mapsto> ?ch), cl_connection := Some ?k, conn_heap := (conn_heap s)(?k \<mapsto> ?conn\<lparr>c_state := kConnected\<rparr>)\<rparr>"
  have dial_ok: "dial_ok A interest s" and none: "heap s ?c = None" and free: "m_channels s fd = None"
    using assms(1-3,5) by (auto simp: shedding_def fresh_places_def)
  have new: "reactor_ok interest (s\<lparr>heap := (heap s)(?c \<mapsto> ?ch)\<rparr>)"
    using dial_ok none by (intro new_channel_ok) (simp_all add: dial_ok_def)
  have ok: "reactor_ok interest ?s" by (rule reactor_ok_cong [OF new]) (simp_all add: names_interest)
  have here: "isInLoopThread ?s" using dial_ok by (simp add: dial_ok_def isInLoopThread_def)
  have ch: "heap ?s ?c = Some ?ch" and unknown: "m_index ?ch = kNew \<Longrightarrow> m_channels ?s (m_fd ?ch) = None"
    using free by (simp_all add: new_channel_def)
  obtain w where w: "enableReading S ?c ?s = Done () (with_channel ?c (changed (\<lambda>e. e OR kReadEvent) ?ch) w ?s)"
    "reactor_ok interest (with_channel ?c (changed (\<lambda>e. e OR kReadEvent) ?ch) w ?s)"
    using change_events_ok [OF ok here ch unknown, of "\<lambda>e. e OR kReadEvent"] unfolding channel_ops by metis
  let ?t = "with_channel ?c (changed (\<lambda>e. e OR kReadEvent) ?ch) w ?s"
  obtain z where z: "m_connectionCallback H ?k ?t = Done () (?t\<lparr>tcp_client.more := z\<rparr>)" using assms(7) unfolding quiet_def by blast
  let ?u = "?t\<lparr>tcp_client.more := z\<rparr>"
  have "isInLoopThread s" using dial_ok by (simp add: dial_ok_def)
  then have "TcpClient_newConnection S D H pl fd s = Done () ?u"
    using here w(1) z by (simp add: TcpClient_newConnection_def connectEstablished_def setState_def run split_beta new_connection_def isInLoopThread_def)
  moreover have "dial_ok A interest ?t" using dial_ok w(2) here by (simp add: dial_ok_def tq_ok_def with_channel_def isInLoopThread_def)
  moreover have "changed (\<lambda>e. e OR kReadEvent) ?ch = ?ch\<lparr>m_events := kReadEvent, m_index := kAdded\<rparr>"
    by (simp add: changed_def new_channel_def indices)
  moreover from assms(1) obtain ch' where c: "heap s c = Some ch'" "m_index ch' = kNew" by (auto simp: shedding_def)
  moreover have "c \<noteq> ?c" using c(1) none by auto
  ultimately show ?thesis using assms(1,4,6) c
    by (intro that [of ?u]) (simp_all add: joined_def shedding_def connected_up_def with_channel_def)
qed


definition answered :: "nat \<Rightarrow> ('w, 'z) tcp_client_scheme \<Rightarrow> bool" where
  "answered c s \<longleftrightarrow> backed_off c s \<or> joined c s"

lemma write_runs:
  assumes "trying A interest own s" and "d_channel s = Some c" and "m_pendingFunctors s = []" and "fresh_places pl s" and "quiet H"
  obtains s' where "dial_handleWrite S D user (TcpClient_newConnection S D H pl) pl s = Done () s'" and "answered c s'"
proof -
  obtain s1 fd where s1: "removeAndResetChannel S s = Done fd s1" "shedding c s1" "dom (m_channels s1) \<subseteq> own" "fd \<notin> own" "m_timers s1 = []"
    "m_retryDelayMs s1 = delay_after (length (closed s1))" "timer_heap s1 = timer_heap s" "\<And>d. d \<noteq> c \<Longrightarrow> heap s1 d = heap s d"
    by (rule removeAndReset_run [OF assms(1-3)]) blast
  let ?e = "sys_sockerr D fd (kernel s1)"
  let ?n = "sys_names D fd (snd ?e)"
  let ?self = "sin_port (fst (fst ?n)) = sin_port (snd (fst ?n)) \<and> sin_addr (fst (fst ?n)) = sin_addr (snd (fst ?n))"
  have dial_ok: "dial_ok A interest s1" using s1(2) by (simp add: shedding_def)
  have shed: "shedding c (s1\<lparr>kernel := w\<rparr>)" if "interest w = interest (kernel s1)" for w
  proof -
    have "dial_ok A interest (s1\<lparr>kernel := w\<rparr>)" by (rule calm_cong [OF dial_ok]) (simp_all add: that)
    with s1(2) show ?thesis by (simp add: shedding_def)
  qed
  have "fresh_places pl s1" using assms(1,2) by (intro fresh_after [OF assms(4) _ s1(8,7)]) (auto simp: trying_def)
  then have fresh: "fresh_places pl (s1\<lparr>kernel := w\<rparr>)" for w by (simp add: fresh_places_def)
  have st: "d_state s = Dial_Connecting" "d_connect s1" using assms(1) s1(2) by (simp_all add: trying_def shedding_def)
  have retry: "\<exists>s'. retry S user pl fd (s1\<lparr>kernel := w\<rparr>) = Done () s' \<and> answered c s'" if i: "interest w = interest (kernel s1)" for w
  proof -
    have p: "dom (m_channels (s1\<lparr>kernel := w\<rparr>)) \<subseteq> own" "m_timers (s1\<lparr>kernel := w\<rparr>) = []"
      "m_retryDelayMs (s1\<lparr>kernel := w\<rparr>) = delay_after (length (closed (s1\<lparr>kernel := w\<rparr>)))" using s1(3,5,6) by simp_all
    obtain s' where "retry S user pl fd (s1\<lparr>kernel := w\<rparr>) = Done () s'" "backed_off c s'"
      by (rule retry_backs_off [OF shed [OF i] p(1,2) fresh p(3)]) blast
    then show ?thesis unfolding answered_def by blast
  qed
  have e: "interest (snd ?e) = interest (kernel s1)" "interest (snd ?n) = interest (kernel s1)"
    by (simp_all add: sockerr_interest names_interest)
  consider (failed) "fst ?e \<noteq> 0" | (self) "fst ?e = 0" ?self | (joined) "fst ?e = 0" "\<not> ?self" by blast
  then show ?thesis
  proof cases
    case failed
    with retry [OF e(1)] s1(1) st show ?thesis by (auto simp: dial_handleWrite_def run intro: that)
  next
    case self
    with retry [OF e(2)] s1(1) st show ?thesis by (auto simp: dial_handleWrite_def isSelfConnect_def run split_beta intro: that)
  next
    case joined
    let ?s2 = "s1\<lparr>kernel := snd ?n, d_state := Dial_Connected\<rparr>"
    have p: "shedding c ?s2" "dom (m_channels ?s2) \<subseteq> own" "m_timers ?s2 = []" "fresh_places pl ?s2" "d_state ?s2 = Dial_Connected"
      using shed [OF e(2)] fresh [of "snd ?n"] s1(3,5) by (simp_all add: shedding_def fresh_places_def)
    obtain s' where "TcpClient_newConnection S D H pl fd ?s2 = Done () s'" "joined c s'"
      by (rule newConnection_run [OF p(1,2) s1(4) p(3-5) assms(5)])
    with joined s1(1) st show ?thesis
      by (intro that [of s']) (auto simp: dial_handleWrite_def isSelfConnect_def run split_beta answered_def)
  qed
qed

text \<open>Marking a channel changes nothing that matters here.\<close>

lemma calm_marked:
  assumes "dial_ok A interest s" and "heap s c = Some ch" and "m_fd ch' = m_fd ch" "m_events ch' = m_events ch" "m_index ch' = m_index ch"
  shows "dial_ok A interest (s\<lparr>heap := (heap s)(c \<mapsto> ch')\<rparr>)"
  using assms same_channel_ok(1) [of interest s c ch ch'] by (simp add: dial_ok_def tq_ok_def)

lemma trying_marked:
  assumes "trying A interest own s" and "d_channel s = Some c" and "m_fd ch' = m_fd ch" "m_events ch' = m_events ch" "m_index ch' = m_index ch"
    and "heap s c = Some ch"
  shows "trying A interest own (s\<lparr>heap := (heap s)(c \<mapsto> ch')\<rparr>)"
  using assms calm_marked [OF _ assms(6,3-5)] by (simp add: trying_def isWriting_def)

lemma answered_marked:
  assumes "answered c s" and "heap s c = Some ch" and "m_fd ch' = m_fd ch" "m_events ch' = m_events ch" "m_index ch' = m_index ch"
  shows "answered c (s\<lparr>heap := (heap s)(c \<mapsto> ch')\<rparr>)"
proof -
  have shed: "shedding c (s\<lparr>heap := (heap s)(c \<mapsto> ch')\<rparr>)" if "shedding c s"
    using that calm_marked [OF _ assms(2-5)] assms(2,5) by (simp add: shedding_def)
  have "connected_up A interest (s\<lparr>heap := (heap s)(c \<mapsto> ch')\<rparr>)" if l: "connected_up A interest s" and sh: "shedding c s"
  proof -
    from l obtain k conn ch1 where k: "cl_connection s = Some k" "conn_heap s k = Some conn" "c_state conn = kConnected"
      "heap s (c_channel conn) = Some ch1" "m_index ch1 = kAdded" "m_events ch1 = kReadEvent" by (auto simp: connected_up_def)
    have "c_channel conn \<noteq> c" using sh k(4,5) assms(2) by (auto simp: shedding_def indices)
    with l k show ?thesis using calm_marked [OF _ assms(2-5)] by (simp add: connected_up_def)
  qed
  with assms(1) shed show ?thesis by (auto simp: answered_def joined_def backed_off_def)
qed


section \<open>Rounds\<close>

definition unanswered :: "nat \<Rightarrow> ('w, 'z) tcp_client_scheme \<Rightarrow> bool" where
  "unanswered c s \<longleftrightarrow> trying A interest own s \<and> d_channel s = Some c \<and> m_pendingFunctors s = []"

lemma answered_write:
  assumes "answered c s"
  obtains "d_state s = Dial_Disconnected" | "d_state s = Dial_Connected" "connected_up A interest s"
  using assms by (auto simp: answered_def backed_off_def joined_def connected_up_def)

lemma handleEvent_runs:
  assumes "unanswered c s" and "fresh_places pl s" and "quiet H"
  obtains s' ch where "handleEvent (dial_callback S D user (TcpClient_newConnection S D H pl) pl) c s = Done () s'"
    and "unanswered c s' \<or> answered c s'" and "heap s' c = Some ch" and "\<not> m_eventHandling ch"
proof -
  from assms(1) obtain ch where ch: "heap s c = Some ch" by (auto simp: unanswered_def trying_def)
  let ?s0 = "s\<lparr>heap := (heap s)(c \<mapsto> ch\<lparr>m_eventHandling := True\<rparr>)\<rparr>"
  let ?call = "dial_callback S D user (TcpClient_newConnection S D H pl) pl c"
  let ?step = "\<lambda>k. bnd (the_channel c) (\<lambda>ch. if wants k (m_revents ch) then ?call k else ret ())"
  have s0: "trying A interest own ?s0" "d_channel ?s0 = Some c" "m_pendingFunctors ?s0 = []" "fresh_places pl ?s0"
    using assms(1,2) ch trying_marked [OF _ _ _ _ _ ch, of "ch\<lparr>m_eventHandling := True\<rparr>"] by (auto simp: unanswered_def fresh_places_def)
  have live: "\<exists>ch. heap t c = Some ch" if "answered c t" for t
    using that by (auto simp: answered_def backed_off_def joined_def shedding_def)
  have quiet_steps: "?step CloseCallback t = Done () t" "?step ReadCallback t = Done () t" if "heap t c = Some ch'" for t ch'
    using that by (simp_all add: dial_callback_def run)
  have done_step: "?step WriteCallback t = Done () t" if a: "backed_off c t" for t
  proof -
    from a obtain ch' where "heap t c = Some ch'" "d_state t = Dial_Disconnected" by (auto simp: backed_off_def shedding_def)
    then show ?thesis by (simp add: dial_callback_def dial_handleWrite_def run)
  qed
  obtain s1 where s1: "for_each ?step [CloseCallback, ErrorCallback, ReadCallback, WriteCallback] ?s0 = Done () s1"
    "unanswered c s1 \<or> answered c s1"
  proof (cases "wants ErrorCallback (m_revents ch)")
    case True
    obtain t where t: "dial_handleError S D user pl ?s0 = Done () t" "backed_off c t" by (rule error_runs [OF s0])
    then obtain ch' where ch': "heap t c = Some ch'" using live by (auto simp: answered_def)
    have "?step ErrorCallback ?s0 = Done () t" using True t(1) by (simp add: dial_callback_def run)
    then have "for_each ?step [CloseCallback, ErrorCallback, ReadCallback, WriteCallback] ?s0 = Done () t"
      using quiet_steps(1) [of ?s0] quiet_steps(2) [OF ch'] done_step [OF t(2)] by (simp add: andthen_def bnd_def)
    with t(2) show ?thesis by (intro that [of t]) (simp_all add: answered_def)
  next
    case False
    then have e: "?step ErrorCallback ?s0 = Done () ?s0" by (simp add: run)
    have q: "?step CloseCallback ?s0 = Done () ?s0" "?step ReadCallback ?s0 = Done () ?s0" by (rule quiet_steps, simp)+
    show ?thesis
    proof (cases "wants WriteCallback (m_revents ch)")
      case True
      obtain t where t: "dial_handleWrite S D user (TcpClient_newConnection S D H pl) pl ?s0 = Done () t" "answered c t"
        by (rule write_runs [OF s0 assms(3)])
      have "?step WriteCallback ?s0 = Done () t" using True t(1) by (simp add: dial_callback_def run)
      with e q t(2) show ?thesis by (intro that [of t]) (simp_all add: andthen_def bnd_def)
    next
      case False
      then have "?step WriteCallback ?s0 = Done () ?s0" by (simp add: run)
      with e q s0 show ?thesis by (intro that [of ?s0]) (simp_all add: andthen_def bnd_def unanswered_def)
    qed
  qed
  then obtain ch1 where ch1: "heap s1 c = Some ch1" using live by (auto simp: unanswered_def trying_def)
  let ?s2 = "s1\<lparr>heap := (heap s1)(c \<mapsto> ch1\<lparr>m_eventHandling := False\<rparr>)\<rparr>"
  have "unanswered c ?s2 \<or> answered c ?s2"
    using s1(2) answered_marked [OF _ ch1, of "ch1\<lparr>m_eventHandling := False\<rparr>"]
      trying_marked [OF _ _ _ _ _ ch1, of "ch1\<lparr>m_eventHandling := False\<rparr>"] by (auto simp: unanswered_def)
  moreover have "handleEvent (dial_callback S D user (TcpClient_newConnection S D H pl) pl) c s = Done () ?s2"
    using ch ch1 s1(1) by (simp add: handleEvent_def run del: for_each.simps)
  ultimately show ?thesis by (intro that [of ?s2 "ch1\<lparr>m_eventHandling := False\<rparr>"]) simp_all
qed


text \<open>The functors at the end of the round: the channel of the answered try is deleted.\<close>

lemma calm_deleted:
  assumes "dial_ok A interest s" and "heap s c = Some ch" and "m_index ch = kNew"
  shows "dial_ok A interest (s\<lparr>heap := (heap s)(c := None)\<rparr>)"
  using assms deleted_channel_ok [of interest s c ch] by (simp add: dial_ok_def tq_ok_def)

definition settled :: "('w, 'z) tcp_client_scheme \<Rightarrow> bool" where
  "settled s \<longleftrightarrow> m_pendingFunctors s = [] \<and> (waiting A S interest own s \<or> trying A interest own s \<or> given_up A D interest own s \<or> connected_up A interest s)"

lemma answered_functors:
  assumes "answered c s" and "heap s c = Some ch" and "\<not> m_eventHandling ch"
  obtains s' where "doPendingFunctors S (dial_job S D K pl) s = Done () s'" and "settled s'"
proof -
  let ?t = "s\<lparr>m_callingPendingFunctors := False, m_pendingFunctors := [], d_channel := None, heap := (heap s)(c := None)\<rparr>"
  from assms(1) have sh: "shedding c s" by (auto simp: answered_def backed_off_def joined_def)
  with assms(2) have dial_ok: "dial_ok A interest s" "m_index ch = kNew" "d_channel s = Some c" "m_pendingFunctors s = [User ResetChannel]" "d_connect s"
    by (auto simp: shedding_def)
  let ?u = "s\<lparr>m_callingPendingFunctors := True, m_pendingFunctors := [], d_channel := None, heap := (heap s)(c := None), m_callingPendingFunctors := False\<rparr>"
  have run: "doPendingFunctors S (dial_job S D K pl) s = Done () ?u"
    using assms(2,3) dial_ok by (simp add: doPendingFunctors_def swap_functors_def exec_functor_def dial_job_def resetChannel_def delete_channel_def run)
  have "dial_ok A interest (s\<lparr>heap := (heap s)(c := None)\<rparr>)" by (rule calm_deleted [OF dial_ok(1) assms(2) dial_ok(2)])
  then have u: "dial_ok A interest ?u" by (rule calm_cong) simp_all
  from assms(1) consider (off) "backed_off c s" | (on) "connected_up A interest s" by (auto simp: answered_def joined_def)
  then have "settled ?u"
  proof cases
    case off
    then have "waiting A S interest own ?u" using u dial_ok(5) by (simp add: waiting_def resting_def backed_off_def)
    then show ?thesis by (simp add: settled_def)
  next
    case on
    then obtain k conn ch1 where k: "cl_connection s = Some k" "conn_heap s k = Some conn" "c_state conn = kConnected"
      "heap s (c_channel conn) = Some ch1" "m_index ch1 = kAdded" "m_events ch1 = kReadEvent" by (auto simp: connected_up_def)
    have "c_channel conn \<noteq> c" using k(4,5) assms(2) dial_ok(2) by (auto simp: indices)
    with on k u have "connected_up A interest ?u" by (simp add: connected_up_def)
    then show ?thesis by (simp add: settled_def)
  qed
  with run show ?thesis by (rule that)
qed

lemma no_functors: "m_pendingFunctors s = [] \<Longrightarrow> doPendingFunctors S user s = Done () (s\<lparr>m_callingPendingFunctors := False\<rparr>)"
  by (simp add: doPendingFunctors_def swap_functors_def run)

lemma linked_calling [simp]: "connected_up A interest (s\<lparr>m_callingPendingFunctors := b\<rparr>) = connected_up A interest s"
  by (simp add: connected_up_def)

lemma settled_functors:
  assumes "settled s"
  shows "doPendingFunctors S user s = Done () (s\<lparr>m_callingPendingFunctors := False\<rparr>)" and "settled (s\<lparr>m_callingPendingFunctors := False\<rparr>)"
  using assms no_functors [of s user] by (simp_all add: settled_def)

lemma ready_round:
  assumes "settled s" and "fresh_places pl s" and "quiet H"
  obtains s' where "client_round S D K H pl (Ready r) s = Done () s'" and "settled s'"
proof (cases "d_state s = Dial_Connecting")
  case False
  then have "client_round S D K H pl (Ready r) s = Done () (s\<lparr>m_callingPendingFunctors := False\<rparr>)"
    using settled_functors(1) [OF assms(1)] by (simp add: client_round_def client_event_def run)
  then show ?thesis by (rule that) (rule settled_functors(2) [OF assms(1)])
next
  case True
  with assms(1) have t: "trying A interest own s" "m_pendingFunctors s = []"
    by (auto simp: settled_def waiting_def given_up_def connected_up_def)
  then obtain c ch where c: "d_channel s = Some c" "heap s c = Some ch" by (auto simp: trying_def)
  let ?s = "s\<lparr>heap := (heap s)(c \<mapsto> ch\<lparr>m_revents := r\<rparr>)\<rparr>"
  have u: "unanswered c ?s" using trying_marked [OF t(1) c(1) _ _ _ c(2), of "ch\<lparr>m_revents := r\<rparr>"] t(2) c(1) by (simp add: unanswered_def)
  have f: "fresh_places pl ?s" using assms(2) c(2) by (auto simp: fresh_places_def)
  obtain s1 ch1 where s1: "handleEvent (dial_callback S D K (TcpClient_newConnection S D H pl) pl) c ?s = Done () s1"
    "unanswered c s1 \<or> answered c s1" "heap s1 c = Some ch1" "\<not> m_eventHandling ch1"
    by (rule handleEvent_runs [OF u f assms(3)])
  have ev: "client_event S D K H pl (Ready r) s = Done () s1" using True c s1(1) by (simp add: client_event_def run)
  from s1(2) show ?thesis
  proof
    assume "unanswered c s1"
    then have "settled s1" by (simp add: unanswered_def settled_def)
    from settled_functors [OF this] ev show ?thesis by (intro that) (auto simp: client_round_def run)
  next
    assume "answered c s1"
    obtain s' where "doPendingFunctors S (dial_job S D K pl) s1 = Done () s'" "settled s'"
      by (rule answered_functors [OF \<open>answered c s1\<close> s1(3,4)])
    with ev show ?thesis by (intro that [of s']) (simp_all add: client_round_def run)
  qed
qed


text \<open>The start, and a bare wake-up.\<close>

definition dial_queued :: "('w, 'z) tcp_client_scheme \<Rightarrow> bool" where
  "dial_queued s \<longleftrightarrow> starting_up A interest own s \<and> m_pendingFunctors s = [User StartInLoop]"

lemma starting_functors:
  assumes "dial_queued s" and "fresh_places pl s"
  obtains s' where "doPendingFunctors S (dial_job S D K pl) s = Done () s'" and "settled s'"
    and "fst (sys_socket D (kernel s)) \<noteq> None \<longrightarrow> dialled_to s' = dialled_to s @ [A]"
proof -
  let ?s = "s\<lparr>m_callingPendingFunctors := True, m_pendingFunctors := []\<rparr>"
  have p: "resting A interest own ?s" "d_state ?s = Dial_Disconnected" "m_timers ?s = []" "fresh_places pl ?s"
    "m_retryDelayMs ?s = delay_after (length (closed ?s))"
    using assms by (simp_all add: dial_queued_def starting_up_def resting_def fresh_places_def)
  obtain s1 where s1: "startInLoop S D K pl ?s = Done () s1" "untouched ?s s1"
    "fst (sys_socket D (kernel ?s)) \<noteq> None \<longrightarrow> dialled_to s1 = dialled_to ?s @ [A]"
    "waiting A S interest own s1 \<or> trying A interest own s1 \<or> given_up A D interest own s1"
    by (rule startInLoop_run [OF p])
  let ?t = "s1\<lparr>m_callingPendingFunctors := False\<rparr>"
  have "doPendingFunctors S (dial_job S D K pl) s = Done () ?t"
    using assms(1) s1(1) by (simp add: dial_queued_def doPendingFunctors_def swap_functors_def exec_functor_def dial_job_def run)
  moreover have "settled ?t" using s1(2,4) by (auto simp: settled_def untouched_def)
  ultimately show ?thesis by (rule that) (use s1(3) in simp)
qed

lemma wakes_round:
  assumes "settled s \<or> dial_queued s" and "fresh_places pl s"
  obtains s' where "client_round S D K H pl Wakes s = Done () s'" and "settled s'"
proof -
  have round: "client_round S D K H pl Wakes s = doPendingFunctors S (dial_job S D K pl) s"
    by (simp add: client_round_def client_event_def run)
  from assms(1) show ?thesis
  proof
    assume "settled s"
    from settled_functors [OF this] round show ?thesis by (intro that) auto
  next
    assume "dial_queued s"
    obtain s' where "doPendingFunctors S (dial_job S D K pl) s = Done () s'" "settled s'"
      "fst (sys_socket D (kernel s)) \<noteq> None \<longrightarrow> dialled_to s' = dialled_to s @ [A]"
      by (rule starting_functors [OF \<open>dial_queued s\<close> assms(2)])
    with round show ?thesis by (intro that) auto
  qed
qed

lemma first_round:
  assumes "dial_queued s" and "fresh_places pl s"
  shows "\<exists>s'. client_round S D K H pl Wakes s = Done () s' \<and> (fst (sys_socket D (kernel s)) \<noteq> None \<longrightarrow> dialled_to s' = dialled_to s @ [A])"
proof -
  have round: "client_round S D K H pl Wakes s = doPendingFunctors S (dial_job S D K pl) s"
    by (simp add: client_round_def client_event_def run)
  obtain s' where "doPendingFunctors S (dial_job S D K pl) s = Done () s'" "settled s'"
    "fst (sys_socket D (kernel s)) \<noteq> None \<longrightarrow> dialled_to s' = dialled_to s @ [A]"
    by (rule starting_functors [OF assms])
  with round show ?thesis by auto
qed

lemma settled_dials: "settled s \<or> dial_queued s \<Longrightarrow> set (dialled_to s) \<subseteq> {A}"
  by (auto simp: settled_def dial_queued_def starting_up_def waiting_def trying_def given_up_def connected_up_def resting_def dial_ok_def)

text \<open>The timer descriptor.\<close>

lemma settled_timerfd: "settled s \<Longrightarrow> settled (s\<lparr>m_timerfd := Some x\<rparr>)"
  by (auto simp: settled_def waiting_def trying_def given_up_def connected_up_def resting_def hopeless_def)

lemma reset_settles:
  assumes "settled (s\<lparr>m_timerfd := Some x\<rparr>)" and "list_all (\<lambda>e. \<exists>tm. map_of (timer_heap s) (snd e) = Some tm \<and> \<not> m_repeat tm) es"
    and "distinct (map snd es)" and "snd ` set es \<inter> snd ` set (m_timers s) = {}" and "list_all (\<lambda>e. snd e < UINTPTR_MAX) es" and "0 < t"
  obtains s' where "TimerQueue_reset S es t s = Done () s'" and "settled s'"
proof -
  let ?s = "s\<lparr>m_timerfd := Some x\<rparr>"
  have dial_ok: "dial_ok A interest ?s" using assms(1) by (auto simp: settled_def waiting_def trying_def given_up_def connected_up_def resting_def)
  then have s: "tq_ok s" "isInLoopThread s" "intervals_ok (timer_heap s)" by (simp_all add: dial_ok_def tq_ok_def)
  have live: "list_all (\<lambda>e. map_of (timer_heap s) (snd e) \<noteq> None \<and> snd e < UINTPTR_MAX) es"
    using assms(2,5) by (fastforce simp: list_all_iff)
  obtain s3 w f where r: "TimerQueue_reset S es t s = Done () (s3\<lparr>kernel := w, m_timerfd := f\<rparr>)" "same_but_timers s s3" "tq_ok s3"
    "intervals_ok (timer_heap s3)" "m_timers s3 \<noteq> [] \<longrightarrow> f \<noteq> None"
    "set (m_timers s3) = set (m_timers s) \<union> (\<Union>e \<in> set es. requeued t (timer_heap s) e)"
    "map_of (timer_heap s3) = heap_after t es (timer_heap s)" "w = kernel s \<or> w = snd (sys_now S (kernel s))"
    by (rule reset_run [OF s(1,2) assms(3,4) live s(3) assms(6), of S]) blast
  from r(2) obtain h ts as where s3: "s3 = s\<lparr>timer_heap := h, m_timers := ts, m_activeTimers := as\<rparr>" by (auto simp: same_but_timers_def)
  have "requeued t (timer_heap s) e = {}" if "e \<in> set es" for e
    using assms(2) that by (auto simp: list_all_iff requeued_def)
  then have "set (m_timers s3) = set (m_timers s)" using r(6) by simp
  then have ts: "ts = m_timers s" using r(3) s(1) s3 unfolding tq_ok_def timers_ok_def by (auto intro: strict_sorted_equal)
  have same: "map_of h p = map_of (timer_heap s) p" if "p \<in> snd ` set (m_timers s)" for p
  proof -
    have "p \<notin> snd ` set es" using that assms(4) by blast
    then show ?thesis using r(7) s3 by (simp add: heap_after_def)
  qed
  let ?s' = "s3\<lparr>kernel := w, m_timerfd := f\<rparr>"
  have i: "interest w = interest (kernel s)" using r(8) now_interest by auto
  have ok: "reactor_ok interest s" using dial_ok by (auto simp: dial_ok_def intro: reactor_ok_cong)
  have "reactor_ok interest ?s'" by (rule reactor_ok_cong [OF ok]) (simp_all add: s3 i)
  moreover have "isInLoopThread ?s'" using s(2) by (simp add: s3)
  moreover have "tq_ok ?s'" "intervals_ok (timer_heap ?s')" using r(3,4) by (simp_all add: tq_ok_def)
  ultimately have dial_ok': "dial_ok A interest ?s'" using dial_ok by (simp add: dial_ok_def s3)
  have fields: "m_channels ?s' = m_channels s" "d_channel ?s' = d_channel s" "d_connect ?s' = d_connect s" "d_state ?s' = d_state s"
    "m_timers ?s' = m_timers s" "m_timerId ?s' = m_timerId s" "timer_heap ?s' = h" "m_retryDelayMs ?s' = m_retryDelayMs s" "closed ?s' = closed s" "heap ?s' = heap s"
    "m_pendingFunctors ?s' = m_pendingFunctors s" "cl_connection ?s' = cl_connection s" "conn_heap ?s' = conn_heap s" "m_timerfd ?s' = f"
    by (simp_all add: s3 ts)
  have f: "m_timers s \<noteq> [] \<longrightarrow> f \<noteq> None" using r(5) s3 ts by simp
  have "waiting A S interest own ?s'" if wt: "waiting A S interest own ?s"
  proof -
    from wt obtain e p tm where q: "m_timers s = [(e, p)]" "map_of (timer_heap s) p = Some tm" "\<not> m_repeat tm" "m_timerId s = (p, 0)" by (auto simp: waiting_def)
    with same [of p] have "map_of h p = Some tm" by simp
    with wt q f dial_ok' show ?thesis by (simp add: waiting_def resting_def fields)
  qed
  moreover have "trying A interest own ?s'" if "trying A interest own ?s" using that dial_ok' by (simp add: trying_def fields)
  moreover have "given_up A D interest own ?s'" if "given_up A D interest own ?s" using that dial_ok' by (simp add: given_up_def resting_def hopeless_def fields)
  moreover have "connected_up A interest ?s'" if "connected_up A interest ?s" using that dial_ok' by (simp add: connected_up_def fields)
  ultimately have "settled ?s'" using assms(1) by (auto simp: settled_def fields)
  with r(1) show ?thesis by (rule that)
qed


lemma settled_cong:
  assumes "settled s" and "dial_ok A interest t" and "m_channels t = m_channels s" "d_channel t = d_channel s" "d_connect t = d_connect s"
    "d_state t = d_state s" "m_timerId t = m_timerId s" "m_timers t = m_timers s" "timer_heap t = timer_heap s" "m_retryDelayMs t = m_retryDelayMs s" "closed t = closed s"
    "heap t = heap s" "m_pendingFunctors t = m_pendingFunctors s" "cl_connection t = cl_connection s" "conn_heap t = conn_heap s"
    "m_timerfd t \<noteq> None"
  shows "settled t"
  using assms(1) unfolding settled_def waiting_def trying_def given_up_def resting_def connected_up_def hopeless_def assms(3-15)
  by (elim conjE disjE) (simp_all add: assms(2,16))

lemma run_due:
  assumes "settled s" and "dial_ok A interest s1" and "fresh_places pl s" and "0 < t"
    and s1: "s1 = s\<lparr>kernel := w, m_timerfd := None, m_timers := later t (m_timers s), m_activeTimers := as, m_callingExpiredTimers := True,
      m_cancelingTimers := []\<rparr>"
  obtains s2 where "for_each (run_timer (\<lambda>_. startInLoop S D K pl)) (due t (m_timers s)) s1 = Done () s2"
    and "settled (s2\<lparr>m_timerfd := Some 0\<rparr>)" and "list_all (\<lambda>e. \<exists>tm. map_of (timer_heap s2) (snd e) = Some tm \<and> \<not> m_repeat tm) (due t (m_timers s))"
    and "snd ` set (due t (m_timers s)) \<inter> snd ` set (m_timers s2) = {}"
proof (cases "due t (m_timers s) = []")
  case True
  then have l: "later t (m_timers s) = m_timers s" by (simp add: due_def later_def filter_empty_conv filter_id_conv)
  have "dial_ok A interest (s1\<lparr>m_timerfd := Some 0\<rparr>)" using assms(2) by simp
  then have "settled (s1\<lparr>m_timerfd := Some 0\<rparr>)" by (rule settled_cong [OF assms(1)]) (simp_all add: s1 l)
  with True show ?thesis by (intro that [of s1]) simp_all
next
  case False
  then have "m_timers s \<noteq> []" by (auto simp: due_def)
  with assms(1) have wait: "waiting A S interest own s" "m_pendingFunctors s = []"
    by (auto simp: settled_def trying_def given_up_def connected_up_def)
  then obtain e p tm where q: "m_timers s = [(e, p)]" "map_of (timer_heap s) p = Some tm" "\<not> m_repeat tm" by (auto simp: waiting_def)
  with False have d: "due t (m_timers s) = [(e, p)]" "later t (m_timers s) = []" by (simp_all add: due_def later_def split: if_splits)
  have pre: "resting A interest own s1" "d_state s1 = Dial_Disconnected" "m_timers s1 = []" "fresh_places pl s1"
    "m_retryDelayMs s1 = delay_after (length (closed s1))"
    using wait(1) assms(2,3) by (simp_all add: s1 d waiting_def resting_def fresh_places_def)
  obtain s2 where s2: "startInLoop S D K pl s1 = Done () s2" "untouched s1 s2"
    "fst (sys_socket D (kernel s1)) \<noteq> None \<longrightarrow> dialled_to s2 = dialled_to s1 @ [A]"
    "waiting A S interest own s2 \<or> trying A interest own s2 \<or> given_up A D interest own s2"
    by (rule startInLoop_run [OF pre])
  have p1: "map_of (timer_heap s1) p = Some tm" using q by (simp add: s1)
  then have p2: "map_of (timer_heap s2) p = Some tm" using s2(2) by (simp add: untouched_def)
  have "p \<notin> snd ` set (m_timers s2)" using s2(2) p1 pre(3) by (auto simp: untouched_def)
  moreover have "for_each (run_timer (\<lambda>_. startInLoop S D K pl)) (due t (m_timers s)) s1 = Done () s2"
    using s2(1) p1 by (simp add: d run_timer_def run)
  moreover have "m_pendingFunctors s2 = []" using s2(2) wait(2) by (simp add: untouched_def s1)
  then have "settled s2" using s2(4) by (auto simp: settled_def)
  ultimately show ?thesis using q(3) p2 by (intro that [of s2] settled_timerfd) (simp_all add: d)
qed

lemma expires_round:
  assumes "settled s" and "fresh_places pl s"
  obtains s' where "client_round S D K H pl Expires s = Done () s'" and "settled s'"
proof -
  obtain t w where now: "sys_now S (kernel s) = (t, w)" by force
  then have t: "0 < t" and i: "interest w = interest (kernel s)" using clock [of "kernel s"] now_interest [of "kernel s"] by simp_all
  let ?s0 = "s\<lparr>kernel := w, m_timerfd := None\<rparr>"
  have dial_ok: "dial_ok A interest s" using assms(1) by (auto simp: settled_def waiting_def trying_def given_up_def connected_up_def resting_def)
  have c0: "dial_ok A interest ?s0" by (rule calm_cong [OF dial_ok]) (simp_all add: i)
  then have tq: "tq_ok ?s0" by (simp add: dial_ok_def)
  obtain as where get: "getExpired t ?s0 = Done (due t (m_timers ?s0)) (?s0\<lparr>m_timers := later t (m_timers ?s0), m_activeTimers := as\<rparr>)"
    and ok: "tq_ok (?s0\<lparr>m_timers := later t (m_timers ?s0), m_activeTimers := as\<rparr>)" by (rule getExpired_run [OF tq])
  let ?s1 = "s\<lparr>kernel := w, m_timerfd := None, m_timers := later t (m_timers s), m_activeTimers := as, m_callingExpiredTimers := True, m_cancelingTimers := []\<rparr>"
  have "reactor_ok interest s" using dial_ok by (simp add: dial_ok_def)
  then have r1: "reactor_ok interest ?s1" by (rule reactor_ok_cong) (simp_all add: i)
  have c1: "dial_ok A interest ?s1" using c0 ok r1 by (simp add: dial_ok_def tq_ok_def isInLoopThread_def)
  obtain s2 where s2: "for_each (run_timer (\<lambda>_. startInLoop S D K pl)) (due t (m_timers s)) ?s1 = Done () s2"
    "settled (s2\<lparr>m_timerfd := Some 0\<rparr>)" "list_all (\<lambda>e. \<exists>tm. map_of (timer_heap s2) (snd e) = Some tm \<and> \<not> m_repeat tm) (due t (m_timers s))"
    "snd ` set (due t (m_timers s)) \<inter> snd ` set (m_timers s2) = {}"
    by (rule run_due [OF assms(1) c1 assms(2) t refl])
  let ?s2 = "s2\<lparr>m_callingExpiredTimers := False\<rparr>"
  have "dial_ok A interest (s2\<lparr>m_timerfd := Some 0\<rparr>)"
    using s2(2) by (auto simp: settled_def waiting_def trying_def given_up_def connected_up_def resting_def)
  then have "dial_ok A interest (?s2\<lparr>m_timerfd := Some 0\<rparr>)" by simp
  then have p1: "settled (?s2\<lparr>m_timerfd := Some 0\<rparr>)" by (rule settled_cong [OF s2(2)]) simp_all
  have "timers_ok (timer_heap s) (m_timers s) (m_activeTimers s)" using dial_ok by (simp add: dial_ok_def tq_ok_def)
  then have p2: "distinct (map snd (due t (m_timers s)))" "list_all (\<lambda>e. snd e < UINTPTR_MAX) (due t (m_timers s))"
    by (auto simp: due_def timers_ok_def distinct_map inj_on_def list_all_iff timer_live_def)
  have p3: "list_all (\<lambda>e. \<exists>tm. map_of (timer_heap ?s2) (snd e) = Some tm \<and> \<not> m_repeat tm) (due t (m_timers s))"
    "snd ` set (due t (m_timers s)) \<inter> snd ` set (m_timers ?s2) = {}" using s2(3,4) by simp_all
  obtain s3 where s3: "TimerQueue_reset S (due t (m_timers s)) t ?s2 = Done () s3" "settled s3"
    by (rule reset_settles [OF p1 p3(1) p2(1) p3(2) p2(2) t])
  have "client_event S D K H pl Expires s = Done () s3"
    using now get s2(1) s3(1) by (simp add: client_event_def TimerQueue_handleRead_def readTimerfd_def now_def run)
  with settled_functors [OF s3(2)] show ?thesis by (intro that) (auto simp: client_round_def run)
qed

lemma client_round_runs:
  assumes "settled s \<or> dial_queued s \<and> e = Wakes" and "fresh_places pl s" and "quiet H"
  shows "\<exists>s'. client_round S D K H pl e s = Done () s' \<and> settled s'"
proof (cases e)
  case Wakes
  from assms(1) have "settled s \<or> dial_queued s" by blast
  then obtain s' where "client_round S D K H pl Wakes s = Done () s'" "settled s'" by (rule wakes_round [OF _ assms(2)])
  with Wakes show ?thesis by blast
next
  case Expires
  with assms(1) have "settled s" by blast
  then obtain s' where "client_round S D K H pl Expires s = Done () s'" "settled s'" by (rule expires_round [OF _ assms(2)])
  with Expires show ?thesis by blast
next
  case (Ready r)
  with assms(1) have "settled s" by blast
  then obtain s' where "client_round S D K H pl (Ready r) s = Done () s'" "settled s'" by (rule ready_round [OF _ assms(2,3)])
  with Ready show ?thesis by blast
qed

end

text \<open>The states of the client after \<open>connect\<close>, in whatever order the events come.\<close>

inductive dialled :: "'w sys \<Rightarrow> 'w socket_sys \<Rightarrow> (conn_job \<Rightarrow> (('w, 'z) tcp_client_scheme, unit) prog) \<Rightarrow> ('w, 'z) client_handlers \<Rightarrow>
    ('w, 'z) tcp_client_scheme \<Rightarrow> ('w, 'z) tcp_client_scheme \<Rightarrow> bool" for S D K H s0 where
  called: "dialled S D K H s0 s0"
| goes_on: "dialled S D K H s0 s \<Longrightarrow> fresh_places pl s \<Longrightarrow> m_pendingFunctors s = [] \<or> e = Wakes \<Longrightarrow>
    client_round S D K H pl e s = Done () s' \<Longrightarrow> dialled S D K H s0 s'"

text \<open>A client that has not dialled yet, on a loop that has nothing else to do.\<close>

definition new_client :: "sockaddr \<Rightarrow> ('w \<Rightarrow> nat \<Rightarrow> (poll_events \<times> nat) option) \<Rightarrow> nat set \<Rightarrow> ('w, 'z) tcp_client_scheme \<Rightarrow> bool" where
  "new_client A interest own s \<longleftrightarrow> dial_ok A interest s \<and> dom (m_channels s) \<subseteq> own \<and> d_channel s = None \<and> d_state s = Dial_Disconnected \<and>
     m_timers s = [] \<and> m_retryDelayMs s = kInitRetryDelayMs \<and> closed s = [] \<and> dialled_to s = [] \<and> m_pendingFunctors s = []"

lemma connect_queued:
  assumes d: "dialer S interest D own" and "new_client A interest own s" and "th \<noteq> owner s"
  obtains s1 where "TcpClient_connect S D K pl (s\<lparr>thread := th\<rparr>) = Done () s1" and "dialer.dial_queued interest own A (s1\<lparr>thread := owner s\<rparr>)"
    and "dialled_to s1 = []"
proof -
  let ?s = "s\<lparr>thread := th, cl_connect := True, d_connect := True, m_pendingFunctors := [User StartInLoop], m_wakeups := m_wakeups s + 1\<rparr>"
  have run: "TcpClient_connect S D K pl (s\<lparr>thread := th\<rparr>) = Done () ?s"
    using assms(2,3) by (simp add: TcpClient_connect_def Connector_start_def runInLoop_def queueInLoop_def push_functor_def wake_if_needed_def
        wakeup_def isInLoopThread_def new_client_def run)
  have "dial_ok A interest s" "thread s = owner s" using assms(2) by (simp_all add: new_client_def dial_ok_def isInLoopThread_def)
  then have "dial_ok A interest (?s\<lparr>thread := owner s\<rparr>)" by (elim calm_cong) simp_all
  then have "dialer.dial_queued interest own A (?s\<lparr>thread := owner s\<rparr>)" using assms(2)
    by (simp add: dialer.dial_queued_def [OF d] starting_up_def resting_def new_client_def delay_after_0 [symmetric])
  with run show ?thesis by (rule that) (use assms(2) in \<open>simp add: new_client_def\<close>)
qed

end
