(* ===== verification/Dial_Properties.thy ===== *)
theory Dial_Properties
  imports Client_Link Net_Reference
begin

text \<open>
  The properties of the client's side of the network library, with closed instances.
\<close>

text \<open>Sockets of the reference kernel: \<open>k_room\<close> has the errors the next tries end with.\<close>

definition local_server :: sockaddr where
  "local_server = \<lparr>sin_addr = 0x0100007F, sin_port = htons 8888\<rparr>"

definition ref_sockets :: "kern socket_sys" where
  "ref_sockets = \<lparr>sys_socket = (\<lambda>w. (Some 10, w)), sys_connect = (\<lambda>fd addr w. (115, w)),
     sys_sockerr = (\<lambda>fd w. case k_room w of [] \<Rightarrow> (0, w) | n # ns \<Rightarrow> (int n, w\<lparr>k_room := ns\<rparr>)),
     sys_names = (\<lambda>fd w. ((\<lparr>sin_addr = 0x0100007F, sin_port = htons 40000\<rparr>, local_server), w))\<rparr>"

lemma ref_dialer_own: "10 \<notin> own \<Longrightarrow> dialer ref_sys k_interest ref_sockets own"
  by unfold_locales (auto simp: ref_sys_def ref_sockets_def split: list.splits)

interpretation ref_dialer: dialer ref_sys k_interest ref_sockets "{3, 4, 5}" local_server
  by unfold_locales (auto simp: ref_sys_def ref_sockets_def split: list.splits)

lemma dialled_phases:
  assumes "dialer S interest D own" and "dialled S D K H s0 s" and "dialer.dial_queued interest own A s0" and "quiet H"
  shows "s = s0 \<or> dialer.settled S interest D own A s"
  using assms(2)
proof (induction rule: dialled.induct)
  case (goes_on s pl e s')
  have "dialer.settled S interest D own A s \<or> dialer.dial_queued interest own A s \<and> e = Wakes"
    using goes_on.IH goes_on.hyps(3) assms(3) by (auto simp: dialer.dial_queued_def [OF assms(1)])
  from dialer.client_round_runs [OF assms(1) this goes_on.hyps(2) assms(4), of K] goes_on.hyps(4)
  show ?case by auto
qed simp

text \<open>
  C35. A client that has called \<open>connect\<close> goes on until it is connected, whatever the server and the network answer
  and in whatever order: every round of its loop returns, no assertion of the connector, the poller or the timers
  failing; and between rounds it waits with its retry timer set, or watches the socket of a try, or has its connection
  up and reading, or has given up, which it does only when the system gives it no socket or \<open>connect\<close> may answer, for the last socket
  it closed, with an error that is not in the list of those it tries again after.  A failed try sets the timer one delay after the
  clock is read; the delay, doubled from half a second after each failed one, stops at 30 seconds.  The owner's connection callback
  only keeps the connection, and nobody else uses the loop.
\<close>

theorem client_keeps_dialling:
  assumes "dialer S interest D own" and "new_client A interest own s" and "th \<noteq> owner s" and "quiet H"
  shows "\<exists>s0. TcpClient_connect S D K pl (s\<lparr>thread := th\<rparr>) = Done () s0 \<and>
    (\<forall>s'. dialled S D K H (s0\<lparr>thread := owner s\<rparr>) s' \<longrightarrow>
      (\<forall>pl e. fresh_places pl s' \<longrightarrow> m_pendingFunctors s' = [] \<or> e = Wakes \<longrightarrow> (\<exists>s''. client_round S D K H pl e s' = Done () s'')) \<and>
      (m_pendingFunctors s' = [] \<longrightarrow> waiting A S interest own s' \<or> trying A interest own s' \<or> given_up A D interest own s' \<or>
        connected_up A interest s')) \<and>
    (\<forall>s' pl fd n. dial_ok A interest s' \<and> m_timers s' = [] \<and> d_connect s' \<and> fresh_places pl s' \<and> m_retryDelayMs s' = delay_after n \<longrightarrow>
      (\<exists>s''. retry S K pl fd (s' :: ('w, 'z) tcp_client_scheme) = Done () s'' \<and>
        m_timers s'' = [(fst (sys_now S (kernel s')) + delay_after n * 1000, at_timer pl)] \<and> m_retryDelayMs s'' = delay_after (n + 1)))"
proof -
  obtain s0 where s0: "TcpClient_connect S D K pl (s\<lparr>thread := th\<rparr>) = Done () s0" "dialer.dial_queued interest own A (s0\<lparr>thread := owner s\<rparr>)"
    by (rule connect_queued [OF assms(1-3)]) (rule that)
  have start: "m_pendingFunctors (s0\<lparr>thread := owner s\<rparr>) = [User StartInLoop]" using s0(2) by (simp add: dialer.dial_queued_def [OF assms(1)])
  have "(\<forall>pl e. fresh_places pl s' \<longrightarrow> m_pendingFunctors s' = [] \<or> e = Wakes \<longrightarrow> (\<exists>s''. client_round S D K H pl e s' = Done () s'')) \<and>
      (m_pendingFunctors s' = [] \<longrightarrow> waiting A S interest own s' \<or> trying A interest own s' \<or> given_up A D interest own s' \<or>
        connected_up A interest s')"
    if "dialled S D K H (s0\<lparr>thread := owner s\<rparr>) s'" for s'
  proof -
    from dialled_phases [OF assms(1) that s0(2) assms(4)] consider "s' = s0\<lparr>thread := owner s\<rparr>" | "dialer.settled S interest D own A s'" by blast
    then show ?thesis
    proof cases
      case 1
      then have "\<exists>s''. client_round S D K H pl Wakes s' = Done () s''" if "fresh_places pl s'" for pl
        using dialer.client_round_runs [OF assms(1) _ that assms(4), of A Wakes K] s0(2) by blast
      with 1 start show ?thesis by auto
    next
      case 2
      then have "\<exists>s''. client_round S D K H pl e s' = Done () s''" if "fresh_places pl s'" for pl e
        using dialer.client_round_runs [OF assms(1) _ that assms(4), of A e K] by blast
      with 2 show ?thesis by (simp add: dialer.settled_def [OF assms(1)])
    qed
  qed
  with s0(1) dialer.retry_sets_timer [OF assms(1)] show ?thesis by blast
qed

definition sample_client :: "(kern, nat option) tcp_client_scheme" where
  "sample_client = \<lparr>kernel = \<lparr>k_interest = (\<lambda>_. None), k_ready = [], k_time = 1000, k_room = [111]\<rparr>, owner = 7, thread = 7,
     heap = (\<lambda>_. None), m_channels = (\<lambda>_. None), m_eventList = 16, m_activeChannels = [],
     timer_heap = [], s_numCreated = 0, m_timers = [], m_activeTimers = [], m_cancelingTimers = [], m_callingExpiredTimers = False,
     m_timerfd = None, m_looping = True, m_quit = False, m_callingPendingFunctors = False, m_pendingFunctors = [], m_wakeups = 0,
     conn_heap = (\<lambda>_. None), wire = (\<lambda>_. []), fins = [], d_serverAddr = local_server, d_connect = False, d_state = Dial_Disconnected, d_channel = None,
     m_retryDelayMs = kInitRetryDelayMs, m_timerId = (0, 0), closed = [], dialled_to = [], cl_name = [], cl_retry = False, cl_connect = True,
     cl_nextConnId = 1, cl_connection = None, cl_connName = [], \<dots> = None\<rparr>"

text \<open>The client's \<open>onConnection\<close> keeps the connection.\<close>

definition sample_owner :: "(kern, nat option) client_handlers" where
  "sample_owner = \<lparr>m_connectionCallback = (\<lambda>c s. Done () (s\<lparr>tcp_client.more := Some c\<rparr>)), m_messageCallback = (\<lambda>_ _. ret ()),
     m_writeCompleteCallback = None, m_closeCallback = (\<lambda>_. ret ())\<rparr>"

lemma sample_client_new: "new_client local_server k_interest {3, 4, 5} sample_client"
  by (simp add: sample_client_def new_client_def dial_ok_def reactor_ok_def watched_def [abs_def] isInLoopThread_def tq_ok_def timers_ok_def intervals_ok_def)

lemma sample_owner_quiet: "quiet sample_owner"
  by (auto simp: quiet_def sample_owner_def)

definition sample_places :: places where
  "sample_places = \<lparr>at_channel = 5, at_junk = False, at_timer = 64, at_conn = 1\<rparr>"

theorem client_keeps_dialling_witness:
  "\<exists>s0 s1. TcpClient_connect ref_sys ref_sockets (\<lambda>_. ret ()) sample_places (sample_client\<lparr>thread := 9\<rparr>) = Done () s0 \<and>
    client_round ref_sys ref_sockets (\<lambda>_. ret ()) sample_owner sample_places Wakes (s0\<lparr>thread := 7\<rparr>) = Done () s1"
proof -
  have o: "owner sample_client = 7" "(9::nat) \<noteq> owner sample_client" by (simp_all add: sample_client_def)
  from client_keeps_dialling [OF ref_dialer.dialer_axioms sample_client_new o(2) sample_owner_quiet, of "\<lambda>_. ret ()" sample_places]
  obtain s0 where s0: "TcpClient_connect ref_sys ref_sockets (\<lambda>_. ret ()) sample_places (sample_client\<lparr>thread := 9\<rparr>) = Done () s0"
    and "fresh_places sample_places (s0\<lparr>thread := 7\<rparr>) \<Longrightarrow>
      \<exists>s1. client_round ref_sys ref_sockets (\<lambda>_. ret ()) sample_owner sample_places Wakes (s0\<lparr>thread := 7\<rparr>) = Done () s1"
    unfolding o(1) by (blast intro: dialled.called)
  moreover have "fresh_places sample_places (s0\<lparr>thread := 7\<rparr>)"
    using s0 by (auto simp: TcpClient_connect_def Connector_start_def runInLoop_def queueInLoop_def push_functor_def wake_if_needed_def
        wakeup_def isInLoopThread_def run sample_client_def fresh_places_def sample_places_def UINTPTR_MAX_def)
  ultimately show ?thesis by blast
qed

text \<open>
  A client that is stopped and connects again while it waits for its next try ends with a failed assertion: the
  old timer is still set, as no timer can be cancelled, and its callback asserts that no try is under way.
\<close>

theorem stale_retry_timer_fails:
  assumes "dialer S interest D own" and "waiting A S interest own s" and "fresh_places pl s"
    and "sys_socket D (kernel s) = (Some fd, w)" and "sys_connect D fd A w = (115, w')"
  shows "\<exists>s1 s2. TcpClient_stop S K s = Done () s1 \<and> TcpClient_connect S D K pl s1 = Done () s2 \<and>
    d_state s2 = Dial_Connecting \<and> m_timers s2 = m_timers s \<and> m_timers s \<noteq> [] \<and> (\<forall>pl'. startInLoop S D K pl' s2 = Stuck AssertFailed)"
proof -
  from assms(2) obtain e p where t: "m_timers s = [(e, p)]" "m_timerId s = (p, 0)" by (auto simp: waiting_def)
  have dial_ok: "dial_ok A interest s" using assms(2) by (simp add: waiting_def resting_def)
  let ?s0 = "s\<lparr>cl_connect := False, d_connect := False\<rparr>"
  have "tq_ok ?s0" "isInLoopThread ?s0" using dial_ok by (simp_all add: dial_ok_def tq_ok_def isInLoopThread_def)
  then have stop: "TcpClient_stop S K s = Done () ?s0"
    using t(2) by (simp add: TcpClient_stop_def Connector_stop_def run cancel_run)
  let ?s1 = "?s0\<lparr>cl_connect := True, d_connect := True\<rparr>"
  let ?s2 = "?s1\<lparr>dialled_to := dialled_to s @ [A], kernel := w'\<rparr>"
  have "interest w' = interest (kernel s)"
    using dialer.socket_interest [OF assms(1), of "kernel s"] dialer.connect_interest [OF assms(1), of fd A w] assms(4,5) by simp
  then have c2: "dial_ok A interest ?s2" by (intro calm_cong [OF dial_ok]) simp_all
  have fd: "fd \<notin> own" using dialer.socket_new [OF assms(1), of "kernel s" fd] assms(4) by simp
  obtain s2 where s2: "connecting S pl fd ?s2 = Done () s2" "d_state s2 = Dial_Connecting" "m_timers s2 = m_timers ?s2" "dial_ok A interest s2"
    by (rule dialer.connecting_calm [OF assms(1) c2 _ _ _ fd]) (use assms(2,3) in \<open>auto simp: waiting_def resting_def fresh_places_def\<close>)
  have "TcpClient_connect S D K pl ?s0 = Done () s2"
    using s2(1) assms(2,4,5) c2 by (simp add: TcpClient_connect_def Connector_start_def runInLoop_def exec_functor_def dial_job_def startInLoop_def
        Connector_connect_def dial_socket_def run going_on_def waiting_def dial_ok_def isInLoopThread_def)
  moreover have "startInLoop S D K pl' s2 = Stuck AssertFailed" for pl'
    using s2(2,4) by (simp add: startInLoop_def run dial_ok_def)
  ultimately show ?thesis using stop s2(2,3) t(1) by (intro exI [of _ ?s0] exI [of _ s2]) simp
qed

definition sample_waiting :: "(kern, nat option) tcp_client_scheme" where
  "sample_waiting = sample_client\<lparr>d_connect := True, timer_heap := [(32, new_timer () 501000 0 1)], s_numCreated := 1, m_timers := [(501000, 32)],
     m_activeTimers := [(32, 1)], m_timerfd := Some 501000, m_timerId := (32, 0), closed := [10], dialled_to := [local_server], m_retryDelayMs := 1000\<rparr>"

lemma sample_waiting_waits: "waiting local_server ref_sys k_interest {3, 4, 5} sample_waiting"
proof -
  have "501000 = addTime (fst (sys_now ref_sys \<lparr>k_interest = (\<lambda>_. None), k_ready = [], k_time = 1000, k_room = []\<rparr>)) (delay_after 0 * 1000)"
    by (simp add: ref_sys_def addTime_def delay_after_def)
  then have "due_after_delay ref_sys (Suc 0) 501000" unfolding due_after_delay_def by auto
  then show ?thesis
    by (auto simp: sample_waiting_def sample_client_def waiting_def resting_def dial_ok_def reactor_ok_def watched_def [abs_def] isInLoopThread_def
        tq_ok_def timers_ok_def intervals_ok_def new_timer_def key_def timer_live_def UINTPTR_MAX_def delay_after_def split: if_splits)
qed

theorem stale_retry_timer_fails_witness:
  "\<exists>s1 s2. TcpClient_stop ref_sys (\<lambda>_. ret ()) sample_waiting = Done () s1 \<and>
    TcpClient_connect ref_sys ref_sockets (\<lambda>_. ret ()) sample_places s1 = Done () s2 \<and>
    startInLoop ref_sys ref_sockets (\<lambda>_. ret ()) sample_places s2 = Stuck AssertFailed"
proof -
  let ?k = "kernel sample_waiting"
  have "fresh_places sample_places sample_waiting"
    by (simp add: fresh_places_def sample_places_def sample_waiting_def sample_client_def UINTPTR_MAX_def)
  moreover have "sys_socket ref_sockets ?k = (Some 10, ?k)" "sys_connect ref_sockets 10 local_server ?k = (115, ?k)" by (simp_all add: ref_sockets_def)
  ultimately show ?thesis
    using stale_retry_timer_fails [OF ref_dialer.dialer_axioms sample_waiting_waits, of sample_places 10 ?k ?k "\<lambda>_. ret ()"] by blast
qed

end
