(* ===== verification/Concurrent_Tasks.thy ===== *)
theory Concurrent_Tasks
  imports Chat_Behaviour
begin

text \<open>
  Tasks of the thread pool at the same time.  The other theories run a handler in one piece; here a task is a \<open>thread\<close>, a
  sequence of actions between which other threads may act.  \<open>login_thread\<close> and \<open>flush_thread\<close> are \<open>login\<close> and
  \<open>flush_list\<close> cut at their calls of the databases and accesses to the maps; run alone they are the same programs.
  The maps of \<open>Service\<close> have no lock, and a flush holds none between the Redis commands, so each schedule of the actions
  is one the program can take.
\<close>

section \<open>Threads and schedules\<close>

datatype 's thread = Finished | Act "'s \<Rightarrow> ('s, 's thread) outcome"

definition act :: "('s, 'a) prog \<Rightarrow> ('a \<Rightarrow> 's thread) \<Rightarrow> 's thread" where
  "act m k = Act (bnd m (\<lambda>x. ret (k x)))"

text \<open>A thread that nobody interrupts.\<close>

primrec whole :: "'s thread \<Rightarrow> ('s, unit) prog" where
  "whole Finished = ret ()"
| "whole (Act f) = (\<lambda>s. case map_outcome id whole (f s) of Done m s' \<Rightarrow> m s' | Throw e s' \<Rightarrow> Throw e s' | Stuck b \<Rightarrow> Stuck b)"

text \<open>
  A schedule says which thread acts next; an exception ends its thread (it stays in the \<open>future\<close> of the task), and
  \<open>None\<close> is a schedule on which some thread gets stuck.
\<close>

fun scheduled :: "nat list \<Rightarrow> 's thread list \<Rightarrow> 's \<Rightarrow> ('s thread list \<times> 's) option" where
  "scheduled [] ts s = Some (ts, s)"
| "scheduled (i # is) ts s = (if length ts \<le> i then None else case ts ! i of
     Finished \<Rightarrow> scheduled is ts s
   | Act f \<Rightarrow> (case f s of Done t s' \<Rightarrow> scheduled is (ts[i := t]) s'
       | Throw e s' \<Rightarrow> scheduled is (ts[i := Finished]) s' | Stuck b \<Rightarrow> None))"

lemma whole_act: "whole (act m k) = bnd m (\<lambda>x. whole (k x))"
  by (rule ext) (simp add: act_def bnd_apply split: outcome.split)

lemma scheduled_act:
  assumes "i < length ts" and "ts ! i = act m k" and "m s = Done x s'"
  shows "scheduled (i # is) ts s = scheduled is (ts[i := k x]) s'"
  using assms by (simp add: act_def run)

text \<open>A thread that is alone on a schedule long enough runs as a whole.\<close>

lemma scheduled_alone:
  "whole t s = Done () s' \<Longrightarrow> \<exists>n. scheduled (replicate n 0) [t] s = Some ([Finished], s')"
proof (induction t arbitrary: s s')
  case Finished
  then show ?case by (intro exI [of _ 0]) simp
next
  case (Act f)
  then obtain t1 s1 where f: "f s = Done t1 s1" "whole t1 s1 = Done () s'"
    by (cases "f s") auto
  then have "Done t1 s1 \<in> range f" by (metis rangeI)
  with Act.IH [of "Done t1 s1" t1 s1 s'] f(2) obtain n where "scheduled (replicate n 0) [t1] s1 = Some ([Finished], s')" by auto
  with f(1) show ?case by (intro exI [of _ "Suc n"]) simp
qed

declare scheduled.simps(2) [simp del]

section \<open>Login\<close>

definition login_thread :: "'w env \<Rightarrow> nat \<Rightarrow> json \<Rightarrow> 'w svc thread" where
  "login_thread E conn js =
     act (str_field js ''name'') (\<lambda>name.
     act (str_field js ''password'') (\<lambda>pwd.
     act (UserModel_query_name E name) (\<lambda>user.
     if m_name user = name \<and> m_password user = pwd then
       if m_state user = ''online'' then act (send conn (message LOGIN_REPEAT [])) (\<lambda>_. Finished)
       else
         act (enter_session conn user) (\<lambda>_.
         act (UserModel_updateState E (user\<lparr>m_state := ''online''\<rparr>)) (\<lambda>_.
         act (send conn (message LOGIN_SUCCESS [(''msg'', JStr login_success_text),
           (''id'', JInt (m_id user)), (''name'', JStr (m_name user))])) (\<lambda>_.
         act (FriendModel_query E (m_id user)) (\<lambda>userVec.
         act (for_each (\<lambda>u. send_to_user (m_id u) (friend_online user)) userVec) (\<lambda>_. Finished)))))
     else act (send conn (message LOGIN_FAIL [(''msg'', JStr login_fail_text)])) (\<lambda>_. Finished))))"

lemma bnd_unit: "bnd m ret = m"
  by (rule ext) (simp add: bnd_apply split: outcome.split)

lemma login_thread_whole: "whole (login_thread E conn js) = login E conn js time"
  unfolding login_thread_def login_def by (simp add: whole_act bnd_unit if_distrib [of whole] andthen_def cong: if_cong)

text \<open>The actions after the user has been found, with the right password and not online.\<close>

definition login_rest :: "'w env \<Rightarrow> nat \<Rightarrow> user \<Rightarrow> 'w svc thread" where
  "login_rest E conn user =
     act (enter_session conn user) (\<lambda>_.
     act (UserModel_updateState E (user\<lparr>m_state := ''online''\<rparr>)) (\<lambda>_.
     act (send conn (good_login user)) (\<lambda>_.
     act (FriendModel_query E (m_id user)) (\<lambda>userVec.
     act (for_each (\<lambda>u. send_to_user (m_id u) (friend_online user)) userVec) (\<lambda>_. Finished)))))"

lemma does_returns:
  assumes "does view m D" and "ready s"
  obtains x t where "m s = Done x t" and "frame s t" and "D (view (world s)) x (view (world t))"
proof -
  from assms have "runs m s (\<lambda>x t. frame s t \<and> D (view (world s)) x (view (world t))) (\<lambda>_ _. False) (\<lambda>_. False)"
    by (auto simp: does_def intro: runs_mono)
  then show ?thesis using that by (auto simp: runs_returns)
qed

context reliable_services
begin

lemma login_finds:
  assumes "ready s" and "i < length ts" and "ts ! i = login_thread E c js"
    and "js_string js ''name'' = Some (m_name u)" and "js_string js ''password'' = Some (m_password u)"
    and "length (sql_user_by_name (m_name u)) < 1024" and "plain (c_str (m_name u))"
    and "\<forall>v. named ci (c_str (m_name u)) (view (world s)) v \<longrightarrow> v = u" and "m_state u \<noteq> ''online''"
  shows "\<exists>s'. frame s s' \<and> view (world s') = view (world s) \<and>
    (\<forall>is. scheduled ([i, i, i] @ is) ts s = scheduled is (ts[i := login_rest E c u]) s')"
proof -
  obtain s' where s': "UserModel_query_name E (m_name u) s = Done u s'" "frame s s'" "view (world s') = view (world s)"
    using does_returns [OF query_name_sure [OF assms(6,7)] assms(1)] assms(8) by (auto simp: finds_def)
  have "scheduled ([i, i, i] @ is) ts s = scheduled is (ts[i := login_rest E c u]) s'" for "is"
    using assms(2-5,9) s'(1)
    by (simp add: scheduled_act login_thread_def str_field_def login_rest_def good_login_def)
  with s'(2,3) show ?thesis by blast
qed

lemma login_rest_done:
  assumes "ready s" and "i < length ts" and "ts ! i = login_rest E c u"
  shows "\<exists>s'. (\<forall>is. scheduled ([i, i, i, i, i] @ is) ts s = scheduled is (ts[i := Finished]) s') \<and> ready s' \<and>
    m_connUserMap s' = (m_connUserMap s)(c \<mapsto> m_id u) \<and> (\<exists>es. out s' = out s @ Send c (good_login u) # es)"
proof -
  let ?s1 = "s\<lparr>m_userConnMap := (m_userConnMap s)(m_id u \<mapsto> c), m_connUserMap := (m_connUserMap s)(c \<mapsto> m_id u),
    m_connStatusMap := AList.update c True (m_connStatusMap s)\<rparr>"
  have r1: "ready ?s1" using assms(1) by (simp add: ready_def)
  obtain ok s2 where s2: "UserModel_updateState E (u\<lparr>m_state := ''online''\<rparr>) ?s1 = Done ok s2" "frame ?s1 s2"
    by (rule does_returns [OF updateState_sure r1])
  let ?s3 = "s2\<lparr>out := out s2 @ [Send c (good_login u)]\<rparr>"
  have r3: "ready ?s3" using frame_ready [OF s2(2)] r1 by (simp add: ready_def)
  obtain us s4 where s4: "FriendModel_query E (m_id u) ?s3 = Done us s4" "frame ?s3 s4"
    by (rule does_returns [OF friend_query_sure r3])
  let ?s5 = "s4\<lparr>out := out s4 @ online_news (m_userConnMap s4) (friend_online u) us\<rparr>"
  have s5: "for_each (\<lambda>v. send_to_user (m_id v) (friend_online u)) us s4 = Done () ?s5"
    using send_to_all_runs [where Q = "\<lambda>_ t. t = ?s5" and X = "\<lambda>_ _. False" and B = "\<lambda>_. False"] by (auto simp: runs_returns)
  have "scheduled ([i, i, i, i, i] @ is) ts s = scheduled is (ts[i := Finished]) ?s5" for "is"
    using assms(2,3) s2(1) s4(1) s5
    by (simp add: scheduled_act login_rest_def enter_session_def send_def emit_def)
  moreover have "ready ?s5" using frame_ready [OF s4(2)] r3 by (simp add: ready_def)
  ultimately show ?thesis using frame_svc [OF s2(2)] frame_svc [OF s4(2)] by (intro exI [of _ ?s5]) auto
qed

end

text \<open>
  C16. Two tasks that log the same user in on two connections can both succeed: nothing keeps the second from looking the user
  up before the first has marked him online.  He is then logged in on both connections.
\<close>

theorem concurrent_logins_both_succeed:
  assumes "reliable_services E view ci" and "ready s" and "c1 \<noteq> c2"
    and "js_string js ''name'' = Some (m_name u)" and "js_string js ''password'' = Some (m_password u)"
    and "length (sql_user_by_name (m_name u)) < 1024" and "plain (c_str (m_name u))"
    and "\<forall>v. named ci (c_str (m_name u)) (view (world s)) v \<longrightarrow> v = u" and "m_state u \<noteq> ''online''"
  shows "\<exists>is s'. scheduled is [login_thread E c1 js, login_thread E c2 js] s = Some ([Finished, Finished], s') \<and>
    m_connUserMap s' c1 = Some (m_id u) \<and> m_connUserMap s' c2 = Some (m_id u) \<and>
    Send c1 (good_login u) \<in> set (out s') \<and> Send c2 (good_login u) \<in> set (out s')"
proof -
  let ?ts = "[login_thread E c1 js, login_thread E c2 js]"
  note finds = reliable_services.login_finds [OF assms(1)] and rest = reliable_services.login_rest_done [OF assms(1)]
  from finds [of s 0 ?ts c1 js u] assms obtain s1 where s1: "frame s s1" "view (world s1) = view (world s)"
    "\<And>is. scheduled ([0, 0, 0] @ is) ?ts s = scheduled is [login_rest E c1 u, login_thread E c2 js] s1" by auto
  have r1: "ready s1" using frame_ready [OF s1(1)] assms(2) by simp
  from finds [of s1 1 "[login_rest E c1 u, login_thread E c2 js]" c2 js u] r1 s1(2) assms(4-9) obtain s2 where s2: "frame s1 s2"
    "\<And>is. scheduled ([1, 1, 1] @ is) [login_rest E c1 u, login_thread E c2 js] s1 = scheduled is [login_rest E c1 u, login_rest E c2 u] s2"
    by auto
  have r2: "ready s2" using frame_ready [OF s2(1)] r1 by simp
  from rest [of s2 0 "[login_rest E c1 u, login_rest E c2 u]" c1 u] r2 obtain s3 e3 where s3: "ready s3"
    "\<And>is. scheduled ([0, 0, 0, 0, 0] @ is) [login_rest E c1 u, login_rest E c2 u] s2 = scheduled is [Finished, login_rest E c2 u] s3"
    "m_connUserMap s3 = (m_connUserMap s2)(c1 \<mapsto> m_id u)" "out s3 = out s2 @ Send c1 (good_login u) # e3" by auto
  from rest [of s3 1 "[Finished, login_rest E c2 u]" c2 u] s3(1) obtain s4 e4 where s4:
    "\<And>is. scheduled ([1, 1, 1, 1, 1] @ is) [Finished, login_rest E c2 u] s3 = scheduled is [Finished, Finished] s4"
    "m_connUserMap s4 = (m_connUserMap s3)(c2 \<mapsto> m_id u)" "out s4 = out s3 @ Send c2 (good_login u) # e4" by auto
  have "scheduled ([0, 0, 0] @ [1, 1, 1] @ [0, 0, 0, 0, 0] @ [1, 1, 1, 1, 1] @ []) ?ts s = Some ([Finished, Finished], s4)"
    by (simp only: s1(3) s2(2) s3(2) s4(1) scheduled.simps)
  with s3(3,4) s4(2,3) assms(3) show ?thesis by (intro exI conjI) auto
qed

theorem concurrent_logins_both_succeed_witness:
  "\<exists>is s'. scheduled is [login_thread ref_env 30 (req_login ''carol'' ''c''), login_thread ref_env 40 (req_login ''carol'' ''c'')] sample =
      Some ([Finished, Finished], s') \<and> m_connUserMap s' 30 = Some 3 \<and> m_connUserMap s' 40 = Some 3"
proof -
  let ?js = "req_login ''carol'' ''c''" and ?u = "\<lparr>m_id = 3, m_name = ''carol'', m_password = ''c'', m_state = ''offline''\<rparr>"
  have js: "js_string ?js ''name'' = Some (m_name ?u)" "js_string ?js ''password'' = Some (m_password ?u)" by code_simp+
  have sql: "length (sql_user_by_name (m_name ?u)) < 1024" "plain (c_str (m_name ?u))" by code_simp+
  have "\<forall>v. named (\<lambda>s. s) (c_str (m_name ?u)) (world sample) v \<longrightarrow> v = ?u"
    by (auto simp: named_def sample_def sample_db_def c_str_def user_record_def)
  moreover have "(30::nat) \<noteq> 40" "m_state ?u \<noteq> ''online''" by simp_all
  ultimately show ?thesis
    using concurrent_logins_both_succeed [OF ref.reliable_services_axioms sample_ready _ js sql, of 30 40] by auto
qed

section \<open>Flushing\<close>

definition flush_thread :: "'w env \<Rightarrow> string \<Rightarrow> (string list \<Rightarrow> ('w svc, value_group list) prog) \<Rightarrow> (value_group list \<Rightarrow> stmt) \<Rightarrow> 'w svc thread" where
  "flush_thread E key vals f =
     act (lrange E key) (\<lambda>cachedMessages.
     if cachedMessages = [] then Finished
     else act (ltrim E key) (\<lambda>_. act (write_batches E vals f cachedMessages) (\<lambda>_. Finished)))"

lemma flush_thread_whole: "whole (flush_thread E key vals f) = flush_list E key vals f"
  unfolding flush_thread_def flush_list_def by (simp add: whole_act bnd_unit if_distrib [of whole] andthen_def cong: if_cong)

definition flush_private :: "'w env \<Rightarrow> 'w svc thread" where
  "flush_private E = flush_thread E private_chat_cache (private_values E) private_stmt"

definition store_private :: "'w env \<Rightarrow> string \<Rightarrow> string \<Rightarrow> string \<Rightarrow> 'w svc thread" where
  "store_private E a b m = act (storePrivateMessageInCache E a b m) (\<lambda>_. Finished)"

context reliable_services
begin

lemma flush_reads:
  assumes "ready s" and "i < length ts" and "ts ! i = flush_private E" and "redis_lists (view (world s)) private_chat_cache = vs" and "vs \<noteq> []"
  shows "\<exists>s'. ready s' \<and> view (world s') = view (world s) \<and>
    (\<forall>is. scheduled (i # is) ts s = scheduled is (ts[i := act (ltrim E private_chat_cache)
      (\<lambda>_. act (write_batches E (private_values E) private_stmt vs) (\<lambda>_. Finished))]) s')"
proof -
  obtain s' where "lrange E private_chat_cache s = Done vs s'" "frame s s'" "view (world s') = view (world s)"
    using does_returns [OF lrange_sure [of private_chat_cache] assms(1)] assms(4) by (auto simp: finds_def)
  then show ?thesis using assms
    by (intro exI [of _ s']) (simp add: scheduled_act flush_private_def flush_thread_def frame_ready)
qed

lemma flush_trims:
  assumes "ready s" and "i < length ts" and "ts ! i = act (ltrim E private_chat_cache) k"
  shows "\<exists>s'. ready s' \<and> view (world s') = emptied private_chat_cache (view (world s)) \<and>
    (\<forall>is. scheduled (i # is) ts s = scheduled is (ts[i := k ()]) s')"
proof -
  obtain u s' where "ltrim E private_chat_cache s = Done u s'" "frame s s'" "view (world s') = emptied private_chat_cache (view (world s))"
    using does_returns [OF ltrim_sure [of private_chat_cache] assms(1)] by (auto simp: trimmed_def emptied_def)
  then show ?thesis using assms by (intro exI [of _ s']) (simp add: scheduled_act frame_ready)
qed

lemma store_pushes:
  assumes "ready s" and "i < length ts" and "ts ! i = store_private E a b m"
  shows "\<exists>s' l. ready s' \<and> view (world s') = (view (world s))\<lparr>redis_lists := l\<rparr> \<and>
    (\<forall>k. k \<noteq> private_chat_cache \<longrightarrow> l k = redis_lists (view (world s)) k) \<and>
    (\<forall>is. scheduled (i # is) ts s = scheduled is (ts[i := Finished]) s')"
proof -
  obtain u s' where s': "storePrivateMessageInCache E a b m s = Done u s'" "frame s s'"
    and "\<exists>val ok. pushed private_chat_cache val (view (world s)) ok (view (world s'))"
    by (rule does_returns [OF storePrivate_tried assms(1)])
  then obtain l where "view (world s') = (view (world s))\<lparr>redis_lists := l\<rparr>" "\<forall>k. k \<noteq> private_chat_cache \<longrightarrow> l k = redis_lists (view (world s)) k"
  proof (elim exE, goal_cases)
    case (1 val ok)
    then show ?case
      by - (rule 1(1) [of "redis_lists (view (world s'))"]; cases ok; simp add: pushed_def)
  qed
  with s' assms show ?thesis by (intro exI [of _ s'] exI [of _ l]) (simp add: scheduled_act store_private_def frame_ready)
qed

end

lemma flush_writes:
  assumes r: "reliable_services E view ci" "json_library E" and "ready s" and "i < length ts"
    and "ts ! i = act (write_batches E (private_values E) private_stmt (map (private_text E) P)) (\<lambda>_. Finished)"
    and "list_all (\<lambda>r. storable (p_message r) (p_time r) \<and> CHR 0x00 \<notin> set (p_message r)) P"
  shows "\<exists>s'. ready s' \<and> view (world s') = (view (world s))\<lparr>t_private := t_private (view (world s)) @ P, savepoint := None\<rparr> \<and>
    (\<forall>is. scheduled (i # is) ts s = scheduled is (ts[i := Finished]) s')"
proof -
  note fl = private_flushed [OF r]
  have fine: "list_all (\<lambda>r. storable (p_message r) (p_time r)) P" "\<forall>r \<in> set P. CHR 0x00 \<notin> set (p_message r)"
    using assms(6) by (auto simp: list_all_iff)
  obtain s' where s': "write_batches E (private_values E) private_stmt (map (private_text E) P) s = Done () s'" "frame s s'"
    "view (world s') = flushed_list.written (\<lambda>r. CHR 0x00 \<in> set (p_message r)) (\<lambda>r. [r]) (\<lambda>r. []) P (view (world s))"
    using flushed_list.write_batches_done [OF fl assms(3) fine(1)] by blast
  have "view (world s') = (view (world s))\<lparr>t_private := t_private (view (world s)) @ P, savepoint := None\<rparr>"
    using fine(2) by (simp add: s'(3) flushed_list.written_def [OF fl] append_rows_def)
  with s' assms(3-5) show ?thesis by (intro exI [of _ s']) (simp add: scheduled_act frame_ready)
qed

text \<open>The messages \<open>P\<close> are waiting, and can be read back.\<close>

definition waiting_texts :: "'w env \<Rightarrow> db \<Rightarrow> private_row list \<Rightarrow> bool" where
  "waiting_texts E d P \<longleftrightarrow> redis_lists d private_chat_cache = map (private_text E) P \<and> P \<noteq> [] \<and>
     list_all (\<lambda>r. storable (p_message r) (p_time r) \<and> CHR 0x00 \<notin> set (p_message r)) P"

definition flush_step :: "'w env \<Rightarrow> private_row list \<Rightarrow> nat \<Rightarrow> 'w svc thread" where
  "flush_step E P n = (let w = act (write_batches E (private_values E) private_stmt (map (private_text E) P)) (\<lambda>_. Finished) in
     if n = 0 then act (ltrim E private_chat_cache) (\<lambda>_. w) else w)"

lemma message_lost:
  assumes r: "reliable_services E view ci" "json_library E" and "ready s" and w: "waiting_texts E (view (world s)) P"
  shows "\<exists>s' l b'. scheduled [0, 1, 0, 0] [flush_private E, store_private E a b m] s = Some ([Finished, Finished], s') \<and>
    (\<forall>k. k \<noteq> private_chat_cache \<longrightarrow> l k = redis_lists (view (world s)) k) \<and> l private_chat_cache = [] \<and>
    view (world s') = (view (world s))\<lparr>redis_lists := l, t_private := t_private (view (world s)) @ P, savepoint := b'\<rparr>"
proof -
  have vs: "redis_lists (view (world s)) private_chat_cache = map (private_text E) P" "map (private_text E) P \<noteq> []"
    and P: "list_all (\<lambda>r. storable (p_message r) (p_time r) \<and> CHR 0x00 \<notin> set (p_message r)) P"
    using w by (simp_all add: waiting_texts_def)
  note fs = flush_step_def Let_def
  obtain s1 where s1: "ready s1" "view (world s1) = view (world s)"
    "\<And>is. scheduled (0 # is) [flush_private E, store_private E a b m] s = scheduled is [flush_step E P 0, store_private E a b m] s1"
    using reliable_services.flush_reads [OF r(1) assms(3) _ _ vs, of 0 "[flush_private E, store_private E a b m]"] by (auto simp: fs)
  obtain s2 l where s2: "ready s2" "view (world s2) = (view (world s))\<lparr>redis_lists := l\<rparr>"
    "\<forall>k. k \<noteq> private_chat_cache \<longrightarrow> l k = redis_lists (view (world s)) k"
    "\<And>is. scheduled (1 # is) [flush_step E P 0, store_private E a b m] s1 = scheduled is [flush_step E P 0, Finished] s2"
    using reliable_services.store_pushes [OF r(1) s1(1), of 1 "[flush_step E P 0, store_private E a b m]" a b m] s1(2) by auto
  obtain s3 where s3: "ready s3" "view (world s3) = emptied private_chat_cache (view (world s2))"
    "\<And>is. scheduled (0 # is) [flush_step E P 0, Finished] s2 = scheduled is [flush_step E P 1, Finished] s3"
    using reliable_services.flush_trims [OF r(1) s2(1), of 0 "[flush_step E P 0, Finished]"] by (auto simp: fs)
  obtain s4 where s4: "view (world s4) = (view (world s3))\<lparr>t_private := t_private (view (world s3)) @ P, savepoint := None\<rparr>"
    "\<And>is. scheduled (0 # is) [flush_step E P 1, Finished] s3 = scheduled is [Finished, Finished] s4"
    using flush_writes [OF r s3(1) _ _ P, of 0 "[flush_step E P 1, Finished]"] by (auto simp: fs)
  show ?thesis
    by (rule exI [of _ s4], rule exI [of _ "l(private_chat_cache := [])"], rule exI [of _ None])
      (use s2(2,3) in \<open>simp add: s1(3) s2(4) s3(2,3) s4 emptied_def scheduled.simps(1) del: One_nat_def\<close>)
qed

lemma messages_twice:
  assumes r: "reliable_services E view ci" "json_library E" and "ready s" and w: "waiting_texts E (view (world s)) P"
  shows "\<exists>s' b'. scheduled [0, 1, 0, 1, 0, 1] [flush_private E, flush_private E] s = Some ([Finished, Finished], s') \<and>
    view (world s') = (emptied private_chat_cache (view (world s)))\<lparr>t_private := t_private (view (world s)) @ P @ P, savepoint := b'\<rparr>"
proof -
  have vs: "redis_lists (view (world s)) private_chat_cache = map (private_text E) P" "map (private_text E) P \<noteq> []"
    and P: "list_all (\<lambda>r. storable (p_message r) (p_time r) \<and> CHR 0x00 \<notin> set (p_message r)) P"
    using w by (simp_all add: waiting_texts_def)
  note fs = flush_step_def Let_def
  obtain s1 where s1: "ready s1" "view (world s1) = view (world s)"
    "\<And>is. scheduled (0 # is) [flush_private E, flush_private E] s = scheduled is [flush_step E P 0, flush_private E] s1"
    using reliable_services.flush_reads [OF r(1) assms(3) _ _ vs, of 0 "[flush_private E, flush_private E]"] by (auto simp: fs)
  obtain s2 where s2: "ready s2" "view (world s2) = view (world s)"
    "\<And>is. scheduled (1 # is) [flush_step E P 0, flush_private E] s1 = scheduled is [flush_step E P 0, flush_step E P 0] s2"
    using reliable_services.flush_reads [OF r(1) s1(1) _ _ vs [folded s1(2)], of 1 "[flush_step E P 0, flush_private E]"] s1(2)
    by (auto simp: fs)
  obtain s3 where s3: "ready s3" "view (world s3) = emptied private_chat_cache (view (world s))"
    "\<And>is. scheduled (0 # is) [flush_step E P 0, flush_step E P 0] s2 = scheduled is [flush_step E P 1, flush_step E P 0] s3"
    using reliable_services.flush_trims [OF r(1) s2(1), of 0 "[flush_step E P 0, flush_step E P 0]"] s2(2) by (auto simp: fs)
  obtain s4 where s4: "ready s4" "view (world s4) = emptied private_chat_cache (view (world s))"
    "\<And>is. scheduled (1 # is) [flush_step E P 1, flush_step E P 0] s3 = scheduled is [flush_step E P 1, flush_step E P 1] s4"
    using reliable_services.flush_trims [OF r(1) s3(1), of 1 "[flush_step E P 1, flush_step E P 0]"] s3(2) by (auto simp: fs emptied_def)
  obtain s5 where s5: "ready s5" "view (world s5) = (view (world s4))\<lparr>t_private := t_private (view (world s4)) @ P, savepoint := None\<rparr>"
    "\<And>is. scheduled (0 # is) [flush_step E P 1, flush_step E P 1] s4 = scheduled is [Finished, flush_step E P 1] s5"
    using flush_writes [OF r s4(1) _ _ P, of 0 "[flush_step E P 1, flush_step E P 1]"] by (auto simp: fs)
  obtain s6 where s6: "view (world s6) = (view (world s5))\<lparr>t_private := t_private (view (world s5)) @ P, savepoint := None\<rparr>"
    "\<And>is. scheduled (1 # is) [Finished, flush_step E P 1] s5 = scheduled is [Finished, Finished] s6"
    using flush_writes [OF r s5(1) _ _ P, of 1 "[Finished, flush_step E P 1]"] by (auto simp: fs)
  show ?thesis
    by (rule exI [of _ s6], rule exI [of _ None])
      (simp add: s1(3) s2(3) s3(3) s4(2,3) s5(2,3) s6 emptied_def scheduled.simps(1) del: One_nat_def)
qed

text \<open>
  C23. Two things that can happen to the private messages \<open>P\<close> waiting in the cache while a flush is running.  A message stored
  after the flush has read the list and before it trims it is lost: the list is empty and only \<open>P\<close> is in the table.
  A second flush that starts before the first has trimmed the list writes \<open>P\<close> a second time.
\<close>

theorem flush_races:
  assumes r: "reliable_services E view ci" "json_library E" and "ready s" and "cached E (view (world s)) P G" and "P \<noteq> []"
    and P: "list_all (\<lambda>r. storable (p_message r) (p_time r) \<and> CHR 0x00 \<notin> set (p_message r)) P"
  shows "(\<exists>is s'. scheduled is [flush_private E, store_private E a b m] s = Some ([Finished, Finished], s') \<and>
      cached E (view (world s')) [] G \<and> t_private (view (world s')) = t_private (view (world s)) @ P) \<and>
    (\<exists>is s'. scheduled is [flush_private E, flush_private E] s = Some ([Finished, Finished], s') \<and>
      cached E (view (world s')) [] G \<and> t_private (view (world s')) = t_private (view (world s)) @ P @ P)"
proof -
  have w: "waiting_texts E (view (world s)) P" using assms(4,5) P by (simp add: waiting_texts_def cached_def)
  note w = message_lost [OF r assms(3) w, of a b m] messages_twice [OF r assms(3) w]
  obtain s1 l b1 where s1: "scheduled [0, 1, 0, 0] [flush_private E, store_private E a b m] s = Some ([Finished, Finished], s1)"
    "\<forall>k. k \<noteq> private_chat_cache \<longrightarrow> l k = redis_lists (view (world s)) k" "l private_chat_cache = []"
    "view (world s1) = (view (world s))\<lparr>redis_lists := l, t_private := t_private (view (world s)) @ P, savepoint := b1\<rparr>"
    using w(1) by blast
  obtain s2 b2 where s2: "scheduled [0, 1, 0, 1, 0, 1] [flush_private E, flush_private E] s = Some ([Finished, Finished], s2)"
    "view (world s2) = (emptied private_chat_cache (view (world s)))\<lparr>t_private := t_private (view (world s)) @ P @ P, savepoint := b2\<rparr>"
    using w(2) by blast
  have "cached E (view (world s1)) [] G \<and> t_private (view (world s1)) = t_private (view (world s)) @ P"
    using s1(2,3) assms(4) by (simp add: s1(4) cached_def)
  moreover have "cached E (view (world s2)) [] G \<and> t_private (view (world s2)) = t_private (view (world s)) @ P @ P"
    using assms(4) by (simp add: s2(2) cached_def emptied_def)
  ultimately show ?thesis using s1(1) s2(1) by blast
qed

theorem flush_races_witness:
  "\<exists>is s'. scheduled is [flush_private ref_env, flush_private ref_env] (waiting_sample ''hi'') = Some ([Finished, Finished], s') \<and>
    map p_message (t_private (world s')) = [''hi'', ''hi'', ''hi'', ''hi'']"
proof -
  let ?P = "[\<lparr>p_sender = 1, p_receiver = 2, p_message = ''hi'', p_time = ''2024-08-12 10:00:00''\<rparr>,
     \<lparr>p_sender = 2, p_receiver = 1, p_message = ''hi'', p_time = ''2024-08-12 10:00:01''\<rparr>]"
  have "list_all (\<lambda>r. storable (p_message r) (p_time r) \<and> CHR 0x00 \<notin> set (p_message r)) ?P" by (simp add: storable_def del: datetime.simps)
  from flush_races [OF ref.reliable_services_axioms ref_json.json_library_axioms waiting_ready waiting_cached [of "''hi''"] _ this, THEN conjunct2]
  obtain "is" s' where "scheduled is [flush_private ref_env, flush_private ref_env] (waiting_sample ''hi'') = Some ([Finished, Finished], s')"
    "t_private (world s') = t_private (world (waiting_sample ''hi'')) @ ?P @ ?P"
    by blast
  then show ?thesis by (intro exI conjI) (assumption, simp add: waiting_sample_def sample_db_def)
qed

end
