(* ===== verification/Poller.thy ===== *)
theory Poller
  imports Reactor
begin

text \<open>
  \<open>project/m_netlib/Net/Poller\<close>, the poller over \<open>poll(2)\<close>: it keeps one \<open>pollfd\<close> for each channel, and the
  channel keeps the place of its entry.  Nothing in the program makes one (the loop has an \<open>EPoller\<close>); it is the
  alternative the library offers.  \<open>entry_of\<close> is the abstract view: the entry of each descriptor.
\<close>

record pollfd =
  p_fd :: int
  p_events :: "16 word"
  p_revents :: "16 word"

record 'w polling = "'w reactor" +
  m_pollfds :: "pollfd list"

type_synonym 'w poll_sys = "pollfd list \<Rightarrow> 'w \<Rightarrow> (nat \<times> 16 word list) option \<times> 'w"

section \<open>Operations\<close>

text \<open>\<open>poll\<close> gives the number of entries with events and writes the events of each; \<open>front\<close> of an empty vector is undefined.\<close>

definition poll_call :: "'w poll_sys \<Rightarrow> ('w polling, nat option) prog" where
  "poll_call K = (\<lambda>s. if m_pollfds s = [] then Stuck Dangling
     else case K (m_pollfds s) (kernel s) of
       (None, w) \<Rightarrow> Done None (s\<lparr>kernel := w\<rparr>)
     | (Some (n, rs), w) \<Rightarrow> Done (Some n) (s\<lparr>kernel := w, m_pollfds := map (\<lambda>(p, r). p\<lparr>p_revents := r\<rparr>) (zip (m_pollfds s) rs)\<rparr>))"

definition find_channel :: "int \<Rightarrow> ('w polling, nat option) prog" where
  "find_channel fd = reads (\<lambda>s. if fd < 0 then None else m_channels s (nat fd))"

fun Poller_fillActiveChannels :: "pollfd list \<Rightarrow> nat \<Rightarrow> ('w polling, unit) prog" where
  "Poller_fillActiveChannels [] n = ret ()"
| "Poller_fillActiveChannels (p # ps) n =
     (if n = 0 then ret ()
      else if 0 < sint (p_revents p) then
        bnd (find_channel (p_fd p)) (\<lambda>found. case found of
          None \<Rightarrow> halt AssertFailed
        | Some c \<Rightarrow> andthen (set_channel c (\<lambda>ch. ch\<lparr>m_revents := scast (p_revents p)\<rparr>))
            (andthen (modify (\<lambda>s. s\<lparr>m_activeChannels := m_activeChannels s @ [c]\<rparr>))
            (Poller_fillActiveChannels ps (n - 1))))
      else Poller_fillActiveChannels ps n)"

definition Poller_poll :: "'w sys \<Rightarrow> 'w poll_sys \<Rightarrow> ('w polling, int) prog" where
  "Poller_poll S K = bnd (poll_call K) (\<lambda>r. bnd (now S) (\<lambda>t.
     andthen (case r of None \<Rightarrow> ret ()
       | Some n \<Rightarrow> if 0 < n then bnd (reads m_pollfds) (\<lambda>ps. Poller_fillActiveChannels ps n) else ret ())
     (ret t)))"

definition Poller_updateChannel :: "nat \<Rightarrow> ('w polling, unit) prog" where
  "Poller_updateChannel c =
     andthen assertInLoopThread
     (bnd (the_channel c) (\<lambda>ch.
      bnd (reads (\<lambda>s. m_channels s (m_fd ch))) (\<lambda>found.
      if m_index ch < 0 then
        andthen (check (found = None))
        (andthen (modify (\<lambda>s. s\<lparr>m_pollfds := m_pollfds s @ [\<lparr>p_fd = int (m_fd ch), p_events = ucast (m_events ch), p_revents = 0\<rparr>]\<rparr>))
        (bnd (reads m_pollfds) (\<lambda>ps.
         andthen (set_channel c (\<lambda>ch. ch\<lparr>m_index := int (length ps) - 1\<rparr>))
         (modify (\<lambda>s. s\<lparr>m_channels := (m_channels s)(m_fd ch \<mapsto> c)\<rparr>)))))
      else
        andthen (check (found \<noteq> None))
        (andthen (check (found = Some c))
        (bnd (reads m_pollfds) (\<lambda>ps. let idx = nat (m_index ch); pfd = ps ! idx in
         andthen (check (idx < length ps))
         (andthen (check (p_fd pfd = int (m_fd ch) \<or> p_fd pfd = - int (m_fd ch) - 1))
         (modify (\<lambda>s. s\<lparr>m_pollfds := ps[idx := pfd\<lparr>p_events := ucast (m_events ch), p_revents := 0,
            p_fd := (if isNoneEvent ch then - int (m_fd ch) - 1 else p_fd pfd)\<rparr>]\<rparr>)))))))))"

text \<open>The channel that is taken out keeps its index.\<close>

definition Poller_removeChannel :: "nat \<Rightarrow> ('w polling, unit) prog" where
  "Poller_removeChannel c =
     andthen assertInLoopThread
     (bnd (the_channel c) (\<lambda>ch.
      bnd (reads (\<lambda>s. m_channels s (m_fd ch))) (\<lambda>found.
      andthen (check (found \<noteq> None))
      (andthen (check (found = Some c))
      (andthen (check (isNoneEvent ch))
      (bnd (reads m_pollfds) (\<lambda>ps. let idx = nat (m_index ch); pfd = ps ! idx in
       andthen (check (0 \<le> m_index ch \<and> idx < length ps))
       (andthen (check (p_fd pfd = - int (m_fd ch) - 1 \<or> scast (p_events pfd) = m_events ch))
       (andthen (modify (\<lambda>s. s\<lparr>m_channels := (m_channels s)(m_fd ch := None)\<rparr>))
       (if idx = length ps - 1 then modify (\<lambda>s. s\<lparr>m_pollfds := butlast ps\<rparr>)
        else let channelAtEnd = p_fd (last ps) in
          andthen (modify (\<lambda>s. s\<lparr>m_pollfds := ps[idx := last ps, length ps - 1 := ps ! idx]\<rparr>))
          (bnd (find_channel (if channelAtEnd < 0 then - channelAtEnd - 1 else channelAtEnd)) (\<lambda>at_end. case at_end of
             None \<Rightarrow> halt Dangling
           | Some e \<Rightarrow> andthen (set_channel e (\<lambda>ch. ch\<lparr>m_index := int idx\<rparr>))
               (modify (\<lambda>s. s\<lparr>m_pollfds := butlast (m_pollfds s)\<rparr>))))))))))))))"

text \<open>An operation of a channel whose loop has this poller: the events change, then the poller is told.\<close>

definition polled_events :: "(poll_events \<Rightarrow> poll_events) \<Rightarrow> nat \<Rightarrow> ('w polling, unit) prog" where
  "polled_events f c = andthen (set_channel c (\<lambda>ch. ch\<lparr>m_events := f (m_events ch)\<rparr>))
     (andthen assertInLoopThread (Poller_updateChannel c))"

section \<open>The table and the channels\<close>

definition entry_fits :: "'w polling \<Rightarrow> nat \<Rightarrow> channel \<Rightarrow> bool" where
  "entry_fits s fd ch \<longleftrightarrow> m_fd ch = fd \<and> 0 \<le> m_index ch \<and> nat (m_index ch) < length (m_pollfds s) \<and>
     (let p = m_pollfds s ! nat (m_index ch) in (p_fd p = int fd \<or> p_fd p = - int fd - 1) \<and> p_events p = ucast (m_events ch))"

definition poller_ok :: "'w polling \<Rightarrow> bool" where
  "poller_ok s \<longleftrightarrow>
     (\<forall>fd c. m_channels s fd = Some c \<longrightarrow> (\<exists>ch. heap s c = Some ch \<and> entry_fits s fd ch)) \<and>
     (\<forall>i < length (m_pollfds s). \<exists>fd c ch. m_channels s fd = Some c \<and> heap s c = Some ch \<and> m_index ch = int i)"

text \<open>What the poller asks of each descriptor.\<close>

definition entry_of :: "'w polling \<Rightarrow> nat \<Rightarrow> pollfd option" where
  "entry_of s fd = (case m_channels s fd of None \<Rightarrow> None | Some c \<Rightarrow>
     (case heap s c of None \<Rightarrow> None | Some ch \<Rightarrow> Some (m_pollfds s ! nat (m_index ch))))"

lemma poller_okD:
  assumes "poller_ok s"
  shows "m_channels s fd = Some c \<Longrightarrow> heap s c = Some ch \<Longrightarrow> entry_fits s fd ch"
    and "i < length (m_pollfds s) \<Longrightarrow> \<exists>fd c ch. m_channels s fd = Some c \<and> heap s c = Some ch \<and> m_index ch = int i"
    and "m_channels s fd = Some c \<Longrightarrow> \<exists>ch. heap s c = Some ch \<and> entry_fits s fd ch"
  using assms by (fastforce simp: poller_ok_def)+

lemma same_index:
  "poller_ok s \<Longrightarrow> entry_fits s fd ch \<Longrightarrow> entry_fits s fd' ch' \<Longrightarrow> nat (m_index ch) = nat (m_index ch') \<Longrightarrow> fd = fd'"
  by (auto simp: entry_fits_def Let_def)

text \<open>The same entries, seen from the table.\<close>

lemma entries_of:
  assumes "poller_ok s"
  shows "set (m_pollfds s) = ran (entry_of s)"
proof
  show "set (m_pollfds s) \<subseteq> ran (entry_of s)"
  proof
    fix p assume "p \<in> set (m_pollfds s)"
    then obtain i where "i < length (m_pollfds s)" "p = m_pollfds s ! i" by (auto simp: in_set_conv_nth)
    moreover from poller_okD(2) [OF assms this(1)] obtain fd c ch where "m_channels s fd = Some c" "heap s c = Some ch" "m_index ch = int i"
      by blast
    ultimately have "entry_of s fd = Some p" by (simp add: entry_of_def)
    then show "p \<in> ran (entry_of s)" by (auto simp: ran_def)
  qed
next
  show "ran (entry_of s) \<subseteq> set (m_pollfds s)"
    using poller_okD(1) [OF assms] by (fastforce simp: ran_def entry_of_def entry_fits_def split: option.splits)
qed


section \<open>The operations keep them in line\<close>

lemmas poller_run = run check_def the_channel_def set_channel_def assertInLoopThread_def find_channel_def

lemma pollfd_set: "p\<lparr>p_events := e, p_revents := r, p_fd := fd\<rparr> = \<lparr>p_fd = fd, p_events = e, p_revents = r\<rparr>"
  by (cases p) simp

lemma polled_events_known:
  assumes "poller_ok s" and "isInLoopThread s" and "m_channels s fd = Some c" and "heap s c = Some ch"
  shows "\<exists>s'. polled_events f c s = Done () s' \<and> poller_ok s' \<and> isInLoopThread s' \<and> heap s' = (heap s)(c \<mapsto> ch\<lparr>m_events := f (m_events ch)\<rparr>) \<and>
    m_channels s' = m_channels s \<and> (\<exists>p. entry_of s fd = Some p \<and> entry_of s' = (entry_of s)(fd \<mapsto>
      \<lparr>p_fd = if f (m_events ch) = kNoneEvent then - int fd - 1 else p_fd p, p_events = ucast (f (m_events ch)), p_revents = 0\<rparr>))"
proof -
  let ?i = "nat (m_index ch)" and ?ch = "ch\<lparr>m_events := f (m_events ch)\<rparr>"
  let ?p = "m_pollfds s ! ?i"
  let ?q = "\<lparr>p_fd = if f (m_events ch) = kNoneEvent then - int fd - 1 else p_fd ?p, p_events = ucast (f (m_events ch)), p_revents = 0\<rparr>"
  let ?s = "s\<lparr>heap := (heap s)(c \<mapsto> ?ch), m_pollfds := (m_pollfds s)[?i := ?q]\<rparr>"
  have fit: "entry_fits s fd ch" by (rule poller_okD(1) [OF assms(1,3,4)])
  have run: "polled_events f c s = Done () ?s"
    using fit assms(2-4) by (simp add: polled_events_def Poller_updateChannel_def poller_run isInLoopThread_def entry_fits_def Let_def isNoneEvent_def pollfd_set)
  have other: "entry_fits ?s fd' ch' \<and> c' \<noteq> c \<and> nat (m_index ch') \<noteq> ?i" if "m_channels s fd' = Some c'" "heap s c' = Some ch'" "fd' \<noteq> fd" for fd' c' ch'
  proof -
    have fit': "entry_fits s fd' ch'" by (rule poller_okD(1) [OF assms(1) that(1,2)])
    have "nat (m_index ch') \<noteq> ?i" using same_index [OF assms(1) fit fit'] that(3) by metis
    moreover have "c' \<noteq> c" using fit fit' that assms(4) by (auto simp: entry_fits_def)
    ultimately show ?thesis using fit' by (simp add: entry_fits_def)
  qed
  have "poller_ok ?s"
    unfolding poller_ok_def
  proof (intro conjI allI impI)
    fix fd' c' assume *: "m_channels ?s fd' = Some c'"
    show "\<exists>ch'. heap ?s c' = Some ch' \<and> entry_fits ?s fd' ch'"
    proof (cases "fd' = fd")
      case True
      have "entry_fits ?s fd ?ch" using fit by (simp add: entry_fits_def Let_def)
      with True * assms(3) show ?thesis by simp
    next
      case False
      from * obtain ch' where "heap s c' = Some ch'" using poller_okD(3) [OF assms(1), of fd' c'] by auto
      with other [of fd' c' ch'] * False show ?thesis by simp
    qed
  next
    fix i assume "i < length (m_pollfds ?s)"
    then obtain fd' c' ch' where "m_channels s fd' = Some c'" "heap s c' = Some ch'" "m_index ch' = int i"
      using poller_okD(2) [OF assms(1), of i] by auto
    then show "\<exists>fd c ch. m_channels ?s fd = Some c \<and> heap ?s c = Some ch \<and> m_index ch = int i"
      using assms(4) by (intro exI [of _ fd'] exI [of _ c'] exI [of _ "if c' = c then ?ch else ch'"]) auto
  qed
  moreover have "entry_of ?s = (entry_of s)(fd \<mapsto> ?q)"
  proof
    fix fd'
    consider "fd' = fd" | "fd' \<noteq> fd" "m_channels s fd' = None"
      | c' ch' where "fd' \<noteq> fd" "m_channels s fd' = Some c'" "heap s c' = Some ch'"
      using poller_okD(3) [OF assms(1), of fd'] by (cases "m_channels s fd'") auto
    then show "entry_of ?s fd' = ((entry_of s)(fd \<mapsto> ?q)) fd'"
    proof cases
      case 1
      then show ?thesis using fit assms(3) by (simp add: entry_of_def entry_fits_def)
    next
      case 2
      then show ?thesis by (simp add: entry_of_def)
    next
      case 3
      then show ?thesis using other [OF 3(2,3,1)] by (simp add: entry_of_def)
    qed
  qed
  ultimately show ?thesis using run assms(2-4) by (intro exI [of _ ?s]) (simp add: entry_of_def isInLoopThread_def)
qed

lemma polled_events_new:
  assumes "poller_ok s" and "isInLoopThread s" and "m_channels s (m_fd ch) = None" and "heap s c = Some ch" and "m_index ch < 0"
  shows "\<exists>s'. polled_events f c s = Done () s' \<and> poller_ok s' \<and>
    heap s' = (heap s)(c \<mapsto> ch\<lparr>m_events := f (m_events ch), m_index := int (length (m_pollfds s))\<rparr>) \<and>
    m_channels s' = (m_channels s)(m_fd ch \<mapsto> c) \<and> entry_of s' = (entry_of s)(m_fd ch \<mapsto>
      \<lparr>p_fd = int (m_fd ch), p_events = ucast (f (m_events ch)), p_revents = 0\<rparr>)"
proof -
  let ?n = "length (m_pollfds s)" and ?fd = "m_fd ch"
  let ?ch = "ch\<lparr>m_events := f (m_events ch), m_index := int ?n\<rparr>"
  let ?q = "\<lparr>p_fd = int ?fd, p_events = ucast (f (m_events ch)), p_revents = 0\<rparr>"
  let ?s = "s\<lparr>heap := (heap s)(c \<mapsto> ?ch), m_pollfds := m_pollfds s @ [?q], m_channels := (m_channels s)(?fd \<mapsto> c)\<rparr>"
  have run: "polled_events f c s = Done () ?s"
    using assms(2-5) by (simp add: polled_events_def Poller_updateChannel_def poller_run isInLoopThread_def)
  have other: "c' \<noteq> c \<and> entry_fits ?s fd' ch'" if "m_channels s fd' = Some c'" "heap s c' = Some ch'" for fd' c' ch'
  proof -
    have fit': "entry_fits s fd' ch'" by (rule poller_okD(1) [OF assms(1) that])
    moreover have "c' \<noteq> c" using fit' that assms(3,4) by (auto simp: entry_fits_def)
    ultimately show ?thesis by (simp add: entry_fits_def nth_append)
  qed
  have "poller_ok ?s"
    unfolding poller_ok_def
  proof (intro conjI allI impI)
    fix fd' c' assume *: "m_channels ?s fd' = Some c'"
    show "\<exists>ch'. heap ?s c' = Some ch' \<and> entry_fits ?s fd' ch'"
    proof (cases "fd' = ?fd")
      case True
      have "entry_fits ?s ?fd ?ch" by (simp add: entry_fits_def)
      with True * show ?thesis by simp
    next
      case False
      with * obtain ch' where "m_channels s fd' = Some c'" "heap s c' = Some ch'" using poller_okD(3) [OF assms(1), of fd' c'] by auto
      with other [of fd' c' ch'] show ?thesis by simp
    qed
  next
    fix i assume i: "i < length (m_pollfds ?s)"
    show "\<exists>fd c ch. m_channels ?s fd = Some c \<and> heap ?s c = Some ch \<and> m_index ch = int i"
    proof (cases "i = ?n")
      case True
      then show ?thesis by (intro exI [of _ ?fd] exI [of _ c] exI [of _ ?ch]) simp
    next
      case False
      with i obtain fd' c' ch' where *: "m_channels s fd' = Some c'" "heap s c' = Some ch'" "m_index ch' = int i"
        using poller_okD(2) [OF assms(1), of i] by auto
      with other [OF *(1,2)] assms(3) show ?thesis by (intro exI [of _ fd'] exI [of _ c'] exI [of _ ch']) auto
    qed
  qed
  moreover have "entry_of ?s = (entry_of s)(?fd \<mapsto> ?q)"
  proof
    fix fd'
    consider "fd' = ?fd" | "fd' \<noteq> ?fd" "m_channels s fd' = None"
      | c' ch' where "fd' \<noteq> ?fd" "m_channels s fd' = Some c'" "heap s c' = Some ch'"
      using poller_okD(3) [OF assms(1), of fd'] by (cases "m_channels s fd'") auto
    then show "entry_of ?s fd' = ((entry_of s)(?fd \<mapsto> ?q)) fd'"
    proof cases
      case 3
      then show ?thesis using other [OF 3(2,3)] poller_okD(1) [OF assms(1) 3(2,3)] by (simp add: entry_of_def nth_append entry_fits_def)
    qed (simp_all add: entry_of_def)
  qed
  ultimately show ?thesis using run by (intro exI [of _ ?s]) simp
qed

text \<open>The channel of the last entry takes the place of the one that goes.\<close>

definition moved :: "nat \<Rightarrow> nat \<Rightarrow> channel \<Rightarrow> channel" where
  "moved n idx ch = (if m_index ch = int n then ch\<lparr>m_index := int idx\<rparr> else ch)"

lemma removed_state:
  assumes "poller_ok s" and "isInLoopThread s" and "m_channels s fd = Some c" and "heap s c = Some ch" and "isNoneEvent ch"
  defines "n \<equiv> length (m_pollfds s) - 1" and "idx \<equiv> nat (m_index ch)"
  shows "\<exists>h. Poller_removeChannel c s = Done () (s\<lparr>heap := h, m_channels := (m_channels s)(fd := None),
      m_pollfds := butlast ((m_pollfds s)[idx := last (m_pollfds s)])\<rparr>) \<and> h c = Some ch \<and>
    (\<forall>fd' c' ch'. m_channels s fd' = Some c' \<and> heap s c' = Some ch' \<and> fd' \<noteq> fd \<longrightarrow> h c' = Some (moved n idx ch'))"
proof (cases "idx = n")
  case True
  have fit: "entry_fits s fd ch" by (rule poller_okD(1) [OF assms(1,3,4)])
  have "m_index ch' \<noteq> int n" if "m_channels s fd' = Some c'" "heap s c' = Some ch'" "fd' \<noteq> fd" for fd' c' ch'
    using same_index [OF assms(1) fit poller_okD(1) [OF assms(1) that(1,2)]] that(3) True unfolding idx_def by (metis nat_int)
  moreover have "Poller_removeChannel c s = Done () (s\<lparr>m_channels := (m_channels s)(fd := None), m_pollfds := butlast (m_pollfds s)\<rparr>)"
    using fit assms(2-5) True by (auto simp: Poller_removeChannel_def poller_run isInLoopThread_def entry_fits_def Let_def isNoneEvent_def kNoneEvent_def idx_def n_def)
  ultimately show ?thesis using True assms(4) by (intro exI [of _ "heap s"]) (auto simp: moved_def butlast_list_update n_def)
next
  case False
  have fit: "entry_fits s fd ch" by (rule poller_okD(1) [OF assms(1,3,4)])
  then have i: "idx < n" using False by (auto simp: entry_fits_def idx_def n_def)
  then have n: "n < length (m_pollfds s)" "last (m_pollfds s) = m_pollfds s ! n" by (cases "m_pollfds s"; simp add: n_def last_conv_nth)+
  then obtain fd' e che where e: "m_channels s fd' = Some e" "heap s e = Some che" "m_index che = int n"
    using poller_okD(2) [OF assms(1)] by blast
  have fit': "entry_fits s fd' che" by (rule poller_okD(1) [OF assms(1) e(1,2)])
  have "fd' \<noteq> fd" using e assms(3,4) i by (auto simp: idx_def)
  have end_fd: "nat (if p_fd (m_pollfds s ! n) < 0 then - p_fd (m_pollfds s ! n) - 1 else p_fd (m_pollfds s ! n)) = fd'"
    "\<not> (if p_fd (m_pollfds s ! n) < 0 then - p_fd (m_pollfds s ! n) - 1 else p_fd (m_pollfds s ! n)) < 0"
    using fit' e(3) by (auto simp: entry_fits_def Let_def)
  let ?h = "(heap s)(e \<mapsto> che\<lparr>m_index := int idx\<rparr>)"
  have ce: "e \<noteq> c" using fit fit' \<open>fd' \<noteq> fd\<close> e(2) assms(4) by (auto simp: entry_fits_def)
  have "Poller_removeChannel c s = Done () (s\<lparr>heap := ?h, m_channels := (m_channels s)(fd := None),
      m_pollfds := butlast ((m_pollfds s)[idx := last (m_pollfds s)])\<rparr>)"
    using fit assms(2-5) i n e \<open>fd' \<noteq> fd\<close> end_fd
    by (simp add: Poller_removeChannel_def poller_run isInLoopThread_def entry_fits_def Let_def isNoneEvent_def kNoneEvent_def
      idx_def [symmetric] n_def [symmetric] butlast_list_update)
  moreover have "?h c' = Some (moved n idx ch')" if "m_channels s fd2 = Some c'" "heap s c' = Some ch'" for fd2 c' ch'
    using that e same_index [OF assms(1) fit' poller_okD(1) [OF assms(1) that]] by (auto simp: moved_def)
  moreover have "?h c = Some ch" using ce assms(4) by simp
  ultimately show ?thesis by (intro exI [of _ ?h] conjI allI impI; (elim conjE)?)
qed

lemma removed_entry:
  assumes "poller_ok s" and "m_channels s fd = Some c" and "heap s c = Some ch"
    and "m_channels s fd' = Some c'" and "heap s c' = Some ch'" and "fd' \<noteq> fd"
  defines "n \<equiv> length (m_pollfds s) - 1" and "idx \<equiv> nat (m_index ch)"
  shows "m_fd (moved n idx ch') = fd'" and "m_events (moved n idx ch') = m_events ch'" and "0 \<le> m_index (moved n idx ch')"
    and "nat (m_index (moved n idx ch')) < n"
    and "butlast ((m_pollfds s)[idx := last (m_pollfds s)]) ! nat (m_index (moved n idx ch')) = m_pollfds s ! nat (m_index ch')"
proof -
  have fit: "entry_fits s fd ch" by (rule poller_okD(1) [OF assms(1-3)])
  have fit': "entry_fits s fd' ch'" by (rule poller_okD(1) [OF assms(1,4,5)])
  have ne: "nat (m_index ch') \<noteq> idx" using same_index [OF assms(1) fit' fit] assms(6) by (metis idx_def)
  have l: "idx < length (m_pollfds s)" "nat (m_index ch') < length (m_pollfds s)" using fit fit' by (simp_all add: entry_fits_def idx_def)
  then have le: "idx \<le> n" "nat (m_index ch') \<le> n" by (simp_all add: n_def)
  show "m_fd (moved n idx ch') = fd'" "m_events (moved n idx ch') = m_events ch'" "0 \<le> m_index (moved n idx ch')"
    using fit' by (simp_all add: moved_def entry_fits_def)
  show lt: "nat (m_index (moved n idx ch')) < n"
    using ne le fit' by (auto simp: moved_def entry_fits_def)
  have last: "last (m_pollfds s) = m_pollfds s ! n" using l(1) by (cases "m_pollfds s"; simp add: n_def last_conv_nth)
  have nat_last: "nat (int (length (m_pollfds s)) - 1) = length (m_pollfds s) - Suc 0" by linarith
  show "butlast ((m_pollfds s)[idx := last (m_pollfds s)]) ! nat (m_index (moved n idx ch')) = m_pollfds s ! nat (m_index ch')"
    using lt l ne nat_last unfolding last
    by (auto simp: nth_butlast nth_list_update moved_def n_def)
qed

lemma Poller_removeChannel_ok:
  assumes "poller_ok s" and "isInLoopThread s" and "m_channels s fd = Some c" and "heap s c = Some ch" and "isNoneEvent ch"
  shows "\<exists>s'. Poller_removeChannel c s = Done () s' \<and> poller_ok s' \<and> isInLoopThread s' \<and> heap s' c = Some ch \<and>
    m_channels s' = (m_channels s)(fd := None) \<and> entry_of s' = (entry_of s)(fd := None)"
proof -
  let ?n = "length (m_pollfds s) - 1" and ?idx = "nat (m_index ch)"
  let ?moved = "moved ?n ?idx"
  obtain h where h: "Poller_removeChannel c s = Done () (s\<lparr>heap := h, m_channels := (m_channels s)(fd := None),
      m_pollfds := butlast ((m_pollfds s)[?idx := last (m_pollfds s)])\<rparr>)" "h c = Some ch"
    "\<And>fd' c' ch'. m_channels s fd' = Some c' \<Longrightarrow> heap s c' = Some ch' \<Longrightarrow> fd' \<noteq> fd \<Longrightarrow> h c' = Some (?moved ch')"
    using removed_state [OF assms] by blast
  let ?s = "s\<lparr>heap := h, m_channels := (m_channels s)(fd := None), m_pollfds := butlast ((m_pollfds s)[?idx := last (m_pollfds s)])\<rparr>"
  note entry = removed_entry [OF assms(1,3,4)]
  have "poller_ok ?s"
    unfolding poller_ok_def
  proof (intro conjI allI impI)
    fix fd' c' assume "m_channels ?s fd' = Some c'"
    then have *: "m_channels s fd' = Some c'" "fd' \<noteq> fd" by (auto split: if_splits)
    from poller_okD(3) [OF assms(1) *(1)] obtain ch' where ch': "heap s c' = Some ch'" "entry_fits s fd' ch'" by blast
    note e = entry [OF *(1) ch'(1) *(2)]
    have "entry_fits ?s fd' (?moved ch')" using ch'(2) e by (simp add: entry_fits_def Let_def)
    with h(3) [OF *(1) ch'(1) *(2)] show "\<exists>ch'. heap ?s c' = Some ch' \<and> entry_fits ?s fd' ch'" by simp
  next
    fix i assume "i < length (m_pollfds ?s)"
    then have i: "i < ?n" by simp
    define j where "j = (if i = ?idx then ?n else i)"
    have "j < length (m_pollfds s)" "j \<noteq> ?idx" using i by (auto simp: j_def)
    then obtain fd' c' ch' where *: "m_channels s fd' = Some c'" "heap s c' = Some ch'" "m_index ch' = int j"
      using poller_okD(2) [OF assms(1)] by blast
    have "fd' \<noteq> fd" using * \<open>j \<noteq> ?idx\<close> assms(3,4) by auto
    moreover have "m_index (?moved ch') = int i" using * i by (auto simp: moved_def j_def split: if_splits)
    ultimately show "\<exists>fd c ch. m_channels ?s fd = Some c \<and> heap ?s c = Some ch \<and> m_index ch = int i"
      using h(3) [OF *(1,2)] * by (intro exI [of _ fd'] exI [of _ c'] exI [of _ "?moved ch'"]) simp
  qed
  moreover have "entry_of ?s = (entry_of s)(fd := None)"
  proof
    fix fd'
    consider "fd' = fd" | "m_channels s fd' = None" | c' ch' where "fd' \<noteq> fd" "m_channels s fd' = Some c'" "heap s c' = Some ch'"
      using poller_okD(3) [OF assms(1), of fd'] by (cases "m_channels s fd'") auto
    then show "entry_of ?s fd' = ((entry_of s)(fd := None)) fd'"
    proof cases
      case 3
      then show ?thesis using h(3) [OF 3(2,3,1)] entry(5) [OF 3(2,3,1)] by (simp add: entry_of_def)
    qed (simp_all add: entry_of_def)
  qed
  ultimately show ?thesis using h(1,2) assms(2) by (intro exI [of _ ?s]) (simp add: isInLoopThread_def)
qed

section \<open>What a poll reports\<close>

definition poll_reported :: "pollfd list \<Rightarrow> pollfd list" where
  "poll_reported ps = [p \<leftarrow> ps. 0 < sint (p_revents p)]"

definition channel_at :: "'w polling \<Rightarrow> pollfd \<Rightarrow> nat" where
  "channel_at s p = the (m_channels s (nat (p_fd p)))"

text \<open>The heap after the channels of these entries have been told their events.\<close>

fun told :: "'w polling \<Rightarrow> pollfd list \<Rightarrow> (nat \<Rightarrow> channel option) \<Rightarrow> nat \<Rightarrow> channel option" where
  "told s [] h = h"
| "told s (p # ps) h = told s ps (h(channel_at s p := map_option (\<lambda>ch. ch\<lparr>m_revents := scast (p_revents p)\<rparr>) (h (channel_at s p))))"

lemma told_other: "c \<notin> channel_at s ` set ps \<Longrightarrow> told s ps h c = h c"
  by (induction ps arbitrary: h) auto

lemma told_at: "distinct (map (channel_at s) ps) \<Longrightarrow> p \<in> set ps \<Longrightarrow>
    told s ps h (channel_at s p) = map_option (\<lambda>ch. ch\<lparr>m_revents := scast (p_revents p)\<rparr>) (h (channel_at s p))"
proof (induction ps arbitrary: h)
  case (Cons q ps)
  then show ?case by (cases "p = q") (auto simp: told_other image_iff)
qed simp

lemma told_same: "map_option (m_revents_update (\<lambda>_. 0)) (told s ps h c) = map_option (m_revents_update (\<lambda>_. 0)) (h c)"
  by (induction ps arbitrary: h) (auto simp: option.map_comp comp_def)

lemma fill_run:
  assumes "\<forall>p \<in> set (poll_reported ps). 0 \<le> p_fd p \<and> m_channels s (nat (p_fd p)) \<noteq> None \<and> heap s (channel_at s p) \<noteq> None"
    and "length (poll_reported ps) \<le> n"
  shows "Poller_fillActiveChannels ps n s =
    Done () (s\<lparr>heap := told s (poll_reported ps) (heap s), m_activeChannels := m_activeChannels s @ map (channel_at s) (poll_reported ps)\<rparr>)"
  using assms
proof (induction ps arbitrary: n s)
  case Nil
  then show ?case by (simp add: poll_reported_def)
next
  case (Cons p ps)
  show ?case
  proof (cases "0 < sint (p_revents p)")
    case True
    then have r: "poll_reported (p # ps) = p # poll_reported ps" by (simp add: poll_reported_def)
    obtain c ch where c: "0 \<le> p_fd p" "m_channels s (nat (p_fd p)) = Some c" "channel_at s p = c" "heap s c = Some ch"
      using Cons.prems(1) by (auto simp: r channel_at_def)
    let ?s = "s\<lparr>heap := (heap s)(c \<mapsto> ch\<lparr>m_revents := scast (p_revents p)\<rparr>), m_activeChannels := m_activeChannels s @ [c]\<rparr>"
    have at: "channel_at ?s = channel_at s" by (simp add: channel_at_def fun_eq_iff)
    have told: "told ?s qs h = told s qs h" for qs h by (induction qs arbitrary: h) (simp_all add: at)
    have "Poller_fillActiveChannels ps (n - 1) ?s = Done () (?s\<lparr>heap := told ?s (poll_reported ps) (heap ?s),
        m_activeChannels := m_activeChannels ?s @ map (channel_at ?s) (poll_reported ps)\<rparr>)"
      using Cons.prems c by (intro Cons.IH) (auto simp: r at)
    moreover have "Poller_fillActiveChannels (p # ps) n s = Poller_fillActiveChannels ps (n - 1) ?s"
      using True Cons.prems(2) c by (simp add: r poller_run)
    ultimately show ?thesis using c by (simp add: r told at)
  next
    case False
    then show ?thesis using Cons by (cases "n = 0") (simp_all add: poll_reported_def)
  qed
qed

lemma same_but_revents:
  "ch\<lparr>m_revents := 0\<rparr> = ch'\<lparr>m_revents := 0\<rparr> \<Longrightarrow> m_fd ch = m_fd ch' \<and> m_index ch = m_index ch' \<and> m_events ch = m_events ch'"
  by (cases ch; cases ch') simp

lemma distinct_filter_nth:
  "(\<And>i j. i < j \<Longrightarrow> j < length xs \<Longrightarrow> P (xs ! i) \<Longrightarrow> P (xs ! j) \<Longrightarrow> f (xs ! i) \<noteq> f (xs ! j)) \<Longrightarrow> distinct (map f (filter P xs))"
proof (induction xs)
  case (Cons x xs)
  have "distinct (map f (filter P xs))"
  proof (rule Cons.IH)
    fix i j assume "i < j" "j < length xs" "P (xs ! i)" "P (xs ! j)"
    then show "f (xs ! i) \<noteq> f (xs ! j)" using Cons.prems [of "Suc i" "Suc j"] by simp
  qed
  moreover have "f x \<noteq> f y" if y: "y \<in> set xs" "P x" "P y" for y
  proof -
    from y(1) obtain j where "j < length xs" "y = xs ! j" by (metis in_set_conv_nth)
    then show ?thesis using Cons.prems [of 0 "Suc j"] y by simp
  qed
  ultimately show ?case by auto
qed simp

text \<open>The received events play no part in the invariant.\<close>

lemma poller_ok_revents:
  assumes "poller_ok s" and "m_channels s' = m_channels s" and "map (p_revents_update (\<lambda>_. 0)) (m_pollfds s') = map (p_revents_update (\<lambda>_. 0)) (m_pollfds s)"
    and "\<And>c. map_option (m_revents_update (\<lambda>_. 0)) (heap s' c) = map_option (m_revents_update (\<lambda>_. 0)) (heap s c)"
  shows "poller_ok s'"
proof -
  have l: "length (m_pollfds s') = length (m_pollfds s)" using assms(3) map_eq_imp_length_eq by blast
  have "p_revents_update (\<lambda>_. 0) (m_pollfds s' ! i) = p_revents_update (\<lambda>_. 0) (m_pollfds s ! i)" if "i < length (m_pollfds s)" for i
    using that l arg_cong [OF assms(3), of "\<lambda>l. l ! i"] by simp
  then have p: "p_fd (m_pollfds s' ! i) = p_fd (m_pollfds s ! i)" "p_events (m_pollfds s' ! i) = p_events (m_pollfds s ! i)"
    if "i < length (m_pollfds s)" for i
    using that by (metis pollfd.select_convs(1,2) pollfd.update_convs(3) pollfd.surjective)+
  have h: "\<exists>ch'. heap s' c = Some ch' \<and> m_fd ch' = m_fd ch \<and> m_index ch' = m_index ch \<and> m_events ch' = m_events ch" if "heap s c = Some ch" for c ch
    using assms(4) [of c] that by (cases "heap s' c") (auto dest: same_but_revents)
  show ?thesis
    unfolding poller_ok_def
  proof (intro conjI allI impI)
    fix fd c assume "m_channels s' fd = Some c"
    then obtain ch where "heap s c = Some ch" "entry_fits s fd ch" using poller_okD(3) [OF assms(1), of fd c] assms(2) by auto
    moreover from h [OF this(1)] obtain ch' where "heap s' c = Some ch'" "m_fd ch' = m_fd ch" "m_index ch' = m_index ch" "m_events ch' = m_events ch"
      by blast
    ultimately show "\<exists>ch. heap s' c = Some ch \<and> entry_fits s' fd ch" using l p by (intro exI [of _ ch']) (simp add: entry_fits_def Let_def)
  next
    fix i assume "i < length (m_pollfds s')"
    then obtain fd c ch where *: "m_channels s fd = Some c" "heap s c = Some ch" "m_index ch = int i"
      using poller_okD(2) [OF assms(1), of i] l by auto
    then show "\<exists>fd c ch. m_channels s' fd = Some c \<and> heap s' c = Some ch \<and> m_index ch = int i"
      using h [OF *(2)] assms(2) by auto
  qed
qed

text \<open>The descriptors of the table are distinct, so are the channels it names.\<close>

lemma channels_distinct:
  assumes "poller_ok s" and "\<And>p. p \<in> set (poll_reported (m_pollfds s)) \<Longrightarrow> 0 \<le> p_fd p"
  shows "distinct (map (channel_at s) (poll_reported (m_pollfds s)))"
    and "p \<in> set (poll_reported (m_pollfds s)) \<Longrightarrow> \<exists>c ch. m_channels s (nat (p_fd p)) = Some c \<and> heap s c = Some ch \<and> int (m_fd ch) = p_fd p \<and>
      m_pollfds s ! nat (m_index ch) = p"
proof -
  have at: "\<exists>c ch. m_channels s (nat (p_fd p)) = Some c \<and> heap s c = Some ch \<and> int (m_fd ch) = p_fd p \<and> m_index ch = int i"
    if "i < length (m_pollfds s)" "p = m_pollfds s ! i" "0 \<le> p_fd p" for i p
  proof -
    from poller_okD(2) [OF assms(1) that(1)] obtain fd c ch where *: "m_channels s fd = Some c" "heap s c = Some ch" "m_index ch = int i" by blast
    from poller_okD(1) [OF assms(1) *(1,2)] * that have "p_fd p = int fd" "m_fd ch = fd" by (auto simp: entry_fits_def Let_def)
    with * show ?thesis by auto
  qed
  show "\<exists>c ch. m_channels s (nat (p_fd p)) = Some c \<and> heap s c = Some ch \<and> int (m_fd ch) = p_fd p \<and> m_pollfds s ! nat (m_index ch) = p"
    if p: "p \<in> set (poll_reported (m_pollfds s))"
  proof -
    from p have "p \<in> set (m_pollfds s)" by (simp add: poll_reported_def)
    then obtain i where i: "i < length (m_pollfds s)" "p = m_pollfds s ! i" by (metis in_set_conv_nth)
    with at [OF i assms(2) [OF p]] show ?thesis by auto
  qed
  have "channel_at s (m_pollfds s ! i) \<noteq> channel_at s (m_pollfds s ! j)"
    if "i < j" "j < length (m_pollfds s)" "0 \<le> p_fd (m_pollfds s ! i)" "0 \<le> p_fd (m_pollfds s ! j)" for i j
    using at [of i "m_pollfds s ! i"] at [of j "m_pollfds s ! j"] that by (auto simp: channel_at_def)
  moreover have "0 \<le> p_fd (m_pollfds s ! i)" if "i < length (m_pollfds s)" "0 < sint (p_revents (m_pollfds s ! i))" for i
    using that by (intro assms(2)) (auto simp: poll_reported_def)
  ultimately show "distinct (map (channel_at s) (poll_reported (m_pollfds s)))"
    unfolding poll_reported_def by (intro distinct_filter_nth) simp
qed

end
