(* ===== verification/Poller_Properties.thy ===== *)
theory Poller_Properties
  imports Poller Net_Reference
begin

text \<open>
  The properties of the poller over \<open>poll(2)\<close>.  \<open>polled_well\<close> is what the manual says of an answer: it counts the entries with
  events, and leaves entries with a negative descriptor alone.
\<close>

definition polled_well :: "pollfd list \<Rightarrow> nat \<Rightarrow> 16 word list \<Rightarrow> bool" where
  "polled_well ps n rs \<longleftrightarrow> length rs = length ps \<and> n = length (filter (\<lambda>r. r \<noteq> 0) rs) \<and>
     list_all (\<lambda>(p, r). p_fd p < 0 \<longrightarrow> r = 0) (zip ps rs)"

definition with_answers :: "pollfd list \<Rightarrow> 16 word list \<Rightarrow> pollfd list" where
  "with_answers ps rs = map (\<lambda>(p, r). p\<lparr>p_revents := r\<rparr>) (zip ps rs)"

lemma reported_count: "length rs = length ps \<Longrightarrow> length (poll_reported (with_answers ps rs)) \<le> length (filter (\<lambda>r. r \<noteq> 0) rs)"
  by (induction rs ps rule: list_induct2) (auto simp: poll_reported_def with_answers_def)

lemma reported_fd:
  assumes "polled_well ps n rs" and "p \<in> set (poll_reported (with_answers ps rs))"
  shows "0 \<le> p_fd p"
proof -
  have "r \<noteq> 0" if "0 < sint r" for r :: "16 word" using that by auto
  with assms show ?thesis by (fastforce simp: poll_reported_def with_answers_def polled_well_def list_all_iff)
qed

lemma with_answers_same: "length rs = length ps \<Longrightarrow> map (p_revents_update (\<lambda>_. 0)) (with_answers ps rs) = map (p_revents_update (\<lambda>_. 0)) ps"
  by (induction rs ps rule: list_induct2) (simp_all add: with_answers_def)

lemma fill_none: "Poller_fillActiveChannels ps 0 = ret ()"
  by (cases ps) simp_all

lemma poll_run:
  assumes "poller_ok s" and "m_pollfds s \<noteq> []" and "K (m_pollfds s) (kernel s) = (Some (n, rs), w)" and "polled_well (m_pollfds s) n rs"
  defines "ps \<equiv> poll_reported (with_answers (m_pollfds s) rs)"
  shows "\<exists>t s'. Poller_poll S K s = Done t s' \<and> poller_ok s' \<and> m_pollfds s' = with_answers (m_pollfds s) rs \<and> m_channels s' = m_channels s \<and>
    m_activeChannels s' = m_activeChannels s @ map (channel_at s) ps \<and>
    list_all (\<lambda>p. (\<exists>ch. heap s' (channel_at s p) = Some ch \<and> int (m_fd ch) = p_fd p \<and> m_revents ch = scast (p_revents p)) \<and>
      (\<exists>q. entry_of s (nat (p_fd p)) = Some q \<and> p_fd q = p_fd p)) ps"
proof -
  obtain t w' where t: "sys_now S w = (t, w')" by (cases "sys_now S w")
  have len: "length rs = length (m_pollfds s)" "n = length (filter (\<lambda>r. r \<noteq> 0) rs)" using assms(4) by (simp_all add: polled_well_def)
  let ?s = "s\<lparr>m_pollfds := with_answers (m_pollfds s) rs, kernel := w'\<rparr>"
  let ?t = "?s\<lparr>heap := told ?s ps (heap ?s), m_activeChannels := m_activeChannels ?s @ map (channel_at ?s) ps\<rparr>"
  have ok: "poller_ok ?s" by (rule poller_ok_revents [OF assms(1)]) (simp_all add: with_answers_same len)
  have fd: "0 \<le> p_fd p" if "p \<in> set (poll_reported (m_pollfds ?s))" for p using that by (intro reported_fd [OF assms(4)]) simp
  note d = channels_distinct [OF ok fd]
  have at: "channel_at ?s = channel_at s" by (simp add: channel_at_def fun_eq_iff)
  have "Poller_fillActiveChannels (m_pollfds ?s) n ?s = Done () ?t"
    unfolding ps_def using fill_run [of "m_pollfds ?s" ?s n] d(2) reported_count [OF len(1)] fd len(2) by (fastforce simp: channel_at_def)
  then have "Poller_poll S K s = Done t ?t"
    using assms(2,3) t by (cases "n = 0") (simp_all add: Poller_poll_def poll_call_def now_def run with_answers_def fill_none)
  moreover have "poller_ok ?t" by (rule poller_ok_revents [OF ok]) (simp_all add: told_same)
  moreover have "(\<exists>ch. heap ?t (channel_at s p) = Some ch \<and> int (m_fd ch) = p_fd p \<and> m_revents ch = scast (p_revents p)) \<and>
    (\<exists>q. entry_of s (nat (p_fd p)) = Some q \<and> p_fd q = p_fd p)" if "p \<in> set ps" for p
  proof -
    from that d(2) [of p] obtain c ch where c: "m_channels s (nat (p_fd p)) = Some c" "heap s c = Some ch" "int (m_fd ch) = p_fd p"
      and p: "with_answers (m_pollfds s) rs ! nat (m_index ch) = p"
      by (auto simp: ps_def)
    have "nat (m_index ch) < length (m_pollfds s)" using poller_okD(1) [OF assms(1) c(1,2)] by (simp add: entry_fits_def)
    then have "p_fd (m_pollfds s ! nat (m_index ch)) = p_fd p" using p len by (auto simp: with_answers_def)
    with c have "\<exists>q. entry_of s (nat (p_fd p)) = Some q \<and> p_fd q = p_fd p" by (simp add: entry_of_def)
    with c show ?thesis using told_at [of ?s ps p "heap ?s"] d(1) that by (auto simp: at ps_def channel_at_def)
  qed
  ultimately show ?thesis by (intro exI [of _ t] exI [of _ ?t]) (simp add: at list_all_iff)
qed

text \<open>Two channels, 5 for descriptor 10 and 6 for descriptor 11.\<close>

definition sample_polling :: "kern polling" where
  "sample_polling = \<lparr>kernel = \<lparr>k_interest = (\<lambda>_. None), k_ready = [], k_time = 1000, k_room = []\<rparr>, owner = 7, thread = 7,
     heap = [5 \<mapsto> \<lparr>m_fd = 10, m_events = kReadEvent, m_revents = 0, m_index = 0, m_eventHandling = False\<rparr>,
       6 \<mapsto> \<lparr>m_fd = 11, m_events = kNoneEvent, m_revents = 0, m_index = 1, m_eventHandling = False\<rparr>, 8 \<mapsto> new_channel False 12],
     m_channels = [10 \<mapsto> 5, 11 \<mapsto> 6], m_eventList = 0, m_activeChannels = [],
     m_pollfds = [\<lparr>p_fd = 10, p_events = 3, p_revents = 0\<rparr>, \<lparr>p_fd = -12, p_events = 0, p_revents = 0\<rparr>]\<rparr>"

lemma sample_polling_ok: "poller_ok sample_polling" "isInLoopThread sample_polling"
proof -
  have ch: "m_channels sample_polling fd = Some c \<longleftrightarrow> fd = 10 \<and> c = 5 \<or> fd = 11 \<and> c = 6" for fd c by (auto simp: sample_polling_def)
  have i: "i < length (m_pollfds sample_polling) \<longleftrightarrow> i = 0 \<or> i = 1" for i by (auto simp: sample_polling_def)
  show "poller_ok sample_polling"
    unfolding poller_ok_def ch
  proof (intro conjI allI impI)
    fix fd c :: nat assume "fd = 10 \<and> c = 5 \<or> fd = 11 \<and> c = 6"
    then show "\<exists>ch. heap sample_polling c = Some ch \<and> entry_fits sample_polling fd ch"
      by (auto simp: sample_polling_def entry_fits_def event_masks poll_bits)
  next
    fix k assume "k < length (m_pollfds sample_polling)"
    then consider "k = 0" | "k = 1" by (auto simp: i)
    then show "\<exists>fd c ch. (fd = 10 \<and> c = 5 \<or> fd = 11 \<and> c = 6) \<and> heap sample_polling c = Some ch \<and> m_index ch = int k"
      by cases (rule exI [of _ 10], rule exI [of _ 5], simp add: sample_polling_def,
        rule exI [of _ 11], rule exI [of _ 6], simp add: sample_polling_def)
  qed
qed (simp add: isInLoopThread_def sample_polling_def)



text \<open>
  Two ways in which a channel goes wrong with this poller, and not with \<open>EPoller\<close>.  A channel that has been switched off and then wants
  events again keeps its negative descriptor, and no answer of \<open>poll\<close> makes it active; a channel that has been removed keeps its index, and
  the assertion fails when it is used again.
\<close>

theorem poller_loses_channels:
  assumes "poller_ok s" and "isInLoopThread s" and "heap s c = Some ch" and "m_channels s (m_fd ch) = Some c" and "f kNoneEvent \<noteq> kNoneEvent"
  shows "\<exists>s1 s2. polled_events (\<lambda>e. kNoneEvent) c s = Done () s1 \<and> polled_events f c s1 = Done () s2 \<and>
    (\<exists>ch2. heap s2 c = Some ch2 \<and> m_events ch2 = f kNoneEvent) \<and> p_fd (the (entry_of s2 (m_fd ch))) = - int (m_fd ch) - 1 \<and>
    (\<forall>K S n rs w t s3. K (m_pollfds s2) (kernel s2) = (Some (n, rs), w) \<and> polled_well (m_pollfds s2) n rs \<and> Poller_poll S K s2 = Done t s3 \<and>
      c \<notin> set (m_activeChannels s2) \<longrightarrow> c \<notin> set (m_activeChannels s3)) \<and>
    (\<exists>s4. Poller_removeChannel c s1 = Done () s4 \<and> polled_events f c s4 = Stuck AssertFailed)"
proof -
  let ?fd = "m_fd ch"
  obtain s1 p1 where s1: "polled_events (\<lambda>e. kNoneEvent) c s = Done () s1" "poller_ok s1" "isInLoopThread s1"
    "heap s1 c = Some (ch\<lparr>m_events := kNoneEvent\<rparr>)" "m_channels s1 ?fd = Some c" "entry_of s1 ?fd = Some p1" "p_fd p1 = - int ?fd - 1"
    using polled_events_known [OF assms(1,2,4,3), of "\<lambda>e. kNoneEvent"] assms(4) by auto
  obtain s2 p2 where s2: "polled_events f c s1 = Done () s2" "poller_ok s2" "heap s2 c = Some (ch\<lparr>m_events := f kNoneEvent\<rparr>)"
    "m_channels s2 ?fd = Some c" "entry_of s2 ?fd = Some p2" "p_fd p2 = - int ?fd - 1"
    using polled_events_known [OF s1(2,3,5,4), of f] s1(5-7) assms(5) by auto
  have ne: "m_pollfds s2 \<noteq> []" using poller_okD(1) [OF s2(2,4,3)] by (auto simp: entry_fits_def)
  have quiet: "c \<notin> set (m_activeChannels s3)"
    if "K (m_pollfds s2) (kernel s2) = (Some (n, rs), w)" "polled_well (m_pollfds s2) n rs" "Poller_poll S K s2 = Done t s3" "c \<notin> set (m_activeChannels s2)"
    for K S n rs w t s3
  proof
    note h = that
    let ?ps = "poll_reported (with_answers (m_pollfds s2) rs)"
    assume "c \<in> set (m_activeChannels s3)"
    moreover note r = poll_run [where S = S and K = K and s = s2, OF s2(2) ne h(1,2)]
    ultimately obtain p where p: "p \<in> set ?ps" "channel_at s2 p = c" "entry_of s2 (nat (p_fd p)) \<noteq> None"
      "p_fd (the (entry_of s2 (nat (p_fd p)))) = p_fd p"
      using h(3,4) by (auto simp: list_all_iff)
    obtain c' ch' where "m_channels s2 (nat (p_fd p)) = Some c'" "heap s2 c' = Some ch'"
      using p(3) by (auto simp: entry_of_def split: option.splits)
    with p(2) poller_okD(1) [OF s2(2) this] s2(3) have "nat (p_fd p) = ?fd" by (auto simp: channel_at_def entry_fits_def)
    with p(4) s2(5,6) reported_fd [OF h(2) p(1)] show False by simp
  qed
  obtain s4 where s4: "Poller_removeChannel c s1 = Done () s4" "isInLoopThread s4" "heap s4 c = Some (ch\<lparr>m_events := kNoneEvent\<rparr>)" "m_channels s4 ?fd = None"
    using Poller_removeChannel_ok [OF s1(2,3,5,4)] by (auto simp: isNoneEvent_def)
  have "0 \<le> m_index ch" using poller_okD(1) [OF assms(1,4,3)] by (simp add: entry_fits_def)
  then have "polled_events f c s4 = Stuck AssertFailed"
    using s4(2-4) by (simp add: polled_events_def Poller_updateChannel_def poller_run isInLoopThread_def)
  with s1(1) s2 s4(1) quiet show ?thesis by (intro exI [of _ s1] exI [of _ s2]) auto
qed


theorem poller_loses_channels_witness:
  "\<exists>s1 s2 s4. polled_events (\<lambda>e. kNoneEvent) 5 sample_polling = Done () s1 \<and>
    polled_events (\<lambda>e. e OR kReadEvent) 5 s1 = Done () s2 \<and> p_fd (the (entry_of s2 10)) = -11 \<and>
    Poller_removeChannel 5 s1 = Done () s4 \<and> polled_events (\<lambda>e. e OR kReadEvent) 5 s4 = Stuck AssertFailed"
proof -
  obtain ch5 where ch: "heap sample_polling 5 = Some ch5" "m_fd ch5 = 10" "m_channels sample_polling 10 = Some 5"
    by (simp add: sample_polling_def)
  have "kNoneEvent OR kReadEvent \<noteq> kNoneEvent" by (simp add: event_masks poll_bits)
  from poller_loses_channels [OF sample_polling_ok ch(1), of "\<lambda>e. e OR kReadEvent", OF _ this] ch(2,3) show ?thesis by auto
qed

text \<open>
  A poll makes the channels active whose entries were answered with events, in the order of the table, each with the events its entry was
  answered with, and the table stays right.
\<close>

theorem poller_reports_answers:
  assumes "poller_ok s" and "m_pollfds s \<noteq> []" and "K (m_pollfds s) (kernel s) = (Some (n, rs), w)" and "polled_well (m_pollfds s) n rs"
  shows "\<exists>t s'. Poller_poll S K s = Done t s' \<and> poller_ok s' \<and> map p_revents (m_pollfds s') = rs \<and>
    m_activeChannels s' = m_activeChannels s @ map (channel_at s) (poll_reported (m_pollfds s')) \<and>
    list_all (\<lambda>p. \<exists>ch. heap s' (channel_at s p) = Some ch \<and> int (m_fd ch) = p_fd p \<and> m_revents ch = scast (p_revents p)) (poll_reported (m_pollfds s'))"
proof -
  have "map p_revents (with_answers ps rs) = rs" if "length rs = length ps" for ps and rs :: "16 word list"
    using that by (induction rs ps rule: list_induct2) (simp_all add: with_answers_def)
  with assms(4) poll_run [of s K n rs w S, OF assms] show ?thesis by (auto simp: list_all_iff polled_well_def)
qed

theorem poller_reports_answers_witness:
  "\<exists>t s'. Poller_poll ref_sys (\<lambda>ps w. (Some (1, [1, 0]), w)) sample_polling = Done t s' \<and> map p_revents (m_pollfds s') = [1, 0] \<and>
    m_activeChannels s' = map (channel_at sample_polling) (poll_reported (m_pollfds s'))"
proof -
  have "polled_well (m_pollfds sample_polling) 1 [1, 0]" "m_pollfds sample_polling \<noteq> []" "m_activeChannels sample_polling = []"
    by (simp_all add: polled_well_def sample_polling_def)
  with poller_reports_answers [of sample_polling "\<lambda>ps w. (Some (1, [1, 0]), w)" 1 "[1, 0]" "kernel sample_polling" ref_sys, OF sample_polling_ok(1)]
  show ?thesis by auto
qed

end
