(* ===== verification/Logger.thy ===== *)
theory Logger
  imports Prelude
begin

text \<open>
  \<open>project/m_netlib/Log/mars_logger\<close>: the one logger of the process, set up from the environment, and what a log statement writes where.
  The \<open>fmt\<close> library is a parameter, \<open>fmt_format\<close>, of which \<open>fmt_library\<close> states how the three texts of the logger come out; the
  environment, the clock and the file system are the record \<open>'f os\<close>.  A log statement is one step (the two writes are under the mutex).
\<close>

datatype LogLevel = FATAL | ERROR | WARN | INFO | DEBUG | TRACE

record LoggerConfig =
  logSwitch :: bool
  logTerminalSwitch :: bool
  logTerminalLevel :: string
  logFileSwitch :: bool
  logFileLevel :: string
  logFileName :: string
  logFilePath :: string
  details :: bool
  time_shown :: bool

text \<open>What the streams have been given, and the file if it could be opened; a write to a stream that is not open is dropped.\<close>

record 'f logger =
  loggerConfig :: LoggerConfig
  fileCoutMap :: "LogLevel \<Rightarrow> bool option"
  terminalCoutMap :: "LogLevel \<Rightarrow> bool option"
  output_file :: "string option"
  file_text :: string
  cout :: string
  cerr :: string
  disk :: 'f

text \<open>\<open>Inl\<close> is the message of an exception.\<close>

record 'f os =
  os_getenv :: "string \<Rightarrow> string option"
  os_exists :: "string \<Rightarrow> 'f \<Rightarrow> string + bool"
  os_create_directories :: "string \<Rightarrow> 'f \<Rightarrow> (string + bool) \<times> 'f"
  os_open :: "string \<Rightarrow> 'f \<Rightarrow> bool \<times> 'f"
  os_name_time :: "'f \<Rightarrow> string"
  os_output_time :: "'f \<Rightarrow> string"

datatype fmt_arg = FStr string | FInt int

type_synonym fmt = "string \<Rightarrow> fmt_arg list \<Rightarrow> string + string"

section \<open>Set-up\<close>

definition is_TRUE :: "string option \<Rightarrow> bool" where
  "is_TRUE v \<longleftrightarrow> v = Some ''TRUE''"

definition or_empty :: "string option \<Rightarrow> string" where
  "or_empty v = (case v of None \<Rightarrow> '''' | Some x \<Rightarrow> x)"

definition level_map :: "string \<Rightarrow> LogLevel \<Rightarrow> bool option" where
  "level_map levels = [TRACE \<mapsto> CHR ''T'' \<in> set levels, DEBUG \<mapsto> CHR ''D'' \<in> set levels, INFO \<mapsto> CHR ''I'' \<in> set levels,
     WARN \<mapsto> CHR ''W'' \<in> set levels, ERROR \<mapsto> CHR ''E'' \<in> set levels, FATAL \<mapsto> CHR ''F'' \<in> set levels]"

definition bindFileOutPutLevelMap :: "string \<Rightarrow> ('f logger, unit) prog" where
  "bindFileOutPutLevelMap levels = modify (\<lambda>s. s\<lparr>fileCoutMap := fileCoutMap s ++ level_map levels\<rparr>)"

definition bindTerminalOutPutLevelMap :: "string \<Rightarrow> ('f logger, unit) prog" where
  "bindTerminalOutPutLevelMap levels = modify (\<lambda>s. s\<lparr>terminalCoutMap := terminalCoutMap s ++ level_map levels\<rparr>)"

definition to_cout :: "string \<Rightarrow> ('f logger, unit) prog" where
  "to_cout t = modify (\<lambda>s. s\<lparr>cout := cout s @ t\<rparr>)"

definition to_cerr :: "string \<Rightarrow> ('f logger, unit) prog" where
  "to_cerr t = modify (\<lambda>s. s\<lparr>cerr := cerr s @ t\<rparr>)"

text \<open>\<open>fs::path\<close>: the operator \<open>/\<close>, \<open>parent_path\<close> and the path_quoted output.\<close>

definition path_append :: "string \<Rightarrow> string \<Rightarrow> string" where
  "path_append p f = (if f \<noteq> [] \<and> hd f = CHR ''/'' then f else if p = [] \<or> last p = CHR ''/'' then p @ f else p @ ''/'' @ f)"

definition parent_path :: "string \<Rightarrow> string" where
  "parent_path p = (let r = dropWhile (\<lambda>c. c \<noteq> CHR ''/'') (rev p); d = dropWhile (\<lambda>c. c = CHR ''/'') r in
     if r = [] then '''' else if d = [] then ''/'' else rev d)"

definition path_quoted :: "string \<Rightarrow> string" where
  "path_quoted p = CHR 0x22 # concat (map (\<lambda>c. if c = CHR 0x22 \<or> c = CHR 0x5C then [CHR 0x5C, c] else [c]) p) @ [CHR 0x22]"

definition line_end :: string where
  "line_end = [CHR 0x0A]"

text \<open>\<open>false\<close> with a message on the error output, whatever goes wrong.\<close>

definition open_file :: "'f os \<Rightarrow> string \<Rightarrow> ('f logger, bool) prog" where
  "open_file X p = (\<lambda>s. case os_open X p (disk s) of
     (True, d) \<Rightarrow> Done True (s\<lparr>output_file := Some p, disk := d\<rparr>)
   | (False, d) \<Rightarrow> Done False (s\<lparr>cerr := cerr s @ ''Failed to create file: '' @ path_quoted p @ line_end, disk := d\<rparr>))"

definition createFile :: "'f os \<Rightarrow> string \<Rightarrow> string \<Rightarrow> ('f logger, bool) prog" where
  "createFile X path fileName = (let logFilePath = path_append path fileName; parent = parent_path logFilePath in
     if parent = '''' then open_file X logFilePath
     else bnd (reads disk) (\<lambda>d. case os_exists X parent d of
       Inl e \<Rightarrow> andthen (to_cerr (''Exception: '' @ e @ line_end)) (ret False)
     | Inr True \<Rightarrow> open_file X logFilePath
     | Inr False \<Rightarrow> andthen (to_cout (''Creating directories: '' @ path_quoted parent @ line_end))
         (case os_create_directories X parent d of (r, d') \<Rightarrow> andthen (modify (\<lambda>s. s\<lparr>disk := d'\<rparr>)) (case r of
            Inl e \<Rightarrow> andthen (to_cerr (''Exception: '' @ e @ line_end)) (ret False)
          | Inr True \<Rightarrow> open_file X logFilePath
          | Inr False \<Rightarrow> andthen (to_cerr (''Failed to create directories: '' @ path_quoted parent @ line_end)) (ret False)))))"

definition getLogFileName :: "'f os \<Rightarrow> 'f \<Rightarrow> string" where
  "getLogFileName X d = (case os_getenv X ''MLOG_FILE_NAME'' of None \<Rightarrow> '''' | Some n \<Rightarrow>
     if n \<noteq> '''' then n @ os_name_time X d @ ''.log'' else '''')"

definition config_of :: "'f os \<Rightarrow> 'f \<Rightarrow> LoggerConfig" where
  "config_of X d = \<lparr>
     logSwitch = is_TRUE (os_getenv X ''MLOG_SWITCH''),
     logTerminalSwitch = is_TRUE (os_getenv X ''MLOG_TERMINAL_SWITCH''),
     logTerminalLevel = or_empty (os_getenv X ''MLOG_TERMINAL_LEVEL''),
     logFileSwitch = is_TRUE (os_getenv X ''MLOG_FILE_SWITCH''),
     logFileLevel = or_empty (os_getenv X ''MLOG_FILE_LEVEL''),
     logFileName = getLogFileName X d,
     logFilePath = or_empty (os_getenv X ''MLOG_FILE_PATH''),
     details = is_TRUE (os_getenv X ''MLOG_DETAILS''),
     time_shown = is_TRUE (os_getenv X ''MLOG_TIME'')\<rparr>"

definition initLogConfig :: "'f os \<Rightarrow> ('f logger, unit) prog" where
  "initLogConfig X = bnd (reads disk) (\<lambda>d. let c = config_of X d in
     andthen (modify (\<lambda>s. s\<lparr>loggerConfig := c\<rparr>))
     (andthen (bindFileOutPutLevelMap (logFileLevel c))
     (andthen (bindTerminalOutPutLevelMap (logTerminalLevel c))
     (if logSwitch c \<and> logFileSwitch c then
        bnd (createFile X (logFilePath c) (logFileName c)) (\<lambda>ok.
        if ok then ret () else to_cerr (''Log work path creation failed'' @ line_end))
      else ret ()))))"

text \<open>\<open>getInstance\<close>: the logger is made by the first log statement.\<close>

definition new_logger :: "'f \<Rightarrow> 'f logger" where
  "new_logger d = \<lparr>loggerConfig = \<lparr>logSwitch = False, logTerminalSwitch = False, logTerminalLevel = '''', logFileSwitch = False,
     logFileLevel = '''', logFileName = '''', logFilePath = '''', details = False, time_shown = False\<rparr>,
     fileCoutMap = Map.empty, terminalCoutMap = Map.empty, output_file = None, file_text = '''', cout = '''', cerr = '''', disk = d\<rparr>"

section \<open>A log statement\<close>

text \<open>\<open>m[level]\<close> enters \<open>false\<close> for a level the map does not have.\<close>

definition level_on :: "LogLevel \<Rightarrow> (LogLevel \<Rightarrow> bool option) \<Rightarrow> bool \<times> (LogLevel \<Rightarrow> bool option)" where
  "level_on l m = (case m l of None \<Rightarrow> (False, m(l \<mapsto> False)) | Some b \<Rightarrow> (b, m))"

definition ifFileOutPut :: "LogLevel \<Rightarrow> ('f logger, bool) prog" where
  "ifFileOutPut l = (\<lambda>s. if logFileSwitch (loggerConfig s)
     then case level_on l (fileCoutMap s) of (b, m) \<Rightarrow> Done b (s\<lparr>fileCoutMap := m\<rparr>) else Done False s)"

definition ifTerminalOutPut :: "LogLevel \<Rightarrow> ('f logger, bool) prog" where
  "ifTerminalOutPut l = (\<lambda>s. if logTerminalSwitch (loggerConfig s)
     then case level_on l (terminalCoutMap s) of (b, m) \<Rightarrow> Done b (s\<lparr>terminalCoutMap := m\<rparr>) else Done False s)"

definition getLogLevelStr :: "LogLevel \<Rightarrow> string" where
  "getLogLevelStr l = (case l of FATAL \<Rightarrow> ''FATAL'' | ERROR \<Rightarrow> ''ERROR'' | WARN \<Rightarrow> ''WARN '' | INFO \<Rightarrow> ''INFO '' | DEBUG \<Rightarrow> ''DEBUG'' | TRACE \<Rightarrow> ''TRACE'')"

definition LogHead :: "'f os \<Rightarrow> fmt \<Rightarrow> 'f logger \<Rightarrow> LogLevel \<Rightarrow> string + string" where
  "LogHead X fmt_format s lvl = (if \<not> time_shown (loggerConfig s) then fmt_format ''[{:5}] '' [FStr (getLogLevelStr lvl)]
     else fmt_format ''[{}][{:5}] '' [FStr (os_output_time X (disk s)), FStr (getLogLevelStr lvl)])"

definition LogDetail :: "fmt \<Rightarrow> 'f logger \<Rightarrow> string \<Rightarrow> string \<Rightarrow> int \<Rightarrow> string + string" where
  "LogDetail fmt_format s file_name func_name line_no = (if \<not> details (loggerConfig s) then Inr ''''
     else fmt_format '' - [{} {}:{}]'' [FStr file_name, FStr func_name, FInt line_no])"

definition ansi :: "string \<Rightarrow> string" where
  "ansi code = CHR 0x1B # ''['' @ code @ ''m''"

definition colorizeLog :: "LogLevel \<Rightarrow> string \<Rightarrow> string" where
  "colorizeLog level log = (case level of FATAL \<Rightarrow> ansi ''31'' @ log @ ansi ''0'' | ERROR \<Rightarrow> ansi ''31'' @ log @ ansi ''0''
     | WARN \<Rightarrow> ansi ''33'' @ log @ ansi ''0'' | INFO \<Rightarrow> ansi ''37'' @ log @ ansi ''0'' | DEBUG \<Rightarrow> ansi ''37'' @ log @ ansi ''0''
     | TRACE \<Rightarrow> ansi ''37'' @ log @ ansi ''0'')"

text \<open>The three texts, or the message of the first exception.\<close>

definition concat_texts :: "string + string \<Rightarrow> string + string \<Rightarrow> string + string \<Rightarrow> string + string" where
  "concat_texts a b c = (case a of Inl e \<Rightarrow> Inl e | Inr x \<Rightarrow> (case b of Inl e \<Rightarrow> Inl e | Inr y \<Rightarrow> (case c of Inl e \<Rightarrow> Inl e | Inr z \<Rightarrow> Inr (x @ y @ z))))"

definition log_impl :: "'f os \<Rightarrow> fmt \<Rightarrow> LogLevel \<Rightarrow> string \<Rightarrow> string \<Rightarrow> string \<Rightarrow> int \<Rightarrow> fmt_arg list \<Rightarrow> ('f logger, unit) prog" where
  "log_impl X fmt_format level fm file_name func_name line_no args = bnd (reads loggerConfig) (\<lambda>c.
     if \<not> logSwitch c then ret () else
     bnd (ifTerminalOutPut level) (\<lambda>Terminal. bnd (ifFileOutPut level) (\<lambda>File.
     if \<not> Terminal \<and> \<not> File then ret () else
     bnd (reads (\<lambda>s. concat_texts (LogHead X fmt_format s level) (fmt_format fm args) (LogDetail fmt_format s file_name func_name line_no))) (\<lambda>t.
     case t of
       Inl e \<Rightarrow> to_cerr (ansi ''31'' @ ''Error in log format: '' @ e @ '' in '' @ file_name @ '' at '' @ func_name @ '' line '' @ itos line_no @ ansi ''0'' @ line_end)
     | Inr log \<Rightarrow>
         andthen (if Terminal then to_cout (colorizeLog level log @ line_end) else ret ())
         (if File then modify (\<lambda>s. if output_file s = None then s else s\<lparr>file_text := file_text s @ log @ line_end\<rparr>) else ret ())))))"

section \<open>What is written\<close>

definition padded :: "nat \<Rightarrow> string \<Rightarrow> string" where
  "padded n t = t @ replicate (n - length t) (CHR '' '')"

locale fmt_library =
  fixes fmt_format :: fmt
  assumes head_text: "fmt_format ''[{:5}] '' [FStr l] = Inr (''['' @ padded 5 l @ ''] '')"
    and timed_head_text: "fmt_format ''[{}][{:5}] '' [FStr t, FStr l] = Inr (''['' @ t @ ''][''@ padded 5 l @ ''] '')"
    and detail_text: "fmt_format '' - [{} {}:{}]'' [FStr f, FStr g, FInt n] = Inr ('' - ['' @ f @ '' '' @ g @ '':'' @ itos n @ '']'')"

text \<open>Formatting as the library does it, as far as the logger needs it: \<open>{}\<close> and \<open>{:5}\<close>.\<close>

definition arg_text :: "fmt_arg \<Rightarrow> string" where
  "arg_text a = (case a of FStr t \<Rightarrow> t | FInt n \<Rightarrow> itos n)"

fun ref_format :: fmt where
  "ref_format [] args = Inr ''''"
| "ref_format (c # t) args = (if c = CHR ''{'' then (case args of
       [] \<Rightarrow> Inl ''argument not found''
     | a # as \<Rightarrow> if take 1 t = ''}'' then map_sum id ((@) (arg_text a)) (ref_format (drop 1 t) as)
         else if take 3 t = '':5}'' then map_sum id ((@) (padded 5 (arg_text a))) (ref_format (drop 3 t) as)
         else Inl ''invalid format string'')
     else map_sum id ((#) c) (ref_format t args))"

interpretation ref_fmt: fmt_library ref_format
  by unfold_locales (simp_all add: arg_text_def)

definition letter :: "LogLevel \<Rightarrow> char" where
  "letter l = (case l of FATAL \<Rightarrow> CHR ''F'' | ERROR \<Rightarrow> CHR ''E'' | WARN \<Rightarrow> CHR ''W'' | INFO \<Rightarrow> CHR ''I'' | DEBUG \<Rightarrow> CHR ''D'' | TRACE \<Rightarrow> CHR ''T'')"

definition on_terminal :: "'f os \<Rightarrow> LogLevel \<Rightarrow> bool" where
  "on_terminal X l \<longleftrightarrow> os_getenv X ''MLOG_SWITCH'' = Some ''TRUE'' \<and> os_getenv X ''MLOG_TERMINAL_SWITCH'' = Some ''TRUE'' \<and>
     (\<exists>ls. os_getenv X ''MLOG_TERMINAL_LEVEL'' = Some ls \<and> letter l \<in> set ls)"

definition in_file :: "'f os \<Rightarrow> LogLevel \<Rightarrow> bool" where
  "in_file X l \<longleftrightarrow> os_getenv X ''MLOG_SWITCH'' = Some ''TRUE'' \<and> os_getenv X ''MLOG_FILE_SWITCH'' = Some ''TRUE'' \<and>
     (\<exists>ls. os_getenv X ''MLOG_FILE_LEVEL'' = Some ls \<and> letter l \<in> set ls)"

definition log_line :: "'f os \<Rightarrow> 'f \<Rightarrow> LogLevel \<Rightarrow> string \<Rightarrow> string \<Rightarrow> string \<Rightarrow> int \<Rightarrow> string" where
  "log_line X d l text file_name func_name line_no =
     (if os_getenv X ''MLOG_TIME'' = Some ''TRUE'' then ''['' @ os_output_time X d @ '']'' else '''') @ ''['' @ getLogLevelStr l @ ''] '' @ text @
     (if os_getenv X ''MLOG_DETAILS'' = Some ''TRUE'' then '' - ['' @ file_name @ '' '' @ func_name @ '':'' @ itos line_no @ '']'' else '''')"

text \<open>The logger as the environment asks; the two maps have every level, so no log statement enters one.\<close>

definition configured :: "'f os \<Rightarrow> 'f logger \<Rightarrow> bool" where
  "configured X s \<longleftrightarrow> loggerConfig s \<in> range (config_of X) \<and> fileCoutMap s = level_map (logFileLevel (loggerConfig s)) \<and>
     terminalCoutMap s = level_map (logTerminalLevel (loggerConfig s))"

lemma level_map_at: "level_map ls l = Some (letter l \<in> set ls)"
  by (cases l) (simp_all add: level_map_def letter_def)

lemma level_map_over: "m ++ level_map ls = level_map ls"
  by (rule ext) (simp add: map_add_def level_map_at)

lemma createFile_runs: "\<exists>ok t. createFile X p n s = Done ok t \<and> loggerConfig t = loggerConfig s \<and>
    fileCoutMap t = fileCoutMap s \<and> terminalCoutMap t = terminalCoutMap s"
  by (auto simp: createFile_def open_file_def to_cout_def to_cerr_def Let_def run split: sum.split prod.split bool.split)

lemma configured_at_start: "\<exists>s. initLogConfig X (new_logger d) = Done () s \<and> configured X s"
proof -
  let ?c = "config_of X d"
  let ?s = "(new_logger d)\<lparr>loggerConfig := ?c, fileCoutMap := level_map (logFileLevel ?c), terminalCoutMap := level_map (logTerminalLevel ?c)\<rparr>"
  obtain ok t where t: "createFile X (logFilePath ?c) (logFileName ?c) ?s = Done ok t" "loggerConfig t = ?c"
    "fileCoutMap t = level_map (logFileLevel ?c)" "terminalCoutMap t = level_map (logTerminalLevel ?c)"
    using createFile_runs [of X "logFilePath ?c" "logFileName ?c" ?s] by auto
  have "disk (new_logger d) = d" by (simp add: new_logger_def)
  with t show ?thesis
    by (auto simp: initLogConfig_def configured_def bindFileOutPutLevelMap_def bindTerminalOutPutLevelMap_def level_map_over to_cerr_def run Let_def)
qed

lemma outputs_asked:
  assumes "configured X s"
  shows "logSwitch (loggerConfig s) \<longleftrightarrow> os_getenv X ''MLOG_SWITCH'' = Some ''TRUE''"
    and "details (loggerConfig s) \<longleftrightarrow> os_getenv X ''MLOG_DETAILS'' = Some ''TRUE''"
    and "time_shown (loggerConfig s) \<longleftrightarrow> os_getenv X ''MLOG_TIME'' = Some ''TRUE''"
    and "logSwitch (loggerConfig s) \<Longrightarrow> ifTerminalOutPut l s = Done (on_terminal X l) s"
    and "logSwitch (loggerConfig s) \<Longrightarrow> ifFileOutPut l s = Done (in_file X l) s"
    and "\<not> logSwitch (loggerConfig s) \<Longrightarrow> \<not> on_terminal X l \<and> \<not> in_file X l"
proof -
  obtain d where c: "loggerConfig s = config_of X d" "fileCoutMap s = level_map (logFileLevel (loggerConfig s))"
    "terminalCoutMap s = level_map (logTerminalLevel (loggerConfig s))"
    using assms by (auto simp: configured_def)
  have empty: "k \<in> set (or_empty v) \<longleftrightarrow> (\<exists>ls. v = Some ls \<and> k \<in> set ls)" for k v by (cases v) (simp_all add: or_empty_def)
  have on: "fileCoutMap s l = Some (letter l \<in> set (logFileLevel (loggerConfig s)))"
    "terminalCoutMap s l = Some (letter l \<in> set (logTerminalLevel (loggerConfig s)))" by (simp_all only: c(2,3) level_map_at)
  note c = c(2,3) c(1) config_of_def is_TRUE_def
  show "logSwitch (loggerConfig s) \<longleftrightarrow> os_getenv X ''MLOG_SWITCH'' = Some ''TRUE''" by (simp only: c LoggerConfig.simps)
  then show "logSwitch (loggerConfig s) \<Longrightarrow> ifTerminalOutPut l s = Done (on_terminal X l) s" "logSwitch (loggerConfig s) \<Longrightarrow> ifFileOutPut l s = Done (in_file X l) s"
    "\<not> logSwitch (loggerConfig s) \<Longrightarrow> \<not> on_terminal X l \<and> \<not> in_file X l"
    using on by (simp_all add: ifTerminalOutPut_def ifFileOutPut_def on_terminal_def in_file_def level_on_def c(3-5) empty)
  show "details (loggerConfig s) \<longleftrightarrow> os_getenv X ''MLOG_DETAILS'' = Some ''TRUE''" by (simp only: c LoggerConfig.simps)
  show "time_shown (loggerConfig s) \<longleftrightarrow> os_getenv X ''MLOG_TIME'' = Some ''TRUE''" by (simp only: c LoggerConfig.simps)
qed

text \<open>
  C40. What the logger does is what the environment asks.  It is set up so whatever the file system answers; and a log statement whose text can be
  formatted writes its line, with time, level and place as asked, in its colour to the terminal and plainly to the file, each if that output
  and the level are switched on and the file could be opened; one whose text cannot be formatted writes a message to the error output
  instead, and is no error of the program.
\<close>

theorem logger_writes_what_is_asked:
  assumes "fmt_library fmt_format" and "configured X s"
  shows "(\<forall>d. \<exists>s0. initLogConfig X (new_logger d) = Done () s0 \<and> configured X s0) \<and>
    (\<exists>s'. log_impl X fmt_format l fm file_name func_name n args s = Done () s' \<and> configured X s' \<and> output_file s' = output_file s \<and> disk s' = disk s \<and>
      (case fmt_format fm args of
        Inr t \<Rightarrow> let line = log_line X (disk s) l t file_name func_name n in
          cout s' = cout s @ (if on_terminal X l then colorizeLog l line @ line_end else '''') \<and>
          file_text s' = file_text s @ (if in_file X l \<and> output_file s \<noteq> None then line @ line_end else '''') \<and> cerr s' = cerr s
      | Inl e \<Rightarrow> cout s' = cout s \<and> file_text s' = file_text s \<and>
          (cerr s' = cerr s \<longleftrightarrow> \<not> on_terminal X l \<and> \<not> in_file X l)))"
proof -
  note o = outputs_asked [OF assms(2)]
  have head: "LogHead X fmt_format s l = Inr ((if os_getenv X ''MLOG_TIME'' = Some ''TRUE'' then ''['' @ os_output_time X (disk s) @ '']'' else '''') @
      ''['' @ getLogLevelStr l @ ''] '')"
    using fmt_library.head_text [OF assms(1)] fmt_library.timed_head_text [OF assms(1)] o(3)
    by (cases l) (simp_all add: LogHead_def getLogLevelStr_def padded_def)
  have detail: "LogDetail fmt_format s file_name func_name n = Inr (if os_getenv X ''MLOG_DETAILS'' = Some ''TRUE''
      then '' - ['' @ file_name @ '' '' @ func_name @ '':'' @ itos n @ '']'' else '''')"
    using fmt_library.detail_text [OF assms(1)] o(2) by (simp add: LogDetail_def)
  show ?thesis
  proof (cases "logSwitch (loggerConfig s)")
    case False
    then show ?thesis using configured_at_start assms(2) o(6) by (auto simp: log_impl_def run split: sum.split)
  next
    case True
    note run1 = o(4,5) [OF True]
    show ?thesis
      using configured_at_start [of X] assms(2) True
      by (auto simp: log_impl_def run run1 head detail concat_texts_def to_cerr_def to_cout_def configured_def log_line_def Let_def line_end_def ansi_def
        split: sum.split)
  qed
qed

text \<open>The environment of \<open>docker-compose.yaml\<close>; a file system that has every directory and opens every file.\<close>

definition sample_os :: "unit os" where
  "sample_os = \<lparr>os_getenv = [''MLOG_SWITCH'' \<mapsto> ''TRUE'', ''MLOG_TERMINAL_SWITCH'' \<mapsto> ''TRUE'', ''MLOG_TERMINAL_LEVEL'' \<mapsto> ''IWEF'',
     ''MLOG_FILE_SWITCH'' \<mapsto> ''FALSE'', ''MLOG_FILE_LEVEL'' \<mapsto> ''IWEF'', ''MLOG_FILE_NAME'' \<mapsto> ''test_log'',
     ''MLOG_FILE_PATH'' \<mapsto> ''/home/mars/code/cpp_log/'', ''MLOG_DETAILS'' \<mapsto> ''TRUE'', ''MLOG_TIME'' \<mapsto> ''TRUE''],
     os_exists = (\<lambda>_ _. Inr True), os_create_directories = (\<lambda>_ d. (Inr True, d)), os_open = (\<lambda>_ d. (True, d)),
     os_name_time = (\<lambda>_. ''2024-08-12-10:00:00''), os_output_time = (\<lambda>_. ''2024-08-12 10:00:00'')\<rparr>"


theorem logger_writes_what_is_asked_witness:
  "\<exists>s0 s1. initLogConfig sample_os (new_logger ()) = Done () s0 \<and>
    log_impl sample_os ref_format WARN ''{} left'' ''a.cc'' ''f'' 7 [FStr ''bob''] s0 = Done () s1 \<and>
    cout s1 = cout s0 @ ansi ''33'' @ ''[2024-08-12 10:00:00][WARN ] bob left - [a.cc f:7]'' @ ansi ''0'' @ line_end"
proof -
  obtain s0 where s0: "initLogConfig sample_os (new_logger ()) = Done () s0" "configured sample_os s0"
    using configured_at_start [of sample_os "()"] by (elim exE conjE)
  have f: "ref_format ''{} left'' [FStr ''bob''] = Inr ''bob left''" by code_simp
  have on: "on_terminal sample_os WARN" by (simp add: on_terminal_def sample_os_def letter_def)
  have "itos 7 = ''7''" by code_simp
  then have line: "log_line sample_os (disk s0) WARN ''bob left'' ''a.cc'' ''f'' 7 = ''[2024-08-12 10:00:00][WARN ] bob left - [a.cc f:7]''"
    by (simp add: log_line_def getLogLevelStr_def sample_os_def)
  obtain s1 where s1: "log_impl sample_os ref_format WARN ''{} left'' ''a.cc'' ''f'' 7 [FStr ''bob''] s0 = Done () s1"
    "cout s1 = cout s0 @ (if on_terminal sample_os WARN
      then colorizeLog WARN (log_line sample_os (disk s0) WARN ''bob left'' ''a.cc'' ''f'' 7) @ line_end else '''')"
    using logger_writes_what_is_asked [OF ref_fmt.fmt_library_axioms s0(2), of WARN "''{} left''" "''a.cc''" "''f''" 7 "[FStr ''bob'']",
      unfolded f sum.case Let_def] by (elim conjE exE)
  have "cout s1 = cout s0 @ ansi ''33'' @ ''[2024-08-12 10:00:00][WARN ] bob left - [a.cc f:7]'' @ ansi ''0'' @ line_end"
    unfolding s1(2) line by (simp only: on if_True colorizeLog_def LogLevel.case append_assoc)
  with s0(1) s1(1) show ?thesis by (intro exI conjI)
qed

end
