(* ===== verification/Addresses.thy ===== *)
theory Addresses
  imports Tcp_Client
begin

text \<open>
  \<open>project/m_netlib/Socket/InetAddress\<close> and the arguments of \<open>project/chatclient.cc\<close>: from the text the user gives to the address
  that is dialled, and back to the text in names and logs.  \<open>inet_pton\<close> takes four decimal numbers up to 255, without leading
  zeros, as the C library does.
\<close>

fun fields :: "string \<Rightarrow> string list" where
  "fields [] = [[]]"
| "fields (c # cs) = (if c = CHR ''.'' then [] # fields cs else (case fields cs of [] \<Rightarrow> [[c]] | f # fs \<Rightarrow> (c # f) # fs))"

definition octet_val :: "string \<Rightarrow> int option" where
  "octet_val f = (if f \<noteq> [] \<and> list_all is_digit f \<and> (hd f = CHR ''0'' \<longrightarrow> length f = 1) \<and> digits_val 0 f \<le> 255
     then Some (int (digits_val 0 f)) else None)"

definition inet_pton :: "string \<Rightarrow> 32 word option" where
  "inet_pton s = (case map octet_val (fields s) of
     [Some a, Some b, Some c, Some d] \<Rightarrow> Some (word_of_int (d * 2 ^ 24 + c * 2 ^ 16 + b * 2 ^ 8 + a)) | _ \<Rightarrow> None)"

text \<open>The constructor from a text; the answer of \<open>inet_pton\<close> is not looked at, and the address was cleared before.\<close>

definition InetAddress_of :: "string \<Rightarrow> 16 word \<Rightarrow> sockaddr" where
  "InetAddress_of ip port = \<lparr>sin_addr = (case inet_pton (c_str ip) of None \<Rightarrow> 0 | Some a \<Rightarrow> a), sin_port = htons port\<rparr>"

text \<open>\<open>atoi\<close> of an argument: blanks and a sign first.\<close>

definition blank :: "char \<Rightarrow> bool" where
  "blank c \<longleftrightarrow> c = CHR '' '' \<or> 9 \<le> (of_char c :: nat) \<and> (of_char c :: nat) \<le> 13"

definition atoi_arg :: "string \<Rightarrow> int" where
  "atoi_arg s = (case dropWhile blank s of
     [] \<Rightarrow> 0 | c # cs \<Rightarrow> if c = CHR ''+'' then int (digits_val 0 cs) else atoi (c # cs))"

text \<open>The address \<open>main\<close> of the client dials; with fewer than two arguments it ends.\<close>

definition client_address :: "string list \<Rightarrow> sockaddr option" where
  "client_address argv = (if length argv < 3 then None
     else Some (InetAddress_of (argv ! 1) (word_of_int (atoi_arg (argv ! 2)))))"

section \<open>Texts of addresses\<close>

lemma fields_dot: "CHR ''.'' \<notin> set f \<Longrightarrow> fields (f @ CHR ''.'' # rest) = f # fields rest"
  by (induction f) auto

lemma fields_last: "CHR ''.'' \<notin> set f \<Longrightarrow> fields f = [f]"
  by (induction f) auto

lemma nat_str_hd: "0 < n \<Longrightarrow> hd (nat_str n) \<noteq> CHR ''0''"
proof (induction n rule: nat_str.induct)
  case (1 n)
  show ?case
  proof (cases "n < 10")
    case True
    then have "(of_char (hd (nat_str n)) :: nat) = 48 + n" by (subst nat_str.simps) simp
    then show ?thesis using 1(2) by auto
  next
    case False
    with 1 show ?thesis by (subst nat_str.simps) simp
  qed
qed

lemma nat_str_length: "n < 10 ^ k \<Longrightarrow> 0 < k \<Longrightarrow> length (nat_str n) \<le> k"
proof (induction k arbitrary: n)
  case (Suc k)
  show ?case
  proof (cases "n < 10")
    case True
    then show ?thesis by (subst nat_str.simps) simp
  next
    case False
    then have "k \<noteq> 0" using Suc.prems(1) by (cases k) auto
    moreover from Suc.prems(1) have "n div 10 < 10 ^ k" by (simp add: div_less_iff_less_mult)
    ultimately have "length (nat_str (n div 10)) \<le> k" using Suc.IH by simp
    with False show ?thesis by (subst nat_str.simps) simp
  qed
qed simp

definition octet_of :: "nat \<Rightarrow> 32 word \<Rightarrow> int" where
  "octet_of i a = uint (drop_bit (8 * i) a AND 255)"

lemma octet_of_eq: "octet_of i a = uint a div 2 ^ (8 * i) mod 256"
proof -
  have "octet_of i a = uint (drop_bit (8 * i) a) AND 255" by (simp add: octet_of_def uint_and)
  also have "\<dots> = uint (drop_bit (8 * i) a) mod 2 ^ 8" using take_bit_eq_mask [of 8 "uint (drop_bit (8 * i) a)"] by (simp add: take_bit_eq_mod mask_eq_exp_minus_1)
  also have "\<dots> = uint a div 2 ^ (8 * i) mod 256" using uint_lt2p [of a] by (simp only: unsigned_drop_bit_eq) (simp add: drop_bit_eq_div take_bit_int_eq_self)
  finally show ?thesis .
qed

lemma octet_of_bounds: "0 \<le> octet_of i a" "octet_of i a < 256"
  by (simp_all add: octet_of_eq)

lemma octet_text: "octet i a = nat_str (nat (octet_of i a))"
  using octet_of_bounds(1) [of i a] by (simp add: octet_def itos_def flip: octet_of_def)

lemma octet_val_octet: "octet_val (octet i a) = Some (octet_of i a)"
proof -
  let ?n = "nat (octet_of i a)"
  have "hd (nat_str ?n) \<noteq> CHR ''0''" if "?n \<noteq> 0" using nat_str_hd [of ?n] that by simp
  moreover have "length (nat_str 0) = 1" by (subst nat_str.simps) simp
  ultimately have "hd (nat_str ?n) = CHR ''0'' \<longrightarrow> length (nat_str ?n) = 1" by (cases "?n = 0") auto
  moreover have "list_all is_digit (nat_str ?n)" by (auto simp: list_all_iff nat_str_digits)
  ultimately show ?thesis using octet_of_bounds [of i a] by (simp add: octet_val_def octet_text digits_val_nat_str)
qed

lemma no_dot: "CHR ''.'' \<notin> set (octet i a)"
proof -
  have "\<not> is_digit (CHR ''.'')" by (simp add: is_digit_def)
  then show ?thesis using nat_str_digits unfolding octet_text by metis
qed

lemma base_256: "u = y * 256 + d \<Longrightarrow> y = x * 256 + c \<Longrightarrow> x = a * 256 + b \<Longrightarrow> a * 16777216 + b * 65536 + c * 256 + d = (u :: int)"
  by simp

lemma bytes_of_int:
  assumes "0 \<le> u" and "u < (4294967296 :: int)"
  shows "u div 16777216 mod 256 * 16777216 + u div 65536 mod 256 * 65536 + u div 256 mod 256 * 256 + u mod 256 = u"
proof (rule base_256)
  show "u = u div 256 * 256 + u mod 256" using div_mult_mod_eq [of u 256] by simp
  show "u div 256 = u div 65536 * 256 + u div 256 mod 256" using div_mult_mod_eq [of "u div 256" 256] by (simp flip: zdiv_zmult2_eq)
  have "u div 16777216 mod 256 = u div 16777216"
  proof (rule mod_pos_pos_trivial)
    show "0 \<le> u div 16777216" using assms(1) by simp
    show "u div 16777216 < 256" using assms zdiv_mono1 [of u 4294967295 16777216] by simp
  qed
  then show "u div 65536 = u div 16777216 mod 256 * 256 + u div 65536 mod 256"
    using div_mult_mod_eq [of "u div 65536" 256] by (simp flip: zdiv_zmult2_eq)
qed

lemma octets_sum: "octet_of 3 a * 2 ^ 24 + octet_of 2 a * 2 ^ 16 + octet_of 1 a * 2 ^ 8 + octet_of 0 a = uint a"
proof -
  have o: "octet_of 3 a = uint a div 16777216 mod 256" "octet_of 2 a = uint a div 65536 mod 256" "octet_of 1 a = uint a div 256 mod 256"
    "octet_of 0 a = uint a mod 256" by (simp_all add: octet_of_eq)
  have p: "(2 :: int) ^ 24 = 16777216" "(2 :: int) ^ 16 = 65536" "(2 :: int) ^ 8 = 256" by simp_all
  have "uint a < 4294967296" using uint_lt2p [of a] by simp
  from bytes_of_int [OF unsigned_greater_eq this] show ?thesis unfolding o p .
qed

lemma inet_pton_ntop: "inet_pton (inet_ntop a) = Some a"
proof -
  have "fields (inet_ntop a) = [octet 0 a, octet 1 a, octet 2 a, octet 3 a]"
    by (simp add: inet_ntop_def fields_dot fields_last no_dot)
  then show ?thesis using octets_sum [of a] by (simp add: inet_pton_def octet_val_octet)
qed

lemma octet_length: "length (octet i a) \<le> 3"
  using octet_of_bounds [of i a] by (simp add: octet_text nat_str_length)

lemma inet_ntop_length: "length (inet_ntop a) \<le> 15"
  using octet_length [of 3 a] octet_length [of 2 a] octet_length [of 1 a] octet_length [of 0 a] by (simp add: inet_ntop_def)

lemma inet_ntop_chars: "CHR 0x00 \<notin> set (inet_ntop a)"
proof -
  have "\<not> is_digit (CHR 0x00)" by (simp add: is_digit_def)
  then have "CHR 0x00 \<notin> set (octet i a)" for i using nat_str_digits unfolding octet_text by metis
  then show ?thesis by (simp add: inet_ntop_def)
qed

lemma port_length: "length (itos (uint (p :: 16 word))) \<le> 5"
proof -
  have "unat p < 65536" using unsigned_less [of p] by simp
  then have "length (nat_str (unat p)) \<le> 5" by (intro nat_str_length) simp_all
  moreover have "itos (uint p) = nat_str (unat p)" by (simp add: itos_def)
  ultimately show ?thesis by simp
qed

lemma atoi_arg_itos: "0 \<le> n \<Longrightarrow> atoi_arg (itos n) = n"
proof -
  assume n: "0 \<le> n"
  obtain c cs where c: "itos n = c # cs" "c # cs = nat_str (nat n)" using n by (cases "nat_str (nat n)") (auto simp: itos_def)
  then have "is_digit c" using nat_str_digits [of c "nat n"] by (metis list.set_intros(1))
  then have "\<not> blank c" "c \<noteq> CHR ''+''" by (auto simp: is_digit_def blank_def)
  then have "atoi_arg (c # cs) = atoi (c # cs)" by (simp add: atoi_arg_def del: atoi.simps)
  with c(1) atoi_itos [of n] show ?thesis by simp
qed

lemma ntohs_htons [simp]: "ntohs (htons p) = p"
  by (simp add: ntohs_def htons_def bit_eq_iff bit_simps) auto

lemma typed_port: "client_address [prog_name, t, itos (uint p)] = Some (InetAddress_of t p)"
  by (simp add: client_address_def atoi_arg_itos)

lemma InetAddress_of_dotted: "InetAddress_of (inet_ntop a) p = \<lparr>sin_addr = a, sin_port = htons p\<rparr>"
  by (simp add: InetAddress_of_def c_str_id inet_ntop_chars inet_pton_ntop)

lemma InetAddress_of_name: "inet_pton (c_str t) = None \<Longrightarrow> InetAddress_of t p = InetAddress_any p"
  by (simp add: InetAddress_of_def InetAddress_any_def)

lemma toHostPort_text: "toHostPort \<lparr>sin_addr = a, sin_port = htons p\<rparr> = inet_ntop a @ '':'' @ itos (uint p)"
  using inet_ntop_length [of a] port_length [of p] by (simp add: toHostPort_def)

end
