(* ===== verification/Start_Up.thy ===== *)
theory Start_Up
  imports Dial_Properties Loop_Properties Connection_Life Addresses
begin

text \<open>
  How the two programs start: the constructors of \<open>EventLoop\<close>, \<open>EPoller\<close> and \<open>TimerQueue\<close> (\<open>project/m_netlib/Net\<close>), of
  \<open>Acceptor\<close> and \<open>TcpServer\<close> with the calls on sockets they make (\<open>project/m_netlib/Socket\<close>), of \<open>TcpClient\<close>, and
  \<open>project/chatroom.cc\<close>, \<open>project/client/client\<close> and \<open>project/chatclient.cc\<close> as far as they are about the network.
  The other theories start from states that satisfy an invariant; here they come from the constructors.
\<close>

section \<open>A new loop\<close>

text \<open>The descriptors the kernel gives, the addresses of the two channels, and what is in their uninitialised member.\<close>

record loop_places =
  at_timerfd :: nat
  at_timer_channel :: nat
  at_timer_junk :: bool
  at_eventfd :: "nat option"
  at_wakeup_channel :: nat
  at_wakeup_junk :: bool

definition EPoller_new :: "(('w, 'z) reactor_scheme, unit) prog" where
  "EPoller_new = modify (\<lambda>s. s\<lparr>m_channels := (\<lambda>_. None), m_eventList := kInitEventListSize\<rparr>)"

definition TimerQueue_new :: "'w sys \<Rightarrow> loop_places \<Rightarrow> (('w, 'c, 'z) timed_scheme, unit) prog" where
  "TimerQueue_new S pl = andthen (modify (\<lambda>s. s\<lparr>m_timers := [], m_activeTimers := [], m_cancelingTimers := [],
       m_callingExpiredTimers := False, m_timerfd := None, heap := (heap s)(at_timer_channel pl \<mapsto> new_channel (at_timer_junk pl) (at_timerfd pl))\<rparr>))
     (enableReading S (at_timer_channel pl))"

text \<open>
  The members in the order of their declaration; \<open>another\<close> says that this thread has a loop already.  Both \<open>abort\<close> and \<open>exit(1)\<close>
  end the process.
\<close>

definition EventLoop_new :: "'w sys \<Rightarrow> loop_places \<Rightarrow> bool \<Rightarrow> (('w, 'c, 'f, 'z) loop_scheme, unit) prog" where
  "EventLoop_new S pl another =
     andthen (modify (\<lambda>s. s\<lparr>m_looping := False, m_quit := False, owner := thread s\<rparr>))
     (andthen EPoller_new
     (andthen (TimerQueue_new S pl)
     (andthen (modify (\<lambda>s. s\<lparr>m_activeChannels := [], m_callingPendingFunctors := False, m_pendingFunctors := []\<rparr>))
     (case at_eventfd pl of None \<Rightarrow> raise ProcessExit
      | Some fd \<Rightarrow> andthen (modify (\<lambda>s. s\<lparr>m_wakeups := 0, heap := (heap s)(at_wakeup_channel pl \<mapsto> new_channel (at_wakeup_junk pl) fd)\<rparr>))
          (if another then raise ProcessExit else enableReading S (at_wakeup_channel pl))))))"

text \<open>The callbacks of the two channels; \<open>fire\<close> runs the callback of a timer.\<close>

definition loop_callback :: "'w sys \<Rightarrow> ('c \<Rightarrow> (('w, 'c, 'f, 'z) loop_scheme, unit) prog) \<Rightarrow> loop_places \<Rightarrow> nat \<Rightarrow> callback \<Rightarrow>
    (('w, 'c, 'f, 'z) loop_scheme, unit) prog" where
  "loop_callback S fire pl c k = (if k \<noteq> ReadCallback then ret ()
     else if c = at_timer_channel pl then TimerQueue_handleRead S fire
     else if c = at_wakeup_channel pl then EventLoop_handleRead else ret ())"

text \<open>A loop as it is before its constructor runs: memory without channels or timers, and an epoll instance that watches nothing.\<close>

definition raw_loop :: "('w \<Rightarrow> nat \<Rightarrow> (poll_events \<times> nat) option) \<Rightarrow> ('w, 'c, 'f, 'z) loop_scheme \<Rightarrow> bool" where
  "raw_loop interest s \<longleftrightarrow> heap s = (\<lambda>_. None) \<and> timer_heap s = [] \<and> interest (kernel s) = (\<lambda>_. None)"


lemma new_channel_reads:
  fixes junk :: bool
  assumes "epoll_kernel S interest" and ok: "reactor_ok interest s" and "isInLoopThread s" and c: "heap s c = Some (new_channel junk fd)"
    and "m_channels s fd = None"
  defines "ch \<equiv> changed (\<lambda>e. e OR kReadEvent) (new_channel junk fd)"
  shows "\<exists>w. enableReading S c s = Done () (with_channel c ch w s) \<and> reactor_ok interest (with_channel c ch w s) \<and>
    interest w = (interest (kernel s))(fd \<mapsto> (kReadEvent, c)) \<and> m_fd ch = fd"
proof -
  have free: "m_channels s (m_fd (new_channel junk fd)) = None" using assms(5) by (simp add: new_channel_def)
  have ch: "m_index ch = kAdded" "m_events (new_channel junk fd) OR kReadEvent = kReadEvent" "m_fd ch = fd"
    by (simp_all add: ch_def changed_def new_channel_def indices)
  obtain w where w: "enableReading S c s = Done () (with_channel c ch w s)"
    "interest w = (watched s)(m_fd (new_channel junk fd) := if m_index ch = kAdded then Some (m_events (new_channel junk fd) OR kReadEvent, c) else None)"
    using epoll_kernel.change_events_run [OF assms(1) ok assms(3) c free, of "\<lambda>e. e OR kReadEvent"]
    by (auto simp: channel_ops ch_def)
  then have "interest w = (interest (kernel s))(fd \<mapsto> (kReadEvent, c))" using ch reactor_okD(3) [OF ok] by (simp add: new_channel_def)
  moreover have "reactor_ok interest (with_channel c ch w s)"
    unfolding ch_def by (rule epoll_kernel.with_channel_ok [OF assms(1) ok c]) (use free w(2) in \<open>simp_all add: ch_def\<close>)
  ultimately show ?thesis using w(1) ch(3) by blast
qed

lemma new_loop_runs:
  assumes "epoll_kernel S interest" and "raw_loop interest s" and "at_eventfd pl = Some fd" and "at_timerfd pl \<noteq> fd"
    and "at_timer_channel pl \<noteq> at_wakeup_channel pl"
  shows "EventLoop_new S pl True s \<in> range (Throw ProcessExit) \<and>
    (\<exists>s'. EventLoop_new S pl False s = Done () s' \<and> reactor_ok interest s' \<and> tq_ok s' \<and> armed s' \<and> isInLoopThread s' \<and> owner s' = thread s \<and>
      interest (kernel s') = [at_timerfd pl \<mapsto> (kReadEvent, at_timer_channel pl), fd \<mapsto> (kReadEvent, at_wakeup_channel pl)] \<and>
      dom (m_channels s') = {at_timerfd pl, fd} \<and> timer_heap s' = [] \<and> s_numCreated s' = s_numCreated s \<and> loop.more s' = loop.more s \<and>
      m_timers s' = [] \<and> m_pendingFunctors s' = [] \<and> \<not> m_callingPendingFunctors s' \<and> m_wakeups s' = 0 \<and> \<not> m_looping s' \<and> \<not> m_quit s')"
proof -
  let ?tc = "at_timer_channel pl" and ?wc = "at_wakeup_channel pl" and ?tfd = "at_timerfd pl"
  let ?s0 = "s\<lparr>m_looping := False, m_quit := False, owner := thread s, m_channels := (\<lambda>_. None), m_eventList := kInitEventListSize,
    m_timers := [], m_activeTimers := [], m_cancelingTimers := [], m_callingExpiredTimers := False, m_timerfd := None\<rparr>"
  have raw: "heap s = (\<lambda>_. None)" "timer_heap s = []" "interest (kernel s) = (\<lambda>_. None)" using assms(2) by (simp_all add: raw_loop_def)
  have ok0: "reactor_ok interest ?s0" using raw by (simp add: reactor_ok_def watched_def [abs_def])
  let ?tch = "changed (\<lambda>e. e OR kReadEvent) (new_channel (at_timer_junk pl) ?tfd)"
  let ?wch = "changed (\<lambda>e. e OR kReadEvent) (new_channel (at_wakeup_junk pl) fd)"
  let ?a1 = "?s0\<lparr>heap := (heap ?s0)(?tc \<mapsto> new_channel (at_timer_junk pl) ?tfd)\<rparr>"
  obtain w1 where w1: "enableReading S ?tc ?a1 = Done () (with_channel ?tc ?tch w1 ?a1)"
    "reactor_ok interest (with_channel ?tc ?tch w1 ?a1)" "interest w1 = [?tfd \<mapsto> (kReadEvent, ?tc)]"
    using new_channel_reads [OF assms(1) new_channel_ok [OF ok0], of ?tc "at_timer_junk pl" ?tfd ?tc "at_timer_junk pl" ?tfd] raw
    by (auto simp: isInLoopThread_def)
  let ?s2 = "(with_channel ?tc ?tch w1 ?a1)\<lparr>m_activeChannels := [], m_callingPendingFunctors := False, m_pendingFunctors := [], m_wakeups := 0\<rparr>"
  have ok2: "reactor_ok interest ?s2" by (rule reactor_ok_cong [OF w1(2)]) simp_all
  let ?a2 = "?s2\<lparr>heap := (heap ?s2)(?wc \<mapsto> new_channel (at_wakeup_junk pl) fd)\<rparr>"
  let ?s3 = "\<lambda>w. with_channel ?wc ?wch w ?a2"
  have "heap ?s2 ?wc = None" "m_channels ?s2 fd = None" using raw assms(4,5) by (simp_all add: with_channel_def new_channel_def)
  then obtain w2 where w2: "enableReading S ?wc ?a2 = Done () (?s3 w2)" "reactor_ok interest (?s3 w2)"
    "interest w2 = [?tfd \<mapsto> (kReadEvent, ?tc), fd \<mapsto> (kReadEvent, ?wc)]"
    using new_channel_reads [OF assms(1) new_channel_ok [OF ok2], of ?wc "at_wakeup_junk pl" fd ?wc "at_wakeup_junk pl" fd] w1(3)
    by (auto simp: isInLoopThread_def with_channel_def)
  have run1: "EventLoop_new S pl another s = (if another then raise ProcessExit else enableReading S ?wc) ?a2" for another
    using w1(1) assms(3) by (simp add: EventLoop_new_def EPoller_new_def TimerQueue_new_def run)
  have "tq_ok (?s3 w2)" using raw by (simp add: tq_ok_def timers_ok_def with_channel_def)
  with w2 show ?thesis
    by (simp add: run1) (use raw in \<open>auto simp: with_channel_def isInLoopThread_def armed_def new_channel_def\<close>)
qed

text \<open>
  C25. The constructor of a loop leaves it in the states the other theorems start from: the poller watches the two descriptors of the loop
  for reading and nothing else, no timer is set, no functor is pending, and it belongs to the thread that made it.  A second loop on the
  same thread ends the process.
\<close>

theorem new_loop_is_right:
  assumes "epoll_kernel S interest" and "raw_loop interest s" and "at_eventfd pl = Some fd" and "at_timerfd pl \<noteq> fd"
    and "at_timer_channel pl \<noteq> at_wakeup_channel pl"
  shows "EventLoop_new S pl True s \<in> range (Throw ProcessExit) \<and>
    (\<exists>s'. EventLoop_new S pl False s = Done () s' \<and> reactor_ok interest s' \<and> tq_ok s' \<and> armed s' \<and> isInLoopThread s' \<and> owner s' = thread s \<and>
      interest (kernel s') = [at_timerfd pl \<mapsto> (kReadEvent, at_timer_channel pl), fd \<mapsto> (kReadEvent, at_wakeup_channel pl)] \<and>
      m_timers s' = [] \<and> m_pendingFunctors s' = [] \<and> \<not> m_callingPendingFunctors s' \<and> m_wakeups s' = 0 \<and> \<not> m_looping s' \<and> \<not> m_quit s')"
  using new_loop_runs [OF assms] by auto

text \<open>A raw loop of the reference kernel, made by thread 7.\<close>

definition sample_raw :: "(kern, main_timer, unit) loop" where
  "sample_raw = sample_loop\<lparr>thread := 7, owner := 0, m_looping := True\<rparr>"

definition sample_loop_places :: loop_places where
  "sample_loop_places = \<lparr>at_timerfd = 4, at_timer_channel = 1, at_timer_junk = False, at_eventfd = Some 5, at_wakeup_channel = 2, at_wakeup_junk = True\<rparr>"

theorem new_loop_is_right_witness:
  "\<exists>s'. EventLoop_new ref_sys sample_loop_places False sample_raw = Done () s' \<and> reactor_ok k_interest s' \<and>
    k_interest (kernel s') = [4 \<mapsto> (kReadEvent, 1), 5 \<mapsto> (kReadEvent, 2)]"
proof -
  have raw: "raw_loop k_interest sample_raw" by (simp add: raw_loop_def sample_raw_def sample_loop_def)
  have at: "at_eventfd sample_loop_places = Some 5" "at_timerfd sample_loop_places \<noteq> 5"
    "at_timer_channel sample_loop_places \<noteq> at_wakeup_channel sample_loop_places"
    by (simp_all add: sample_loop_places_def)
  from new_loop_is_right [OF ref.epoll_kernel_axioms raw at, THEN conjunct2] show ?thesis
    by (auto simp: sample_loop_places_def)
qed

section \<open>Acceptor\<close>

text \<open>
  The listening socket: the address it could be bound to, whether the kernel listens, and the messages in the log.  \<open>bindOrDie\<close> and
  \<open>listenOrDie\<close> do not end the process, they write to the log.
\<close>

record 'w accepting = "'w reactor" +
  m_acceptSocket :: nat
  m_acceptChannel :: nat
  m_listenning :: bool
  bound_to :: "sockaddr option"
  backlog_open :: bool
  log_errors :: "string list"
  closed_fds :: "nat list"

definition bindOrDie :: "bool \<Rightarrow> sockaddr \<Rightarrow> (('w, 'z) accepting_scheme, unit) prog" where
  "bindOrDie ok localAddr = modify (\<lambda>s. if ok then s\<lparr>bound_to := Some localAddr\<rparr> else s\<lparr>log_errors := log_errors s @ [''bind error'']\<rparr>)"

definition listenOrDie :: "bool \<Rightarrow> (('w, 'z) accepting_scheme, unit) prog" where
  "listenOrDie ok = modify (\<lambda>s. if ok then s\<lparr>backlog_open := True\<rparr> else s\<lparr>log_errors := log_errors s @ [''listen error'']\<rparr>)"

text \<open>\<open>fd\<close> is the new socket and \<open>c\<close> the address of the channel; \<open>ok\<close> is what \<open>bind\<close> answers.\<close>

definition Acceptor_new :: "nat \<Rightarrow> nat \<Rightarrow> bool \<Rightarrow> bool \<Rightarrow> sockaddr \<Rightarrow> (('w, 'z) accepting_scheme, unit) prog" where
  "Acceptor_new fd c junk ok listenAddr =
     andthen (modify (\<lambda>s. s\<lparr>m_acceptSocket := fd, m_acceptChannel := c, m_listenning := False, bound_to := None, backlog_open := False,
       heap := (heap s)(c \<mapsto> new_channel junk fd)\<rparr>))
     (bindOrDie ok listenAddr)"

definition Acceptor_listen :: "'w sys \<Rightarrow> bool \<Rightarrow> (('w, 'z) accepting_scheme, unit) prog" where
  "Acceptor_listen S ok =
     andthen assertInLoopThread
     (andthen (modify (\<lambda>s. s\<lparr>m_listenning := True\<rparr>))
     (andthen (listenOrDie ok)
     (bnd (reads m_acceptChannel) (enableReading S))))"

text \<open>The second argument is what \<open>accept\<close> returned: a descriptor and the address of the peer, or an error.\<close>

definition Acceptor_handleRead :: "(nat \<Rightarrow> string \<Rightarrow> (('w, 'z) accepting_scheme, unit) prog) option \<Rightarrow> (nat \<times> string) option \<Rightarrow>
    (('w, 'z) accepting_scheme, unit) prog" where
  "Acceptor_handleRead newConnectionCallback r =
     andthen assertInLoopThread
     (case r of None \<Rightarrow> modify (\<lambda>s. s\<lparr>log_errors := log_errors s @ [''accept error'']\<rparr>)
      | Some (connfd, peerAddr) \<Rightarrow> (case newConnectionCallback of
          Some f \<Rightarrow> f connfd peerAddr
        | None \<Rightarrow> modify (\<lambda>s. s\<lparr>closed_fds := closed_fds s @ [connfd]\<rparr>)))"

section \<open>The server program\<close>

text \<open>The base loop with the server, and the loops of the pool by their numbers; each has its own view of the kernel.\<close>

record 'w hosting = "'w accepting" +
  host :: tcp_server
  sub_loops :: "nat \<Rightarrow> ('w, main_timer, unit) loop"

definition on_host :: "(tcp_server, 'a) prog \<Rightarrow> ('w hosting, 'a) prog" where
  "on_host m = (\<lambda>s. case m (host s) of Done x v \<Rightarrow> Done x (s\<lparr>host := v\<rparr>)
     | Throw e v \<Rightarrow> Throw e (s\<lparr>host := v\<rparr>) | Stuck b \<Rightarrow> Stuck b)"

text \<open>A call on another loop, in the thread of the caller.\<close>

definition on_sub :: "nat \<Rightarrow> (('w, main_timer, unit) loop, 'a) prog \<Rightarrow> ('w hosting, 'a) prog" where
  "on_sub l m = (\<lambda>s. let t = thread (sub_loops s l) in case m ((sub_loops s l)\<lparr>thread := thread s\<rparr>) of
       Done x v \<Rightarrow> Done x (s\<lparr>sub_loops := (sub_loops s)(l := v\<lparr>thread := t\<rparr>)\<rparr>)
     | Throw e v \<Rightarrow> Throw e (s\<lparr>sub_loops := (sub_loops s)(l := v\<lparr>thread := t\<rparr>)\<rparr>) | Stuck b \<Rightarrow> Stuck b)"

definition TcpServer_new :: "nat \<Rightarrow> sockaddr \<Rightarrow> (tcp_server, unit) prog" where
  "TcpServer_new base listenAddr = modify (\<lambda>s. loop_pool.extend (new_loop_pool base)
     \<lparr>m_name = toHostPort listenAddr, m_nextConnId = 1, m_connections = [], conn_name = conn_name s, conn_loop = conn_loop s, jobs = []\<rparr>)"

text \<open>\<open>start\<close>; the flag \<open>m_started\<close> of the server and that of its pool change together.\<close>

definition TcpServer_start :: "'w sys \<Rightarrow> (nat \<Rightarrow> nat option) \<Rightarrow> bool \<Rightarrow> ('w hosting, unit) prog" where
  "TcpServer_start S new_loop listen_ok =
     andthen (on_host (bnd (reads m_started) (\<lambda>started. if \<not> started then start_pool new_loop else ret ())))
     (bnd (reads m_listenning) (\<lambda>listening. if \<not> listening then Acceptor_listen S listen_ok else ret ()))"

text \<open>
  \<open>main\<close> in \<open>chatroom.cc\<close> up to the loop itself: the constructor of \<open>Server\<close>, \<open>start\<close>, and the two timers on two of its loops.
  \<open>bind_ok\<close> and \<open>listen_ok\<close> are the answers of the kernel, \<open>new_loop i\<close> the loop of the \<open>i\<close>-th thread, \<open>p1\<close> and \<open>p2\<close> the addresses of
  the new timers.
\<close>

definition chatroom_start :: "'w sys \<Rightarrow> (nat \<Rightarrow> nat option) \<Rightarrow> nat \<Rightarrow> nat \<Rightarrow> bool \<Rightarrow> bool \<Rightarrow> bool \<Rightarrow> nat \<Rightarrow> nat \<Rightarrow> ('w hosting, unit) prog" where
  "chatroom_start S new_loop fd c junk bind_ok listen_ok p1 p2 =
     (let listenAddr = InetAddress_any 8888 in
      andthen (Acceptor_new fd c junk bind_ok listenAddr)
     (andthen (on_host (TcpServer_new 0 listenAddr))
     (andthen (on_host (TcpServer_setThreadNum 32))
     (andthen (TcpServer_start S new_loop listen_ok)
     (bnd (on_host getNextLoop) (\<lambda>subLoop1.
      bnd (on_sub subLoop1 (runEvery S (\<lambda>_. ret ()) p1 (main_interval FlushCaches) FlushCaches)) (\<lambda>_.
      bnd (on_host getNextLoop) (\<lambda>subLoop2.
      bnd (on_sub subLoop2 (runEvery S (\<lambda>_. ret ()) p2 (main_interval CheckAlive) CheckAlive)) (\<lambda>_. ret ())))))))))"

lemma loops_started: "for_each (\<lambda>i. case new_loop i of None \<Rightarrow> halt Diverges | Some l \<Rightarrow> modify (\<lambda>s. s\<lparr>m_loops := m_loops s @ [l]\<rparr>)) is s =
    (if \<forall>i \<in> set is. new_loop i \<noteq> None then Done () (s\<lparr>m_loops := m_loops s @ map (\<lambda>i. the (new_loop i)) is\<rparr>) else Stuck Diverges)"
  by (induction "is" arbitrary: s) (auto simp: run split: option.splits)

lemma start_pool_run [run]:
  "in_base h \<Longrightarrow> start_pool new_loop h = (if \<forall>i < m_numThreads h. new_loop i \<noteq> None
     then Done () (h\<lparr>m_started := True, m_loops := m_loops h @ map (\<lambda>i. the (new_loop i)) [0..<m_numThreads h]\<rparr>) else Stuck Diverges)"
  by (simp add: start_pool_def assertInBase_def run loops_started atLeast0LessThan)

lemma getNextLoop_first [run]: "in_base h \<Longrightarrow> m_loops h \<noteq> [] \<Longrightarrow>
    getNextLoop h = Done (m_loops h ! m_next h) (h\<lparr>m_next := (m_next h + 1) mod length (m_loops h)\<rparr>)"
  by (simp add: getNextLoop_def assertInBase_def run)

lemma on_host_apply [run]: "m (host s) = Done x v \<Longrightarrow> on_host m s = Done x (s\<lparr>host := v\<rparr>)"
  by (simp add: on_host_def)

lemma on_host_stuck [run]: "m (host s) = Stuck b \<Longrightarrow> on_host m s = Stuck b"
  by (simp add: on_host_def)

lemma on_sub_apply [run]: "m ((sub_loops s l)\<lparr>thread := thread s\<rparr>) = Done x v \<Longrightarrow>
    on_sub l m s = Done x (s\<lparr>sub_loops := (sub_loops s)(l := v\<lparr>thread := thread (sub_loops s l)\<rparr>)\<rparr>)"
  by (simp add: on_sub_def Let_def)

section \<open>The timers of the server program\<close>

text \<open>
  \<open>main\<close> sets its timers from its own thread on loops that sleep in another: \<open>runEvery\<close> leaves the timer to the loop and wakes it, and when
  the loop has run its functors the timer is in the queue, one interval ahead, the descriptor is set, and nothing is left to do.
\<close>

lemma timer_of_main_is_set:
  assumes "tq_ok s" and "armed s" and "isInLoopThread s" and "m_pendingFunctors s = []" and "\<not> m_callingPendingFunctors s" and "th \<noteq> owner s"
    and "map_of (timer_heap s) p = None" and "p < UINTPTR_MAX" and "0 \<le> s_numCreated s" and "sys_now S (kernel s) = (t, w)" and "0 < t"
  shows "\<exists>s1 s2 tid. runEvery S user p (main_interval cb) cb (s\<lparr>thread := th\<rparr>) = Done tid s1 \<and> m_wakeups s1 = m_wakeups s + 1 \<and>
    doPendingFunctors S user (s1\<lparr>thread := owner s\<rparr>) = Done () s2 \<and> (t + main_interval cb, p) \<in> set (m_timers s2) \<and>
    set (m_timers s) \<subseteq> set (m_timers s2) \<and> tq_ok s2 \<and> armed s2 \<and> m_pendingFunctors s2 = [] \<and>
    map_of (timer_heap s2) p = Some (new_timer cb (t + main_interval cb) (main_interval cb) (s_numCreated s + 1))"
proof -
  let ?time = "t + main_interval cb"
  let ?tm = "new_timer cb ?time (main_interval cb) (s_numCreated s + 1)"
  let ?s1 = "s\<lparr>thread := th, kernel := w, s_numCreated := s_numCreated s + 1, timer_heap := AList.update p ?tm (timer_heap s),
    m_pendingFunctors := [AddTimerInLoop p], m_wakeups := m_wakeups s + 1\<rparr>"
  have run1: "runEvery S user p (main_interval cb) cb (s\<lparr>thread := th\<rparr>) = Done (p, 0) ?s1"
    using assms(4,6,10) by (simp add: runEvery_def addTimer_def now_def runInLoop_def queueInLoop_def push_functor_def wake_if_needed_def wakeup_def
        isInLoopThread_def addTime_def run)
  let ?s2 = "?s1\<lparr>thread := owner s, m_callingPendingFunctors := True, m_pendingFunctors := []\<rparr>"
  have ok: "timers_ok (timer_heap s) (m_timers s) (m_activeTimers s)" using assms(1) by (simp add: tq_ok_def)
  have p: "p \<notin> snd ` set (m_timers s)" using timers_okD(5) [OF ok] assms(7) by (fastforce simp: timer_live_def)
  have "timers_ok (timer_heap ?s2) (m_timers s) (m_activeTimers s)"
  proof (rule timers_heap [OF ok])
    show "map_of (timer_heap ?s2) q = map_of (timer_heap s) q" if "q \<in> snd ` set (m_timers s)" for q using p that by auto
    show "0 < m_sequence tm" if "map_of (timer_heap ?s2) q = Some tm" for q tm
      using that timers_okD(6) [OF ok] assms(9) by (auto simp: new_timer_def split: if_splits)
  qed
  moreover have "0 < main_interval cb" by (cases cb) (simp_all add: main_interval_def)
  ultimately have s2: "tq_ok ?s2" "isInLoopThread ?s2" "map_of (timer_heap ?s2) p = Some ?tm" "p \<notin> snd ` set (m_timers ?s2)" "0 < m_expiration ?tm"
    using assms(1,11) p by (simp_all add: tq_ok_def isInLoopThread_def new_timer_def)
  obtain w' f where add: "addTimerInLoop S p ?s2 = Done () (?s2\<lparr>m_timers := insort (m_expiration ?tm, p) (m_timers ?s2),
      m_activeTimers := insort (p, m_sequence ?tm) (m_activeTimers ?s2), kernel := w', m_timerfd := f\<rparr>)" (is "_ = Done () ?s3")
    and f: "armed ?s2 \<Longrightarrow> f \<noteq> None"
    by (rule addTimerInLoop_run [OF s2 assms(8), of S]) blast
  have ok3: "tq_ok ?s3" by (rule tq_ok_insert [OF s2(1,3-5) assms(8)])
  have "doPendingFunctors S user (?s1\<lparr>thread := owner s\<rparr>) = Done () (?s3\<lparr>m_callingPendingFunctors := False\<rparr>)"
    using add by (simp add: doPendingFunctors_def swap_functors_def exec_functor_def run)
  moreover have "f \<noteq> None" using f assms(2) by (simp add: armed_def)
  ultimately show ?thesis using run1 ok3
    by (intro exI [of _ ?s1] exI [of _ "?s3\<lparr>m_callingPendingFunctors := False\<rparr>"] exI [of _ "(p, 0)"])
      (simp add: set_insort_key new_timer_def armed_def tq_ok_def subset_insertI)
qed

text \<open>A loop that sleeps in its own thread and has nothing to do, as the constructor leaves it; \<open>p\<close> is a free address.\<close>

definition sleeping :: "'w sys \<Rightarrow> nat \<Rightarrow> nat \<Rightarrow> ('w, main_timer, unit) loop \<Rightarrow> bool" where
  "sleeping S th p l \<longleftrightarrow> tq_ok l \<and> armed l \<and> isInLoopThread l \<and> m_pendingFunctors l = [] \<and> \<not> m_callingPendingFunctors l \<and> th \<noteq> owner l \<and>
     map_of (timer_heap l) p = None \<and> p < UINTPTR_MAX \<and> 0 \<le> s_numCreated l \<and> 0 < fst (sys_now S (kernel l))"

text \<open>The timer \<open>cb\<close> will be set when \<open>l'\<close>, which was \<open>l\<close>, has run its functors, for which it is woken.\<close>

definition will_set :: "'w sys \<Rightarrow> nat \<Rightarrow> main_timer \<Rightarrow> ('w, main_timer, unit) loop \<Rightarrow> ('w, main_timer, unit) loop \<Rightarrow> bool" where
  "will_set S p cb l l' \<longleftrightarrow> m_wakeups l' = m_wakeups l + 1 \<and>
     (\<exists>t l''. t = fst (sys_now S (kernel l)) + main_interval cb \<and> doPendingFunctors S (\<lambda>_. ret ()) l' = Done () l'' \<and>
       (t, p) \<in> set (m_timers l'') \<and> set (m_timers l) \<subseteq> set (m_timers l'') \<and> armed l'' \<and> tq_ok l'' \<and>
       (\<exists>n. map_of (timer_heap l'') p = Some (new_timer cb t (main_interval cb) n)))"

lemma main_timer_left:
  assumes "sleeping S th p l"
  obtains tid l1 where "runEvery S (\<lambda>_. ret ()) p (main_interval cb) cb (l\<lparr>thread := th\<rparr>) = Done tid l1"
    and "will_set S p cb l (l1\<lparr>thread := thread l\<rparr>)"
proof -
  obtain t w where now: "sys_now S (kernel l) = (t, w)" by force
  from assms have s: "tq_ok l" "armed l" "isInLoopThread l" "m_pendingFunctors l = []" "\<not> m_callingPendingFunctors l" "th \<noteq> owner l"
    "map_of (timer_heap l) p = None" "p < UINTPTR_MAX" "0 \<le> s_numCreated l" "0 < t" "thread l = owner l"
    by (simp_all add: sleeping_def now isInLoopThread_def)
  from timer_of_main_is_set [OF s(1-9) now s(10), of "\<lambda>_. ret ()" cb] obtain l1 l2 tid where
    "runEvery S (\<lambda>_. ret ()) p (main_interval cb) cb (l\<lparr>thread := th\<rparr>) = Done tid l1" "m_wakeups l1 = m_wakeups l + 1"
    "doPendingFunctors S (\<lambda>_. ret ()) (l1\<lparr>thread := owner l\<rparr>) = Done () l2" "(t + main_interval cb, p) \<in> set (m_timers l2)"
    "set (m_timers l) \<subseteq> set (m_timers l2)" "tq_ok l2" "armed l2"
    "map_of (timer_heap l2) p = Some (new_timer cb (t + main_interval cb) (main_interval cb) (s_numCreated l + 1))" by blast
  then show ?thesis by (intro that [of tid l1]) (auto simp: will_set_def now s(11))
qed

text \<open>
  C33. The server starts whatever the kernel says to \<open>bind\<close> and \<open>listen\<close>, provided every thread of the pool hands over its loop: it has its
  32 loops, the listening channel is watched for reading, no connection is entered yet, and the first loop is woken to set the timer of the
  caches one second ahead, the second that of the heartbeat check five minutes ahead.  When the port is taken that is all the same, with a
  line in the log: no socket is bound to the port, and nobody is told.  If one thread of the pool never hands over its loop, \<open>main\<close> waits forever.
\<close>

theorem server_starts_even_unbound:
  assumes "epoll_kernel S interest" and "reactor_ok interest s" and "isInLoopThread s" and "heap s c = None" and "m_channels s fd = None"
    and "log_errors s = []"
    and "new_loop 0 = Some l1" and "new_loop 1 = Some l2" and "l1 \<noteq> l2"
    and "sleeping S (thread s) p1 (sub_loops s l1)" and "sleeping S (thread s) p2 (sub_loops s l2)"
  shows "if \<exists>i < 32. new_loop i = None then chatroom_start S new_loop fd c junk bind_ok listen_ok p1 p2 s = Stuck Diverges
    else \<exists>s'. chatroom_start S new_loop fd c junk bind_ok listen_ok p1 p2 s = Done () s' \<and> reactor_ok interest s' \<and>
      interest (kernel s') = (interest (kernel s))(fd \<mapsto> (kReadEvent, c)) \<and> m_listenning s' \<and>
      map Some (m_loops (host s')) = map new_loop [0..<32] \<and> m_next (host s') = 2 \<and> names_ok (host s') \<and> m_connections (host s') = [] \<and>
      will_set S p1 FlushCaches (sub_loops s l1) (sub_loops s' l1) \<and> will_set S p2 CheckAlive (sub_loops s l2) (sub_loops s' l2) \<and>
      bound_to s' = (if bind_ok then Some (InetAddress_any 8888) else None) \<and> backlog_open s' = listen_ok \<and>
      log_errors s' = (if bind_ok then [] else [''bind error'']) @ (if listen_ok then [] else [''listen error''])"
proof -
  let ?addr = "InetAddress_any 8888" and ?loops = "map (\<lambda>i. the (new_loop i)) [0..<32]"
  define h where "h = loop_pool.extend (new_loop_pool 0)
    \<lparr>m_name = toHostPort ?addr, m_nextConnId = 1, m_connections = [], conn_name = conn_name (host s), conn_loop = conn_loop (host s), jobs = []\<rparr>"
  have h: "in_base h" "m_started h = False" "m_loops h = []" "m_next h = 0" "m_connections h = []" "m_nextConnId h = 1"
    by (simp_all add: h_def new_loop_pool_def loop_pool.defs)
  define h1 where "h1 = h\<lparr>m_numThreads := 32, m_started := True, m_loops := ?loops\<rparr>"
  let ?v = "s\<lparr>m_acceptSocket := fd, m_acceptChannel := c, m_listenning := False, bound_to := None, backlog_open := False,
    heap := (heap s)(c \<mapsto> new_channel junk fd)\<rparr>"
  let ?b = "(if bind_ok then ?v\<lparr>bound_to := Some ?addr\<rparr> else ?v\<lparr>log_errors := [''bind error'']\<rparr>)\<lparr>host := h1, m_listenning := True\<rparr>"
  define u where "u = (if listen_ok then ?b\<lparr>backlog_open := True\<rparr> else ?b\<lparr>log_errors := log_errors ?b @ [''listen error'']\<rparr>)"
  let ?rest = "bnd (on_host getNextLoop) (\<lambda>subLoop1.
      bnd (on_sub subLoop1 (runEvery S (\<lambda>_. ret ()) p1 (main_interval FlushCaches) FlushCaches)) (\<lambda>_.
      bnd (on_host getNextLoop) (\<lambda>subLoop2.
      bnd (on_sub subLoop2 (runEvery S (\<lambda>_. ret ()) p2 (main_interval CheckAlive) CheckAlive)) (\<lambda>_. ret ()))))"
  note defs = chatroom_start_def Acceptor_new_def bindOrDie_def TcpServer_new_def TcpServer_setThreadNum_def setThreadNum_def
        TcpServer_start_def Acceptor_listen_def listenOrDie_def Let_def
  show ?thesis
  proof (cases "\<exists>i < 32. new_loop i = None")
    case True
    then have "chatroom_start S new_loop fd c junk bind_ok listen_ok p1 p2 s = Stuck Diverges"
      using h by (cases bind_ok) (simp_all add: defs run h_def [symmetric])
    with True show ?thesis by simp
  next
    case False
    then have all: "\<forall>i < 32. new_loop i \<noteq> None" by auto
    have go: "chatroom_start S new_loop fd c junk bind_ok listen_ok p1 p2 s = bnd (enableReading S c) (\<lambda>_. ?rest) u"
      using assms(3,6) h all by (cases bind_ok; cases listen_ok) (simp_all add: defs run isInLoopThread_def h_def [symmetric] h1_def u_def)
    have u: "heap u = (heap s)(c \<mapsto> new_channel junk fd)" "m_channels u = m_channels s" "kernel u = kernel s" "isInLoopThread u" "host u = h1"
      "m_listenning u" "bound_to u = (if bind_ok then Some ?addr else None)" "backlog_open u = listen_ok" "sub_loops u = sub_loops s"
      "log_errors u = (if bind_ok then [] else [''bind error'']) @ (if listen_ok then [] else [''listen error''])" "thread u = thread s"
      using assms(3,6) by (cases bind_ok; cases listen_ok; simp add: u_def isInLoopThread_def)+
    have ok: "reactor_ok interest u"
      by (rule reactor_ok_cong [OF new_channel_ok [OF assms(2,4), of junk fd]]) (simp_all add: u)
    obtain w where w: "enableReading S c u = Done () (with_channel c (changed (\<lambda>e. e OR kReadEvent) (new_channel junk fd)) w u)"
      "reactor_ok interest (with_channel c (changed (\<lambda>e. e OR kReadEvent) (new_channel junk fd)) w u)"
      "interest w = (interest (kernel u))(fd \<mapsto> (kReadEvent, c))"
      using new_channel_reads [OF assms(1) ok u(4), of c junk fd] assms(5) u(1,2) by auto
    define v where "v = with_channel c (changed (\<lambda>e. e OR kReadEvent) (new_channel junk fd)) w u"
    have v: "host v = h1" "sub_loops v = sub_loops s" "thread v = thread s" by (simp_all add: v_def with_channel_def u)
    obtain tid1 m1 where m1: "runEvery S (\<lambda>_. ret ()) p1 (main_interval FlushCaches) FlushCaches ((sub_loops s l1)\<lparr>thread := thread s\<rparr>) = Done tid1 m1"
      "will_set S p1 FlushCaches (sub_loops s l1) (m1\<lparr>thread := thread (sub_loops s l1)\<rparr>)" by (rule main_timer_left [OF assms(10)])
    obtain tid2 m2 where m2: "runEvery S (\<lambda>_. ret ()) p2 (main_interval CheckAlive) CheckAlive ((sub_loops s l2)\<lparr>thread := thread s\<rparr>) = Done tid2 m2"
      "will_set S p2 CheckAlive (sub_loops s l2) (m2\<lparr>thread := thread (sub_loops s l2)\<rparr>)" by (rule main_timer_left [OF assms(11)])
    define t where "t = v\<lparr>host := h1\<lparr>m_next := 2\<rparr>, sub_loops := (sub_loops s)(l1 := m1\<lparr>thread := thread (sub_loops s l1)\<rparr>,
      l2 := m2\<lparr>thread := thread (sub_loops s l2)\<rparr>)\<rparr>"
    have loops: "in_base h1" "length (m_loops h1) = 32" "m_loops h1 ! 0 = l1" "m_loops h1 ! Suc 0 = l2" "m_next h1 = 0" "m_loops h1 \<noteq> []"
      using h assms(7,8) by (simp_all add: h1_def)
    have "?rest v = Done () t" using loops assms(9) m1(1) m2(1) by (simp add: run v t_def)
    then have "chatroom_start S new_loop fd c junk bind_ok listen_ok p1 p2 s = Done () t"
      unfolding go using w(1) by (simp add: run v_def)
    moreover have "reactor_ok interest t" by (rule reactor_ok_cong [OF w(2)]) (simp_all add: t_def v_def)
    moreover have "names_ok (h1\<lparr>m_next := 2\<rparr>)" using h by (simp add: names_ok_def h1_def)
    moreover have "map Some ?loops = map new_loop [0..<32]" using all by (auto simp: map_eq_conv)
    ultimately show ?thesis unfolding if_not_P [OF False] using w(3) h m1(2) m2(2) assms(9)
      by (intro exI [of _ t]) (simp add: t_def v_def with_channel_def u h1_def)
  qed
qed

definition sample_hosting :: "kern hosting" where
  "sample_hosting = \<lparr>kernel = \<lparr>k_interest = (\<lambda>_. None), k_ready = [], k_time = 1000, k_room = []\<rparr>, owner = 7, thread = 7,
     heap = (\<lambda>_. None), m_channels = (\<lambda>_. None), m_eventList = 16, m_activeChannels = [], m_acceptSocket = 0, m_acceptChannel = 0,
     m_listenning = False, bound_to = None, backlog_open = False, log_errors = [], closed_fds = [],
     host = loop_pool.extend (new_loop_pool 0) \<lparr>m_name = [], m_nextConnId = 0, m_connections = [], conn_name = (\<lambda>_. []), conn_loop = (\<lambda>_. 0), jobs = []\<rparr>,
     sub_loops = (\<lambda>_. sample_loop\<lparr>thread := 8, owner := 8\<rparr>)\<rparr>"

theorem server_starts_even_unbound_witness:
  "\<exists>s'. chatroom_start ref_sys (\<lambda>i. Some (100 + i)) 6 3 False False True 64 65 sample_hosting = Done () s' \<and>
    bound_to s' = None \<and> m_listenning s' \<and> k_interest (kernel s') 6 = Some (kReadEvent, 3) \<and> m_wakeups (sub_loops s' 100) = 1"
proof -
  have "reactor_ok k_interest sample_hosting" "isInLoopThread sample_hosting" "heap sample_hosting 3 = None"
    "m_channels sample_hosting 6 = None" "log_errors sample_hosting = []"
    by (simp_all add: sample_hosting_def reactor_ok_def watched_def [abs_def] isInLoopThread_def)
  moreover have "sleeping ref_sys (thread sample_hosting) p (sub_loops sample_hosting l)" if "p < 66" for p l
    using that by (simp add: sleeping_def sample_hosting_def sample_loop_def tq_ok_def timers_ok_def armed_def isInLoopThread_def UINTPTR_MAX_def ref_sys_def)
  moreover have "m_wakeups (sub_loops sample_hosting 100) = 0" by (simp add: sample_hosting_def sample_loop_def)
  ultimately show ?thesis
    using server_starts_even_unbound [OF ref.epoll_kernel_axioms, of sample_hosting 3 6 "\<lambda>i. Some (100 + i)" 100 101 64 65 False False True]
    by (auto simp: will_set_def)
qed

section \<open>The client program\<close>

text \<open>
  \<open>TcpClient\<close> and \<open>Connector\<close> as they are made, and \<open>project/client/client\<close> on top of them: the rest of the state is \<open>m_connection\<close> of
  the client, set when the connection is up and used without a test.
\<close>

definition TcpClient_new :: "sockaddr \<Rightarrow> (('w, 'z) tcp_client_scheme, unit) prog" where
  "TcpClient_new serverAddr = modify (\<lambda>s. s\<lparr>d_serverAddr := serverAddr, d_connect := False, d_state := Dial_Disconnected, d_channel := None, m_retryDelayMs := kInitRetryDelayMs,
     m_timerId := (0, 0), cl_name := [], cl_retry := False, cl_connect := True, cl_nextConnId := 1, cl_connection := None\<rparr>)"

type_synonym 'w chat_client = "('w, nat option) tcp_client_scheme"

definition Client_onConnection :: "nat \<Rightarrow> ('w chat_client, unit) prog" where
  "Client_onConnection c = bnd (the_conn c) (\<lambda>k. if c_state k = kConnected
     then modify (\<lambda>s. s\<lparr>tcp_client.more := Some c\<rparr>) else shutdown_connection c)"

definition Client_send :: "'w sys \<Rightarrow> ('w, nat option) client_handlers \<Rightarrow> string \<Rightarrow> ('w chat_client, unit) prog" where
  "Client_send S H str = bnd (reads tcp_client.more) (\<lambda>k. case k of None \<Rightarrow> halt Dangling | Some c \<Rightarrow> send_message S H c str)"

definition Client_disconnect :: "('w chat_client, unit) prog" where
  "Client_disconnect = bnd (reads tcp_client.more) (\<lambda>k. case k of None \<Rightarrow> ret () | Some c \<Rightarrow> shutdown_connection c)"

text \<open>\<open>main\<close> of \<open>chatclient.cc\<close>, in the thread of the menus once the loop has been started: \<open>connect\<close>, and the first request.\<close>

definition chatclient_start :: "sockaddr \<Rightarrow> 'w sys \<Rightarrow> 'w socket_sys \<Rightarrow> (conn_job \<Rightarrow> ('w chat_client, unit) prog) \<Rightarrow> ('w, nat option) client_handlers \<Rightarrow> places \<Rightarrow>
    string \<Rightarrow> ('w chat_client, unit) prog" where
  "chatclient_start serverAddr S D K H pl request = andthen (TcpClient_new serverAddr) (andthen (TcpClient_connect S D K pl) (Client_send S H request))"

lemma same_client_part:
  fixes s t :: "('w, 'z) tcp_client_scheme"
  assumes "loop.more s = loop.more t"
  shows "closed s = closed t" and "dialled_to s = dialled_to t" and "tcp_client.more s = tcp_client.more t"
  using assms by (cases s; cases t; simp)+

lemma new_client_made:
  fixes s s1 :: "('w, 'z) tcp_client_scheme"
  assumes "reactor_ok interest s1" and "tq_ok s1" and "isInLoopThread s1" and "dom (m_channels s1) = own" and "timer_heap s1 = []"
    and "s_numCreated s1 = s_numCreated s" and "m_timers s1 = []" and "m_pendingFunctors s1 = []" and "loop.more s1 = loop.more s"
    and "0 \<le> s_numCreated s" and "closed s = []" and "dialled_to s = []"
  shows "\<exists>s2. TcpClient_new A s1 = Done () s2 \<and> new_client A interest own s2 \<and> owner s2 = owner s1 \<and> m_pendingFunctors s2 = [] \<and>
    tcp_client.more s2 = tcp_client.more s \<and> TcpClient_new A (s1\<lparr>thread := th\<rparr>) = Done () (s2\<lparr>thread := th\<rparr>)"
proof -
  note more = same_client_part [OF assms(9)]
  define s2 where "s2 = s1\<lparr>d_serverAddr := A, d_connect := False, d_state := Dial_Disconnected, d_channel := None, m_retryDelayMs := kInitRetryDelayMs,
     m_timerId := (0, 0), cl_name := [], cl_retry := False, cl_connect := True, cl_nextConnId := 1, cl_connection := None\<rparr>"
  have "reactor_ok interest s2" by (rule reactor_ok_cong [OF assms(1)]) (simp_all add: s2_def)
  with assms more have "new_client A interest own s2"
    by (simp add: new_client_def dial_ok_def s2_def tq_ok_def isInLoopThread_def intervals_ok_def)
  then show ?thesis using more(3) assms(8) by (intro exI [of _ s2]) (simp add: TcpClient_new_def s2_def)
qed

text \<open>
  C36. Nothing in the client waits for the connection: a client whose menus send their first request before the loop has connected follows a null
  pointer.  The loop is as its constructor leaves it, and \<open>connect\<close> itself leaves the client in the state dialling starts from.
\<close>

theorem early_request_crashes:
  assumes "epoll_kernel S interest" and "raw_loop interest s" and "at_eventfd pl = Some fd" and "at_timerfd pl \<noteq> fd"
    and "at_timer_channel pl \<noteq> at_wakeup_channel pl" and "0 \<le> s_numCreated s" and "closed s = []" and "dialled_to s = []" and "tcp_client.more s = None" and "th \<noteq> thread s"
  shows "\<exists>s1 s2 s3. EventLoop_new S pl False s = Done () s1 \<and> TcpClient_new A s1 = Done () s2 \<and>
    new_client A interest {at_timerfd pl, fd} s2 \<and> TcpClient_connect S D K pls (s2\<lparr>thread := th\<rparr>) = Done () s3 \<and>
    Client_send S H request s3 = Stuck Dangling \<and> chatclient_start A S D K H pls request (s1\<lparr>thread := th\<rparr>) = Stuck Dangling"
proof -
  obtain s1 where s1: "EventLoop_new S pl False s = Done () s1" "reactor_ok interest s1" "tq_ok s1" "isInLoopThread s1" "owner s1 = thread s"
    "dom (m_channels s1) = {at_timerfd pl, fd}" "timer_heap s1 = []" "s_numCreated s1 = s_numCreated s" "m_timers s1 = []" "m_pendingFunctors s1 = []"
    "loop.more s1 = loop.more s"
    using new_loop_runs [OF assms(1-5)] by blast
  from new_client_made [OF s1(2-4,6-11) assms(6-8), of A th]
  obtain s2 where s2: "TcpClient_new A s1 = Done () s2" "new_client A interest {at_timerfd pl, fd} s2" "owner s2 = owner s1" "m_pendingFunctors s2 = []"
    "tcp_client.more s2 = tcp_client.more s" and again: "TcpClient_new A (s1\<lparr>thread := th\<rparr>) = Done () (s2\<lparr>thread := th\<rparr>)" by blast
  have th: "th \<noteq> owner s1" using s1(5) assms(10) by simp
  let ?s3 = "\<lambda>s. s\<lparr>thread := th, cl_connect := True, d_connect := True, m_pendingFunctors := [User StartInLoop], m_wakeups := m_wakeups s + 1\<rparr>"
  have connect: "TcpClient_connect S D K pls (s2\<lparr>thread := th\<rparr>) = Done () (?s3 s2)"
    using th s2(3,4) by (simp add: TcpClient_connect_def Connector_start_def runInLoop_def queueInLoop_def push_functor_def wake_if_needed_def
        wakeup_def isInLoopThread_def run)
  have "tcp_client.more (?s3 s2) = None" using s2(5) assms(9) by simp
  then have "Client_send S H request (?s3 s2) = Stuck Dangling" by (simp add: Client_send_def run)
  with s1(1) s2(1,2) connect again show ?thesis
    by (intro exI [of _ s1] exI [of _ s2] exI [of _ "?s3 s2"]) (simp add: chatclient_start_def run)
qed

theorem early_request_crashes_witness:
  "\<exists>s1 s2 s3. EventLoop_new ref_sys sample_loop_places False sample_client = Done () s1 \<and> TcpClient_new local_server s1 = Done () s2 \<and>
    TcpClient_connect ref_sys ref_sockets (\<lambda>_. ret ()) sample_places (s2\<lparr>thread := 9\<rparr>) = Done () s3 \<and>
    Client_send ref_sys sample_owner ''hello'' s3 = Stuck Dangling"
proof -
  have raw: "raw_loop k_interest sample_client" "0 \<le> s_numCreated sample_client" "closed sample_client = []" "dialled_to sample_client = []" "tcp_client.more sample_client = None"
    "(9::nat) \<noteq> thread sample_client"
    by (simp_all add: raw_loop_def sample_client_def)
  have at: "at_eventfd sample_loop_places = Some 5" "at_timerfd sample_loop_places \<noteq> 5"
    "at_timer_channel sample_loop_places \<noteq> at_wakeup_channel sample_loop_places"
    by (simp_all add: sample_loop_places_def)
  from early_request_crashes [OF ref.epoll_kernel_axioms raw(1) at raw(2-6), of local_server ref_sockets "\<lambda>_. ret ()" sample_places sample_owner "''hello''"]
  show ?thesis by blast
qed

text \<open>
  C37. The client dials the address the user types, any dotted address and any port: \<open>main\<close> reads it from the text, both of its parts in
  network order, the first round of the loop after \<open>connect\<close> gives it to the socket, and no later round dials another; its text fits the 16 and 32
  bytes it is written to and shows both parts.  But a first argument that is no dotted address, such as the name of a host, is not refused:
  the client dials the address 0.0.0.0, which is this machine.
\<close>

theorem typed_address_is_dialled:
  assumes "dialer S interest D {at_timerfd pl, fd}" and "raw_loop interest s" and "at_eventfd pl = Some fd" and "at_timerfd pl \<noteq> fd"
    and "at_timer_channel pl \<noteq> at_wakeup_channel pl" and "0 \<le> s_numCreated s" and "closed s = []" and "dialled_to s = []" and "th \<noteq> thread s"
    and "quiet H"
  shows "client_address [prog_name, inet_ntop a, itos (uint p)] = Some \<lparr>sin_addr = a, sin_port = htons p\<rparr> \<and>
    toHostPort \<lparr>sin_addr = a, sin_port = htons p\<rparr> = inet_ntop a @ '':'' @ itos (uint p) \<and>
    length (inet_ntop a) < 16 \<and> length (toHostPort \<lparr>sin_addr = a, sin_port = htons p\<rparr>) < 32 \<and>
    (inet_pton (c_str name) = None \<longrightarrow> client_address [prog_name, name, itos (uint p)] = Some (InetAddress_any p)) \<and>
    (\<exists>s1. EventLoop_new S pl False s = Done () s1 \<and> (\<forall>argv A. client_address argv = Some A \<longrightarrow>
      (\<exists>s2 s3. TcpClient_new A (s1\<lparr>thread := th\<rparr>) = Done () s2 \<and> TcpClient_connect S D K pls s2 = Done () s3 \<and>
        (\<forall>pl. fresh_places pl s3 \<longrightarrow> (\<exists>s4. client_round S D K H pl Wakes (s3\<lparr>thread := owner s1\<rparr>) = Done () s4 \<and>
          (fst (sys_socket D (kernel s3)) \<noteq> None \<longrightarrow> dialled_to s4 = [A]))) \<and>
        (\<forall>s'. dialled S D K H (s3\<lparr>thread := owner s1\<rparr>) s' \<longrightarrow> set (dialled_to s') \<subseteq> {A}))))"
proof -
  have "epoll_kernel S interest" using assms(1) by (simp add: dialer_def)
  then obtain s1 where s1: "EventLoop_new S pl False s = Done () s1" "reactor_ok interest s1" "tq_ok s1" "isInLoopThread s1" "owner s1 = thread s"
    "dom (m_channels s1) = {at_timerfd pl, fd}" "timer_heap s1 = []" "s_numCreated s1 = s_numCreated s" "m_timers s1 = []" "m_pendingFunctors s1 = []"
    "loop.more s1 = loop.more s"
    using new_loop_runs [OF _ assms(2-5)] by blast
  have shown: "length (toHostPort \<lparr>sin_addr = a, sin_port = htons p\<rparr>) < 32"
    using inet_ntop_length [of a] port_length [of p] by (simp add: toHostPort_text)
  have dials: "\<exists>s2 s3. TcpClient_new A (s1\<lparr>thread := th\<rparr>) = Done () s2 \<and> TcpClient_connect S D K pls s2 = Done () s3 \<and>
        (\<forall>pl. fresh_places pl s3 \<longrightarrow> (\<exists>s4. client_round S D K H pl Wakes (s3\<lparr>thread := owner s1\<rparr>) = Done () s4 \<and>
          (fst (sys_socket D (kernel s3)) \<noteq> None \<longrightarrow> dialled_to s4 = [A]))) \<and>
        (\<forall>s'. dialled S D K H (s3\<lparr>thread := owner s1\<rparr>) s' \<longrightarrow> set (dialled_to s') \<subseteq> {A})" for A
  proof -
    obtain s2 where new: "TcpClient_new A s1 = Done () s2" "new_client A interest {at_timerfd pl, fd} s2" "owner s2 = owner s1"
      "TcpClient_new A (s1\<lparr>thread := th\<rparr>) = Done () (s2\<lparr>thread := th\<rparr>)"
      using new_client_made [OF s1(2-4,6-11) assms(6-8)] by blast
    have "th \<noteq> owner s2" using assms(9) new(3) s1(5) by simp
    from connect_queued [OF assms(1) new(2) this, of K pls] obtain s3 where
      s3: "TcpClient_connect S D K pls (s2\<lparr>thread := th\<rparr>) = Done () s3" "dialer.dial_queued interest {at_timerfd pl, fd} A (s3\<lparr>thread := owner s1\<rparr>)"
      "dialled_to s3 = []"
      unfolding new(3) by blast
    have "\<exists>s4. client_round S D K H pl' Wakes (s3\<lparr>thread := owner s1\<rparr>) = Done () s4 \<and>
          (fst (sys_socket D (kernel s3)) \<noteq> None \<longrightarrow> dialled_to s4 = [A])" if "fresh_places pl' s3" for pl'
      using dialer.first_round [OF assms(1) s3(2), of pl' K H] that s3(3) by (auto simp: fresh_places_def)
    moreover have "set (dialled_to s') \<subseteq> {A}" if "dialled S D K H (s3\<lparr>thread := owner s1\<rparr>) s'" for s'
      using dialled_phases [OF assms(1) that s3(2) assms(10)] dialer.settled_dials [OF assms(1)] s3(2) by blast
    ultimately show ?thesis using new(4) s3(1) by blast
  qed
  show ?thesis using s1(1) dials shown inet_ntop_length [of a]
    by (simp add: typed_port InetAddress_of_dotted toHostPort_text InetAddress_of_name)
qed

theorem typed_address_is_dialled_witness:
  "client_address [''chatclient'', ''example.com'', ''8888''] = Some (InetAddress_any 8888) \<and>
   client_address [''chatclient'', ''127.0.0.1'', ''8888''] = Some \<lparr>sin_addr = 0x0100007F, sin_port = htons 8888\<rparr> \<and>
   (\<exists>s1 s2 s3. EventLoop_new ref_sys sample_loop_places False sample_client = Done () s1 \<and>
     TcpClient_new \<lparr>sin_addr = 0x0100007F, sin_port = htons 8888\<rparr> (s1\<lparr>thread := 9\<rparr>) = Done () s2 \<and>
     TcpClient_connect ref_sys ref_sockets (\<lambda>_. ret ()) sample_places s2 = Done () s3)"
proof -
  have none: "inet_pton (c_str ''example.com'') = None" by code_simp
  have texts: "itos (uint (8888 :: 16 word)) = ''8888''" "inet_ntop 0x0100007F = ''127.0.0.1''"
    by (simp add: itos_def nat_str.simps char_of_def bit_simps flip: char_of_take_bit_eq) code_simp
  have raw: "raw_loop k_interest sample_client" "0 \<le> s_numCreated sample_client" "closed sample_client = []" "dialled_to sample_client = []"
    "(9::nat) \<noteq> thread sample_client"
    by (simp_all add: raw_loop_def sample_client_def)
  have at: "at_eventfd sample_loop_places = Some 5" "at_timerfd sample_loop_places \<noteq> 5"
    "at_timer_channel sample_loop_places \<noteq> at_wakeup_channel sample_loop_places" "at_timerfd sample_loop_places = 4"
    by (simp_all add: sample_loop_places_def)
  have d: "dialer ref_sys k_interest ref_sockets {at_timerfd sample_loop_places, 5}"
    unfolding at(4) by (rule ref_dialer_own) auto
  note dialled = typed_address_is_dialled [OF d raw(1) at(1-3) raw(2-5) sample_owner_quiet, of "''chatclient''" "0x0100007F" 8888 "''example.com''"
      "\<lambda>_. ret ()" sample_places, unfolded texts]
  from dialled none show ?thesis by blast
qed

end
